(* ===== verification/Prelude.thy ===== *)
theory Prelude
  imports Main "HOL-Library.AList" "HOL-Library.List_Lexorder" "HOL-Library.Char_ord"
    "HOL-Library.Product_Lexorder"
begin

section \<open>Shared types, errors and generic lemmas\<close>

text \<open>
  What every component shares: the Go error values and \<open>errors.Is\<close>, results as sums,
  Go maps and SQLite tables as association lists with distinct keys, the fixed-width
  wrap-around of \<open>int64\<close>, and the keyset page that every bounded SQLite read is
  (\<open>WHERE key > cursor ORDER BY key LIMIT n\<close>).
\<close>

named_theorems table_simps \<open>lookup laws of association-list tables\<close>

subsection \<open>Errors\<close>

text \<open>
  Sentinel errors of the packages (an \<open>ErrConfiguration\<close> of a package carries its name): each
  package variable is an identity of its own, so the sentinels are numbered. A Go error
  value is a sentinel, an \<open>errors.New\<close> text that nobody compares against, or the
  double wrap \<open>fmt.Errorf("%w: %s: %w", sentinel, action, cause)\<close> of
  \<open>storageFailure\<close> and \<open>replayStoreFailure\<close>. \<open>errors.Is\<close> walks both wrapped branches.
  \<open>Versioned n\<close> tags the sentinels that protocol version \<open>n\<close> declares under the names of
  version 1.
\<close>

datatype sentinel = Sentinel nat | Versioned nat sentinel

abbreviation ErrRepositoryConfiguration :: sentinel where "ErrRepositoryConfiguration \<equiv> Sentinel 10"
abbreviation ErrTransitionInput :: sentinel where "ErrTransitionInput \<equiv> Sentinel 11"
abbreviation ErrTransitionTime :: sentinel where "ErrTransitionTime \<equiv> Sentinel 12"
abbreviation ErrRelayAbsent :: sentinel where "ErrRelayAbsent \<equiv> Sentinel 13"
abbreviation ErrRelaySuspended :: sentinel where "ErrRelaySuspended \<equiv> Sentinel 14"
abbreviation ErrEnrollmentClosed :: sentinel where "ErrEnrollmentClosed \<equiv> Sentinel 15"
abbreviation ErrStorageFailure :: sentinel where "ErrStorageFailure \<equiv> Sentinel 16"
abbreviation ErrWriteAdmissionHard :: sentinel where "ErrWriteAdmissionHard \<equiv> Sentinel 17"
abbreviation ErrWriteAdmissionDenied :: sentinel where "ErrWriteAdmissionDenied \<equiv> Sentinel 18"
abbreviation ErrObservationAbsent :: sentinel where "ErrObservationAbsent \<equiv> Sentinel 19"
abbreviation ErrObservationInput :: sentinel where "ErrObservationInput \<equiv> Sentinel 20"
abbreviation ErrObservationTime :: sentinel where "ErrObservationTime \<equiv> Sentinel 21"
abbreviation ErrObservationConflict :: sentinel where "ErrObservationConflict \<equiv> Sentinel 22"
abbreviation ErrDiscoveryReadInput :: sentinel where "ErrDiscoveryReadInput \<equiv> Sentinel 23"
abbreviation ErrHealthReadInput :: sentinel where "ErrHealthReadInput \<equiv> Sentinel 24"
abbreviation ErrHealthTime :: sentinel where "ErrHealthTime \<equiv> Sentinel 25"
abbreviation ErrPruningReadInput :: sentinel where "ErrPruningReadInput \<equiv> Sentinel 26"
abbreviation ErrReachabilityReadInput :: sentinel where "ErrReachabilityReadInput \<equiv> Sentinel 27"
abbreviation ErrReachabilityWriteInput :: sentinel where "ErrReachabilityWriteInput \<equiv> Sentinel 28"
abbreviation ErrInvalidRelayURL :: sentinel where "ErrInvalidRelayURL \<equiv> Sentinel 29"
abbreviation ErrRFC9421Replay :: sentinel where "ErrRFC9421Replay \<equiv> Sentinel 30"
abbreviation ErrRFC9421ReplayStore :: sentinel where "ErrRFC9421ReplayStore \<equiv> Sentinel 31"
abbreviation ErrRFC9421ReplayStoreFull :: sentinel where "ErrRFC9421ReplayStoreFull \<equiv> Sentinel 32"
abbreviation ErrGrowthConfiguration :: sentinel where "ErrGrowthConfiguration \<equiv> Sentinel 33"
abbreviation ErrGrowthSample :: sentinel where "ErrGrowthSample \<equiv> Sentinel 34"
abbreviation ErrPruningConfiguration :: sentinel where "ErrPruningConfiguration \<equiv> Sentinel 35"
abbreviation ErrRFC9421Configuration :: sentinel where "ErrRFC9421Configuration \<equiv> Sentinel 36"
abbreviation ErrRFC9421Malformed :: sentinel where "ErrRFC9421Malformed \<equiv> Sentinel 37"
abbreviation ErrRFC9421Policy :: sentinel where "ErrRFC9421Policy \<equiv> Sentinel 38"
abbreviation ErrRFC9421Time :: sentinel where "ErrRFC9421Time \<equiv> Sentinel 39"
abbreviation ErrRFC9421Digest :: sentinel where "ErrRFC9421Digest \<equiv> Sentinel 40"
abbreviation ErrRFC9421Key :: sentinel where "ErrRFC9421Key \<equiv> Sentinel 41"
abbreviation ErrRFC9421Crypto :: sentinel where "ErrRFC9421Crypto \<equiv> Sentinel 42"
abbreviation ErrRFC9421ActorBinding :: sentinel where "ErrRFC9421ActorBinding \<equiv> Sentinel 43"
abbreviation ErrContentDigestMissing :: sentinel where "ErrContentDigestMissing \<equiv> Sentinel 44"
abbreviation ErrContentDigestMalformed :: sentinel where "ErrContentDigestMalformed \<equiv> Sentinel 45"
abbreviation ErrContentDigestSHA256Missing :: sentinel where "ErrContentDigestSHA256Missing \<equiv> Sentinel 46"
abbreviation ErrContentDigestSHA256Invalid :: sentinel where "ErrContentDigestSHA256Invalid \<equiv> Sentinel 47"
abbreviation ErrContentDigestMismatch :: sentinel where "ErrContentDigestMismatch \<equiv> Sentinel 48"
abbreviation ErrRegisterConfiguration :: sentinel where "ErrRegisterConfiguration \<equiv> Sentinel 49"
abbreviation ErrRegisterRequest :: sentinel where "ErrRegisterRequest \<equiv> Sentinel 50"
abbreviation ErrRegisterBodyTooLarge :: sentinel where "ErrRegisterBodyTooLarge \<equiv> Sentinel 51"
abbreviation ErrRegisterProtocolVersion :: sentinel where "ErrRegisterProtocolVersion \<equiv> Sentinel 52"
abbreviation ErrRegisterTarget :: sentinel where "ErrRegisterTarget \<equiv> Sentinel 53"
abbreviation ErrHeartbeatConfiguration :: sentinel where "ErrHeartbeatConfiguration \<equiv> Sentinel 54"
abbreviation ErrHeartbeatRequest :: sentinel where "ErrHeartbeatRequest \<equiv> Sentinel 55"
abbreviation ErrHeartbeatBodyTooLarge :: sentinel where "ErrHeartbeatBodyTooLarge \<equiv> Sentinel 56"
abbreviation ErrHeartbeatProtocolVersion :: sentinel where "ErrHeartbeatProtocolVersion \<equiv> Sentinel 57"
abbreviation ErrHeartbeatTarget :: sentinel where "ErrHeartbeatTarget \<equiv> Sentinel 58"
abbreviation ErrUnregisterConfiguration :: sentinel where "ErrUnregisterConfiguration \<equiv> Sentinel 59"
abbreviation ErrUnregisterRequest :: sentinel where "ErrUnregisterRequest \<equiv> Sentinel 60"
abbreviation ErrUnregisterBodyTooLarge :: sentinel where "ErrUnregisterBodyTooLarge \<equiv> Sentinel 61"
abbreviation ErrUnregisterProtocolVersion :: sentinel where "ErrUnregisterProtocolVersion \<equiv> Sentinel 62"
abbreviation ErrUnregisterTarget :: sentinel where "ErrUnregisterTarget \<equiv> Sentinel 63"
abbreviation ErrProfileInput :: sentinel where "ErrProfileInput \<equiv> Sentinel 64"
abbreviation ErrProfileAbsent :: sentinel where "ErrProfileAbsent \<equiv> Sentinel 65"
abbreviation ErrProfileTime :: sentinel where "ErrProfileTime \<equiv> Sentinel 66"
abbreviation ErrTelemetryInput :: sentinel where "ErrTelemetryInput \<equiv> Sentinel 67"
abbreviation ErrLifecycleConfiguration :: sentinel where "ErrLifecycleConfiguration \<equiv> Sentinel 68"
abbreviation ErrLifecycleBodyTooLarge :: sentinel where "ErrLifecycleBodyTooLarge \<equiv> Sentinel 69"
abbreviation ErrDirectoryProjectionInput :: sentinel where "ErrDirectoryProjectionInput \<equiv> Sentinel 70"
abbreviation ErrDirectoryProjectionData :: sentinel where "ErrDirectoryProjectionData \<equiv> Sentinel 71"
abbreviation ErrDiscoveryCandidateInput :: sentinel where "ErrDiscoveryCandidateInput \<equiv> Sentinel 72"
abbreviation ErrDiscoveryCandidateTime :: sentinel where "ErrDiscoveryCandidateTime \<equiv> Sentinel 73"
abbreviation ErrAdministrativeReadInput :: sentinel where "ErrAdministrativeReadInput \<equiv> Sentinel 74"
abbreviation ErrRetentionReadInput :: sentinel where "ErrRetentionReadInput \<equiv> Sentinel 75"
abbreviation ErrRetentionWriteInput :: sentinel where "ErrRetentionWriteInput \<equiv> Sentinel 76"
abbreviation ErrRetentionConfiguration :: sentinel where "ErrRetentionConfiguration \<equiv> Sentinel 77"
abbreviation ErrContextCanceled :: sentinel where "ErrContextCanceled \<equiv> Sentinel 78"
abbreviation ErrContextDeadlineExceeded :: sentinel where "ErrContextDeadlineExceeded \<equiv> Sentinel 79"
abbreviation ErrResolverConfiguration :: sentinel where "ErrResolverConfiguration \<equiv> Sentinel 80"
abbreviation ErrReachabilityConfiguration :: sentinel where "ErrReachabilityConfiguration \<equiv> Sentinel 81"
abbreviation ErrNetworkTarget :: sentinel where "ErrNetworkTarget \<equiv> Sentinel 82"
abbreviation ErrDiscoveryCandidateMaintenanceRead :: sentinel where "ErrDiscoveryCandidateMaintenanceRead \<equiv> Sentinel 83"
abbreviation ErrDiscoveryCandidateMaintenanceWrite :: sentinel where "ErrDiscoveryCandidateMaintenanceWrite \<equiv> Sentinel 84"
abbreviation ErrCandidateConfiguration :: sentinel where "ErrCandidateConfiguration \<equiv> Sentinel 85"
abbreviation ErrExportConfiguration :: sentinel where "ErrExportConfiguration \<equiv> Sentinel 86"
abbreviation ErrExportData :: sentinel where "ErrExportData \<equiv> Sentinel 87"
abbreviation ErrExportLimit :: sentinel where "ErrExportLimit \<equiv> Sentinel 88"
abbreviation ErrActorDocument :: sentinel where "ErrActorDocument \<equiv> Sentinel 89"
abbreviation ErrPublicKey :: sentinel where "ErrPublicKey \<equiv> Sentinel 90"
abbreviation ErrActorFetch :: sentinel where "ErrActorFetch \<equiv> Sentinel 91"
abbreviation ErrKeyID :: sentinel where "ErrKeyID \<equiv> Sentinel 92"
abbreviation ErrCacheConfiguration :: sentinel where "ErrCacheConfiguration \<equiv> Sentinel 93"
abbreviation ErrPublicListingConfiguration :: sentinel where "ErrPublicListingConfiguration \<equiv> Sentinel 94"
abbreviation ErrRedirectRejected :: sentinel where "ErrRedirectRejected \<equiv> Sentinel 95"
abbreviation ErrDNSNoAddress :: sentinel where "ErrDNSNoAddress \<equiv> Sentinel 96"
abbreviation ErrDNSPolicy :: sentinel where "ErrDNSPolicy \<equiv> Sentinel 97"
abbreviation ErrCSV :: sentinel where "ErrCSV \<equiv> Sentinel 98"

datatype goerror =
    Err sentinel
  | Opaque string
  | Wrapped sentinel string goerror

fun errors_is :: "goerror \<Rightarrow> sentinel \<Rightarrow> bool" where
  "errors_is (Err s) t = (s = t)"
| "errors_is (Opaque _) t = False"
| "errors_is (Wrapped s _ cause) t = (s = t \<or> errors_is cause t)"

definition storageFailure :: "string \<Rightarrow> goerror \<Rightarrow> goerror" where
  "storageFailure action cause = Wrapped ErrStorageFailure action cause"

definition replayStoreFailure :: "string \<Rightarrow> goerror \<Rightarrow> goerror" where
  "replayStoreFailure action cause = Wrapped ErrRFC9421ReplayStore action cause"

lemma errors_is_storageFailure [simp]:
  "errors_is (storageFailure a c) t \<longleftrightarrow> t = ErrStorageFailure \<or> errors_is c t"
  by (auto simp: storageFailure_def)

lemma errors_is_replayStoreFailure [simp]:
  "errors_is (replayStoreFailure a c) t \<longleftrightarrow> t = ErrRFC9421ReplayStore \<or> errors_is c t"
  by (auto simp: replayStoreFailure_def)

type_synonym 'a result = "goerror + 'a"

fun isOk :: "'e + 'a \<Rightarrow> bool" where
  "isOk (Inl _) = False"
| "isOk (Inr _) = True"

lemma isOk_iff: "isOk r \<longleftrightarrow> (\<exists>x. r = Inr x)"
  by (cases r) auto

subsection \<open>Tables\<close>

text \<open>
  A Go map or a SQLite table with a primary key: an association list whose keys are
  distinct. \<open>AList.update\<close> replaces in place or appends, \<open>AList.delete\<close> removes.
\<close>

type_synonym ('k, 'v) table = "('k \<times> 'v) list"

abbreviation table_ok :: "('k, 'v) table \<Rightarrow> bool" where
  "table_ok t \<equiv> distinct (map fst t)"

lemma table_ex:
  assumes "table_ok tab"
  shows "(\<exists>r. (a, r) \<in> set tab \<and> P r) \<longleftrightarrow> (case map_of tab a of None \<Rightarrow> False | Some r \<Rightarrow> P r)"
proof (cases "map_of tab a")
  case None
  then show ?thesis by (auto dest: weak_map_of_SomeI)
next
  case (Some r)
  then show ?thesis using assms by (metis map_of_SomeD map_of_is_SomeI option.inject option.simps(5))
qed

lemma table_unique: "table_ok t \<Longrightarrow> ar \<in> set t \<Longrightarrow> br \<in> set t \<Longrightarrow> fst ar = fst br \<Longrightarrow> ar = br"
  by (metis eq_key_imp_eq_value prod.collapse)

lemma map_of_update [simp, table_simps]:
  "map_of (AList.update k v t) = (map_of t)(k \<mapsto> v)"
  by (rule update_conv')

lemma map_of_delete [simp, table_simps]:
  "map_of (AList.delete k t) = (map_of t)(k := None)"
  by (rule delete_conv')

lemma table_ok_update [simp, intro]: "table_ok t \<Longrightarrow> table_ok (AList.update k v t)"
  by (rule distinct_update)

lemma table_ok_delete [simp, intro]: "table_ok t \<Longrightarrow> table_ok (AList.delete k t)"
  by (rule distinct_delete)

lemma table_mem_iff: "table_ok t \<Longrightarrow> (k, v) \<in> set t \<longleftrightarrow> map_of t k = Some v"
  by simp

lemma length_table: "table_ok t \<Longrightarrow> length t = card (dom (map_of t))"
  by (metis distinct_card dom_map_of_conv_image_fst length_map set_map)

lemma length_update_new:
  "map_of t k = None \<Longrightarrow> length (AList.update k v t) = Suc (length t)"
  by (induction t) (auto split: if_splits)

lemma length_update_old:
  "map_of t k \<noteq> None \<Longrightarrow> length (AList.update k v t) = length t"
  by (induction t) (auto split: if_splits)

lemma length_delete_le: "length (AList.delete k t) \<le> length t"
  by (rule length_delete_le)

lemma length_delete_less:
  "map_of t k \<noteq> None \<Longrightarrow> length (AList.delete k t) < length t"
  by (induction t) (auto simp: AList.delete_eq less_Suc_eq_le)

lemma map_fun_upd_notin:
  "key \<notin> set xs \<Longrightarrow> map (\<lambda>k. f ((m(key := v)) k)) xs = map (\<lambda>k. f (m k)) xs"
  by auto

lemma sum_update_old:
  "table_ok t \<Longrightarrow> map_of t k = Some r \<Longrightarrow>
   sum_list (map (\<lambda>kr. f (snd kr)) (AList.update k r' t)) =
   sum_list (map (\<lambda>kr. f (snd kr)) t) - f r + (f r' :: int)"
  by (induction t) (auto split: if_splits)

lemma sum_update_new:
  "map_of t k = None \<Longrightarrow>
   sum_list (map (\<lambda>kr. f (snd kr)) (AList.update k r' t)) = sum_list (map (\<lambda>kr. f (snd kr)) t) + (f r' :: int)"
  by (induction t) (auto split: if_splits)

lemma length_delete_one:
  "table_ok t \<Longrightarrow> map_of t k \<noteq> None \<Longrightarrow> length t = Suc (length (AList.delete k t))"
proof (induction t)
  case (Cons kv t)
  have "AList.delete k t = t" if "k \<notin> fst ` set t" using that by (simp add: delete_idem)
  with Cons show ?case by (cases kv) (auto simp: AList.delete_simps, blast)
qed simp

lemma mem_delete: "kv \<in> set (AList.delete k t) \<longleftrightarrow> kv \<in> set t \<and> fst kv \<noteq> k"
  by (auto simp: AList.delete_eq)

text \<open>SQLite's \<open>MAX(column)\<close> over a possibly empty set of rows is NULL when it is empty.\<close>

definition sql_max :: "int list \<Rightarrow> int option" where
  "sql_max xs = (if xs = [] then None else Some (Max (set xs)))"

lemma sql_max_le_iff:
  "(case sql_max xs of None \<Rightarrow> True | Some m \<Rightarrow> m \<le> t) \<longleftrightarrow> (\<forall>x \<in> set xs. x \<le> t)"
  by (auto simp: sql_max_def)

subsection \<open>64-bit signed arithmetic\<close>

definition int64 :: "int \<Rightarrow> int" where
  "int64 x = (x + 2 ^ 63) mod 2 ^ 64 - 2 ^ 63"

abbreviation max_int64 :: int where
  "max_int64 \<equiv> 2 ^ 63 - 1"

lemma int64_id [simp]: "- (2 ^ 63) \<le> x \<Longrightarrow> x \<le> max_int64 \<Longrightarrow> int64 x = x"
  by (simp add: int64_def)

lemma int64_range: "- (2 ^ 63) \<le> int64 x \<and> int64 x \<le> max_int64"
proof -
  have "0 \<le> (x + 2 ^ 63) mod 2 ^ 64" and "(x + 2 ^ 63) mod 2 ^ 64 < (2::int) ^ 64"
    by simp_all
  then show ?thesis by (simp add: int64_def)
qed

subsection \<open>Keyset pages\<close>

text \<open>
  The result rows of \<open>SELECT .. WHERE key > after ORDER BY key LIMIT n\<close> over an
  in-memory table, and the loop every bounded read runs over them with \<open>n = limit + 1\<close>:
  decode and validate a row, stop at the extra row with the key of the last kept row as
  the next cursor, and return the zero cursor when the rows end before.
\<close>

definition keyset_rows :: "('r \<Rightarrow> 'k::linorder) \<Rightarrow> 'k \<Rightarrow> nat \<Rightarrow> 'r list \<Rightarrow> 'r list" where
  "keyset_rows key after n rows =
     take n (sort_key key (filter (\<lambda>r. after < key r) rows))"

fun read_page :: "('r \<Rightarrow> 'e + 'x) \<Rightarrow> ('x \<Rightarrow> 'k) \<Rightarrow> 'k \<Rightarrow> nat \<Rightarrow> 'x list \<Rightarrow> 'r list \<Rightarrow> 'e + 'x list \<times> 'k" where
  "read_page decode key zero limit acc [] = Inr (acc, zero)"
| "read_page decode key zero limit acc (r # rs) =
     (case decode r of
        Inl e \<Rightarrow> Inl e
      | Inr x \<Rightarrow>
          if length acc = limit then Inr (acc, key (last acc))
          else read_page decode key zero limit (acc @ [x]) rs)"

lemma keyset_rows_sorted: "sorted (map key (keyset_rows key after n rows))"
proof -
  have "sorted (map key (sort_key key (filter (\<lambda>r. after < key r) rows)))" by simp
  then show ?thesis by (simp add: keyset_rows_def flip: take_map)
qed

lemma keyset_rows_mem:
  "r \<in> set (keyset_rows key after n rows) \<Longrightarrow> r \<in> set rows \<and> after < key r"
  by (auto simp: keyset_rows_def dest: in_set_takeD)

lemma keyset_rows_length: "length (keyset_rows key after n rows) \<le> n"
  by (simp add: keyset_rows_def)

text \<open>When every row decodes, a page is a prefix of the rows after the cursor.\<close>

lemma read_page_all:
  assumes "\<And>r. r \<in> set rows \<Longrightarrow> decode r = Inr (f r)" and "length acc + length rows \<le> Suc limit"
    and "length acc \<le> limit"
  shows "read_page decode key zero limit acc rows =
    Inr (take limit (acc @ map f rows),
         if length acc + length rows \<le> limit then zero else key (last (take limit (acc @ map f rows))))"
  using assms
proof (induction rows arbitrary: acc)
  case (Cons r rs)
  show ?case
  proof (cases "length acc = limit")
    case False
    with Cons.prems have "length (acc @ [f r]) \<le> limit" by simp
    with Cons.IH [of "acc @ [f r]"] Cons.prems False show ?thesis by simp
  qed (use Cons.prems in auto)
qed simp

lemma read_page_error:
  assumes "read_page decode key zero limit acc rows = Inr (xs, next)"
  shows "\<exists>ys. xs = acc @ ys \<and> list_all2 (\<lambda>r x. decode r = Inr x) (take (length ys) rows) ys"
  using assms
proof (induction rows arbitrary: acc)
  case (Cons r rs)
  show ?case
  proof (cases "decode r")
    case (Inr x)
    show ?thesis
    proof (cases "length acc = limit")
      case False
      with Cons Inr obtain ys where "xs = (acc @ [x]) @ ys"
        "list_all2 (\<lambda>r x. decode r = Inr x) (take (length ys) rs) ys" by fastforce
      with Inr show ?thesis by (intro exI [of _ "x # ys"]) simp
    qed (use Cons Inr in auto)
  qed (use Cons in auto)
qed simp

lemma read_page_bounded:
  assumes "read_page decode key zero limit acc rows = Inr (xs, nxt)" and "length acc \<le> limit"
  shows "length xs \<le> limit \<and> (nxt = zero \<or> nxt = key (last xs) \<and> length xs = limit)"
  using assms
  by (induction rows arbitrary: acc) (auto split: sum.splits if_splits)

lemma read_page_view:
  assumes "read_page decode key zero limit acc rows = Inr p" and "\<And>r x. decode r = Inr x \<Longrightarrow> x = f r"
  shows "read_page (\<lambda>r. Inr (f r)) key zero limit acc rows = Inr p"
  using assms(1)
proof (induction rows arbitrary: acc)
  case (Cons r rs)
  then show ?case using assms(2) [of r] by (auto split: sum.splits if_splits)
qed simp

lemma decoded_map:
  "list_all2 (\<lambda>r x. decode r = Inr x) rows xs \<Longrightarrow> (\<And>r x. decode r = Inr x \<Longrightarrow> x = f r) \<Longrightarrow> xs = map f rows"
  by (induction rule: list_all2_induct) auto

text \<open>
  A complete listing in key order served page by page. The interface of every bounded
  read: the pages are cut from one strictly sorted list of rows, a page starts right
  after its cursor, and the next cursor is the start cursor exactly when nothing is left.
\<close>

definition page_of :: "('x \<Rightarrow> 'k::linorder) \<Rightarrow> 'k \<Rightarrow> nat \<Rightarrow> 'x list \<Rightarrow> 'k \<Rightarrow> 'x list \<times> 'k" where
  "page_of key start limit rows c =
     (let rest = filter (\<lambda>x. c < key x) rows in
      (take limit rest, if length rest \<le> limit then start else key (last (take limit rest))))"

lemma keyset_page:
  fixes key :: "'x \<Rightarrow> 'k::linorder"
  assumes dec: "\<And>r. r \<in> set rows \<Longrightarrow> decode r = Inr (f r)" and key: "\<And>r. r \<in> set rows \<Longrightarrow> key (f r) = rkey r"
  shows "read_page decode key zero limit [] (keyset_rows rkey c (Suc limit) rows) =
    Inr (page_of key zero limit (map f (sort_key rkey rows)) c)"
proof -
  let ?L = "sort_key rkey (filter (\<lambda>r. c < rkey r) rows)"
  have rest: "filter (\<lambda>x. c < key x) (map f (sort_key rkey rows)) = map f ?L"
  proof -
    have "filter (\<lambda>r. c < key (f r)) rows = filter (\<lambda>r. c < rkey r) rows"
      using key by (intro filter_cong) auto
    then show ?thesis by (simp add: filter_map filter_sort o_def)
  qed
  have "read_page decode key zero limit [] (take (Suc limit) ?L) =
    Inr (take limit (map f (take (Suc limit) ?L)),
         if length (take (Suc limit) ?L) \<le> limit then zero
         else key (last (take limit (map f (take (Suc limit) ?L)))))"
  proof -
    have "decode r = Inr (f r)" if "r \<in> set (take (Suc limit) ?L)" for r
      using that dec by (auto dest: in_set_takeD)
    from read_page_all [of "take (Suc limit) ?L" decode f "[]" limit key zero, OF this] show ?thesis by simp
  qed
  then show ?thesis
    by (auto simp: keyset_rows_def page_of_def rest Let_def take_map min_def)
qed

lemma sort_key_strict:
  assumes "distinct (map rkey rows)"
  shows "sorted_wrt (<) (map rkey (sort_key (rkey :: 'r \<Rightarrow> 'k::linorder) rows))"
proof -
  have "distinct (map rkey (sort_key rkey rows))"
    using assms by (simp add: distinct_map)
  then show ?thesis by (simp add: strict_sorted_iff)
qed

text \<open>
  Two keyset sources, each with its own limit, merged under the same limit: the page is the
  one of their union.
\<close>

lemma filter_take_sorted:
  "sorted_wrt (<) (map k L) \<Longrightarrow> filter (\<lambda>y. k y < (v :: 'k::linorder)) (take n L) = take n (filter (\<lambda>y. k y < v) L)"
proof (induction L arbitrary: n)
  case (Cons a L)
  show ?case
  proof (cases "k a < v")
    case False
    then have none: "\<not> k y < v" if "y \<in> set (a # L)" for y using Cons.prems that by fastforce
    then have "filter (\<lambda>y. k y < v) (a # L) = []" unfolding filter_empty_conv by blast
    moreover have "filter (\<lambda>y. k y < v) (take n (a # L)) = []"
      unfolding filter_empty_conv using none in_set_takeD by metis
    ultimately show ?thesis by (simp only: take_Nil)
  qed (use Cons in \<open>cases n; auto\<close>)
qed simp

lemma take_strict_iff:
  "sorted_wrt (<) (map k L) \<Longrightarrow>
   x \<in> set (take n L) \<longleftrightarrow> x \<in> set L \<and> length (filter (\<lambda>y. k y < (k x :: 'k::linorder)) L) < n"
proof (induction L arbitrary: n)
  case (Cons a L)
  have less: "k a < k y" if "y \<in> set L" for y using Cons.prems that by simp
  have none: "filter (\<lambda>y. k y < k a) L = []" using less by (fastforce simp: filter_empty_conv)
  show ?case using Cons less none by (cases n) auto
qed simp

lemma strict_keys_unique:
  assumes "sorted_wrt (<) (map k X)" "sorted_wrt (<) (map (k :: 'x \<Rightarrow> 'k::linorder) Y)" "set X = set Y"
  shows "X = Y"
proof -
  have "map k X = map k Y"
    using assms by (metis strict_sorted_equal set_map)
  moreover have "inj_on k (set Y)" using assms(2) by (simp add: strict_sorted_iff distinct_map)
  ultimately show ?thesis using assms(3) by (metis list.inj_map_strong inj_onD)
qed

lemma distinct_map_take: "distinct (map k A) \<Longrightarrow> distinct (map k (take n A))"
  by (simp add: distinct_take flip: take_map)

lemma take_sort_merge:
  fixes k :: "'x \<Rightarrow> 'k::linorder"
  assumes d: "distinct (map k (A @ B))"
  shows "take n (sort_key k (take n (sort_key k A) @ take n (sort_key k B))) = take n (sort_key k (A @ B))"
proof (rule strict_keys_unique [of k])
  let ?A = "take n (sort_key k A)" and ?B = "take n (sort_key k B)"
  have dA: "distinct (map k A)" and dB: "distinct (map k B)" using d by auto
  have dS: "distinct (map k (?A @ ?B))"
  proof -
    have "distinct (map k ?A)" "distinct (map k ?B)"
      using dA dB by (auto intro!: distinct_map_take) (simp_all add: distinct_map)
    moreover have "set ?A \<subseteq> set A" "set ?B \<subseteq> set B" by (auto dest: in_set_takeD)
    ultimately show ?thesis using d by auto
  qed
  note sA = sort_key_strict [OF dA] and sB = sort_key_strict [OF dB]
  show "sorted_wrt (<) (map k (take n (sort_key k (?A @ ?B))))" "sorted_wrt (<) (map k (take n (sort_key k (A @ B))))"
    using sort_key_strict [OF dS] sort_key_strict [OF d] by (simp_all add: sorted_wrt_take flip: take_map)
  have count: "length (filter (\<lambda>y. k y < v) (take n (sort_key k C))) = min n (length (filter (\<lambda>y. k y < v) C))"
    if "distinct (map k C)" for C v
    using filter_take_sorted [OF sort_key_strict [OF that], of v n] by (simp add: filter_sort)
  have mem: "x \<in> set (take n (sort_key k C)) \<longleftrightarrow> x \<in> set C \<and> length (filter (\<lambda>y. k y < k x) C) < n"
    if "distinct (map k C)" for C x
    using take_strict_iff [OF sort_key_strict [OF that], of x n] by (simp add: filter_sort)
  have "x \<in> set (take n (sort_key k (?A @ ?B))) \<longleftrightarrow> x \<in> set (take n (sort_key k (A @ B)))" for x
    unfolding mem [OF dS] mem [OF d] using count [OF dA, of "k x"] count [OF dB, of "k x"] mem [OF dA, of x] mem [OF dB, of x]
    by (auto simp: min_def split: if_splits)
  then show "set (take n (sort_key k (?A @ ?B))) = set (take n (sort_key k (A @ B)))" by blast
qed

lemma find_filter: "find P xs = (case filter P xs of [] \<Rightarrow> None | y # _ \<Rightarrow> Some y)"
  by (induction xs) auto

lemma count_member:
  "distinct l \<Longrightarrow> length (filter (\<lambda>y. y = x \<or> y \<in> A) l) \<le> (if x \<in> set l then 1 else 0) + length (filter (\<lambda>y. y \<in> A) l)"
  by (induction l) auto

lemma filter_notin_take:
  assumes "distinct xs"
  shows "filter (\<lambda>x. x \<notin> set (take n xs)) xs = drop n xs"
proof -
  have "distinct (take n xs @ drop n xs)" using assms by simp
  then have disj: "set (take n xs) \<inter> set (drop n xs) = {}" unfolding distinct_append by blast
  have "filter (\<lambda>x. x \<notin> set (take n xs)) (take n xs @ drop n xs) = drop n xs"
    unfolding filter_append using disj by (auto simp: filter_empty_conv filter_id_conv)
  then show ?thesis by simp
qed

fun walk_pages :: "('k \<Rightarrow> 'e + 'x list \<times> 'k) \<Rightarrow> 'k \<Rightarrow> nat \<Rightarrow> 'k \<Rightarrow> ('e + 'x list) option" where
  "walk_pages fetch start 0 c = None"
| "walk_pages fetch start (Suc fuel) c =
     (case fetch c of
        Inl e \<Rightarrow> Some (Inl e)
      | Inr (xs, next) \<Rightarrow>
          if next = start then Some (Inr xs)
          else (case walk_pages fetch start fuel next of
                  None \<Rightarrow> None
                | Some (Inl e) \<Rightarrow> Some (Inl e)
                | Some (Inr ys) \<Rightarrow> Some (Inr (xs @ ys))))"

locale keyset_listing =
  fixes ok :: "'s \<Rightarrow> bool" and rows :: "'s \<Rightarrow> 'x list" and key :: "'x \<Rightarrow> 'k::linorder"
    and start :: 'k and limit :: "'s \<Rightarrow> nat" and fetch :: "'s \<Rightarrow> 'k \<Rightarrow> 'e + 'x list \<times> 'k"
  assumes rows_sorted: "ok s \<Longrightarrow> sorted_wrt (<) (map key (rows s))"
    and rows_after_start: "ok s \<Longrightarrow> x \<in> set (rows s) \<Longrightarrow> start < key x"
    and limit_positive: "ok s \<Longrightarrow> 0 < limit s"
    and fetch_page: "ok s \<Longrightarrow> c = start \<or> c \<in> key ` set (rows s) \<Longrightarrow>
      fetch s c = Inr (page_of key start (limit s) (rows s) c)"
begin

lemma rest_split:
  assumes "ok s" and "filter (\<lambda>x. c < key x) (rows s) = pre @ x # post"
  shows "filter (\<lambda>y. key x < key y) (rows s) = post"
proof -
  have srt: "sorted_wrt (<) (map key (filter (\<lambda>x. c < key x) (rows s)))"
    using rows_sorted [OF assms(1)] by (induction "rows s") (auto simp: sorted_wrt_map sorted_wrt_filter)
  have "x \<in> set (filter (\<lambda>x. c < key x) (rows s))" by (simp add: assms(2))
  then have "c < key x" by simp
  then have "filter (\<lambda>y. key x < key y) (rows s) = filter (\<lambda>y. key x < key y) (filter (\<lambda>x. c < key x) (rows s))"
    by (auto simp: filter_filter intro: filter_cong)
  also have "\<dots> = post"
    using srt unfolding assms(2) by (auto simp: sorted_wrt_append filter_empty_conv filter_id_conv)
  finally show ?thesis .
qed

lemma walk_rest:
  assumes ok: "ok s" and c: "c = start \<or> c \<in> key ` set (rows s)"
    and fuel: "length (filter (\<lambda>x. c < key x) (rows s)) < fuel"
  shows "walk_pages (fetch s) start fuel c = Some (Inr (filter (\<lambda>x. c < key x) (rows s)))"
  using c fuel
proof (induction fuel arbitrary: c)
  case (Suc fuel)
  let ?rest = "filter (\<lambda>x. c < key x) (rows s)"
  show ?case
  proof (cases "length ?rest \<le> limit s")
    case True
    with fetch_page [OF ok Suc.prems(1)] show ?thesis by (simp add: page_of_def Let_def)
  next
    case False
    let ?page = "take (limit s) ?rest"
    have ne: "?page \<noteq> []" using False limit_positive [OF ok] by auto
    then obtain pre x where page: "?page = pre @ [x]" by (metis rev_exhaust)
    then have split: "?rest = pre @ x # drop (limit s) ?rest"
      by (metis append.assoc append_Cons append_Nil append_take_drop_id)
    have "x \<in> set ?rest" by (subst split) simp
    then have x: "x \<in> set (rows s)" by simp
    have next_rest: "filter (\<lambda>y. key x < key y) (rows s) = drop (limit s) ?rest"
      by (rule rest_split [OF ok split])
    have "length (filter (\<lambda>y. key x < key y) (rows s)) < fuel"
      using Suc.prems(2) False limit_positive [OF ok] next_rest by simp
    then have "walk_pages (fetch s) start fuel (key x) = Some (Inr (drop (limit s) ?rest))"
      using Suc.IH [of "key x"] x next_rest by simp
    moreover have "key x \<noteq> start" using rows_after_start [OF ok x] by simp
    ultimately show ?thesis
      using fetch_page [OF ok Suc.prems(1)] False page split [symmetric] by (simp add: page_of_def Let_def)
  qed
qed simp

theorem walk_complete:
  assumes "ok s" and "length (rows s) < fuel"
  shows "walk_pages (fetch s) start fuel start = Some (Inr (rows s))"
proof -
  have "filter (\<lambda>x. start < key x) (rows s) = rows s"
    using rows_after_start [OF assms(1)] by (auto simp: filter_id_conv)
  with walk_rest [OF assms(1), of start fuel] assms(2) show ?thesis by simp
qed

end

end
