(* ===== verification/Vocabulary.thy ===== *)
theory Vocabulary
  imports Prelude
begin

section \<open>Protocol vocabulary\<close>

text \<open>
  The closed vocabularies of \<open>internal/protocol/v1/vocabulary.go\<close>. Operations and
  outcomes arrive as strings from JSON bodies and route tables, so they stay strings
  with the \<open>Valid\<close> predicates of the source; health states are only ever produced by
  the server and are a datatype. Protocol versions 2 and 3 alias the same operations,
  outcomes and error codes (\<open>internal/protocol/v2/vocabulary.go\<close>).
\<close>

type_synonym operation = string
type_synonym outcome = string

definition OperationRegister :: operation where "OperationRegister = ''register''"
definition OperationHeartbeat :: operation where "OperationHeartbeat = ''heartbeat''"
definition OperationUnregister :: operation where "OperationUnregister = ''unregister''"

lemmas operation_defs = OperationRegister_def OperationHeartbeat_def OperationUnregister_def

definition Operation_Valid :: "operation \<Rightarrow> bool" where
  "Operation_Valid op \<longleftrightarrow>
     op = OperationRegister \<or> op = OperationHeartbeat \<or> op = OperationUnregister"

definition OutcomeCreated :: outcome where "OutcomeCreated = ''created''"
definition OutcomeUpdated :: outcome where "OutcomeUpdated = ''updated''"
definition OutcomeUnchanged :: outcome where "OutcomeUnchanged = ''unchanged''"
definition OutcomeRecorded :: outcome where "OutcomeRecorded = ''recorded''"
definition OutcomeRemoved :: outcome where "OutcomeRemoved = ''removed''"
definition OutcomeAbsent :: outcome where "OutcomeAbsent = ''absent''"

lemmas outcome_defs = OutcomeCreated_def OutcomeUpdated_def OutcomeUnchanged_def
  OutcomeRecorded_def OutcomeRemoved_def OutcomeAbsent_def

definition Outcome_ValidFor :: "outcome \<Rightarrow> operation \<Rightarrow> bool" where
  "Outcome_ValidFor oc op =
     (if op = OperationRegister then
        oc = OutcomeCreated \<or> oc = OutcomeUpdated \<or> oc = OutcomeUnchanged
      else if op = OperationHeartbeat then oc = OutcomeRecorded
      else if op = OperationUnregister then oc = OutcomeRemoved \<or> oc = OutcomeAbsent
      else False)"

datatype health_state = HealthHealthy | HealthStale | HealthDead | HealthPrune

lemma Outcome_ValidFor_Operation_Valid: "Outcome_ValidFor oc op \<Longrightarrow> Operation_Valid op"
  by (auto simp: Outcome_ValidFor_def Operation_Valid_def split: if_splits)

text \<open>No outcome is valid for two operations: an outcome names the operation it answers.\<close>

lemma Outcome_ValidFor_unique:
  "Outcome_ValidFor oc op \<Longrightarrow> Outcome_ValidFor oc op' \<Longrightarrow> op = op'"
  by (auto simp: Outcome_ValidFor_def operation_defs outcome_defs split: if_splits)

end
