(* ===== verification/GoStd.thy ===== *)
theory GoStd
  imports Prelude "HOL-Library.Word" "HOL-Library.Sublist"
begin

section \<open>The Go standard library as the program uses it\<close>

text \<open>
  Go strings are byte strings; a \<^typ>\<open>string\<close> is a list of bytes here and \<open>code\<close> reads
  a byte as a number. This theory holds the functions of \<open>strings\<close>, \<open>unicode/utf8\<close>,
  \<open>net/netip\<close> and \<open>net/url\<close> (Go 1.26) that the identity, admission and verification
  code calls, as executable functions. None of them is code of the repository.
\<close>

subsection \<open>Bytes and strings\<close>

definition code :: "char \<Rightarrow> nat" where
  "code c = of_char c"

lemma code_inject [simp]: "code a = code b \<longleftrightarrow> a = b"
  by (simp add: code_def)

lemma code_less_256 [simp]: "code c < 256"
  by (simp add: code_def)

lemma code_char_of [simp]: "n < 256 \<Longrightarrow> code (char_of n) = n"
  by (simp add: code_def)

lemma char_of_code [simp]: "char_of (code c) = c"
  by (simp add: code_def)

definition is_digit :: "char \<Rightarrow> bool" where
  "is_digit c \<longleftrightarrow> 48 \<le> code c \<and> code c \<le> 57"

definition is_lower :: "char \<Rightarrow> bool" where
  "is_lower c \<longleftrightarrow> 97 \<le> code c \<and> code c \<le> 122"

definition is_upper :: "char \<Rightarrow> bool" where
  "is_upper c \<longleftrightarrow> 65 \<le> code c \<and> code c \<le> 90"

definition to_lower :: "char \<Rightarrow> char" where
  "to_lower c = (if is_upper c then char_of (code c + 32) else c)"

text \<open>
  \<open>strings.ToLower\<close>. Two runes outside ASCII have an ASCII lower case: U+0130 (bytes
  C4 B0) becomes \<open>i\<close> and U+212A (bytes E2 84 AA) becomes \<open>k\<close>. Every other rune outside
  ASCII has a lower case outside ASCII; its bytes are kept, and the only caller refuses
  every host with such a byte.
\<close>

fun ToLower :: "string \<Rightarrow> string" where
  "ToLower [] = []"
| "ToLower (a # s) =
     (if code a = 196 \<and> (case s of b # _ \<Rightarrow> code b = 176 | [] \<Rightarrow> False)
      then CHR ''i'' # ToLower (drop 1 s)
      else if code a = 226 \<and> (case s of b # c # _ \<Rightarrow> code b = 132 \<and> code c = 170 | _ \<Rightarrow> False)
      then CHR ''k'' # ToLower (drop 2 s)
      else to_lower a # ToLower s)"

lemma to_lower_idem [simp]: "to_lower (to_lower c) = to_lower c"
  by (auto simp: to_lower_def is_upper_def)

lemma to_lower_id: "\<not> is_upper c \<Longrightarrow> to_lower c = c"
  by (simp add: to_lower_def)

fun split_on :: "char \<Rightarrow> string \<Rightarrow> string list" where
  "split_on sep [] = [[]]"
| "split_on sep (c # cs) =
     (if c = sep then [] # split_on sep cs
      else case split_on sep cs of [] \<Rightarrow> [[c]] | w # ws \<Rightarrow> (c # w) # ws)"

lemma split_on_ne [simp]: "split_on sep s \<noteq> []"
  by (induction s) (auto split: list.splits)

fun cut :: "char \<Rightarrow> string \<Rightarrow> string \<times> string \<times> bool" where
  "cut sep [] = ([], [], False)"
| "cut sep (c # cs) =
     (if c = sep then ([], cs, True)
      else case cut sep cs of (a, b, found) \<Rightarrow> (c # a, b, found))"

lemma cut_absent: "sep \<notin> set s \<Longrightarrow> cut sep s = (s, [], False)"
  by (induction s) auto

text \<open>The tail from the first, and from the last, occurrence of a byte.\<close>

fun from_first :: "char \<Rightarrow> string \<Rightarrow> string option" where
  "from_first sep [] = None"
| "from_first sep (c # cs) = (if c = sep then Some (c # cs) else from_first sep cs)"

fun from_last :: "char \<Rightarrow> string \<Rightarrow> string option" where
  "from_last sep [] = None"
| "from_last sep (c # cs) =
     (case from_last sep cs of
        Some r \<Rightarrow> Some r
      | None \<Rightarrow> if c = sep then Some (c # cs) else None)"

lemma from_first_None [simp]: "from_first sep s = None \<longleftrightarrow> sep \<notin> set s"
  by (induction s) auto

lemma from_last_None [simp]: "from_last sep s = None \<longleftrightarrow> sep \<notin> set s"
  by (induction s) (auto split: option.splits)

definition contains_str :: "string \<Rightarrow> string \<Rightarrow> bool" where
  "contains_str s sub = sublist sub s"

definition trim_suffix :: "string \<Rightarrow> string \<Rightarrow> string" where
  "trim_suffix s suf = (if suffix suf s then take (length s - length suf) s else s)"

subsection \<open>Unicode white space and UTF-8\<close>

definition bytes :: "nat list \<Rightarrow> string" where
  "bytes ns = map char_of ns"

text \<open>The UTF-8 encodings of the runes for which \<open>unicode.IsSpace\<close> holds.\<close>

definition space_runes :: "string list" where
  "space_runes = map bytes
     ([[9], [10], [11], [12], [13], [32], [194, 133], [194, 160], [225, 154, 128]] @
      map (\<lambda>k. [226, 128, 128 + k]) [0..<11] @
      [[226, 128, 168], [226, 128, 169], [226, 128, 175], [226, 129, 159], [227, 128, 128]])"

definition leading_space :: "string \<Rightarrow> nat option" where
  "leading_space s = map_option length (find (\<lambda>r. prefix r s) space_runes)"

definition trailing_space :: "string \<Rightarrow> nat option" where
  "trailing_space s = map_option length (find (\<lambda>r. suffix r s) space_runes)"

lemma space_runes_nonempty: "r \<in> set space_runes \<Longrightarrow> 0 < length r"
  by (auto simp: space_runes_def bytes_def)

lemma find_space:
  "find P space_runes = Some r \<Longrightarrow> P r \<and> 0 < length r"
  by (metis find_Some_iff nth_mem space_runes_nonempty)

lemma leading_space_bound: "leading_space s = Some n \<Longrightarrow> 0 < n \<and> n \<le> length s"
  by (auto simp: leading_space_def dest!: find_space intro: prefix_length_le)

lemma trailing_space_bound: "trailing_space s = Some n \<Longrightarrow> 0 < n \<and> n \<le> length s"
  by (auto simp: trailing_space_def dest!: find_space intro: suffix_length_le)

function trim_left :: "string \<Rightarrow> string" where
  "trim_left s = (case leading_space s of None \<Rightarrow> s | Some n \<Rightarrow> trim_left (drop n s))"
  by pat_completeness auto
termination
  by (relation "measure length") (auto dest!: leading_space_bound)

function trim_right :: "string \<Rightarrow> string" where
  "trim_right s =
     (case trailing_space s of None \<Rightarrow> s | Some n \<Rightarrow> trim_right (take (length s - n) s))"
  by pat_completeness auto
termination
  by (relation "measure length") (auto dest!: trailing_space_bound)

declare trim_left.simps [simp del] trim_right.simps [simp del]

definition TrimSpace :: "string \<Rightarrow> string" where
  "TrimSpace s = trim_right (trim_left s)"

definition cont_byte :: "char \<Rightarrow> bool" where
  "cont_byte c \<longleftrightarrow> 128 \<le> code c \<and> code c \<le> 191"

definition between :: "nat \<Rightarrow> nat \<Rightarrow> nat \<Rightarrow> bool" where
  "between lo hi n \<longleftrightarrow> lo \<le> n \<and> n \<le> hi"

text \<open>
  One step of \<open>utf8.DecodeRuneInString\<close>: the rune and its width, or \<open>None\<close> for
  \<open>RuneError\<close> of width one.
\<close>

fun decode_rune :: "string \<Rightarrow> (nat \<times> nat) option" where
  "decode_rune [] = None"
| "decode_rune (a # s) =
     (let x = code a in
      if x < 128 then Some (x, 1)
      else if between 194 223 x then
        (case s of b # _ \<Rightarrow>
           if cont_byte b then Some ((x - 192) * 64 + (code b - 128), 2) else None
         | [] \<Rightarrow> None)
      else if between 224 239 x then
        (case s of b # c # _ \<Rightarrow>
           if between (if x = 224 then 160 else 128) (if x = 237 then 159 else 191) (code b)
              \<and> cont_byte c
           then Some ((x - 224) * 4096 + (code b - 128) * 64 + (code c - 128), 3) else None
         | _ \<Rightarrow> None)
      else if between 240 244 x then
        (case s of b # c # d # _ \<Rightarrow>
           if between (if x = 240 then 144 else 128) (if x = 244 then 143 else 191) (code b)
              \<and> cont_byte c \<and> cont_byte d
           then Some ((x - 240) * 262144 + (code b - 128) * 4096 +
                      (code c - 128) * 64 + (code d - 128), 4) else None
         | _ \<Rightarrow> None)
      else None)"

lemma decode_rune_width: "decode_rune s = Some (r, w) \<Longrightarrow> 0 < w \<and> s \<noteq> []"
  by (cases s) (auto simp: Let_def split: if_splits list.splits)

function runes :: "string \<Rightarrow> nat option list" where
  "runes s =
     (if s = [] then []
      else case decode_rune s of
             None \<Rightarrow> None # runes (drop 1 s)
           | Some (r, w) \<Rightarrow> Some r # runes (drop w s))"
  by pat_completeness auto
termination
  by (relation "measure length") (auto dest!: decode_rune_width)

declare runes.simps [simp del]

definition ValidString :: "string \<Rightarrow> bool" where
  "ValidString s \<longleftrightarrow> None \<notin> set (runes s)"

text \<open>\<open>unicode.IsControl\<close>: category Cc. \<open>RuneError\<close> (U+FFFD) is not a control rune.\<close>

definition IsControl :: "nat option \<Rightarrow> bool" where
  "IsControl r = (case r of None \<Rightarrow> False | Some n \<Rightarrow> n < 32 \<or> (127 \<le> n \<and> n < 160))"

subsection \<open>IP addresses: \<open>net/netip\<close>\<close>

text \<open>
  \<open>netip.Addr\<close>: the zero value, an IPv4 address, or an IPv6 address with a zone (empty
  when there is none).
\<close>

datatype addr = NoAddr | IPv4 "32 word" | IPv6 "128 word" string

definition octets :: "32 word \<Rightarrow> nat list" where
  "octets a = map (\<lambda>k. unat a div 256 ^ k mod 256) [3, 2, 1, 0]"

definition groups :: "128 word \<Rightarrow> nat list" where
  "groups a = map (\<lambda>k. unat a div 65536 ^ k mod 65536) [7, 6, 5, 4, 3, 2, 1, 0]"

definition from_digits :: "nat \<Rightarrow> nat list \<Rightarrow> nat" where
  "from_digits base ds = foldl (\<lambda>acc d. acc * base + d) 0 ds"

text \<open>A decimal field of at most 255 without a leading zero.\<close>

definition decimal_value :: "string \<Rightarrow> nat" where
  "decimal_value s = from_digits 10 (map (\<lambda>c. code c - 48) s)"

definition parse_octet :: "string \<Rightarrow> nat option" where
  "parse_octet s =
     (if s \<noteq> [] \<and> list_all is_digit s \<and> length s \<le> 3 \<and>
         (length s = 1 \<or> hd s \<noteq> CHR ''0'') \<and> decimal_value s \<le> 255
      then Some (decimal_value s) else None)"

definition parse_fields4 :: "string \<Rightarrow> nat list option" where
  "parse_fields4 s =
     (let fs = map parse_octet (split_on (CHR ''.'') s) in
      if length fs = 4 \<and> None \<notin> set fs then Some (map the fs) else None)"

definition hex_digit :: "char \<Rightarrow> nat option" where
  "hex_digit c =
     (if is_digit c then Some (code c - 48)
      else if 97 \<le> code c \<and> code c \<le> 102 then Some (code c - 87)
      else if 65 \<le> code c \<and> code c \<le> 70 then Some (code c - 55)
      else None)"

definition is_hex :: "char \<Rightarrow> bool" where
  "is_hex c \<longleftrightarrow> hex_digit c \<noteq> None"

definition hex_value :: "string \<Rightarrow> nat" where
  "hex_value s = from_digits 16 (map (\<lambda>c. the (hex_digit c)) s)"

text \<open>
  The loop of \<open>parseIPv6\<close>: the 16-bit groups read so far and the position of the
  ellipsis among them. A dotted tail supplies the last two groups.
\<close>

function parse_groups :: "nat list \<Rightarrow> nat option \<Rightarrow> string \<Rightarrow> (nat list \<times> nat option) option" where
  "parse_groups gs ell s =
     (if length gs \<ge> 8 then (if s = [] then Some (gs, ell) else None)
      else
        let h = takeWhile is_hex s; rest = dropWhile is_hex s in
        if h = [] \<or> length h > 4 then None
        else case rest of
          [] \<Rightarrow> Some (gs @ [hex_value h], ell)
        | c # more \<Rightarrow>
            if c = CHR ''.'' then
              (if (ell = None \<and> length gs \<noteq> 6) \<or> length gs > 6 then None
               else case parse_fields4 s of
                 Some [a, b, x, y] \<Rightarrow> Some (gs @ [a * 256 + b, x * 256 + y], ell)
               | _ \<Rightarrow> None)
            else if c \<noteq> CHR '':'' \<or> more = [] then None
            else if hd more = CHR '':'' then
              (if ell \<noteq> None then None
               else if tl more = [] then Some (gs @ [hex_value h], Some (length gs + 1))
               else parse_groups (gs @ [hex_value h]) (Some (length gs + 1)) (tl more))
            else parse_groups (gs @ [hex_value h]) ell more)"
  by pat_completeness auto
termination
  by (relation "measure (\<lambda>(gs, ell, s). 8 - length gs)") auto

declare parse_groups.simps [simp del]

definition expand_groups :: "nat list \<Rightarrow> nat option \<Rightarrow> nat list option" where
  "expand_groups gs ell =
     (case ell of
        None \<Rightarrow> if length gs = 8 then Some gs else None
      | Some k \<Rightarrow> if length gs < 8
                  then Some (take k gs @ replicate (8 - length gs) 0 @ drop k gs) else None)"

definition parse_addr6 :: "string \<Rightarrow> addr option" where
  "parse_addr6 s0 =
     (case cut (CHR ''%'') s0 of (s, zone, found) \<Rightarrow>
      if found \<and> zone = [] then None
      else if s = ''::'' then Some (IPv6 0 zone)
      else
        case (if prefix ''::'' s then parse_groups [] (Some 0) (drop 2 s)
              else parse_groups [] None s) of
          None \<Rightarrow> None
        | Some (gs, ell) \<Rightarrow>
            (case expand_groups gs ell of
               None \<Rightarrow> None
             | Some full \<Rightarrow> Some (IPv6 (of_nat (from_digits 65536 full)) zone)))"

definition ParseAddr :: "string \<Rightarrow> addr option" where
  "ParseAddr s =
     (case find (\<lambda>c. c \<in> {CHR ''.'', CHR '':'', CHR ''%''}) s of
        None \<Rightarrow> None
      | Some c \<Rightarrow>
          if c = CHR ''.'' then
            map_option (\<lambda>fs. IPv4 (of_nat (from_digits 256 fs))) (parse_fields4 s)
          else if c = CHR '':'' then parse_addr6 s
          else None)"

text \<open>\<open>strconv.Itoa\<close> on a natural number, and lower-case hexadecimal without leading zeros.\<close>

fun itoa :: "nat \<Rightarrow> string" where
  "itoa n = (if n < 10 then [char_of (48 + n)] else itoa (n div 10) @ [char_of (48 + n mod 10)])"

declare itoa.simps [simp del]

lemma itoa_digits: "list_all is_digit (itoa n)"
  by (induction n rule: itoa.induct) (subst itoa.simps, auto simp: is_digit_def list_all_iff)

lemma itoa_nonempty [simp]: "itoa n \<noteq> []"
  by (subst itoa.simps) auto

lemma decimal_value_snoc: "decimal_value (s @ [c]) = decimal_value s * 10 + (code c - 48)"
  by (simp add: decimal_value_def from_digits_def)

lemma decimal_value_itoa [simp]: "decimal_value (itoa n) = n"
proof (induction n rule: itoa.induct)
  case (1 n)
  show ?case
  proof (cases "n < 10")
    case True
    then show ?thesis by (subst itoa.simps) (simp add: decimal_value_def from_digits_def)
  next
    case False
    with 1 show ?thesis by (subst itoa.simps) (simp add: decimal_value_snoc)
  qed
qed

lemma itoa_inject [simp]: "itoa m = itoa n \<longleftrightarrow> m = n"
  by (metis decimal_value_itoa)

lemma cut_append: "sep \<notin> set a \<Longrightarrow> cut sep (a @ sep # b) = (a, b, True)"
  by (induction a) auto

lemma itoa_no_sep: "\<not> is_digit c \<Longrightarrow> c \<notin> set (itoa n)"
  using itoa_digits by (auto simp: list_all_iff)

definition hex_char :: "nat \<Rightarrow> char" where
  "hex_char n = char_of (if n < 10 then 48 + n else 87 + n)"

fun hex_of :: "nat \<Rightarrow> string" where
  "hex_of n = (if n < 16 then [hex_char n] else hex_of (n div 16) @ [hex_char (n mod 16)])"

declare hex_of.simps [simp del]

definition join_with :: "string \<Rightarrow> string list \<Rightarrow> string" where
  "join_with sep ws = (case ws of [] \<Rightarrow> [] | w # ws' \<Rightarrow> w @ concat (map (\<lambda>x. sep @ x) ws'))"

definition string4 :: "32 word \<Rightarrow> string" where
  "string4 a = join_with ''.'' (map itoa (octets a))"

text \<open>The first longest run of at least two zero groups, as start and end.\<close>

definition zero_run_at :: "nat list \<Rightarrow> nat \<Rightarrow> nat" where
  "zero_run_at gs i = length (takeWhile (\<lambda>g. g = 0) (drop i gs))"

definition zero_run :: "nat list \<Rightarrow> (nat \<times> nat) option" where
  "zero_run gs =
     foldl (\<lambda>best i.
       let l = zero_run_at gs i in
       if l \<ge> 2 \<and> (case best of None \<Rightarrow> True | Some (a, b) \<Rightarrow> l > b - a)
       then Some (i, i + l) else best) None [0..<8]"

definition string6 :: "128 word \<Rightarrow> string" where
  "string6 a =
     (let gs = groups a; hs = map hex_of gs in
      case zero_run gs of
        None \<Rightarrow> join_with '':'' hs
      | Some (i, j) \<Rightarrow> join_with '':'' (take i hs) @ ''::'' @ join_with '':'' (drop j hs))"

fun Is4 :: "addr \<Rightarrow> bool" where
  "Is4 (IPv4 _) = True" | "Is4 _ = False"

fun Is6 :: "addr \<Rightarrow> bool" where
  "Is6 (IPv6 _ _) = True" | "Is6 _ = False"

fun Is4In6 :: "addr \<Rightarrow> bool" where
  "Is4In6 (IPv6 a _) = (unat a div 2 ^ 32 = 65535)" | "Is4In6 _ = False"

fun Unmap :: "addr \<Rightarrow> addr" where
  "Unmap (IPv6 a z) = (if Is4In6 (IPv6 a z) then IPv4 (ucast a) else IPv6 a z)"
| "Unmap x = x"

fun WithZone :: "addr \<Rightarrow> string \<Rightarrow> addr" where
  "WithZone (IPv6 a _) z = IPv6 a z" | "WithZone x _ = x"

fun addr_String :: "addr \<Rightarrow> string" where
  "addr_String NoAddr = ''invalid IP''"
| "addr_String (IPv4 a) = string4 a"
| "addr_String (IPv6 a z) =
     (if Is4In6 (IPv6 a z) then ''::ffff:'' @ string4 (ucast a) else string6 a) @
     (if z = [] then [] else ''%'' @ z)"

fun IsValid :: "addr \<Rightarrow> bool" where
  "IsValid NoAddr = False" | "IsValid _ = True"

fun IsUnspecified :: "addr \<Rightarrow> bool" where
  "IsUnspecified (IPv4 a) = (a = 0)"
| "IsUnspecified (IPv6 a z) = (a = 0 \<and> z = [])"
| "IsUnspecified NoAddr = False"

fun multicast :: "addr \<Rightarrow> bool" where
  "multicast (IPv4 a) = (unat a div 2 ^ 28 = 14)"
| "multicast (IPv6 a z) = (unat a div 2 ^ 120 = 255)"
| "multicast NoAddr = False"

definition IsMulticast :: "addr \<Rightarrow> bool" where
  "IsMulticast a = multicast (Unmap a)"

text \<open>
  \<open>netip.Prefix\<close>: an address and its prefix length. \<open>IsValid\<close> needs a valid address
  without zone and a length within its width.
\<close>

record prefix_net =
  pfx_addr :: addr
  pfx_bits :: int

fun bit_len :: "addr \<Rightarrow> int" where
  "bit_len NoAddr = 0" | "bit_len (IPv4 _) = 32" | "bit_len (IPv6 _ _) = 128"

fun has_zone :: "addr \<Rightarrow> bool" where
  "has_zone (IPv6 _ z) = (z \<noteq> [])" | "has_zone _ = False"

definition Prefix_IsValid :: "prefix_net \<Rightarrow> bool" where
  "Prefix_IsValid p \<longleftrightarrow> IsValid (pfx_addr p) \<and> \<not> has_zone (pfx_addr p) \<and>
     0 \<le> pfx_bits p \<and> pfx_bits p \<le> bit_len (pfx_addr p)"

fun same_prefix :: "addr \<Rightarrow> addr \<Rightarrow> nat \<Rightarrow> bool" where
  "same_prefix (IPv4 a) (IPv4 b) n = (unat a div 2 ^ (32 - n) = unat b div 2 ^ (32 - n))"
| "same_prefix (IPv6 a _) (IPv6 b _) n = (unat a div 2 ^ (128 - n) = unat b div 2 ^ (128 - n))"
| "same_prefix _ _ n = False"

definition Prefix_Contains :: "prefix_net \<Rightarrow> addr \<Rightarrow> bool" where
  "Prefix_Contains p a \<longleftrightarrow> Prefix_IsValid p \<and> \<not> has_zone a \<and>
     same_prefix (pfx_addr p) a (nat (pfx_bits p))"

fun mask_addr :: "addr \<Rightarrow> nat \<Rightarrow> addr" where
  "mask_addr (IPv4 a) n = IPv4 (of_nat (unat a div 2 ^ (32 - n) * 2 ^ (32 - n)))"
| "mask_addr (IPv6 a z) n = IPv6 (of_nat (unat a div 2 ^ (128 - n) * 2 ^ (128 - n))) []"
| "mask_addr NoAddr n = NoAddr"

definition Prefix_Masked :: "prefix_net \<Rightarrow> prefix_net" where
  "Prefix_Masked p = p\<lparr>pfx_addr := mask_addr (pfx_addr p) (nat (pfx_bits p))\<rparr>"

text \<open>\<open>net.SplitHostPort\<close>.\<close>

definition SplitHostPort :: "string \<Rightarrow> (string \<times> string) option" where
  "SplitHostPort hp =
     (case from_last (CHR '':'') hp of
        None \<Rightarrow> None
      | Some colonPort \<Rightarrow>
          let before = take (length hp - length colonPort) hp; port = tl colonPort in
          if hd hp = CHR ''['' then
            (case from_first (CHR '']'') hp of
               None \<Rightarrow> None
             | Some close \<Rightarrow>
                 if tl close \<noteq> colonPort then None
                 else if CHR ''['' \<in> set (tl hp) \<or> CHR '']'' \<in> set (tl close) then None
                 else Some (tl (take (length hp - length close) hp), port))
          else if CHR '':'' \<in> set before then None
          else if CHR ''['' \<in> set hp \<or> CHR '']'' \<in> set hp then None
          else Some (before, port))"

subsection \<open>URLs: \<open>net/url\<close>\<close>

datatype url_mode = encodePath | encodeHost | encodeZone | encodeUserPassword | encodeFragment

definition chars_in :: "string \<Rightarrow> char \<Rightarrow> bool" where
  "chars_in cs c = (c \<in> set cs)"

definition is_alnum :: "char \<Rightarrow> bool" where
  "is_alnum c \<longleftrightarrow> is_lower c \<or> is_upper c \<or> is_digit c"

text \<open>Whether a byte has to be written as a percent escape in a part of a URL.\<close>

definition shouldEscape :: "char \<Rightarrow> url_mode \<Rightarrow> bool" where
  "shouldEscape c m =
     (if is_alnum c then False
      else if (m = encodeHost \<or> m = encodeZone) \<and> chars_in ''!$&()*+,;=:[]<>'' c
      then False
      else if (m = encodeHost \<or> m = encodeZone) \<and> (code c = 34 \<or> code c = 39) then False
      else if chars_in ''-_.~'' c then False
      else if chars_in ''$&+,/:;=?@'' c
      then (case m of
              encodePath \<Rightarrow> c = CHR ''?''
            | encodeUserPassword \<Rightarrow> chars_in ''@/?:'' c
            | encodeFragment \<Rightarrow> False
            | _ \<Rightarrow> True)
      else if m = encodeFragment \<and> chars_in ''!()*'' c then False
      else True)"

definition upper_hex :: "nat \<Rightarrow> char" where
  "upper_hex n = char_of (if n < 10 then 48 + n else 55 + n)"

definition percent :: "nat \<Rightarrow> string" where
  "percent v = [CHR ''%'', upper_hex (v div 16), upper_hex (v mod 16)]"

definition escape :: "string \<Rightarrow> url_mode \<Rightarrow> string" where
  "escape s m = concat (map (\<lambda>c. if shouldEscape c m then percent (code c) else [c]) s)"

fun unescape :: "string \<Rightarrow> url_mode \<Rightarrow> string option" where
  "unescape [] m = Some []"
| "unescape (c # s) m =
     (if c = CHR ''%'' then
        (case s of
           a # b # rest \<Rightarrow>
             (case (hex_digit a, hex_digit b) of
                (Some h, Some l) \<Rightarrow>
                  let v = h * 16 + l in
                  if m = encodeHost \<and> h < 8 \<and> (a, b) \<noteq> (CHR ''2'', CHR ''5'') then None
                  else if m = encodeZone \<and> (a, b) \<noteq> (CHR ''2'', CHR ''5'') \<and> v \<noteq> 32 \<and>
                          shouldEscape (char_of v) encodeHost then None
                  else map_option ((#) (char_of v)) (unescape rest m)
              | _ \<Rightarrow> None)
         | _ \<Rightarrow> None)
      else if (m = encodeHost \<or> m = encodeZone) \<and> code c < 128 \<and> shouldEscape c m then None
      else map_option ((#) c) (unescape s m))"

definition validEncoded_char :: "char \<Rightarrow> bool" where
  "validEncoded_char c \<longleftrightarrow>
     chars_in ''!$&()*+,;=:@[]%'' c \<or> code c = 39 \<or> \<not> shouldEscape c encodePath"

definition validOptionalPort :: "string \<Rightarrow> bool" where
  "validOptionalPort s \<longleftrightarrow> s = [] \<or> (hd s = CHR '':'' \<and> list_all is_digit (tl s))"

text \<open>
  The parts of \<open>url.URL\<close> that the program reads. \<open>User\<close> keeps only whether user
  information was present.
\<close>

record url =
  Scheme :: string
  Opaque_part :: string
  User :: bool
  Host :: string
  Path :: string
  RawPath :: string
  RawQuery :: string
  ForceQuery :: bool

definition setPath :: "string \<Rightarrow> (string \<times> string) option" where
  "setPath p =
     (case unescape p encodePath of
        None \<Rightarrow> None
      | Some path \<Rightarrow> Some (path, if p = escape path encodePath then [] else p))"

definition EscapedPath :: "url \<Rightarrow> string" where
  "EscapedPath u =
     (if RawPath u \<noteq> [] \<and> list_all validEncoded_char (RawPath u) \<and>
         unescape (RawPath u) encodePath = Some (Path u)
      then RawPath u
      else if Path u = ''*'' then ''*''
      else escape (Path u) encodePath)"

definition split_host_port :: "string \<Rightarrow> string \<times> string" where
  "split_host_port hp =
     (let (h, p) =
        (case from_last (CHR '':'') hp of
           Some colonPort \<Rightarrow>
             if validOptionalPort colonPort
             then (take (length hp - length colonPort) hp, tl colonPort) else (hp, [])
         | None \<Rightarrow> (hp, []))
      in if prefix ''['' h \<and> suffix '']'' h then (butlast (tl h), p) else (h, p))"

definition Hostname :: "url \<Rightarrow> string" where
  "Hostname u = fst (split_host_port (Host u))"

definition Port :: "url \<Rightarrow> string" where
  "Port u = snd (split_host_port (Host u))"

text \<open>
  \<open>getScheme\<close>: the scheme and the rest after the colon, no scheme, or an error for a
  leading colon.
\<close>

definition scheme_rest :: "string \<Rightarrow> (string \<times> string) option" where
  "scheme_rest raw =
     (let s = takeWhile (\<lambda>c. is_alnum c \<or> chars_in ''+-.'' c) raw;
          rest = dropWhile (\<lambda>c. is_alnum c \<or> chars_in ''+-.'' c) raw
      in case raw of
           [] \<Rightarrow> Some ([], raw)
         | c # _ \<Rightarrow>
             if is_digit c \<or> chars_in ''+-.'' c then Some ([], raw)
             else if c = CHR '':'' then None
             else case rest of
                    d # after \<Rightarrow> if d = CHR '':'' then Some (s, after) else Some ([], raw)
                  | [] \<Rightarrow> Some ([], raw))"

text \<open>The parts before and from the first \<open>%25\<close>, which introduces a zone.\<close>

fun split_zone :: "string \<Rightarrow> string \<times> string" where
  "split_zone [] = ([], [])"
| "split_zone (c # s) =
     (if prefix ''%25'' (c # s) then ([], c # s)
      else case split_zone s of (a, z) \<Rightarrow> (c # a, z))"

definition unescape_literal :: "string \<Rightarrow> string option" where
  "unescape_literal name =
     (case split_zone name of (hostPart, zonePart) \<Rightarrow>
      case (unescape hostPart encodeHost, unescape zonePart encodeZone) of
        (Some h, Some z) \<Rightarrow> Some (h @ z)
      | _ \<Rightarrow> None)"

definition parseHost :: "string \<Rightarrow> string option" where
  "parseHost host =
     (case from_last (CHR ''['') host of
        Some br \<Rightarrow>
          if br \<noteq> host then None
          else (case from_last (CHR '']'') host of
             None \<Rightarrow> None
           | Some close \<Rightarrow>
               let colonPort = tl close;
                   name = drop 1 (take (length host - length close) host)
               in if \<not> validOptionalPort colonPort then None
                  else case unescape_literal name of
                    None \<Rightarrow> None
                  | Some plain \<Rightarrow>
                      (case ParseAddr plain of
                         Some (IPv6 _ _) \<Rightarrow> Some (''['' @ plain @ '']'' @ colonPort)
                       | _ \<Rightarrow> None))
      | None \<Rightarrow>
          (case from_first (CHR '':'') host of
             Some colonPort \<Rightarrow> if validOptionalPort colonPort then unescape host encodeHost else None
           | None \<Rightarrow> unescape host encodeHost))"

definition validUserinfo_char :: "char \<Rightarrow> bool" where
  "validUserinfo_char c \<longleftrightarrow> is_alnum c \<or> chars_in ''-._:~!$&()*+,;=%@'' c \<or> code c = 39"

definition parseAuthority :: "string \<Rightarrow> (bool \<times> string) option" where
  "parseAuthority authority =
     (case from_last (CHR ''@'') authority of
        None \<Rightarrow> map_option (Pair False) (parseHost authority)
      | Some tail \<Rightarrow>
          (case parseHost (tl tail) of
             None \<Rightarrow> None
           | Some h \<Rightarrow>
               let info = take (length authority - length tail) authority in
               if list_all validUserinfo_char info \<and> unescape info encodeUserPassword \<noteq> None
               then Some (True, h) else None))"

definition ctl_byte :: "char \<Rightarrow> bool" where
  "ctl_byte c \<longleftrightarrow> code c < 32 \<or> code c = 127"

definition split_query :: "string \<Rightarrow> string \<times> string \<times> bool" where
  "split_query s =
     (if suffix ''?'' s \<and> length (filter ((=) (CHR ''?'')) s) = 1
      then (butlast s, [], True)
      else case cut (CHR ''?'') s of (a, q, _) \<Rightarrow> (a, q, False))"

definition url_parse_rest :: "string \<Rightarrow> string \<Rightarrow> string \<Rightarrow> bool \<Rightarrow> url option" where
  "url_parse_rest scheme rest query force =
     (let base = \<lparr>Scheme = scheme, Opaque_part = [], User = False, Host = [], Path = [],
                  RawPath = [], RawQuery = query, ForceQuery = force\<rparr> in
      if \<not> prefix ''/'' rest \<and> scheme \<noteq> [] then Some (base\<lparr>Opaque_part := rest\<rparr>)
      else if \<not> prefix ''/'' rest \<and> CHR '':'' \<in> set (fst (cut (CHR ''/'') rest)) then None
      else if (scheme \<noteq> [] \<or> \<not> prefix ''///'' rest) \<and> prefix ''//'' rest then
        (let after = drop 2 rest;
             authority = fst (cut (CHR ''/'') after);
             tail = drop (length authority) after
         in case parseAuthority authority of
              None \<Rightarrow> None
            | Some (user, host) \<Rightarrow>
                (case setPath tail of
                   None \<Rightarrow> None
                 | Some (p, rp) \<Rightarrow>
                     Some (base\<lparr>User := user, Host := host, Path := p, RawPath := rp\<rparr>)))
      else case setPath rest of
             None \<Rightarrow> None
           | Some (p, rp) \<Rightarrow> Some (base\<lparr>Path := p, RawPath := rp\<rparr>))"

definition url_Parse :: "string \<Rightarrow> url option" where
  "url_Parse raw =
     (case cut (CHR ''#'') raw of (u, frag, _) \<Rightarrow>
      if list_ex ctl_byte u then None
      else case (if u = ''*'' then Some ([], u) else scheme_rest u) of
        None \<Rightarrow> None
      | Some (scheme, rest0) \<Rightarrow>
          (case (if u = ''*'' then (u, [], False) else split_query rest0) of (rest, query, force) \<Rightarrow>
           (case url_parse_rest (ToLower scheme) rest query force of
              None \<Rightarrow> None
            | Some parsed \<Rightarrow>
                if frag \<noteq> [] \<and> unescape frag encodeFragment = None then None else Some parsed)))"

end
