(* ===== verification/Identity.thy ===== *)
theory Identity
  imports GoStd
begin

section \<open>Canonical relay identity\<close>

text \<open>
  \<open>internal/protocol/v1/identity.go\<close>: network-free normalisation of relay actor and
  public base URLs. An error is \<open>ErrInvalidRelayURL\<close> with the reason text of the
  source. A URL is canonical when it is its own normal form, which is the test every
  caller makes.
\<close>

definition invalidRelayURL :: "string \<Rightarrow> goerror" where
  "invalidRelayURL reason = Wrapped ErrInvalidRelayURL reason (Opaque [])"

lemma errors_is_invalidRelayURL [simp]:
  "errors_is (invalidRelayURL r) t \<longleftrightarrow> t = ErrInvalidRelayURL"
  by (auto simp: invalidRelayURL_def)

datatype relayURLKind = actorURL | publicBaseURLKind

record normalizedRelayURL =
  nvalue :: string
  norigin :: string

record RelayIdentity =
  RelayActor :: string
  PublicBaseURL :: string

definition hexValue :: "char \<Rightarrow> nat option" where
  "hexValue c =
     (if 48 \<le> code c \<and> code c \<le> 57 then Some (code c - 48)
      else if 97 \<le> code c \<and> code c \<le> 102 then Some (code c - 97 + 10)
      else if 65 \<le> code c \<and> code c \<le> 70 then Some (code c - 65 + 10)
      else None)"

definition unreserved :: "char \<Rightarrow> bool" where
  "unreserved c \<longleftrightarrow> is_lower c \<or> is_upper c \<or> is_digit c \<or> chars_in ''-._~'' c"

definition numericHost :: "string \<Rightarrow> bool" where
  "numericHost host \<longleftrightarrow> host \<noteq> [] \<and> list_all (\<lambda>c. is_digit c \<or> c = CHR ''.'') host"

definition validDNSLabel :: "string \<Rightarrow> bool" where
  "validDNSLabel label \<longleftrightarrow>
     \<not> (label = [] \<or> length label > 63 \<or> hd label = CHR ''-'' \<or> last label = CHR ''-'') \<and>
     list_all (\<lambda>c. is_lower c \<or> is_digit c \<or> c = CHR ''-'') label"

definition normalizeHost :: "string \<Rightarrow> string result" where
  "normalizeHost host =
     (case ParseAddr host of
        Some address \<Rightarrow>
          if Is6 address then Inr (''['' @ addr_String address @ '']'')
          else Inr (addr_String address)
      | None \<Rightarrow>
          if numericHost host then
            Inl (invalidRelayURL ''numeric hostname is not a canonical IP address'')
          else if length host > 253 then Inl (invalidRelayURL ''hostname is too long'')
          else
            let labels = split_on (CHR ''.'') host in
            if length labels < 2 then Inl (invalidRelayURL ''hostname must be fully qualified'')
            else if \<not> list_all validDNSLabel labels then
              Inl (invalidRelayURL ''hostname is invalid'')
            else if numericHost (last labels) then
              Inl (invalidRelayURL ''hostname suffix must not be numeric'')
            else Inr host)"

text \<open>\<open>strconv.ParseUint(port, 10, 16)\<close> on a string of digits.\<close>

definition parse_port :: "string \<Rightarrow> nat option" where
  "parse_port s =
     (if s \<noteq> [] \<and> list_all is_digit s \<and> decimal_value s < 65536 then Some (decimal_value s)
      else None)"

definition normalizeAuthority :: "url \<Rightarrow> string result" where
  "normalizeAuthority parsed =
     (if CHR ''%'' \<in> set (Hostname parsed) then
        Inl (invalidRelayURL ''IPv6 zone identifiers are not permitted'')
      else
        let host = trim_suffix (ToLower (Hostname parsed)) ''.'' in
        if host = [] \<or> suffix ''.'' host then Inl (invalidRelayURL ''hostname is invalid'')
        else case normalizeHost host of
          Inl e \<Rightarrow> Inl e
        | Inr normalizedHost \<Rightarrow>
            if suffix '':'' (Host parsed) then Inl (invalidRelayURL ''port is empty'')
            else if Port parsed = [] then Inr normalizedHost
            else case parse_port (Port parsed) of
                None \<Rightarrow> Inl (invalidRelayURL ''port is invalid'')
              | Some portNumber \<Rightarrow>
                  if portNumber = 0 then Inl (invalidRelayURL ''port is invalid'')
                  else if portNumber \<noteq> 443 then Inr (normalizedHost @ '':'' @ itoa portNumber)
                  else Inr normalizedHost)"

text \<open>The byte loop of \<open>normalizeActorPath\<close>.\<close>

fun normalize_escapes :: "string \<Rightarrow> string result" where
  "normalize_escapes [] = Inr []"
| "normalize_escapes (c # s) =
     (if c \<noteq> CHR ''%'' then
        (if code c = 92 \<or> code c < 32 \<or> code c = 127 then
           Inl (invalidRelayURL ''actor path contains a forbidden character'')
         else case normalize_escapes s of Inl e \<Rightarrow> Inl e | Inr r \<Rightarrow> Inr (c # r))
      else case s of
        a # b # rest \<Rightarrow>
          (case (hexValue a, hexValue b) of
             (Some high, Some low) \<Rightarrow>
               let v = high * 16 + low in
               if v = 37 \<or> v = 47 \<or> v = 92 \<or> v < 32 \<or> v = 127 then
                 Inl (invalidRelayURL ''actor path contains a forbidden escape'')
               else (case normalize_escapes rest of
                       Inl e \<Rightarrow> Inl e
                     | Inr r \<Rightarrow>
                         Inr ((if unreserved (char_of v) then [char_of v] else percent v) @ r))
           | _ \<Rightarrow> Inl (invalidRelayURL ''actor path has invalid percent encoding''))
      | _ \<Rightarrow> Inl (invalidRelayURL ''actor path has invalid percent encoding''))"

definition check_path :: "string \<Rightarrow> string result" where
  "check_path path =
     (case unescape path encodePath of
        None \<Rightarrow> Inl (invalidRelayURL ''actor path must contain valid UTF-8'')
      | Some decoded \<Rightarrow>
          if \<not> ValidString decoded then
            Inl (invalidRelayURL ''actor path must contain valid UTF-8'')
          else if list_ex IsControl (runes decoded) then
            Inl (invalidRelayURL ''actor path contains a control character'')
          else if contains_str path ''//'' then
            Inl (invalidRelayURL ''actor path must not contain empty segments'')
          else if list_ex (\<lambda>seg. seg = ''.'' \<or> seg = ''..'') (split_on (CHR ''/'') path) then
            Inl (invalidRelayURL ''actor path must not contain dot segments'')
          else Inr path)"

definition normalizeActorPath :: "string \<Rightarrow> string result" where
  "normalizeActorPath escaped =
     (if escaped = [] then Inr ''/''
      else if hd escaped \<noteq> CHR ''/'' then Inl (invalidRelayURL ''actor path must be absolute'')
      else case normalize_escapes escaped of
             Inl e \<Rightarrow> Inl e
           | Inr path \<Rightarrow> check_path path)"

definition normalizeRelayURL :: "string \<Rightarrow> relayURLKind \<Rightarrow> normalizedRelayURL result" where
  "normalizeRelayURL raw kind =
     (if raw = [] \<or> TrimSpace raw \<noteq> raw then
        Inl (invalidRelayURL ''URL must be non-empty and contain no surrounding whitespace'')
      else case url_Parse raw of
        None \<Rightarrow> Inl (invalidRelayURL ''URL syntax is invalid'')
      | Some parsed \<Rightarrow>
          if Opaque_part parsed \<noteq> [] \<or> ToLower (Scheme parsed) \<noteq> ''https'' then
            Inl (invalidRelayURL ''URL must use HTTPS'')
          else if User parsed then
            Inl (invalidRelayURL ''URL must not contain user information'')
          else if Host parsed = [] \<or> Hostname parsed = [] then
            Inl (invalidRelayURL ''URL must contain an authority'')
          else if RawQuery parsed \<noteq> [] \<or> ForceQuery parsed then
            Inl (invalidRelayURL ''URL must not contain a query'')
          else if CHR ''#'' \<in> set raw then
            Inl (invalidRelayURL ''URL must not contain a fragment'')
          else case normalizeAuthority parsed of
            Inl e \<Rightarrow> Inl e
          | Inr authority \<Rightarrow>
              let origin = ''https://'' @ authority in
              if kind = publicBaseURLKind then
                (if EscapedPath parsed \<noteq> [] \<and> EscapedPath parsed \<noteq> ''/'' then
                   Inl (invalidRelayURL ''public base URL must not contain a path'')
                 else Inr \<lparr>nvalue = origin, norigin = origin\<rparr>)
              else case normalizeActorPath (EscapedPath parsed) of
                     Inl e \<Rightarrow> Inl e
                   | Inr path \<Rightarrow> Inr \<lparr>nvalue = origin @ path, norigin = origin\<rparr>)"

definition NormalizeRelayActorURL :: "string \<Rightarrow> string result" where
  "NormalizeRelayActorURL raw =
     (case normalizeRelayURL raw actorURL of Inl e \<Rightarrow> Inl e | Inr n \<Rightarrow> Inr (nvalue n))"

definition NormalizePublicBaseURL :: "string \<Rightarrow> string result" where
  "NormalizePublicBaseURL raw =
     (case normalizeRelayURL raw publicBaseURLKind of Inl e \<Rightarrow> Inl e | Inr n \<Rightarrow> Inr (nvalue n))"

definition NormalizeRelayIdentity :: "string \<Rightarrow> string \<Rightarrow> RelayIdentity result" where
  "NormalizeRelayIdentity relayActor publicBaseURL =
     (case normalizeRelayURL relayActor actorURL of
        Inl e \<Rightarrow> Inl e
      | Inr actor \<Rightarrow>
          (case normalizeRelayURL publicBaseURL publicBaseURLKind of
             Inl e \<Rightarrow> Inl e
           | Inr base \<Rightarrow>
               if norigin actor \<noteq> norigin base then
                 Inl (invalidRelayURL ''relay actor and public base URL must use the same origin'')
               else Inr \<lparr>RelayActor = nvalue actor, PublicBaseURL = nvalue base\<rparr>))"

subsection \<open>Canonical identities\<close>

text \<open>A retained identity is one that normalisation leaves as it is.\<close>

definition canonical_identity :: "string \<Rightarrow> string \<Rightarrow> bool" where
  "canonical_identity actor base \<longleftrightarrow>
     NormalizeRelayIdentity actor base = Inr \<lparr>RelayActor = actor, PublicBaseURL = base\<rparr>"

lemma base_is_origin:
  "normalizeRelayURL raw publicBaseURLKind = Inr n \<Longrightarrow> nvalue n = norigin n"
  by (auto simp: normalizeRelayURL_def Let_def split: if_splits option.splits sum.splits)

text \<open>The public base URL of an identity is determined by its actor.\<close>

lemma canonical_identity_base:
  "canonical_identity actor base \<Longrightarrow> canonical_identity actor base' \<Longrightarrow> base = base'"
  by (auto simp: canonical_identity_def NormalizeRelayIdentity_def dest!: base_is_origin
      split: sum.splits if_splits)

lemma canonical_identity_actor:
  "canonical_identity actor base \<Longrightarrow> NormalizeRelayActorURL actor = Inr actor"
  by (auto simp: canonical_identity_def NormalizeRelayIdentity_def NormalizeRelayActorURL_def
      split: sum.splits if_splits)

subsection \<open>Evaluation\<close>

lemmas url_eval = TrimSpace_def trim_left.simps trim_right.simps leading_space_def trailing_space_def
  space_runes_def bytes_def char_of_def upt_rec bit_0 suffix_def
  url_Parse_def scheme_rest_def split_query_def url_parse_rest_def parseAuthority_def parseHost_def
  setPath_def ctl_byte_def code_def is_alnum_def is_lower_def is_digit_def is_upper_def chars_in_def
  to_lower_def shouldEscape_def escape_def Let_def
  normalizeAuthority_def Hostname_def Port_def split_host_port_def trim_suffix_def normalizeHost_def
  ParseAddr_def parse_fields4_def parse_octet_def numericHost_def validDNSLabel_def
  EscapedPath_def normalizeActorPath_def check_path_def ValidString_def runes.simps IsControl_def
  contains_str_def sublist_code prefix_code

definition sample_actor :: string where "sample_actor = ''https://a.b/c''"
definition sample_base :: string where "sample_base = ''https://a.b''"

lemma sample_actor_canonical: "NormalizeRelayActorURL sample_actor = Inr sample_actor"
  by (simp add: NormalizeRelayActorURL_def normalizeRelayURL_def sample_actor_def url_eval)

lemma sample_identity: "canonical_identity sample_actor sample_base"
  by (simp add: canonical_identity_def NormalizeRelayIdentity_def normalizeRelayURL_def
      sample_actor_def sample_base_def url_eval)

end
