(* ===== verification/SourceAddress.thy ===== *)
theory SourceAddress
  imports GoStd
begin

section \<open>The transport source of a request\<close>

text \<open>
  \<open>internal/admission/source.go\<close>: the canonical client address of an HTTP request.
  Forwarded identity counts only when the direct peer is a trusted proxy. A request is
  read through its \<open>RemoteAddr\<close> and the values of its \<open>X-Real-IP\<close> header.
\<close>

datatype source_error = ErrSourceConfiguration | ErrSourceIdentity

definition validSourceAddress :: "addr \<Rightarrow> bool" where
  "validSourceAddress a \<longleftrightarrow> IsValid a \<and> \<not> IsUnspecified a \<and> \<not> IsMulticast a"

record SourceResolver =
  trustedProxies :: "prefix_net list"

text \<open>The loop of \<open>NewSourceResolver\<close>: one configured prefix, then the rest.\<close>

definition unmap_prefix :: "prefix_net \<Rightarrow> prefix_net option" where
  "unmap_prefix p =
     (if Is4In6 (pfx_addr p)
      then (if pfx_bits p < 96 then None
            else Some \<lparr>pfx_addr = Unmap (pfx_addr p), pfx_bits = pfx_bits p - 96\<rparr>)
      else Some p)"

fun normalize_prefixes :: "prefix_net list \<Rightarrow> prefix_net list \<Rightarrow> source_error + prefix_net list" where
  "normalize_prefixes normalized [] = Inr normalized"
| "normalize_prefixes normalized (p # ps) =
     (if \<not> Prefix_IsValid p then Inl ErrSourceConfiguration
      else case unmap_prefix p of
        None \<Rightarrow> Inl ErrSourceConfiguration
      | Some q \<Rightarrow>
          let m = Prefix_Masked q in
          if \<not> validSourceAddress (pfx_addr m) then Inl ErrSourceConfiguration
          else if m \<in> set normalized then normalize_prefixes normalized ps
          else normalize_prefixes (normalized @ [m]) ps)"

definition NewSourceResolver :: "prefix_net list \<Rightarrow> source_error + SourceResolver" where
  "NewSourceResolver ps =
     (case normalize_prefixes [] ps of
        Inl e \<Rightarrow> Inl e
      | Inr normalized \<Rightarrow> Inr \<lparr>trustedProxies = normalized\<rparr>)"

definition trusts :: "SourceResolver \<Rightarrow> addr \<Rightarrow> bool" where
  "trusts resolver a \<longleftrightarrow> list_ex (\<lambda>p. Prefix_Contains p a) (trustedProxies resolver)"

definition parseRemoteAddress :: "string \<Rightarrow> source_error + addr" where
  "parseRemoteAddress remoteAddress =
     (case SplitHostPort remoteAddress of
        None \<Rightarrow> Inl ErrSourceIdentity
      | Some (host, _) \<Rightarrow>
          (case ParseAddr host of
             None \<Rightarrow> Inl ErrSourceIdentity
           | Some a \<Rightarrow>
               let address = WithZone (Unmap a) [] in
               if \<not> validSourceAddress address then Inl ErrSourceIdentity else Inr address))"

definition resolve_source :: "SourceResolver \<Rightarrow> string \<Rightarrow> string list \<Rightarrow> source_error + addr" where
  "resolve_source resolver remoteAddr values =
     (case parseRemoteAddress remoteAddr of
        Inl e \<Rightarrow> Inl e
      | Inr peer \<Rightarrow>
          if \<not> trusts resolver peer then Inr peer
          else case values of
            [v] \<Rightarrow>
              if CHR '','' \<in> set v then Inl ErrSourceIdentity
              else (case ParseAddr (TrimSpace v) of
                      None \<Rightarrow> Inl ErrSourceIdentity
                    | Some c \<Rightarrow>
                        let client = WithZone (Unmap c) [] in
                        if \<not> validSourceAddress client then Inl ErrSourceIdentity else Inr client)
          | _ \<Rightarrow> Inl ErrSourceIdentity)"

subsection \<open>Canonical form of resolved sources\<close>

text \<open>The addresses a source can be: no mapped IPv4 address and no zone.\<close>

definition canonical_source :: "addr \<Rightarrow> bool" where
  "canonical_source a \<longleftrightarrow> validSourceAddress a \<and> Unmap a = a \<and> \<not> has_zone a"

lemma canonical_source_unmap:
  "validSourceAddress (WithZone (Unmap a) []) \<Longrightarrow> canonical_source (WithZone (Unmap a) [])"
  by (cases a) (auto simp: canonical_source_def)

lemma parseRemoteAddress_canonical: "parseRemoteAddress r = Inr a \<Longrightarrow> canonical_source a"
  by (auto simp: parseRemoteAddress_def Let_def intro: canonical_source_unmap
      split: option.splits prod.splits if_splits)

lemma resolve_source_canonical: "resolve_source res r vs = Inr a \<Longrightarrow> canonical_source a"
  by (auto simp: resolve_source_def Let_def intro: canonical_source_unmap parseRemoteAddress_canonical
      split: sum.splits option.splits list.splits if_splits)

subsection \<open>Trusted networks\<close>

text \<open>Masking clears host bits only, so a masked prefix contains the same addresses.\<close>

lemma div_mult_div: "x div m * m div m = (x::nat) div m"
  by (cases "m = 0") auto

lemma unat_masked:
  fixes a :: "'a::len word"
  shows "unat (of_nat (unat a div m * m) :: 'a word) = unat a div m * m"
proof -
  have "unat a div m * m < 2 ^ LENGTH('a)"
    by (metis div_times_less_eq_dividend order_le_less_trans unsigned_less)
  then show ?thesis by (simp add: unat_of_nat del: of_nat_mult)
qed

lemma bit_len_mask [simp]: "bit_len (mask_addr a n) = bit_len a"
  and IsValid_mask [simp]: "IsValid (mask_addr a n) = IsValid a"
  by (cases a; simp)+

lemma same_prefix_mask: "same_prefix (mask_addr a n) b n = same_prefix a b n"
  by (cases a; cases b) (simp_all add: unat_masked div_mult_div del: of_nat_mult)

lemma Contains_Masked:
  assumes "Prefix_IsValid p"
  shows "Prefix_Contains (Prefix_Masked p) a = Prefix_Contains p a"
  using assms
  by (cases "pfx_addr p") (auto simp: Prefix_Contains_def Prefix_Masked_def Prefix_IsValid_def same_prefix_mask
      simp del: mask_addr.simps, simp_all add: same_prefix_mask)

lemma unmap_prefix_valid: "Prefix_IsValid p \<Longrightarrow> unmap_prefix p = Some q \<Longrightarrow> Prefix_IsValid q"
  by (cases "pfx_addr p") (auto simp: unmap_prefix_def Prefix_IsValid_def split: if_splits)

definition prefix_trusts :: "addr \<Rightarrow> prefix_net \<Rightarrow> bool" where
  "prefix_trusts a p = (case unmap_prefix p of None \<Rightarrow> False | Some q \<Rightarrow> Prefix_Contains q a)"

lemma normalize_prefixes_trusts:
  "normalize_prefixes ns ps = Inr ms \<Longrightarrow>
   list_ex (\<lambda>p. Prefix_Contains p a) ms \<longleftrightarrow>
     list_ex (\<lambda>p. Prefix_Contains p a) ns \<or> list_ex (prefix_trusts a) ps"
proof (induction ns ps rule: normalize_prefixes.induct)
  case (2 ns p ps)
  then obtain q where q: "Prefix_IsValid p" "unmap_prefix p = Some q"
    by (auto split: if_splits option.splits)
  have "prefix_trusts a p = Prefix_Contains (Prefix_Masked q) a"
    using q by (simp add: prefix_trusts_def Contains_Masked unmap_prefix_valid)
  with 2 q show ?case by (auto simp: Let_def list_ex_iff split: if_splits)
qed simp

lemma trusts_iff:
  "NewSourceResolver ps = Inr res \<Longrightarrow> trusts res a \<longleftrightarrow> list_ex (prefix_trusts a) ps"
  using normalize_prefixes_trusts [of "[]" ps _ a]
  by (auto simp: NewSourceResolver_def trusts_def split: sum.splits)

subsection \<open>Properties\<close>

text \<open>A client cannot choose its own source. When no configured proxy network
  contains the direct peer, the resolved source is the canonical peer address for every
  value of the forwarding header.\<close>

theorem untrusted_peer_is_source:
  assumes "NewSourceResolver ps = Inr res" and "parseRemoteAddress remote = Inr peer"
    and "\<not> list_ex (prefix_trusts peer) ps"
  shows "resolve_source res remote values = Inr peer \<and> canonical_source peer"
  using assms parseRemoteAddress_canonical [OF assms(2)] trusts_iff [OF assms(1)]
  by (simp add: resolve_source_def)

theorem untrusted_peer_is_source_witness:
  "resolve_source \<lparr>trustedProxies = []\<rparr> ''1.2.3.4:80'' [''9.9.9.9''] = Inr (IPv4 16909060)"
proof -
  have "NewSourceResolver [] = Inr \<lparr>trustedProxies = []\<rparr>" by (simp add: NewSourceResolver_def)
  moreover have "parseRemoteAddress ''1.2.3.4:80'' = Inr (IPv4 16909060)"
    by (simp add: parseRemoteAddress_def SplitHostPort_def ParseAddr_def parse_fields4_def parse_octet_def
        is_digit_def code_def decimal_value_def from_digits_def validSourceAddress_def IsMulticast_def)
  ultimately show ?thesis
    using untrusted_peer_is_source [of "[]" "\<lparr>trustedProxies = []\<rparr>" "''1.2.3.4:80''" "IPv4 16909060" "[''9.9.9.9'']"]
    by simp
qed

end
