(* ===== verification/Limiter.thy ===== *)
theory Limiter
  imports Vocabulary Identity SourceAddress
begin

section \<open>Request admission: token buckets and the concurrency ceiling\<close>

text \<open>
  \<open>internal/admission/limiter.go\<close>. Times and durations are nanoseconds as \<^typ>\<open>int\<close>;
  \<open>time.Time.Sub\<close> saturates at the \<open>int64\<close> range as in Go. A \<open>bucketPool\<close> is its map
  of buckets and its \<open>container/list\<close> order; a list element points at the bucket
  stored in the map under the bucket's key, so the order is the list of those keys.
  Every exported method runs under the limiter's mutex, so a run is a sequence of
  method calls. The clock reading of a call is an argument.
\<close>

subsection \<open>Configuration\<close>

definition maximumEntries :: int where "maximumEntries = 1000000"
definition maximumBurst :: int where "maximumBurst = 100000"
definition maximumConcurrent :: int where "maximumConcurrent = 100000"
definition maximumCleanupLimit :: int where "maximumCleanupLimit = 4096"
definition maximumInterval :: int where "maximumInterval = 24 * 3600 * 10 ^ 9"
definition maximumIdleTTL :: int where "maximumIdleTTL = 30 * 24 * 3600 * 10 ^ 9"
definition maximumRetryAfter :: int where "maximumRetryAfter = 5 * 60 * 10 ^ 9"

lemmas limit_defs = maximumEntries_def maximumBurst_def maximumConcurrent_def
  maximumCleanupLimit_def maximumInterval_def maximumIdleTTL_def maximumRetryAfter_def

record rate =
  Burst :: int
  RefillInterval :: int

record config =
  Source :: rate
  Actor :: rate
  MaxSources :: int
  MaxActors :: int
  MaxConcurrent :: int
  IdleTTL :: int
  CleanupLimit :: int
  OverloadRetryAfter :: int

definition validRate :: "rate \<Rightarrow> bool" where
  "validRate r \<longleftrightarrow> Burst r \<ge> 1 \<and> Burst r \<le> maximumBurst \<and>
     RefillInterval r > 0 \<and> RefillInterval r \<le> maximumInterval"

definition minimumFullRefill :: "rate \<Rightarrow> int" where
  "minimumFullRefill r =
     (if \<not> validRate r \<or> Burst r > maximumIdleTTL div RefillInterval r
      then maximumIdleTTL + 1
      else Burst r * RefillInterval r)"

definition validateConfig :: "config \<Rightarrow> bool" where
  "validateConfig c \<longleftrightarrow>
     \<not> (\<not> validRate (Source c) \<or> \<not> validRate (Actor c) \<or>
        MaxSources c < 1 \<or> MaxSources c > maximumEntries \<or>
        MaxActors c < 1 \<or> MaxActors c > maximumEntries \<or>
        MaxConcurrent c < 1 \<or> MaxConcurrent c > maximumConcurrent \<or>
        CleanupLimit c < 1 \<or> CleanupLimit c > maximumCleanupLimit \<or>
        IdleTTL c < minimumFullRefill (Source c) \<or>
        IdleTTL c < minimumFullRefill (Actor c) \<or>
        IdleTTL c > maximumIdleTTL \<or>
        OverloadRetryAfter c \<le> 0 \<or>
        OverloadRetryAfter c > maximumRetryAfter)"

subsection \<open>Buckets\<close>

record bucket =
  tokens :: int
  lastRefill :: int
  lastSeen :: int

definition time_Sub :: "int \<Rightarrow> int \<Rightarrow> int" where
  "time_Sub a b = max (- (2 ^ 63)) (min max_int64 (a - b))"

definition refill :: "bucket \<Rightarrow> int \<Rightarrow> rate \<Rightarrow> bucket" where
  "refill e now r =
     (if \<not> now > lastRefill e \<or> tokens e \<ge> Burst r
      then (if tokens e \<ge> Burst r \<and> now > lastRefill e then e\<lparr>lastRefill := now\<rparr> else e)
      else
        let elapsed = time_Sub now (lastRefill e);
            steps = elapsed div RefillInterval r
        in if steps < 1 then e
           else if steps \<ge> Burst r - tokens e
                then e\<lparr>tokens := Burst r, lastRefill := now\<rparr>
                else e\<lparr>tokens := tokens e + steps,
                       lastRefill := lastRefill e + int64 (steps * RefillInterval r)\<rparr>)"

definition retryAfter :: "bucket \<Rightarrow> int \<Rightarrow> int \<Rightarrow> int" where
  "retryAfter e now interval =
     (if \<not> now > lastRefill e then interval
      else let remaining = interval - time_Sub now (lastRefill e)
           in if remaining \<le> 0 \<or> remaining > interval then interval else remaining)"

definition monotonicMaximum :: "int \<Rightarrow> int \<Rightarrow> int" where
  "monotonicMaximum l r = (if r > l then r else l)"

subsection \<open>Bucket pools\<close>

datatype decision =
    DecisionAllowed | DecisionSourceRateLimited | DecisionActorRateLimited
  | DecisionConcurrencyLimited | DecisionCapacityLimited | DecisionCanceled | DecisionInvalid

record admission_result =
  Decision :: decision
  RetryAfter :: int

definition result_Allowed :: "admission_result \<Rightarrow> bool" where
  "result_Allowed res \<longleftrightarrow> Decision res = DecisionAllowed"

record bucketPool =
  entries :: "(string, bucket) table"
  order :: "string list"
  maximum :: int

definition newBucketPool :: "int \<Rightarrow> bucketPool" where
  "newBucketPool m = \<lparr>entries = [], order = [], maximum = m\<rparr>"

text \<open>The loop bound \<open>removed < limit\<close> is the recursion argument.\<close>

fun pool_cleanup :: "bucketPool \<Rightarrow> int \<Rightarrow> int \<Rightarrow> nat \<Rightarrow> bucketPool" where
  "pool_cleanup p now idleTTL 0 = p"
| "pool_cleanup p now idleTTL (Suc left) =
     (case order p of
        [] \<Rightarrow> p
      | key # rest \<Rightarrow>
          (case map_of (entries p) key of
             None \<Rightarrow> p
           | Some e \<Rightarrow>
               if now < lastSeen e \<or> time_Sub now (lastSeen e) < idleTTL then p
               else pool_cleanup (p\<lparr>entries := AList.delete key (entries p), order := rest\<rparr>)
                      now idleTTL left))"

definition pool_take :: "bucketPool \<Rightarrow> string \<Rightarrow> bucket \<Rightarrow> int \<Rightarrow> rate \<Rightarrow> decision
    \<Rightarrow> bucketPool \<times> admission_result" where
  "pool_take p key e now r rateDecision =
     (if tokens e < 1
      then (p\<lparr>entries := AList.update key e (entries p)\<rparr>,
            \<lparr>Decision = rateDecision, RetryAfter = retryAfter e now (RefillInterval r)\<rparr>)
      else (p\<lparr>entries := AList.update key (e\<lparr>tokens := tokens e - 1\<rparr>) (entries p)\<rparr>,
            \<lparr>Decision = DecisionAllowed, RetryAfter = 0\<rparr>))"

definition pool_admit :: "bucketPool \<Rightarrow> string \<Rightarrow> int \<Rightarrow> rate \<Rightarrow> int \<Rightarrow> int \<Rightarrow> decision \<Rightarrow> int
    \<Rightarrow> bucketPool \<times> admission_result" where
  "pool_admit p0 key now r idleTTL cleanupLimit rateDecision overloadRetryAfter =
     (let p = pool_cleanup p0 now idleTTL (nat cleanupLimit) in
      case map_of (entries p) key of
        None \<Rightarrow>
          if int (length (entries p)) \<ge> maximum p
          then (p, \<lparr>Decision = DecisionCapacityLimited, RetryAfter = overloadRetryAfter\<rparr>)
          else pool_take (p\<lparr>order := order p @ [key]\<rparr>) key
                 \<lparr>tokens = Burst r, lastRefill = now, lastSeen = now\<rparr> now r rateDecision
      | Some e \<Rightarrow>
          let e1 = refill e now r;
              e2 = e1\<lparr>lastSeen := monotonicMaximum (lastSeen e1) now\<rparr>
          in pool_take (p\<lparr>order := remove1 key (order p) @ [key]\<rparr>) key e2 now r rateDecision)"

subsection \<open>The limiter and its permits\<close>

record limiter =
  lconfig :: config
  sources :: bucketPool
  actors :: bucketPool
  inFlight :: int
  lastNow :: int

record permit =
  poperation :: operation
  active :: bool
  actorChecked :: bool

definition newLimiter :: "config \<Rightarrow> int \<Rightarrow> limiter option" where
  "newLimiter c zeroTime =
     (if \<not> validateConfig c then None
      else Some \<lparr>lconfig = c, sources = newBucketPool (MaxSources c),
                 actors = newBucketPool (MaxActors c), inFlight = 0, lastNow = zeroTime\<rparr>)"

definition bucketKey :: "operation \<Rightarrow> string \<Rightarrow> string" where
  "bucketKey op identity = itoa (length op) @ '':'' @ op @ identity"

definition currentTimeLocked :: "limiter \<Rightarrow> int \<Rightarrow> limiter \<times> int" where
  "currentTimeLocked l now = (if now < lastNow l then (l, lastNow l) else (l\<lparr>lastNow := now\<rparr>, now))"

text \<open>
  \<open>AdmitSource\<close>: the context error is read before and after the lock is taken, so the
  two readings are a pair.
\<close>

definition AdmitSource :: "limiter \<Rightarrow> bool \<times> bool \<Rightarrow> operation \<Rightarrow> addr \<Rightarrow> int
    \<Rightarrow> limiter \<times> permit option \<times> admission_result" where
  "AdmitSource l ctxErr op source0 now =
     (if \<not> Operation_Valid op then (l, None, \<lparr>Decision = DecisionInvalid, RetryAfter = 0\<rparr>)
      else if fst ctxErr then (l, None, \<lparr>Decision = DecisionCanceled, RetryAfter = 0\<rparr>)
      else
        let source = Unmap source0 in
        if \<not> validSourceAddress source then (l, None, \<lparr>Decision = DecisionInvalid, RetryAfter = 0\<rparr>)
        else if snd ctxErr then (l, None, \<lparr>Decision = DecisionCanceled, RetryAfter = 0\<rparr>)
        else if inFlight l \<ge> MaxConcurrent (lconfig l)
        then (l, None, \<lparr>Decision = DecisionConcurrencyLimited,
                        RetryAfter = OverloadRetryAfter (lconfig l)\<rparr>)
        else
          let (l1, t) = currentTimeLocked l now;
              (pool, res) = pool_admit (sources l1) (bucketKey op (addr_String source)) t
                              (Source (lconfig l1)) (IdleTTL (lconfig l1)) (CleanupLimit (lconfig l1))
                              DecisionSourceRateLimited (OverloadRetryAfter (lconfig l1));
              l2 = l1\<lparr>sources := pool\<rparr>
          in if \<not> result_Allowed res then (l2, None, res)
             else (l2\<lparr>inFlight := inFlight l2 + 1\<rparr>,
                   Some \<lparr>poperation = op, active = True, actorChecked = False\<rparr>, res))"

definition AdmitActor :: "limiter \<Rightarrow> permit \<Rightarrow> bool \<times> bool \<Rightarrow> operation \<Rightarrow> string \<Rightarrow> int
    \<Rightarrow> limiter \<times> permit \<times> admission_result" where
  "AdmitActor l p ctxErr op actor now =
     (if \<not> Operation_Valid op then (l, p, \<lparr>Decision = DecisionInvalid, RetryAfter = 0\<rparr>)
      else if fst ctxErr then (l, p, \<lparr>Decision = DecisionCanceled, RetryAfter = 0\<rparr>)
      else if NormalizeRelayActorURL actor \<noteq> Inr actor
      then (l, p, \<lparr>Decision = DecisionInvalid, RetryAfter = 0\<rparr>)
      else if \<not> active p \<or> poperation p \<noteq> op \<or> actorChecked p
      then (l, p, \<lparr>Decision = DecisionInvalid, RetryAfter = 0\<rparr>)
      else if snd ctxErr then (l, p, \<lparr>Decision = DecisionCanceled, RetryAfter = 0\<rparr>)
      else
        let p1 = p\<lparr>actorChecked := True\<rparr>;
            (l1, t) = currentTimeLocked l now;
            (pool, res) = pool_admit (actors l1) (bucketKey op actor) t (Actor (lconfig l1))
                            (IdleTTL (lconfig l1)) (CleanupLimit (lconfig l1))
                            DecisionActorRateLimited (OverloadRetryAfter (lconfig l1))
        in (l1\<lparr>actors := pool\<rparr>, p1, res))"

definition Release :: "limiter \<Rightarrow> permit \<Rightarrow> limiter \<times> permit" where
  "Release l p =
     (if active p
      then (if inFlight l > 0 then l\<lparr>inFlight := inFlight l - 1\<rparr> else l, p\<lparr>active := False\<rparr>)
      else (l, p))"

subsection \<open>Runs of the limiter\<close>

record system =
  lim :: limiter
  permits :: "permit list"

datatype call =
    CallSource "bool \<times> bool" operation addr int
  | CallActor nat "bool \<times> bool" operation string int
  | CallRelease nat

text \<open>
  The permits a run has handed out are kept in order; a call on a permit names its
  position, and a position that does not exist is a nil permit.
\<close>

definition nil_result :: admission_result where
  "nil_result = \<lparr>Decision = DecisionInvalid, RetryAfter = 0\<rparr>"

fun perform :: "system \<Rightarrow> call \<Rightarrow> system \<times> admission_result" where
  "perform s (CallSource ctx op source now) =
     (case AdmitSource (lim s) ctx op source now of
        (l, Some p, res) \<Rightarrow> (s\<lparr>lim := l, permits := permits s @ [p]\<rparr>, res)
      | (l, None, res) \<Rightarrow> (s\<lparr>lim := l\<rparr>, res))"
| "perform s (CallActor i ctx op actor now) =
     (if i < length (permits s) then
        (case AdmitActor (lim s) (permits s ! i) ctx op actor now of
           (l, p, res) \<Rightarrow> (s\<lparr>lim := l, permits := (permits s)[i := p]\<rparr>, res))
      else (s, nil_result))"
| "perform s (CallRelease i) =
     (if i < length (permits s) then
        (case Release (lim s) (permits s ! i) of
           (l, p) \<Rightarrow> (s\<lparr>lim := l, permits := (permits s)[i := p]\<rparr>, nil_result))
      else (s, nil_result))"

subsection \<open>Credit of a bucket\<close>

text \<open>
  The credit of a bucket is the time it has saved up: its tokens in units of the refill
  interval plus the time since the last refill, capped at a full bucket.
\<close>

lemma validRateD:
  assumes "validRate r"
  shows "1 \<le> Burst r" "Burst r \<le> 100000" "0 < RefillInterval r" "RefillInterval r \<le> 86400000000000"
  using assms by (auto simp: validRate_def limit_defs)

definition full_credit :: "rate \<Rightarrow> int" where
  "full_credit r = Burst r * RefillInterval r"

definition credit :: "rate \<Rightarrow> bucket \<Rightarrow> int \<Rightarrow> int" where
  "credit r e now = min (full_credit r) (tokens e * RefillInterval r + (now - lastRefill e))"

definition bucket_ok :: "rate \<Rightarrow> int \<Rightarrow> bucket \<Rightarrow> bool" where
  "bucket_ok r now e \<longleftrightarrow> 0 \<le> tokens e \<and> tokens e \<le> Burst r \<and>
     lastRefill e \<le> lastSeen e \<and> lastSeen e \<le> now"

lemma steps_saturated:
  assumes "validRate r" and "d > max_int64"
  shows "max_int64 div RefillInterval r \<ge> Burst r"
proof -
  have "Burst r * RefillInterval r \<le> 100000 * 86400000000000"
    using validRateD [OF assms(1)] by (intro mult_mono) auto
  then have "Burst r * RefillInterval r \<le> max_int64" by simp
  then show ?thesis
    using validRateD(3) [OF assms(1)] by (metis nonzero_mult_div_cancel_right order_less_irrefl zdiv_mono1)
qed

lemma refill_cases:
  assumes "validRate r" and "bucket_ok r t e" and "t \<le> now"
  obtains (full) "tokens e = Burst r" "refill e now r = e\<lparr>lastRefill := now\<rparr>"
  | (early) "tokens e < Burst r" "now - lastRefill e < RefillInterval r" "refill e now r = e"
  | (fill) "tokens e < Burst r" "(Burst r - tokens e) * RefillInterval r \<le> now - lastRefill e"
      "refill e now r = e\<lparr>tokens := Burst r, lastRefill := now\<rparr>"
  | (steps) k where "tokens e + k < Burst r" "0 < k" "k * RefillInterval r \<le> now - lastRefill e"
      "now - lastRefill e < (k + 1) * RefillInterval r"
      "refill e now r = e\<lparr>tokens := tokens e + k, lastRefill := lastRefill e + k * RefillInterval r\<rparr>"
proof -
  note I = validRateD [OF assms(1)]
  let ?I = "RefillInterval r" and ?d = "now - lastRefill e"
  have d0: "0 \<le> ?d" and tk: "0 \<le> tokens e" "tokens e \<le> Burst r"
    using assms(2,3) by (auto simp: bucket_ok_def)
  consider "tokens e = Burst r" | "tokens e < Burst r" "?d = 0" | "tokens e < Burst r" "0 < ?d" "?d \<le> max_int64"
    | "tokens e < Burst r" "?d > max_int64" using d0 tk by linarith
  then show thesis
  proof cases
    case 1
    show thesis
    proof (rule full)
      show "refill e now r = e\<lparr>lastRefill := now\<rparr>"
        using 1 d0 by (cases "now = lastRefill e") (auto simp: refill_def)
    qed (rule 1)
  next
    case 2
    then show thesis using I by (intro early) (auto simp: refill_def)
  next
    case 3
    let ?k = "?d div ?I"
    have sub: "time_Sub now (lastRefill e) = ?d" using 3 d0 by (simp add: time_Sub_def)
    have low: "?k * ?I \<le> ?d" and high: "?d < (?k + 1) * ?I" and k0: "0 \<le> ?k"
      using I(3) d0 by (simp_all add: pos_imp_zdiv_nonneg_iff div_mult_mod_eq algebra_simps)
        (smt (verit) minus_mult_div_eq_mod pos_mod_bound pos_mod_sign)+
    have nooverflow: "int64 (?k * ?I) = ?k * ?I"
      using low 3 k0 I(3) by (intro int64_id) (auto intro: order_trans [of _ 0])
    consider "?k < 1" | "?k \<ge> 1" "?k \<ge> Burst r - tokens e" | "?k \<ge> 1" "?k < Burst r - tokens e" by linarith
    then show thesis
    proof cases
      case 1
      with k0 have "?k = 0" by simp
      with high have "?d < ?I" by simp
      with 1 3 sub show thesis by (intro early) (auto simp: refill_def)
    next
      case 2
      have "(Burst r - tokens e) * ?I \<le> ?k * ?I" using 2 I(3) by (intro mult_right_mono) auto
      with low 2 3 sub show thesis by (intro fill) (auto simp: refill_def)
    next
      case 3
      with \<open>tokens e < Burst r\<close> \<open>0 < ?d\<close> sub low high nooverflow show thesis
        by (intro steps [of ?k]) (auto simp: refill_def Let_def)
    qed
  next
    case 4
    have sub: "time_Sub now (lastRefill e) = max_int64" using 4 by (simp add: time_Sub_def)
    have big: "max_int64 div ?I \<ge> Burst r" by (rule steps_saturated [OF assms(1) 4(2)])
    have "(Burst r - tokens e) * ?I \<le> 100000 * 86400000000000"
      using I tk by (intro mult_mono) auto
    then have "(Burst r - tokens e) * ?I \<le> ?d" using 4 by simp
    moreover have "refill e now r = e\<lparr>tokens := Burst r, lastRefill := now\<rparr>"
      using 4 sub big I tk by (simp add: refill_def Let_def)
    ultimately show thesis using 4 by (intro fill)
  qed
qed

lemma credit_bounds:
  assumes "validRate r" and "bucket_ok r t e" and "t \<le> now"
  shows "0 \<le> credit r e now" "credit r e now \<le> full_credit r"
  using assms validRateD [OF assms(1)] by (auto simp: credit_def full_credit_def bucket_ok_def)

lemma refill_ok:
  assumes "validRate r" and "bucket_ok r t e" and "t \<le> now"
  shows "bucket_ok r now ((refill e now r)\<lparr>lastSeen := monotonicMaximum (lastSeen e) now\<rparr>)"
    and "lastSeen (refill e now r) = lastSeen e"
  using assms(2,3)
  by (cases rule: refill_cases [OF assms]; auto simp: bucket_ok_def monotonicMaximum_def)+

lemma refill_credit:
  assumes "validRate r" and "bucket_ok r t e" and "t \<le> now" and "now \<le> later"
  shows "credit r (refill e now r) later = credit r e later"
  using assms(2-4) validRateD [OF assms(1)]
  by (cases rule: refill_cases [OF assms(1-3)])
    (auto simp: credit_def full_credit_def bucket_ok_def algebra_simps)

text \<open>After a refill the whole tokens are exactly the whole intervals of credit.\<close>

lemma refill_tokens:
  assumes "validRate r" and "bucket_ok r t e" and "t \<le> now"
  shows "lastRefill (refill e now r) \<le> now"
    and "tokens (refill e now r) * RefillInterval r + (now - lastRefill (refill e now r)) = credit r e now"
    and "now - lastRefill (refill e now r) < RefillInterval r"
proof -
  note I = validRateD [OF assms(1)]
  have lr: "lastRefill e \<le> now" and "0 \<le> tokens e" using assms by (auto simp: bucket_ok_def)
  have lt: "t * RefillInterval r + d \<le> full_credit r" if "t < Burst r" "d < RefillInterval r" for t d
  proof -
    have "(t + 1) * RefillInterval r \<le> Burst r * RefillInterval r"
      using that I by (intro mult_right_mono) auto
    with that show ?thesis by (simp add: full_credit_def algebra_simps)
  qed
  have "lastRefill (refill e now r) \<le> now \<and>
    tokens (refill e now r) * RefillInterval r + (now - lastRefill (refill e now r)) = credit r e now \<and>
    now - lastRefill (refill e now r) < RefillInterval r"
  proof (cases rule: refill_cases [OF assms, case_names full early fill steps])
    case full
    with lr I show ?thesis by (simp add: credit_def full_credit_def)
  next
    case early
    with lr lt show ?thesis by (simp add: credit_def)
  next
    case fill
    with I show ?thesis by (simp add: credit_def full_credit_def algebra_simps)
  next
    case (steps k)
    have "(tokens e + k) * RefillInterval r + (now - (lastRefill e + k * RefillInterval r)) \<le> full_credit r"
      using steps by (intro lt) (auto simp: algebra_simps)
    with steps lr show ?thesis by (simp add: credit_def algebra_simps)
  qed
  then show "lastRefill (refill e now r) \<le> now"
    and "tokens (refill e now r) * RefillInterval r + (now - lastRefill (refill e now r)) = credit r e now"
    and "now - lastRefill (refill e now r) < RefillInterval r" by auto
qed

lemma tokens_credit_iff:
  fixes i d k :: int
  assumes "0 \<le> d" "d < i"
  shows "1 \<le> k \<longleftrightarrow> i \<le> k * i + d"
proof
  assume "1 \<le> k"
  then have "1 * i \<le> k * i" using assms by (intro mult_right_mono) auto
  with assms show "i \<le> k * i + d" by linarith
next
  assume "i \<le> k * i + d"
  with assms have "0 < k * i" by linarith
  with assms show "1 \<le> k" by (simp add: zero_less_mult_iff)
qed

subsection \<open>The pool invariant\<close>

definition pool_ok :: "rate \<Rightarrow> int \<Rightarrow> bucketPool \<Rightarrow> bool" where
  "pool_ok r now p \<longleftrightarrow> table_ok (entries p) \<and> distinct (order p) \<and>
     set (order p) = dom (map_of (entries p)) \<and> int (length (entries p)) \<le> maximum p \<and>
     (\<forall>k e. map_of (entries p) k = Some e \<longrightarrow> bucket_ok r now e) \<and>
     sorted (map (\<lambda>k. lastSeen (the (map_of (entries p) k))) (order p))"

definition key_credit :: "rate \<Rightarrow> bucketPool \<Rightarrow> int \<Rightarrow> string \<Rightarrow> int" where
  "key_credit r p now k =
     (case map_of (entries p) k of None \<Rightarrow> full_credit r | Some e \<Rightarrow> credit r e now)"

lemma pool_ok_order: "pool_ok r now p \<Longrightarrow> k \<in> set (order p) \<longleftrightarrow> map_of (entries p) k \<noteq> None"
  by (auto simp: pool_ok_def)

lemma pool_ok_later: "pool_ok r t p \<Longrightarrow> t \<le> now \<Longrightarrow> pool_ok r now p"
  by (fastforce simp: pool_ok_def bucket_ok_def)

lemma newBucketPool_ok: "0 \<le> m \<Longrightarrow> pool_ok r t (newBucketPool m)"
  by (simp add: pool_ok_def newBucketPool_def)

text \<open>Removing the front of the order with its map entry.\<close>

lemma pool_ok_pop:
  assumes "pool_ok r now p" and "order p = key # rest"
  shows "pool_ok r now (p\<lparr>entries := AList.delete key (entries p), order := rest\<rparr>)"
proof -
  have "set rest = dom (map_of (entries p)) - {key}"
    using assms by (auto simp: pool_ok_def)
  moreover have "length (AList.delete key (entries p)) \<le> length (entries p)" by (rule length_delete_le)
  moreover have "sorted (map (\<lambda>k. lastSeen (the (((map_of (entries p))(key := None)) k))) rest)"
    using assms
    by (simp add: pool_ok_def map_fun_upd_notin [of key rest "\<lambda>b. lastSeen (the b)"] del: fun_upd_apply)
  ultimately show ?thesis using assms by (auto simp: pool_ok_def)
qed

lemma cleanup_maximum [simp]: "maximum (pool_cleanup p now ttl n) = maximum p"
  by (induction p now ttl n rule: pool_cleanup.induct) (auto split: list.splits option.splits)

text \<open>Cleanup keeps the invariant and removes only buckets that have refilled completely.\<close>

lemma cleanup_ok:
  assumes "pool_ok r now p" and "full_credit r \<le> ttl" and valid: "validRate r"
  shows "pool_ok r now (pool_cleanup p now ttl n)"
    and "key_credit r (pool_cleanup p now ttl n) now k = key_credit r p now k"
proof -
  have "pool_ok r now (pool_cleanup p now ttl n) \<and>
        key_credit r (pool_cleanup p now ttl n) now k = key_credit r p now k"
    using assms(1,2)
  proof (induction p now ttl n rule: pool_cleanup.induct)
    case (2 p now ttl left)
    show ?case
    proof (cases "order p")
      case (Cons key rest)
      then obtain e where e: "map_of (entries p) key = Some e"
        using pool_ok_order [OF 2(2), of key] by auto
      show ?thesis
      proof (cases "now < lastSeen e \<or> time_Sub now (lastSeen e) < ttl")
        case False
        have ok: "bucket_ok r now e" using 2(2) e by (auto simp: pool_ok_def)
        with False have "now - lastSeen e \<ge> ttl" by (auto simp: time_Sub_def)
        with ok 2(3) validRateD(3) [OF valid] have "credit r e now = full_credit r"
          by (auto simp: credit_def bucket_ok_def intro!: min_absorb1 add_increasing mult_nonneg_nonneg)
        with e have "key_credit r (p\<lparr>entries := AList.delete key (entries p), order := rest\<rparr>) now k
            = key_credit r p now k" by (simp add: key_credit_def)
        with 2(1) [OF Cons e False pool_ok_pop [OF 2(2) Cons] 2(3)] Cons e False
        show ?thesis by simp
      qed (use 2 Cons e in auto)
    qed (use 2 in auto)
  qed auto
  then show "pool_ok r now (pool_cleanup p now ttl n)"
    and "key_credit r (pool_cleanup p now ttl n) now k = key_credit r p now k" by auto
qed

lemma cleanup_shrinks: "length (entries (pool_cleanup p now ttl n)) \<le> length (entries p)"
  by (induction p now ttl n rule: pool_cleanup.induct)
    (auto split: list.splits option.splits intro: order_trans [OF _ length_delete_le])

lemma cleanup_none_removed:
  assumes "length (entries (pool_cleanup p now ttl n)) \<ge> length (entries p)" and "pool_ok r now p"
  shows "pool_cleanup p now ttl n = p"
proof -
  show ?thesis
  proof (cases n)
    case (Suc m)
    show ?thesis
    proof (rule ccontr)
      assume "\<not> ?thesis"
      then obtain key rest e where key: "order p = key # rest" "map_of (entries p) key = Some e"
        and step: "pool_cleanup p now ttl n =
          pool_cleanup (p\<lparr>entries := AList.delete key (entries p), order := rest\<rparr>) now ttl m"
        using Suc by (auto split: list.splits option.splits if_splits)
      have "length (AList.delete key (entries p)) < length (entries p)"
        using key by (intro length_delete_less) simp
      with cleanup_shrinks [of "p\<lparr>entries := AList.delete key (entries p), order := rest\<rparr>" now ttl m] step assms(1)
      show False by simp
    qed
  qed simp
qed

lemma cleanup_front:
  assumes "pool_cleanup p now ttl n = p" and ok: "pool_ok r now p"
    and k: "map_of (entries p) k = Some e" and "0 < n" and "ttl \<le> maximumIdleTTL"
  shows "now - lastSeen e < ttl"
proof -
  have "k \<in> set (order p)" using k pool_ok_order [OF ok] by simp
  then obtain key rest where ord: "order p = key # rest" by (cases "order p") auto
  then obtain f where f: "map_of (entries p) key = Some f" using pool_ok_order [OF ok, of key] by auto
  obtain m where n: "n = Suc m" using assms(4) by (cases n) auto
  have less: "length (AList.delete key (entries p)) < length (entries p)"
    using f by (intro length_delete_less) simp
  have stop: "now < lastSeen f \<or> time_Sub now (lastSeen f) < ttl"
  proof (rule ccontr)
    assume "\<not> ?thesis"
    then have "pool_cleanup (p\<lparr>entries := AList.delete key (entries p), order := rest\<rparr>) now ttl m = p"
      using assms(1) n ord f by simp
    with cleanup_shrinks [of "p\<lparr>entries := AList.delete key (entries p), order := rest\<rparr>" now ttl m] less
    show False by simp
  qed
  have "k \<in> set rest" if "k \<noteq> key" using \<open>k \<in> set (order p)\<close> ord that by simp
  then have "lastSeen f \<le> lastSeen e" using ok ord f k
    by (cases "k = key") (auto simp: pool_ok_def simp del: map_of_eq_Some_iff)
  moreover have "lastSeen f \<le> now" using ok f by (auto simp: pool_ok_def bucket_ok_def)
  ultimately show ?thesis using stop assms(5) by (auto simp: time_Sub_def limit_defs)
qed

lemma pool_ok_put:
  assumes ok: "pool_ok r now p" and e: "bucket_ok r now e" "lastSeen e = now"
    and room: "map_of (entries p) key = None \<Longrightarrow> int (length (entries p)) < maximum p"
  shows "pool_ok r now (p\<lparr>entries := AList.update key e (entries p),
                          order := remove1 key (order p) @ [key]\<rparr>)"
proof -
  have dist: "distinct (order p)" using ok by (simp add: pool_ok_def)
  have "int (length (AList.update key e (entries p))) \<le> maximum p"
    using ok room by (cases "map_of (entries p) key") (auto simp: pool_ok_def length_update_new length_update_old)
  moreover have "sorted (map (\<lambda>k. lastSeen (the (((map_of (entries p))(key \<mapsto> e)) k))) (remove1 key (order p)))"
    using ok dist
    by (simp add: pool_ok_def sorted_map_remove1
        map_fun_upd_notin [of key "remove1 key (order p)" "\<lambda>b. lastSeen (the b)"] del: fun_upd_apply)
  moreover have "lastSeen (the (map_of (entries p) k)) \<le> now" if "k \<in> set (remove1 key (order p))" for k
    using ok that notin_set_remove1 by (fastforce simp: pool_ok_def bucket_ok_def)
  ultimately show ?thesis using ok e dist
    by (auto simp: pool_ok_def set_remove1_eq sorted_append)
qed

subsection \<open>One admission as a change of credit\<close>

text \<open>
  The specification of one admission at a pool that already holds the time \<open>now\<close>: with
  a full interval of credit the call takes one interval and is allowed; with less it
  takes nothing and reports exactly what is missing; a key without a bucket in a full
  pool is refused.
\<close>

definition admit_spec :: "rate \<Rightarrow> decision \<Rightarrow> int \<Rightarrow> (string \<Rightarrow> int) \<Rightarrow> string \<Rightarrow> bool
    \<Rightarrow> (string \<Rightarrow> int) \<times> admission_result" where
  "admit_spec r limited overload c key room =
     (if \<not> room then (c, \<lparr>Decision = DecisionCapacityLimited, RetryAfter = overload\<rparr>)
      else if c key < RefillInterval r
           then (c, \<lparr>Decision = limited, RetryAfter = RefillInterval r - c key\<rparr>)
           else (c(key := c key - RefillInterval r), \<lparr>Decision = DecisionAllowed, RetryAfter = 0\<rparr>))"

lemma retryAfter_missing:
  assumes "lastRefill e \<le> now" "now - lastRefill e < i" "i \<le> 86400000000000"
  shows "retryAfter e now i = i - (now - lastRefill e)"
  using assms by (auto simp: retryAfter_def time_Sub_def Let_def)

lemma pool_take_refines:
  fixes r p key now
  defines "c \<equiv> key_credit r p now"
  assumes valid: "validRate r" and ok: "pool_ok r now p"
    and room: "map_of (entries p) key = None \<Longrightarrow> int (length (entries p)) < maximum p"
    and e: "bucket_ok r now e" "lastSeen e = now" "now - lastRefill e < RefillInterval r"
    and ec: "tokens e * RefillInterval r + (now - lastRefill e) = c key"
    and take: "pool_take (p\<lparr>order := remove1 key (order p) @ [key]\<rparr>) key e now r limited = (p', res)"
  shows "pool_ok r now p' \<and> map_of (entries p') key \<noteq> None \<and>
    (key_credit r p' now, res) = admit_spec r limited overload c key True"
proof -
  note I = validRateD [OF valid]
  have lr: "lastRefill e \<le> now" and tk: "0 \<le> tokens e" using e by (auto simp: bucket_ok_def)
  have iff: "1 \<le> tokens e \<longleftrightarrow> RefillInterval r \<le> c key"
    using tokens_credit_iff [of "now - lastRefill e" "RefillInterval r" "tokens e"] lr e ec by simp
  have le: "c key \<le> full_credit r"
    unfolding c_def key_credit_def by (auto simp: credit_def split: option.splits)
  show ?thesis
  proof (cases "tokens e < 1")
    case True
    then have p': "p' = p\<lparr>entries := AList.update key e (entries p), order := remove1 key (order p) @ [key]\<rparr>"
      and res: "res = \<lparr>Decision = limited, RetryAfter = retryAfter e now (RefillInterval r)\<rparr>"
      using take by (auto simp: pool_take_def)
    have "key_credit r p' now = c"
      unfolding p' using ec le by (auto simp: c_def key_credit_def credit_def fun_eq_iff)
    moreover have "tokens e = 0" using True tk by simp
    ultimately show ?thesis
      using True iff res pool_ok_put [OF ok e(1,2) room] p' ec retryAfter_missing [OF lr e(3) I(4)]
      by (auto simp: admit_spec_def)
  next
    case False
    let ?e = "e\<lparr>tokens := tokens e - 1\<rparr>"
    have p': "p' = p\<lparr>entries := AList.update key ?e (entries p), order := remove1 key (order p) @ [key]\<rparr>"
      and res: "res = \<lparr>Decision = DecisionAllowed, RetryAfter = 0\<rparr>"
      using False take by (auto simp: pool_take_def)
    have "bucket_ok r now ?e" using e False by (auto simp: bucket_ok_def)
    then have ok': "pool_ok r now p'" unfolding p' using e room by (intro pool_ok_put [OF ok]) auto
    have "key_credit r p' now = c(key := c key - RefillInterval r)"
      unfolding p' using ec le I by (auto simp: c_def key_credit_def credit_def fun_eq_iff algebra_simps)
    with ok' False iff res show ?thesis by (auto simp: admit_spec_def p')
  qed
qed

lemma pool_admit_refines:
  assumes valid: "validRate r" and ok: "pool_ok r t p" and le: "t \<le> now"
    and ttl: "full_credit r \<le> ttl" "ttl \<le> maximumIdleTTL"
    and admit: "pool_admit p key now r ttl limit limited overload = (p', res)"
  obtains room where "pool_ok r now p'" "maximum p' = maximum p"
    "(key_credit r p' now, res) = admit_spec r limited overload (key_credit r p now) key room"
    "room \<Longrightarrow> map_of (entries p') key \<noteq> None"
    "\<not> room \<Longrightarrow> p' = p \<and> map_of (entries p) key = None \<and> int (length (entries p)) = maximum p \<and>
       (0 < limit \<longrightarrow> (\<forall>k e. map_of (entries p) k = Some e \<longrightarrow> now - lastSeen e < ttl))"
proof -
  define q where "q = pool_cleanup p now ttl (nat limit)"
  have ok1: "pool_ok r now p" by (rule pool_ok_later [OF ok le])
  have okq: "pool_ok r now q" and cq: "key_credit r q now = key_credit r p now"
    unfolding q_def by (auto intro!: cleanup_ok ok1 ttl(1) valid ext)
  have maxq: "maximum q = maximum p" by (simp add: q_def)
  have max': "maximum (fst (pool_take s k e n r d)) = maximum s" for s k e n d
    by (simp add: pool_take_def)
  consider (full) "map_of (entries q) key = None" "int (length (entries q)) \<ge> maximum q"
    | (new) "map_of (entries q) key = None" "int (length (entries q)) < maximum q"
    | (old) e where "map_of (entries q) key = Some e" by fastforce
  then show thesis
  proof cases
    case full
    have "int (length (entries p)) \<le> maximum p" using ok1 by (simp add: pool_ok_def)
    with full maxq have qp: "q = p"
      unfolding q_def by (intro cleanup_none_removed [OF _ ok1]) (simp add: q_def)
    have idle: "now - lastSeen e < ttl" if "0 < limit" "map_of (entries p) k = Some e" for k e
      using cleanup_front [OF _ ok1 that(2) _ ttl(2), of "nat limit"] qp that(1) by (simp add: q_def)
    have "p' = p" "res = \<lparr>Decision = DecisionCapacityLimited, RetryAfter = overload\<rparr>"
      using admit full qp by (auto simp: pool_admit_def q_def [symmetric])
    with full qp ok1 idle show thesis
      by (intro that [of False]) (auto simp: admit_spec_def pool_ok_def)
  next
    case new
    let ?e = "\<lparr>tokens = Burst r, lastRefill = now, lastSeen = now\<rparr>"
    have "key \<notin> set (order q)" using new pool_ok_order [OF okq, of key] by simp
    then have take: "pool_take (q\<lparr>order := remove1 key (order q) @ [key]\<rparr>) key ?e now r limited = (p', res)"
      using admit new by (simp add: pool_admit_def q_def [symmetric] remove1_idem Let_def)
    have "key_credit r q now key = full_credit r" using new by (simp add: key_credit_def)
    moreover have "bucket_ok r now ?e" using validRateD [OF valid] by (simp add: bucket_ok_def)
    moreover note pool_take_refines [OF valid okq _ this _ _ _ take, of overload]
    ultimately show thesis using new validRateD [OF valid] cq take maxq
      max' [of "q\<lparr>order := remove1 key (order q) @ [key]\<rparr>" key ?e now limited]
      by (intro that [of True]) (auto simp: full_credit_def)
  next
    case (old e)
    have oke: "bucket_ok r now e" using okq old by (auto simp: pool_ok_def)
    note ref = refill_ok [OF valid oke order_refl] refill_tokens [OF valid oke order_refl]
    let ?e = "(refill e now r)\<lparr>lastSeen := monotonicMaximum (lastSeen e) now\<rparr>"
    have seen: "lastSeen ?e = now" using oke by (auto simp: bucket_ok_def monotonicMaximum_def)
    have take: "pool_take (q\<lparr>order := remove1 key (order q) @ [key]\<rparr>) key ?e now r limited = (p', res)"
      using admit old ref(2) by (simp add: pool_admit_def q_def [symmetric] Let_def)
    have "key_credit r q now key = credit r e now" using old by (simp add: key_credit_def)
    with pool_take_refines [OF valid okq _ ref(1) seen _ _ take, of overload] old ref cq take maxq
      max' [of "q\<lparr>order := remove1 key (order q) @ [key]\<rparr>" key ?e now limited]
    show thesis by (intro that [of True]) auto
  qed
qed


lemma key_credit_bounds:
  assumes "validRate r" and "pool_ok r t p" and "t \<le> now"
  shows "0 \<le> key_credit r p now k" "key_credit r p now k \<le> full_credit r"
proof -
  have "0 \<le> full_credit r" using validRateD [OF assms(1)] by (simp add: full_credit_def)
  moreover have "bucket_ok r t e" if "map_of (entries p) k = Some e" for e
    using assms(2) that by (simp add: pool_ok_def)
  ultimately show "0 \<le> key_credit r p now k" "key_credit r p now k \<le> full_credit r"
    using credit_bounds [OF assms(1) _ assms(3)] by (auto simp: key_credit_def split: option.splits)
qed

lemma key_credit_later: "t \<le> now \<Longrightarrow> key_credit r p now k \<le> key_credit r p t k + (now - t)"
  by (auto simp: key_credit_def credit_def split: option.splits)

text \<open>What one admission takes from a key: one interval when it is the admitted key.\<close>

lemma pool_admit_takes:
  assumes valid: "validRate r" and ok: "pool_ok r t p" and le: "t \<le> now" and ttl: "full_credit r \<le> ttl" "ttl \<le> maximumIdleTTL"
    and lim: "limited \<noteq> DecisionAllowed"
    and admit: "pool_admit p key now r ttl limit limited overload = (p', res)"
  shows "pool_ok r now p'" "maximum p' = maximum p"
    and "key_credit r p' now k \<le> key_credit r p t k + (now - t)"
    and "result_Allowed res \<Longrightarrow>
          key_credit r p' now key + RefillInterval r \<le> key_credit r p t key + (now - t)"
proof -
  obtain room where room: "pool_ok r now p'" "maximum p' = maximum p"
    "(key_credit r p' now, res) = admit_spec r limited overload (key_credit r p now) key room"
    using pool_admit_refines [OF valid ok le ttl admit] by metis
  then show "pool_ok r now p'" "maximum p' = maximum p" by auto
  show "key_credit r p' now k \<le> key_credit r p t k + (now - t)"
    and "result_Allowed res \<Longrightarrow>
          key_credit r p' now key + RefillInterval r \<le> key_credit r p t key + (now - t)"
    using room(3) key_credit_later [OF le, of r p k] key_credit_later [OF le, of r p key] lim
      validRateD(3) [OF valid]
    by (auto simp: admit_spec_def result_Allowed_def split: if_splits)
qed

definition active_permits :: "system \<Rightarrow> int" where
  "active_permits s = int (length (filter active (permits s)))"

definition limiter_ok :: "system \<Rightarrow> bool" where
  "limiter_ok s \<longleftrightarrow> validateConfig (lconfig (lim s)) \<and>
     pool_ok (Source (lconfig (lim s))) (lastNow (lim s)) (sources (lim s)) \<and>
     pool_ok (Actor (lconfig (lim s))) (lastNow (lim s)) (actors (lim s)) \<and>
     maximum (sources (lim s)) = MaxSources (lconfig (lim s)) \<and>
     maximum (actors (lim s)) = MaxActors (lconfig (lim s)) \<and>
     inFlight (lim s) = active_permits s \<and>
     inFlight (lim s) \<le> MaxConcurrent (lconfig (lim s))"

definition source_takes :: "system \<Rightarrow> call \<Rightarrow> string \<Rightarrow> bool" where
  "source_takes s c k = (case c of
     CallSource ctx op source now \<Rightarrow>
       result_Allowed (snd (perform s c)) \<and> k = bucketKey op (addr_String (Unmap source))
   | _ \<Rightarrow> False)"

definition actor_takes :: "system \<Rightarrow> call \<Rightarrow> string \<Rightarrow> bool" where
  "actor_takes s c k = (case c of
     CallActor i ctx op actor now \<Rightarrow> result_Allowed (snd (perform s c)) \<and> k = bucketKey op actor
   | _ \<Rightarrow> False)"

lemma validateConfig_rates:
  assumes "validateConfig c"
  shows "validRate (Source c)" "validRate (Actor c)"
    and "full_credit (Source c) \<le> IdleTTL c" "full_credit (Actor c) \<le> IdleTTL c"
    and "IdleTTL c \<le> maximumIdleTTL"
proof -
  have le: "full_credit r \<le> t" if "t \<ge> minimumFullRefill r" "t \<le> maximumIdleTTL" for r t
    using that by (auto simp: minimumFullRefill_def full_credit_def split: if_splits)
  show "validRate (Source c)" "validRate (Actor c)"
    "full_credit (Source c) \<le> IdleTTL c" "full_credit (Actor c) \<le> IdleTTL c"
    "IdleTTL c \<le> maximumIdleTTL"
    using assms by (auto simp: validateConfig_def intro!: le)
qed

lemma currentTimeLocked_cases:
  "currentTimeLocked l now = (l\<lparr>lastNow := max now (lastNow l)\<rparr>, max now (lastNow l))"
  by (auto simp: currentTimeLocked_def max_def)

lemma AdmitSource_cases:
  obtains (refused) d where "AdmitSource l ctx op source now = (l, None, d)" "\<not> result_Allowed d"
  | (limited) pool res where
      "inFlight l < MaxConcurrent (lconfig l)"
      "pool_admit (sources l) (bucketKey op (addr_String (Unmap source))) (max now (lastNow l))
         (Source (lconfig l)) (IdleTTL (lconfig l)) (CleanupLimit (lconfig l))
         DecisionSourceRateLimited (OverloadRetryAfter (lconfig l)) = (pool, res)"
      "AdmitSource l ctx op source now =
         (if \<not> result_Allowed res
          then (l\<lparr>lastNow := max now (lastNow l), sources := pool\<rparr>, None, res)
          else (l\<lparr>lastNow := max now (lastNow l), sources := pool, inFlight := inFlight l + 1\<rparr>,
             Some \<lparr>poperation = op, active = True, actorChecked = False\<rparr>, res))"
proof (cases "Operation_Valid op \<and> \<not> fst ctx \<and> validSourceAddress (Unmap source) \<and> \<not> snd ctx \<and>
    inFlight l < MaxConcurrent (lconfig l)")
  case True
  obtain pool res where admit:
    "pool_admit (sources l) (bucketKey op (addr_String (Unmap source))) (max now (lastNow l))
         (Source (lconfig l)) (IdleTTL (lconfig l)) (CleanupLimit (lconfig l))
         DecisionSourceRateLimited (OverloadRetryAfter (lconfig l)) = (pool, res)"
    by fastforce
  with True show thesis
    by (intro limited [OF _ admit]) (auto simp: AdmitSource_def Let_def currentTimeLocked_cases)
next
  case False
  then show thesis
    by (intro refused [of "snd (snd (AdmitSource l ctx op source now))"])
      (auto simp: AdmitSource_def Let_def result_Allowed_def split: if_splits)
qed

lemma AdmitActor_cases:
  obtains (refused) d where "AdmitActor l p ctx op actor now = (l, p, d)" "\<not> result_Allowed d"
  | (checked) pool res where "active p" "\<not> actorChecked p" "poperation p = op"
      "NormalizeRelayActorURL actor = Inr actor"
      "pool_admit (actors l) (bucketKey op actor) (max now (lastNow l))
         (Actor (lconfig l)) (IdleTTL (lconfig l)) (CleanupLimit (lconfig l))
         DecisionActorRateLimited (OverloadRetryAfter (lconfig l)) = (pool, res)"
      "AdmitActor l p ctx op actor now =
         (l\<lparr>lastNow := max now (lastNow l), actors := pool\<rparr>, p\<lparr>actorChecked := True\<rparr>, res)"
proof (cases "Operation_Valid op \<and> \<not> fst ctx \<and> NormalizeRelayActorURL actor = Inr actor \<and>
    active p \<and> poperation p = op \<and> \<not> actorChecked p \<and> \<not> snd ctx")
  case True
  obtain pool res where admit:
    "pool_admit (actors l) (bucketKey op actor) (max now (lastNow l))
         (Actor (lconfig l)) (IdleTTL (lconfig l)) (CleanupLimit (lconfig l))
         DecisionActorRateLimited (OverloadRetryAfter (lconfig l)) = (pool, res)"
    by fastforce
  with True show thesis
    by (intro checked [OF _ _ _ _ admit]) (auto simp: AdmitActor_def Let_def currentTimeLocked_cases)
next
  case False
  then show thesis
    by (intro refused [of "snd (snd (AdmitActor l p ctx op actor now))"])
      (auto simp: AdmitActor_def Let_def result_Allowed_def split: if_splits)
qed

lemma active_permits_update:
  assumes "i < length ps"
  shows "int (length (filter active (ps[i := p]))) =
    int (length (filter active ps)) + (if active p then 1 else 0) - (if active (ps ! i) then 1 else 0)"
  using assms
proof (induction ps arbitrary: i)
  case (Cons q ps)
  show ?case
  proof (cases i)
    case (Suc j)
    with Cons.IH [of j] Cons.prems show ?thesis by (auto split: if_splits)
  qed auto
qed simp

definition source_credit :: "system \<Rightarrow> string \<Rightarrow> int" where
  "source_credit s = key_credit (Source (lconfig (lim s))) (sources (lim s)) (lastNow (lim s))"

definition actor_credit :: "system \<Rightarrow> string \<Rightarrow> int" where
  "actor_credit s = key_credit (Actor (lconfig (lim s))) (actors (lim s)) (lastNow (lim s))"

lemma limiter_okD:
  assumes "limiter_ok s"
  shows "validRate (Source (lconfig (lim s)))" "validRate (Actor (lconfig (lim s)))"
    "full_credit (Source (lconfig (lim s))) \<le> IdleTTL (lconfig (lim s))"
    "full_credit (Actor (lconfig (lim s))) \<le> IdleTTL (lconfig (lim s))"
    "IdleTTL (lconfig (lim s)) \<le> maximumIdleTTL"
    "pool_ok (Source (lconfig (lim s))) (lastNow (lim s)) (sources (lim s))"
    "pool_ok (Actor (lconfig (lim s))) (lastNow (lim s)) (actors (lim s))"
  using assms by (auto simp: limiter_ok_def intro: validateConfig_rates)

text \<open>
  The one-step law of the whole limiter: the invariant, the clock and both credits after
  any call.
\<close>

definition step_law :: "system \<Rightarrow> call \<Rightarrow> bool" where
  "step_law s c \<longleftrightarrow>
     (let s' = fst (perform s c); dt = lastNow (lim s') - lastNow (lim s) in
      limiter_ok s' \<and> lconfig (lim s') = lconfig (lim s) \<and> 0 \<le> dt \<and>
      (\<forall>k. source_credit s' k +
             (if source_takes s c k then RefillInterval (Source (lconfig (lim s))) else 0)
           \<le> source_credit s k + dt) \<and>
      (\<forall>k. actor_credit s' k +
             (if actor_takes s c k then RefillInterval (Actor (lconfig (lim s))) else 0)
           \<le> actor_credit s k + dt))"

lemma step_law_idle:
  assumes "limiter_ok s" and "perform s c = (s', d)" and "lim s' = lim s"
    and "active_permits s' = active_permits s"
    and "\<And>k. \<not> source_takes s c k" and "\<And>k. \<not> actor_takes s c k"
  shows "step_law s c"
  using assms by (auto simp: step_law_def limiter_ok_def source_credit_def actor_credit_def)

lemma step_law_source:
  assumes ok: "limiter_ok s"
  shows "step_law s (CallSource ctx op source now)"
proof -
  let ?l = "lim s" and ?c = "CallSource ctx op source now"
  note D = limiter_okD [OF ok]
  show ?thesis
  proof (cases rule: AdmitSource_cases [of ?l ctx op source now])
    case (refused d)
    then show ?thesis
      by (intro step_law_idle [OF ok, of _ s d])
        (auto simp: source_takes_def actor_takes_def)
  next
    case (limited pool res)
    note T = pool_admit_takes [OF D(1,6) max.cobounded2 D(3,5) _ limited(2)]
    note A = pool_ok_later [OF D(7) max.cobounded2, of now]
    show ?thesis
      using ok limited T A key_credit_later [OF max.cobounded2, of _ "actors ?l"]
      by (auto simp: step_law_def Let_def limiter_ok_def source_credit_def actor_credit_def
          source_takes_def actor_takes_def active_permits_def)
  qed
qed

lemma step_law_actor:
  assumes ok: "limiter_ok s"
  shows "step_law s (CallActor i ctx op actor now)"
proof (cases "i < length (permits s)")
  case True
  let ?l = "lim s" and ?p = "permits s ! i"
  note D = limiter_okD [OF ok]
  show ?thesis
  proof (cases rule: AdmitActor_cases [of ?l ?p ctx op actor now])
    case (refused d)
    with True show ?thesis
      by (intro step_law_idle [OF ok, of _ s d])
        (auto simp: source_takes_def actor_takes_def)
  next
    case (checked pool res)
    note T = pool_admit_takes [OF D(2,7) max.cobounded2 D(4,5) _ checked(5)]
    note A = pool_ok_later [OF D(6) max.cobounded2, of now]
    show ?thesis
      using ok True checked T A key_credit_later [OF max.cobounded2, of _ "sources ?l"]
      by (auto simp: step_law_def Let_def limiter_ok_def source_credit_def actor_credit_def
          source_takes_def actor_takes_def active_permits_def active_permits_update)
  qed
qed (use ok in \<open>auto intro!: step_law_idle simp: source_takes_def actor_takes_def nil_result_def result_Allowed_def\<close>)

lemma step_law_release:
  assumes ok: "limiter_ok s"
  shows "step_law s (CallRelease i)"
proof (cases "i < length (permits s)")
  case True
  have "0 < active_permits s" if "active (permits s ! i)"
    using True that unfolding active_permits_def
    by (metis filter_empty_conv length_greater_0_conv nth_mem of_nat_0_less_iff)
  with ok True show ?thesis
    by (auto simp: step_law_def Let_def limiter_ok_def source_credit_def actor_credit_def Release_def
        source_takes_def actor_takes_def active_permits_def active_permits_update)
qed (use ok in \<open>auto intro!: step_law_idle simp: source_takes_def actor_takes_def nil_result_def result_Allowed_def\<close>)

lemma step_law_all: "limiter_ok s \<Longrightarrow> step_law s c"
  by (cases c) (auto intro: step_law_source step_law_actor step_law_release)

subsection \<open>Budgets along a run\<close>

text \<open>How many calls of a run take from a given key.\<close>

fun taken :: "('s \<Rightarrow> 'c \<Rightarrow> 's) \<Rightarrow> ('s \<Rightarrow> 'c \<Rightarrow> bool) \<Rightarrow> 's \<Rightarrow> 'c list \<Rightarrow> int" where
  "taken step takes s [] = 0"
| "taken step takes s (c # cs) =
     (if takes s c then 1 else 0) + taken step takes (step s c) cs"

locale token_budget =
  fixes ok :: "'s \<Rightarrow> bool" and clock :: "'s \<Rightarrow> int" and cost :: "'s \<Rightarrow> int" and cap :: "'s \<Rightarrow> int"
    and credit_of :: "'s \<Rightarrow> 'k \<Rightarrow> int" and step :: "'s \<Rightarrow> 'c \<Rightarrow> 's"
    and takes :: "'s \<Rightarrow> 'c \<Rightarrow> 'k \<Rightarrow> bool"
  assumes step_ok: "ok s \<Longrightarrow> ok (step s c)"
    and step_cost: "ok s \<Longrightarrow> cost (step s c) = cost s"
    and credit_range: "ok s \<Longrightarrow> 0 \<le> credit_of s k \<and> credit_of s k \<le> cap s"
    and credit_step: "ok s \<Longrightarrow>
      credit_of (step s c) k + (if takes s c k then cost s else 0)
        \<le> credit_of s k + (clock (step s c) - clock s)"
begin

lemma run_ok: "ok s \<Longrightarrow> ok (foldl step s cs)"
  by (induction cs arbitrary: s) (auto intro: step_ok)

lemma credit_run:
  "ok s \<Longrightarrow> credit_of (foldl step s cs) k + cost s * taken step (\<lambda>s c. takes s c k) s cs
     \<le> credit_of s k + (clock (foldl step s cs) - clock s)"
proof (induction cs arbitrary: s)
  case (Cons c cs)
  from Cons.IH [OF step_ok [OF Cons.prems], of c] credit_step [OF Cons.prems, of c k] step_cost [OF Cons.prems, of c]
  show ?case by (auto simp: distrib_left split: if_splits)
qed simp

theorem budget:
  assumes "ok s"
  shows "cost s * taken step (\<lambda>s c. takes s c k) s cs \<le> cap s + (clock (foldl step s cs) - clock s)"
  using credit_run [OF assms, of cs k] credit_range [OF run_ok [OF assms], of cs k] credit_range [OF assms, of k]
  by linarith

end

definition run_step :: "system \<Rightarrow> call \<Rightarrow> system" where
  "run_step s c = fst (perform s c)"

lemma step_law_run:
  assumes "limiter_ok s"
  shows "limiter_ok (run_step s c)" "lconfig (lim (run_step s c)) = lconfig (lim s)"
    "source_credit (run_step s c) k + (if source_takes s c k then RefillInterval (Source (lconfig (lim s))) else 0)
       \<le> source_credit s k + (lastNow (lim (run_step s c)) - lastNow (lim s))"
    "actor_credit (run_step s c) k + (if actor_takes s c k then RefillInterval (Actor (lconfig (lim s))) else 0)
       \<le> actor_credit s k + (lastNow (lim (run_step s c)) - lastNow (lim s))"
    "lastNow (lim s) \<le> lastNow (lim (run_step s c))"
  using step_law_all [OF assms, of c] by (auto simp: step_law_def Let_def run_step_def)

interpretation src: token_budget limiter_ok "\<lambda>s. lastNow (lim s)"
  "\<lambda>s. RefillInterval (Source (lconfig (lim s)))" "\<lambda>s. full_credit (Source (lconfig (lim s)))"
  source_credit run_step source_takes
  by unfold_locales
    (use step_law_run in \<open>auto simp: source_credit_def intro!: key_credit_bounds limiter_okD\<close>)

interpretation act: token_budget limiter_ok "\<lambda>s. lastNow (lim s)"
  "\<lambda>s. RefillInterval (Actor (lconfig (lim s)))" "\<lambda>s. full_credit (Actor (lconfig (lim s)))"
  actor_credit run_step actor_takes
  by unfold_locales
    (use step_law_run in \<open>auto simp: actor_credit_def intro!: key_credit_bounds limiter_okD\<close>)

lemma newLimiter_ok: "newLimiter c t = Some l \<Longrightarrow> limiter_ok \<lparr>lim = l, permits = []\<rparr>"
  by (auto simp: newLimiter_def limiter_ok_def active_permits_def newBucketPool_def pool_ok_def
      validateConfig_def split: if_splits)

lemma run_config: "limiter_ok s \<Longrightarrow> lconfig (lim (foldl run_step s cs)) = lconfig (lim s)"
  by (induction cs arbitrary: s) (auto simp: step_law_run)

subsection \<open>Properties\<close>

text \<open>
  A small configuration for the examples: two tokens per source and one per actor, one
  token restored every ten nanoseconds.
\<close>

definition sample_config :: config where
  "sample_config =
     \<lparr>Source = \<lparr>Burst = 2, RefillInterval = 10\<rparr>, Actor = \<lparr>Burst = 1, RefillInterval = 10\<rparr>,
      MaxSources = 2, MaxActors = 2, MaxConcurrent = 5, IdleTTL = 20, CleanupLimit = 1,
      OverloadRetryAfter = 1\<rparr>"

definition sample_limiter :: limiter where
  "sample_limiter = \<lparr>lconfig = sample_config, sources = newBucketPool 2, actors = newBucketPool 2,
     inFlight = 0, lastNow = 0\<rparr>"

definition sample_system :: system where
  "sample_system = \<lparr>lim = sample_limiter, permits = []\<rparr>"

definition sample_call :: "int \<Rightarrow> call" where
  "sample_call t = CallSource (False, False) OperationRegister (IPv4 16909060) t"

lemma sample_newLimiter: "newLimiter sample_config 0 = Some sample_limiter"
  by (simp add: newLimiter_def validateConfig_def sample_config_def sample_limiter_def limit_defs
      minimumFullRefill_def validRate_def)

lemma sample_system_ok: "limiter_ok sample_system"
  unfolding sample_system_def by (rule newLimiter_ok [OF sample_newLimiter])

lemma sample_address: "string4 16909060 = ''1.2.3.4''" "validSourceAddress (IPv4 16909060)"
  by (simp_all add: string4_def octets_def join_with_def itoa.simps char_of_def bit_0
      validSourceAddress_def IsMulticast_def)

lemma sample_key: "bucketKey OperationRegister ''1.2.3.4'' = ''8:register1.2.3.4''"
  by (simp add: bucketKey_def operation_defs itoa.simps char_of_def bit_0)

lemmas sample_run = sample_system_def sample_limiter_def sample_config_def sample_call_def run_step_def
  source_takes_def AdmitSource_def sample_address sample_key Operation_Valid_def currentTimeLocked_def
  pool_admit_def pool_take_def newBucketPool_def result_Allowed_def refill_def Let_def
  time_Sub_def monotonicMaximum_def eval_nat_numeral retryAfter_def full_credit_def

text \<open>C1: over any sequence of calls on a limiter, the source-stage admissions of one
  operation and source address are at most a full burst plus one per refill interval of
  the time that passes, whatever other sources, actors, evictions and releases happen in
  between.\<close>

theorem source_rate_bound:
  assumes "limiter_ok s"
  shows "RefillInterval (Source (lconfig (lim s))) * taken run_step (\<lambda>s c. source_takes s c k) s cs
    \<le> Burst (Source (lconfig (lim s))) * RefillInterval (Source (lconfig (lim s)))
      + (lastNow (lim (foldl run_step s cs)) - lastNow (lim s))"
  using src.budget [OF assms] by (simp add: full_credit_def)

theorem source_rate_bound_witness:
  "limiter_ok sample_system \<and>
   taken run_step (\<lambda>s c. source_takes s c ''8:register1.2.3.4'') sample_system
     [sample_call 1, sample_call 2, sample_call 3] = 2 \<and>
   10 * taken run_step (\<lambda>s c. source_takes s c ''8:register1.2.3.4'') sample_system
     [sample_call 1, sample_call 2, sample_call 3] \<le> (2 * 10 + (3 - 0) :: int)"
  using source_rate_bound [OF sample_system_ok, of "''8:register1.2.3.4''"
      "[sample_call 1, sample_call 2, sample_call 3]"] sample_system_ok
  by (simp add: sample_run)

text \<open>The same bound for the second stage: the admissions of one operation by one
  authenticated relay actor.\<close>

lemma actor_rate_bound:
  assumes "limiter_ok s"
  shows "RefillInterval (Actor (lconfig (lim s))) * taken run_step (\<lambda>s c. actor_takes s c k) s cs
    \<le> Burst (Actor (lconfig (lim s))) * RefillInterval (Actor (lconfig (lim s)))
      + (lastNow (lim (foldl run_step s cs)) - lastNow (lim s))"
  using act.budget [OF assms] by (simp add: full_credit_def)

lemma actor_rate_bound_witness:
  "limiter_ok sample_system \<and>
   10 * taken run_step (\<lambda>s c. actor_takes s c ''8:registerx'') sample_system
     [sample_call 1, CallRelease 0] \<le> (1 * 10 + (1 - 0) :: int)"
  using actor_rate_bound [OF sample_system_ok, of "''8:registerx''" "[sample_call 1, CallRelease 0]"]
    sample_system_ok
  by (simp add: sample_run actor_takes_def Release_def)

text \<open>Whatever calls are made on a limiter built from an accepted configuration, the
  in-flight counter is the number of permits not yet released, it never exceeds
  \<open>MaxConcurrent\<close>, and neither bucket map grows beyond its configured size.\<close>

theorem limiter_run_bounded:
  assumes "newLimiter c t = Some l"
  shows "let s = foldl run_step \<lparr>lim = l, permits = []\<rparr> cs in
    inFlight (lim s) = active_permits s \<and> inFlight (lim s) \<le> MaxConcurrent c \<and>
    int (length (entries (sources (lim s)))) \<le> MaxSources c \<and>
    int (length (entries (actors (lim s)))) \<le> MaxActors c"
proof -
  let ?s = "foldl run_step \<lparr>lim = l, permits = []\<rparr> cs"
  have "limiter_ok ?s" and "lconfig (lim ?s) = c"
    using src.run_ok run_config newLimiter_ok [OF assms] assms
    by (auto simp: newLimiter_def split: if_splits)
  then show ?thesis by (auto simp: limiter_ok_def pool_ok_def Let_def)
qed

theorem limiter_run_bounded_witness:
  "newLimiter sample_config 0 = Some sample_limiter \<and>
   active_permits (foldl run_step sample_system [sample_call 1]) \<le> 5"
  using limiter_run_bounded [OF sample_newLimiter, of "[sample_call 1]"] sample_newLimiter
  by (simp add: Let_def sample_system_def sample_config_def)

text \<open>C37: one admission refines the ideal bucket in which every key owns a continuous
  credit: with an interval of credit the call is allowed and takes exactly one interval,
  with less it is refused and told exactly what is missing, other keys are untouched, and
  idle eviction is unobservable. The only other answer, a capacity refusal, changes
  nothing and happens only to an unknown key when the pool is full and every bucket in it
  was used within the idle time.\<close>

theorem admission_refines_credit:
  assumes valid: "validRate r" and ok: "pool_ok r t p" and le: "t \<le> now"
    and ttl: "full_credit r \<le> ttl" "ttl \<le> maximumIdleTTL" and "0 < limit"
    and admit: "pool_admit p key now r ttl limit limited overload = (p', res)"
  shows "pool_ok r now p' \<and>
    (\<exists>room. (key_credit r p' now, res) = admit_spec r limited overload (key_credit r p now) key room \<and>
      (room \<or> p' = p \<and> map_of (entries p) key = None \<and> int (length (entries p)) = maximum p \<and>
         (\<forall>k e. map_of (entries p) k = Some e \<longrightarrow> now - lastSeen e < ttl)))"
  using pool_admit_refines [OF valid ok le ttl admit] \<open>0 < limit\<close> by (metis (no_types, lifting))

theorem admission_refines_credit_witness:
  "\<exists>room. (key_credit \<lparr>Burst = 2, RefillInterval = 10\<rparr>
              (fst (pool_admit (newBucketPool 1) ''k'' 5 \<lparr>Burst = 2, RefillInterval = 10\<rparr> 20 1
                      DecisionSourceRateLimited 7)) 5,
            \<lparr>Decision = DecisionAllowed, RetryAfter = 0\<rparr>)
     = admit_spec \<lparr>Burst = 2, RefillInterval = 10\<rparr> DecisionSourceRateLimited 7
         (key_credit \<lparr>Burst = 2, RefillInterval = 10\<rparr> (newBucketPool 1) 5) ''k'' room"
  using admission_refines_credit [of "\<lparr>Burst = 2, RefillInterval = 10\<rparr>" 0 "newBucketPool 1" 5 20 1 "''k''"
      DecisionSourceRateLimited 7] newBucketPool_ok [of 1 "\<lparr>Burst = 2, RefillInterval = 10\<rparr>" 0]
  by (auto simp: validRate_def limit_defs full_credit_def pool_admit_def pool_take_def newBucketPool_def)

text \<open>A rate refusal carries an exact retry hint. The hint is positive and at most one
  refill interval; if the key is not used in between, a later call is allowed from that
  moment on and refused before it.\<close>

lemma retry_after_exact:
  assumes valid: "validRate r" and ok: "pool_ok r t p" and le: "t \<le> now"
    and ttl: "full_credit r \<le> ttl" "ttl \<le> maximumIdleTTL"
    and lim: "limited \<noteq> DecisionAllowed" "limited \<noteq> DecisionCapacityLimited"
    and admit: "pool_admit p key now r ttl limit limited overload = (p', res)" and "Decision res = limited"
    and "now \<le> later"
  shows "0 < RetryAfter res \<and> RetryAfter res \<le> RefillInterval r \<and>
    (result_Allowed (snd (pool_admit p' key later r ttl limit limited overload))
       \<longleftrightarrow> now + RetryAfter res \<le> later)"
proof -
  obtain room where R: "pool_ok r now p'"
    "(key_credit r p' now, res) = admit_spec r limited overload (key_credit r p now) key room"
    "room \<Longrightarrow> map_of (entries p') key \<noteq> None"
    using pool_admit_refines [OF valid ok le ttl admit] by metis
  with lim \<open>Decision res = limited\<close> have room: room and eq: "key_credit r p' now = key_credit r p now"
    and small: "key_credit r p now key < RefillInterval r"
    and ra: "RetryAfter res = RefillInterval r - key_credit r p now key"
    by (auto simp: admit_spec_def split: if_splits)
  then obtain e where e: "map_of (entries p') key = Some e" using R(3) by auto
  have c: "credit r e now = key_credit r p now key" using e eq by (metis key_credit_def option.simps(5))
  have oke: "bucket_ok r now e" using R(1) e by (simp add: pool_ok_def)
  obtain p2 res2 where A: "pool_admit p' key later r ttl limit limited overload = (p2, res2)" by fastforce
  obtain room2 where R2: "(key_credit r p2 later, res2) = admit_spec r limited overload (key_credit r p' later) key room2"
    "\<not> room2 \<Longrightarrow> map_of (entries p') key = None"
    using pool_admit_refines [OF valid R(1) \<open>now \<le> later\<close> ttl A] by metis
  have "1 * RefillInterval r \<le> full_credit r"
    unfolding full_credit_def using validRateD [OF valid] by (intro mult_right_mono) auto
  moreover have "key_credit r p' later key = credit r e later" using e by (simp add: key_credit_def)
  ultimately have "result_Allowed res2 \<longleftrightarrow> now + RetryAfter res \<le> later"
    using R2 e lim c small ra by (auto simp: admit_spec_def result_Allowed_def credit_def split: if_splits)
  moreover have "0 \<le> key_credit r p now key" using credit_bounds(1) [OF valid oke order_refl] c by simp
  ultimately show ?thesis using A ra small by simp
qed

definition sample_pool :: bucketPool where
  "sample_pool = \<lparr>entries = [(''k'', \<lparr>tokens = 0, lastRefill = 1, lastSeen = 3\<rparr>)],
     order = [''k''], maximum = 1\<rparr>"

definition sample_rate :: rate where "sample_rate = \<lparr>Burst = 2, RefillInterval = 10\<rparr>"

lemma sample_pool_admit:
  "pool_admit sample_pool ''k'' 5 sample_rate 20 1 DecisionActorRateLimited 7 =
     (\<lparr>entries = [(''k'', \<lparr>tokens = 0, lastRefill = 1, lastSeen = 5\<rparr>)], order = [''k''], maximum = 1\<rparr>,
      \<lparr>Decision = DecisionActorRateLimited, RetryAfter = 6\<rparr>)"
  by (simp add: sample_pool_def sample_rate_def pool_admit_def pool_take_def refill_def retryAfter_def
      time_Sub_def monotonicMaximum_def)

lemma sample_pool_ok: "pool_ok sample_rate 4 sample_pool" "validRate sample_rate" "full_credit sample_rate \<le> 20"
  by (simp_all add: pool_ok_def bucket_ok_def sample_pool_def sample_rate_def validRate_def limit_defs full_credit_def)

lemma retry_after_exact_witness:
  "result_Allowed (snd (pool_admit
     \<lparr>entries = [(''k'', \<lparr>tokens = 0, lastRefill = 1, lastSeen = 5\<rparr>)], order = [''k''], maximum = 1\<rparr>
     ''k'' 11 sample_rate 20 1 DecisionActorRateLimited 7))"
  using retry_after_exact [OF sample_pool_ok(2,1) _ sample_pool_ok(3) _ _ _ sample_pool_admit, of 11]
  by (simp add: limit_defs)

text \<open>Two pairs of an operation and an identity share a bucket only if they are equal.\<close>

lemma bucketKey_injective:
  "bucketKey op i = bucketKey op' i' \<longleftrightarrow> op = op' \<and> i = i'"
proof
  assume eq: "bucketKey op i = bucketKey op' i'"
  have cut: "cut (CHR '':'') (bucketKey o1 j) = (itoa (length o1), o1 @ j, True)" for o1 j
    unfolding bucketKey_def by (simp add: cut_append itoa_no_sep is_digit_def code_def)
  from eq have "cut (CHR '':'') (bucketKey op i) = cut (CHR '':'') (bucketKey op' i')" by simp
  then show "op = op' \<and> i = i'" by (auto simp: cut)
qed simp

end
