(* ===== verification/Tx.thy ===== *)
theory Tx
  imports Prelude
begin

section \<open>SQLite write transactions\<close>

text \<open>
  Every write of \<open>internal/storage/sqlite\<close> has the same frame: acquire a write lease
  (\<open>RelayRepository.begin\<close>), begin an immediate transaction, run statements, commit, and
  roll back on every other way out. A transaction body is a function of the database and
  of a list of fault flags, one per statement: a set flag makes that statement fail with
  a driver error (I/O, a busy database, a cancelled context). A statement that violates a
  constraint fails as well. A body ends with a commit and the value to return, or with a
  value to return without a commit. A commit that reports an error has not taken effect,
  which is the contract of SQLite.
\<close>

type_synonym ('d, 'a) tx = "'d \<times> bool list \<Rightarrow> 'a result \<times> ('d \<times> bool list)"

definition driver_error :: goerror where
  "driver_error = Opaque ''driver error''"

definition constraint_error :: goerror where
  "constraint_error = Opaque ''constraint failed''"

definition ret :: "'a \<Rightarrow> ('d, 'a) tx" where
  "ret x s = (Inr x, s)"

definition fail :: "goerror \<Rightarrow> ('d, 'a) tx" where
  "fail e s = (Inl e, s)"

definition bindt :: "('d, 'a) tx \<Rightarrow> ('a \<Rightarrow> ('d, 'b) tx) \<Rightarrow> ('d, 'b) tx" where
  "bindt t f s = (case t s of (Inl e, s') \<Rightarrow> (Inl e, s') | (Inr x, s') \<Rightarrow> f x s')"

text \<open>A read, and a write that may violate a constraint. Each consumes one fault flag.\<close>

definition query :: "string \<Rightarrow> ('d \<Rightarrow> 'a) \<Rightarrow> ('d, 'a) tx" where
  "query action f s =
     (case s of (d, fs) \<Rightarrow>
        (if fs \<noteq> [] \<and> hd fs then Inl (storageFailure action driver_error) else Inr (f d), (d, tl fs)))"

definition exec :: "string \<Rightarrow> ('d \<Rightarrow> 'd option) \<Rightarrow> ('d, unit) tx" where
  "exec action f s =
     (case s of (d, fs) \<Rightarrow>
        if fs \<noteq> [] \<and> hd fs then (Inl (storageFailure action driver_error), (d, tl fs))
        else case f d of
               None \<Rightarrow> (Inl (storageFailure action constraint_error), (d, tl fs))
             | Some d' \<Rightarrow> (Inr (), (d', tl fs)))"

text \<open>\<open>if err := t; errors.Is(err, target)\<close> then another value.\<close>

definition on_error :: "('d, 'a) tx \<Rightarrow> sentinel \<Rightarrow> ('d, 'a) tx \<Rightarrow> ('d, 'a) tx" where
  "on_error t target h s =
     (case t s of
        (Inl e, s') \<Rightarrow> if errors_is e target then h s' else (Inl e, s')
      | (Inr x, s') \<Rightarrow> (Inr x, s'))"

text \<open>
  Bounded reads: the query may fail, and the iteration over its rows may fail after some
  of them. The last case is \<open>rows.Err\<close>: the rows before the failure have been decoded.
\<close>

record read_faults =
  query_fault :: bool
  iterate_fault :: "nat option"

definition quiet :: read_faults where
  "quiet = \<lparr>query_fault = False, iterate_fault = None\<rparr>"

definition scan_page :: "read_faults \<Rightarrow> string \<Rightarrow> string \<Rightarrow> ('r \<Rightarrow> 'x result) \<Rightarrow> ('x \<Rightarrow> 'k) \<Rightarrow> 'k \<Rightarrow> nat
    \<Rightarrow> 'r list \<Rightarrow> ('x list \<times> 'k) result" where
  "scan_page rf readAction iterateAction decode key zero limit rows =
     (if query_fault rf then Inl (storageFailure readAction driver_error)
      else case iterate_fault rf of
        None \<Rightarrow> read_page decode key zero limit [] rows
      | Some k \<Rightarrow>
          if length rows \<le> k then read_page decode key zero limit [] rows
          else (case read_page decode key zero limit [] (take k rows) of
                  Inl e \<Rightarrow> Inl e
                | Inr _ \<Rightarrow> Inl (storageFailure iterateAction driver_error)))"

lemma scan_page_quiet [simp]:
  "scan_page quiet a b decode key zero limit rows = read_page decode key zero limit [] rows"
  by (simp add: scan_page_def quiet_def)

lemma scan_page_Inr:
  "scan_page rf a b decode key zero limit rows = Inr p \<Longrightarrow>
   read_page decode key zero limit [] rows = Inr p"
  by (auto simp: scan_page_def split: if_splits option.splits sum.splits)

datatype 'a completion = Commit string 'a | Abandon 'a

text \<open>
  What the environment contributes to one write: the answer of the write admission, and
  the faults of \<open>BeginTx\<close>, of the statements and of \<open>Commit\<close>.
\<close>

record environment =
  admission :: "goerror option"
  begin_fault :: bool
  faults :: "bool list"
  commit_fault :: bool

definition calm :: environment where
  "calm = \<lparr>admission = None, begin_fault = False, faults = [], commit_fault = False\<rparr>"

definition run_tx :: "environment \<Rightarrow> ('d, 'a completion) tx \<Rightarrow> 'd \<Rightarrow> 'a result \<times> 'd" where
  "run_tx env t d =
     (case admission env of
        Some e \<Rightarrow> (Inl (storageFailure ''admit transition'' e), d)
      | None \<Rightarrow>
          if begin_fault env then (Inl (storageFailure ''begin transition'' driver_error), d)
          else case t (d, faults env) of
                 (Inl e, _) \<Rightarrow> (Inl e, d)
               | (Inr (Abandon x), _) \<Rightarrow> (Inr x, d)
               | (Inr (Commit action x), (d', _)) \<Rightarrow>
                   if commit_fault env then (Inl (storageFailure action driver_error), d)
                   else (Inr x, d'))"

named_theorems tx_simps \<open>running a transaction without faults\<close>

lemma ret_calm [tx_simps]: "ret x s = (Inr x, s)"
  by (simp add: ret_def)

lemma fail_calm [tx_simps]: "fail e s = (Inl e, s)"
  by (simp add: fail_def)

lemma query_calm [tx_simps]: "query a f (d, []) = (Inr (f d), (d, []))"
  by (simp add: query_def)

lemma exec_calm [tx_simps]:
  "exec a f (d, []) =
     (case f d of None \<Rightarrow> (Inl (storageFailure a constraint_error), (d, []))
      | Some d' \<Rightarrow> (Inr (), (d', [])))"
  by (simp add: exec_def split: option.splits)

lemma bindt_eval [tx_simps]:
  "bindt t f s = (case t s of (Inl e, s') \<Rightarrow> (Inl e, s') | (Inr x, s') \<Rightarrow> f x s')"
  by (simp add: bindt_def)

lemma run_calm [tx_simps]:
  "run_tx calm t d =
     (case t (d, []) of
        (Inl e, _) \<Rightarrow> (Inl e, d)
      | (Inr (Abandon x), _) \<Rightarrow> (Inr x, d)
      | (Inr (Commit action x), (d', _)) \<Rightarrow> (Inr x, d'))"
  by (auto simp: run_tx_def calm_def split: prod.splits sum.splits completion.splits)

text \<open>Successful runs without faults.\<close>

lemma bindt_Inr:
  "bindt t f s = (Inr x, s') \<longleftrightarrow> (\<exists>y s1. t s = (Inr y, s1) \<and> f y s1 = (Inr x, s'))"
  by (auto simp: bindt_def split: prod.splits sum.splits)

lemma exec_Inr: "exec a f (d, []) = (Inr u, s') \<longleftrightarrow> (\<exists>d'. f d = Some d' \<and> s' = (d', []))"
  by (auto simp: exec_def split: option.splits)

lemma query_Inr: "query a f (d, []) = (Inr x, s') \<longleftrightarrow> x = f d \<and> s' = (d, [])"
  by (auto simp: query_def)

subsection \<open>Faults are failures, never wrong results\<close>

text \<open>
  A body tolerates faults when any run either fails with a storage failure caused by the
  driver, or does exactly what the run without faults does.
\<close>

definition fault_tolerant :: "('d, 'a) tx \<Rightarrow> bool" where
  "fault_tolerant t \<longleftrightarrow> (\<forall>d fs.
     (\<exists>a. fst (t (d, fs)) = Inl (storageFailure a driver_error)) \<or>
     (fst (t (d, fs)) = fst (t (d, [])) \<and> fst (snd (t (d, fs))) = fst (snd (t (d, []))) \<and>
      snd (snd (t (d, []))) = []))"

named_theorems tolerant \<open>fault tolerance of the transaction combinators\<close>

lemma ret_tolerant [tolerant]: "fault_tolerant (ret x)"
  by (simp add: fault_tolerant_def ret_def)

lemma fail_tolerant [tolerant]: "fault_tolerant (fail e)"
  by (simp add: fault_tolerant_def fail_def)

lemma query_tolerant [tolerant]: "fault_tolerant (query a f)"
  by (auto simp: fault_tolerant_def query_def)

lemma exec_tolerant [tolerant]: "fault_tolerant (exec a f)"
  by (auto simp: fault_tolerant_def exec_def split: option.splits)

lemma bindt_tolerant [tolerant]:
  assumes t: "fault_tolerant t" and f: "\<And>x. fault_tolerant (f x)"
  shows "fault_tolerant (bindt t f)"
  unfolding fault_tolerant_def
proof (intro allI)
  fix d fs
  obtain r d1 fs1 where run: "t (d, fs) = (r, (d1, fs1))" by (cases "t (d, fs)") auto
  obtain r0 d0 where calm: "t (d, []) = (r0, (d0, snd (snd (t (d, [])))))" by (cases "t (d, [])") auto
  show "(\<exists>a. fst (bindt t f (d, fs)) = Inl (storageFailure a driver_error)) \<or>
     (fst (bindt t f (d, fs)) = fst (bindt t f (d, [])) \<and>
      fst (snd (bindt t f (d, fs))) = fst (snd (bindt t f (d, []))) \<and>
      snd (snd (bindt t f (d, []))) = [])"
  proof (cases "\<exists>a. r = Inl (storageFailure a driver_error)")
    case True
    with run show ?thesis by (auto simp: bindt_def)
  next
    case False
    with t run have same: "t (d, []) = (r, (d1, []))"
      unfolding fault_tolerant_def by (metis fst_conv prod.collapse snd_conv)
    show ?thesis
    proof (cases r)
      case (Inl e)
      with run same show ?thesis by (simp add: bindt_def)
    next
      case (Inr x)
      with run same f [of x] show ?thesis by (simp add: bindt_def fault_tolerant_def)
    qed
  qed
qed

lemma on_error_tolerant [tolerant]:
  assumes t: "fault_tolerant t" and h: "fault_tolerant h" and "target \<noteq> ErrStorageFailure"
  shows "fault_tolerant (on_error t target h)"
  unfolding fault_tolerant_def
proof (intro allI)
  fix d fs
  obtain r d1 fs1 where run: "t (d, fs) = (r, (d1, fs1))" by (cases "t (d, fs)") auto
  show "(\<exists>a. fst (on_error t target h (d, fs)) = Inl (storageFailure a driver_error)) \<or>
     (fst (on_error t target h (d, fs)) = fst (on_error t target h (d, [])) \<and>
      fst (snd (on_error t target h (d, fs))) = fst (snd (on_error t target h (d, []))) \<and>
      snd (snd (on_error t target h (d, []))) = [])"
  proof (cases "\<exists>a. r = Inl (storageFailure a driver_error)")
    case True
    with run assms(3) show ?thesis by (auto simp: on_error_def driver_error_def)
  next
    case False
    with t run have same: "t (d, []) = (r, (d1, []))"
      unfolding fault_tolerant_def by (metis fst_conv prod.collapse snd_conv)
    with run h show ?thesis by (cases r) (auto simp: on_error_def fault_tolerant_def)
  qed
qed

lemma if_tolerant [tolerant]:
  "fault_tolerant t \<Longrightarrow> fault_tolerant u \<Longrightarrow> fault_tolerant (if b then t else u)"
  by simp

lemma option_tolerant [tolerant]:
  "fault_tolerant t \<Longrightarrow> (\<And>x. fault_tolerant (u x)) \<Longrightarrow>
   fault_tolerant (case v of None \<Rightarrow> t | Some x \<Rightarrow> u x)"
  by (cases v) auto

lemma prod_tolerant [tolerant]:
  "(\<And>x y. fault_tolerant (u x y)) \<Longrightarrow> fault_tolerant (case v of (x, y) \<Rightarrow> u x y)"
  by (cases v) auto

text \<open>An interrupted write leaves the database as it was and reports a storage failure.\<close>

definition interrupted :: "'d \<Rightarrow> 'a result \<times> 'd \<Rightarrow> bool" where
  "interrupted d out \<longleftrightarrow> snd out = d \<and> (\<exists>a c. fst out = Inl (storageFailure a c))"

lemma run_tx_tolerant:
  assumes "fault_tolerant t"
  shows "interrupted d (run_tx env t d) \<or> run_tx env t d = run_tx calm t d"
proof (cases "admission env = None \<and> \<not> begin_fault env")
  case True
  obtain r d1 fs1 where run: "t (d, faults env) = (r, (d1, fs1))" by (cases "t (d, faults env)") auto
  show ?thesis
  proof (cases "\<exists>a. r = Inl (storageFailure a driver_error)")
    case True
    with run \<open>admission env = None \<and> _\<close> show ?thesis
      by (intro disjI1) (auto simp: interrupted_def run_tx_def storageFailure_def)
  next
    case False
    with assms run have same: "t (d, []) = (r, (d1, []))"
      unfolding fault_tolerant_def by (metis fst_conv prod.collapse snd_conv)
    with run True show ?thesis
      by (auto simp: interrupted_def run_tx_def calm_def split: sum.splits completion.splits)
  qed
next
  case False
  then show ?thesis by (auto simp: interrupted_def run_tx_def split: option.splits)
qed

lemma run_tx_error_unchanged: "fst (run_tx env t d) = Inl e \<Longrightarrow> snd (run_tx env t d) = d"
  by (auto simp: run_tx_def split: option.splits prod.splits sum.splits completion.splits if_splits)

end
