(* ===== verification/Schema.thy ===== *)
theory Schema
  imports Tx Identity
begin

section \<open>The persistent state\<close>

text \<open>
  The tables of \<open>internal/storage/sqlite/migrations\<close> that the relay repository reads and
  writes, after the last migration. A table with a primary key is an association list, an
  append-only event table is the list of its rows in insertion order with their
  \<open>AUTOINCREMENT\<close> ids. Columns constrained to a closed set of texts are datatypes. The
  remaining \<open>CHECK\<close> constraints are bool-valued predicates, and every insert and update
  goes through them: a row that violates one is refused.
\<close>

subsection \<open>Relays\<close>

datatype lifecycle = Registered | Unregistered | Pruned

datatype administrative = Active | Suspended

record relay_row =
  public_base_url :: string
  lifecycle_state :: lifecycle
  administrative_state :: administrative
  first_registered_at :: int
  updated_at :: int
  last_seen_at :: int
  last_heartbeat_at :: "int option"
  unregistered_at :: "int option"
  pruned_at :: "int option"
  suspended_at :: "int option"

definition opt_ge :: "int option \<Rightarrow> int \<Rightarrow> bool" where
  "opt_ge v lo = (case v of None \<Rightarrow> True | Some x \<Rightarrow> lo \<le> x)"

definition opt_le :: "int option \<Rightarrow> int \<Rightarrow> bool" where
  "opt_le v hi = (case v of None \<Rightarrow> True | Some x \<Rightarrow> x \<le> hi)"

lemma opt_bounds [simp]:
  "opt_ge None lo" "opt_ge (Some x) lo \<longleftrightarrow> lo \<le> x" "opt_le None hi" "opt_le (Some x) hi \<longleftrightarrow> x \<le> hi"
  by (simp_all add: opt_ge_def opt_le_def)

definition maximumRelayActorBytes :: nat where "maximumRelayActorBytes = 4096"
definition maximumPublicBaseBytes :: nat where "maximumPublicBaseBytes = 2048"

definition actor_length_ok :: "string \<Rightarrow> bool" where
  "actor_length_ok a \<longleftrightarrow> 1 \<le> length a \<and> length a \<le> maximumRelayActorBytes"

definition base_length_ok :: "string \<Rightarrow> bool" where
  "base_length_ok b \<longleftrightarrow> 1 \<le> length b \<and> length b \<le> maximumPublicBaseBytes"

definition lifecycle_times_ok :: "relay_row \<Rightarrow> bool" where
  "lifecycle_times_ok r =
     (case lifecycle_state r of
        Registered \<Rightarrow> unregistered_at r = None \<and> pruned_at r = None
      | Unregistered \<Rightarrow> unregistered_at r \<noteq> None \<and> pruned_at r = None
      | Pruned \<Rightarrow> unregistered_at r = None \<and> pruned_at r \<noteq> None)"

definition relay_check :: "string \<Rightarrow> relay_row \<Rightarrow> bool" where
  "relay_check actor r \<longleftrightarrow>
     0 \<le> first_registered_at r \<and>
     first_registered_at r \<le> updated_at r \<and>
     first_registered_at r \<le> last_seen_at r \<and>
     opt_ge (last_heartbeat_at r) (first_registered_at r) \<and>
     opt_ge (unregistered_at r) (first_registered_at r) \<and>
     opt_ge (pruned_at r) (first_registered_at r) \<and>
     opt_ge (suspended_at r) (first_registered_at r) \<and>
     actor_length_ok actor \<and> base_length_ok (public_base_url r) \<and>
     lifecycle_times_ok r \<and>
     (administrative_state r = Suspended \<longleftrightarrow> suspended_at r \<noteq> None) \<and>
     opt_le (last_heartbeat_at r) (updated_at r) \<and>
     opt_le (last_heartbeat_at r) (last_seen_at r) \<and>
     opt_le (unregistered_at r) (updated_at r) \<and>
     opt_le (pruned_at r) (updated_at r) \<and>
     opt_ge (pruned_at r) (last_seen_at r) \<and>
     opt_le (suspended_at r) (updated_at r)"

subsection \<open>Audit events\<close>

datatype relay_event_kind =
    RegisterCreated | RegisterUpdated | RegisterUnchanged | HeartbeatRecorded
  | UnregisterRemoved | UnregisterAbsent | RelayPruned

record relay_event =
  event_id :: int
  event_actor :: string
  event_kind :: relay_event_kind
  event_at :: int

datatype moderation_action =
  SuspendApplied | SuspendUnchanged | RestoreApplied | RestoreUnchanged

record moderation_event =
  moderation_id :: int
  moderation_actor :: string
  moderation_action :: moderation_action
  moderator_id :: string
  reason_code :: string
  moderation_at :: int

datatype enrollment_action =
  EnrollmentOpenedEvent | EnrollmentOpenUnchanged | EnrollmentClosedEvent | EnrollmentClosedUnchanged

record enrollment_event =
  enrollment_id :: int
  enrollment_action :: enrollment_action
  enrollment_operator :: string
  enrollment_at :: int

record policy_row =
  enrollment_open :: int
  policy_updated_at :: int

subsection \<open>Discoveries and observations\<close>

datatype discovery_state = DiscoveryActive | DiscoveryRemoved

record discovery_row =
  discovery_base_url :: string
  discovery_state :: discovery_state
  first_discovered_at :: int
  discovery_updated_at :: int
  removed_at :: "int option"

definition discovery_check :: "string \<Rightarrow> discovery_row \<Rightarrow> bool" where
  "discovery_check actor r \<longleftrightarrow>
     actor_length_ok actor \<and> base_length_ok (discovery_base_url r) \<and>
     0 \<le> first_discovered_at r \<and> first_discovered_at r \<le> discovery_updated_at r \<and>
     opt_ge (removed_at r) (first_discovered_at r) \<and>
     (discovery_state r = DiscoveryRemoved \<longleftrightarrow> removed_at r \<noteq> None) \<and>
     opt_le (removed_at r) (discovery_updated_at r)"

datatype discovery_action =
  DiscoveryAddedEvent | DiscoveryUpdatedEvent | DiscoveryUnchangedEvent | DiscoveryRemovedEvent | DiscoveryAbsentEvent

datatype source_kind = SourceManual | SourceFile

record discovery_event =
  discovery_id :: int
  discovery_actor :: string
  discovery_action :: discovery_action
  discovery_operator :: string
  discovery_reason :: string
  discovery_source :: source_kind
  discovery_label :: "string option"
  discovery_at :: int

datatype reachability = ReachabilityUnknown | ReachabilityReachable | ReachabilityUnreachable

datatype inbox_probe = InboxNotChecked | InboxResponsive | InboxMethodRejected | InboxUnreachable

record observation =
  actor_state :: reachability
  actor_last_checked :: "int option"
  actor_last_success :: "int option"
  inbox_url :: "string option"
  inbox_declared :: "int option"
  inbox_probe_state :: inbox_probe
  inbox_last_checked :: "int option"
  rfc9421_verified :: "int option"
  observation_updated_at :: int
  revision :: int

definition actor_probe_ok :: "observation \<Rightarrow> bool" where
  "actor_probe_ok r =
     (case actor_state r of
        ReachabilityUnknown \<Rightarrow> actor_last_checked r = None \<and> actor_last_success r = None
      | ReachabilityReachable \<Rightarrow>
          actor_last_checked r \<noteq> None \<and> actor_last_success r = actor_last_checked r
      | ReachabilityUnreachable \<Rightarrow>
          (case actor_last_checked r of None \<Rightarrow> False | Some c \<Rightarrow> opt_le (actor_last_success r) c))"

definition observation_check :: "string \<Rightarrow> observation \<Rightarrow> bool" where
  "observation_check actor r \<longleftrightarrow>
     actor_length_ok actor \<and>
     opt_ge (actor_last_checked r) 0 \<and> opt_ge (actor_last_success r) 0 \<and>
     (case inbox_url r of None \<Rightarrow> True | Some u \<Rightarrow> actor_length_ok u) \<and>
     opt_ge (inbox_declared r) 0 \<and> opt_ge (inbox_last_checked r) 0 \<and>
     opt_ge (rfc9421_verified r) 0 \<and> 0 \<le> observation_updated_at r \<and> 1 \<le> revision r \<and>
     actor_probe_ok r \<and>
     (inbox_url r = None \<longleftrightarrow> inbox_declared r = None) \<and>
     (inbox_probe_state r = InboxNotChecked \<longleftrightarrow> inbox_last_checked r = None) \<and>
     opt_le (actor_last_checked r) (observation_updated_at r) \<and>
     opt_le (actor_last_success r) (observation_updated_at r) \<and>
     opt_le (inbox_declared r) (observation_updated_at r) \<and>
     opt_le (inbox_last_checked r) (observation_updated_at r) \<and>
     opt_le (rfc9421_verified r) (observation_updated_at r)"

subsection \<open>The database\<close>

record db =
  relays :: "(string, relay_row) table"
  relay_events :: "relay_event list"
  relay_event_seq :: int
  moderation_events :: "moderation_event list"
  moderation_event_seq :: int
  directory_policy :: "policy_row option"
  enrollment_events :: "enrollment_event list"
  enrollment_event_seq :: int
  relay_discoveries :: "(string, discovery_row) table"
  discovery_events :: "discovery_event list"
  discovery_event_seq :: int
  relay_observations :: "(string, observation) table"

text \<open>The database right after the migrations: enrollment is closed.\<close>

definition migrated :: db where
  "migrated =
     \<lparr>relays = [], relay_events = [], relay_event_seq = 0, moderation_events = [],
      moderation_event_seq = 0,
      directory_policy = Some \<lparr>enrollment_open = 0, policy_updated_at = 0\<rparr>,
      enrollment_events = [], enrollment_event_seq = 0, relay_discoveries = [],
      discovery_events = [], discovery_event_seq = 0, relay_observations = []\<rparr>"

subsection \<open>Statements\<close>

definition insert_relay :: "string \<Rightarrow> relay_row \<Rightarrow> db \<Rightarrow> db option" where
  "insert_relay actor r d =
     (if map_of (relays d) actor = None \<and> relay_check actor r
      then Some (d\<lparr>relays := AList.update actor r (relays d)\<rparr>) else None)"

text \<open>\<open>UPDATE relays SET .. WHERE relay_actor = ?\<close>; no row is no change.\<close>

definition update_relay :: "string \<Rightarrow> (relay_row \<Rightarrow> relay_row) \<Rightarrow> db \<Rightarrow> db option" where
  "update_relay actor f d =
     (case map_of (relays d) actor of
        None \<Rightarrow> Some d
      | Some r \<Rightarrow>
          if relay_check actor (f r)
          then Some (d\<lparr>relays := AList.update actor (f r) (relays d)\<rparr>) else None)"

definition insert_relay_event :: "string \<Rightarrow> relay_event_kind \<Rightarrow> int \<Rightarrow> db \<Rightarrow> db option" where
  "insert_relay_event actor kind t d =
     (if actor_length_ok actor \<and> 0 \<le> t
      then Some (d\<lparr>relay_events := relay_events d @
             [\<lparr>event_id = relay_event_seq d + 1, event_actor = actor, event_kind = kind, event_at = t\<rparr>],
             relay_event_seq := relay_event_seq d + 1\<rparr>)
      else None)"

definition token_char :: "char \<Rightarrow> bool" where
  "token_char c \<longleftrightarrow> is_upper c \<or> is_lower c \<or> is_digit c \<or> chars_in ''@._:+-'' c"

text \<open>The \<open>CHECK\<close> of operator identifiers and of reason codes.\<close>

definition operator_check :: "string \<Rightarrow> bool" where
  "operator_check s \<longleftrightarrow> 1 \<le> length s \<and> length s \<le> 128 \<and>
     (is_upper (hd s) \<or> is_lower (hd s) \<or> is_digit (hd s)) \<and> list_all token_char s"

definition reason_check :: "string \<Rightarrow> bool" where
  "reason_check s \<longleftrightarrow> 1 \<le> length s \<and> length s \<le> 64 \<and> is_lower (hd s) \<and>
     list_all (\<lambda>c. is_lower c \<or> is_digit c \<or> chars_in ''_-'' c) s"

definition insert_moderation_event ::
  "string \<Rightarrow> moderation_action \<Rightarrow> string \<Rightarrow> string \<Rightarrow> int \<Rightarrow> db \<Rightarrow> db option" where
  "insert_moderation_event actor act moderator reason t d =
     (if actor_length_ok actor \<and> operator_check moderator \<and> reason_check reason \<and> 0 \<le> t
      then Some (d\<lparr>moderation_events := moderation_events d @
             [\<lparr>moderation_id = moderation_event_seq d + 1, moderation_actor = actor,
               moderation_action = act, moderator_id = moderator, reason_code = reason,
               moderation_at = t\<rparr>],
             moderation_event_seq := moderation_event_seq d + 1\<rparr>)
      else None)"

definition update_policy :: "int \<Rightarrow> int \<Rightarrow> db \<Rightarrow> db option" where
  "update_policy open_value t d =
     (case directory_policy d of
        None \<Rightarrow> Some d
      | Some _ \<Rightarrow>
          if (open_value = 0 \<or> open_value = 1) \<and> 0 \<le> t
          then Some (d\<lparr>directory_policy := Some \<lparr>enrollment_open = open_value, policy_updated_at = t\<rparr>\<rparr>)
          else None)"

definition insert_enrollment_event :: "enrollment_action \<Rightarrow> string \<Rightarrow> int \<Rightarrow> db \<Rightarrow> db option" where
  "insert_enrollment_event act operator t d =
     (if operator_check operator \<and> 0 \<le> t
      then Some (d\<lparr>enrollment_events := enrollment_events d @
             [\<lparr>enrollment_id = enrollment_event_seq d + 1, enrollment_action = act,
               enrollment_operator = operator, enrollment_at = t\<rparr>],
             enrollment_event_seq := enrollment_event_seq d + 1\<rparr>)
      else None)"

definition insert_discovery :: "string \<Rightarrow> discovery_row \<Rightarrow> db \<Rightarrow> db option" where
  "insert_discovery actor r d =
     (if map_of (relay_discoveries d) actor = None \<and> discovery_check actor r
      then Some (d\<lparr>relay_discoveries := AList.update actor r (relay_discoveries d)\<rparr>) else None)"

definition update_discovery :: "string \<Rightarrow> (discovery_row \<Rightarrow> discovery_row) \<Rightarrow> db \<Rightarrow> db option" where
  "update_discovery actor f d =
     (case map_of (relay_discoveries d) actor of
        None \<Rightarrow> Some d
      | Some r \<Rightarrow>
          if discovery_check actor (f r)
          then Some (d\<lparr>relay_discoveries := AList.update actor (f r) (relay_discoveries d)\<rparr>) else None)"

definition insert_discovery_event ::
  "string \<Rightarrow> discovery_action \<Rightarrow> string \<Rightarrow> string \<Rightarrow> source_kind \<Rightarrow> string option \<Rightarrow> int \<Rightarrow> db \<Rightarrow> db option" where
  "insert_discovery_event actor act operator reason kind label t d =
     (if actor_length_ok actor \<and> operator_check operator \<and> reason_check reason \<and>
         (case label of None \<Rightarrow> True | Some l \<Rightarrow> operator_check l) \<and> 0 \<le> t
      then Some (d\<lparr>discovery_events := discovery_events d @
             [\<lparr>discovery_id = discovery_event_seq d + 1, discovery_actor = actor,
               discovery_action = act, discovery_operator = operator, discovery_reason = reason,
               discovery_source = kind, discovery_label = label, discovery_at = t\<rparr>],
             discovery_event_seq := discovery_event_seq d + 1\<rparr>)
      else None)"

text \<open>
  Observations: the insert does nothing on a conflict and is refused by the identity
  guard trigger when no relay and no discovery has the actor.
\<close>

definition retained :: "db \<Rightarrow> string \<Rightarrow> bool" where
  "retained d actor \<longleftrightarrow>
     map_of (relays d) actor \<noteq> None \<or> map_of (relay_discoveries d) actor \<noteq> None"

definition insert_observation :: "string \<Rightarrow> observation \<Rightarrow> db \<Rightarrow> db option" where
  "insert_observation actor r d =
     (if \<not> retained d actor then None
      else if map_of (relay_observations d) actor \<noteq> None then Some d
      else if observation_check actor r
      then Some (d\<lparr>relay_observations := AList.update actor r (relay_observations d)\<rparr>) else None)"

definition update_observation :: "string \<Rightarrow> (observation \<Rightarrow> observation) \<Rightarrow> db \<Rightarrow> db option" where
  "update_observation actor f d =
     (case map_of (relay_observations d) actor of
        None \<Rightarrow> Some d
      | Some r \<Rightarrow>
          if observation_check actor (f r)
          then Some (d\<lparr>relay_observations := AList.update actor (f r) (relay_observations d)\<rparr>) else None)"

end
