(* ===== verification/RelayStore.thy ===== *)
theory RelayStore
  imports Schema Vocabulary
begin

section \<open>Lifecycle, moderation and enrollment transitions\<close>

text \<open>
  \<open>internal/storage/sqlite/relay.go\<close>, \<open>moderation.go\<close>, \<open>enrollment.go\<close>, the validators of
  \<open>internal/storage/relay.go\<close> and \<open>moderation_read.go\<close>, and the observation helpers of
  \<open>internal/storage/sqlite/discovery.go\<close> that lifecycle transitions call. An acceptance
  time is the value of \<open>acceptedAt.UTC().Unix()\<close>. Each operation is a pure validation
  followed by one transaction (\<open>Tx\<close>); the environment argument supplies admission and
  faults.
\<close>

subsection \<open>Inputs\<close>

record RegisterIntent =
  reg_actor :: string
  reg_base :: string

record ModerationIntent =
  mod_actor :: string
  mod_moderator :: string
  mod_reason :: string

definition ValidOperatorID :: "string \<Rightarrow> bool" where
  "ValidOperatorID value \<longleftrightarrow> \<not> (length value = 0 \<or> length value > 128) \<and>
     list_all (\<lambda>i. let c = value ! i in
        (is_upper c \<or> is_lower c \<or> is_digit c) \<or> (0 < i \<and> chars_in ''@._:+-'' c))
       [0..<length value]"

definition ValidModerationReasonCode :: "string \<Rightarrow> bool" where
  "ValidModerationReasonCode value \<longleftrightarrow> \<not> (length value = 0 \<or> length value > 64) \<and>
     list_all (\<lambda>i. let c = value ! i in
        if i = 0 then is_lower c else is_lower c \<or> is_digit c \<or> chars_in ''_-'' c)
       [0..<length value]"

definition validateRegisterIntent :: "RegisterIntent \<Rightarrow> goerror option" where
  "validateRegisterIntent intent =
     (if length (reg_actor intent) = 0 \<or> length (reg_actor intent) > maximumRelayActorBytes \<or>
         length (reg_base intent) = 0 \<or> length (reg_base intent) > maximumPublicBaseBytes
      then Some (Err ErrTransitionInput)
      else case NormalizeRelayIdentity (reg_actor intent) (reg_base intent) of
             Inl _ \<Rightarrow> Some (Err ErrTransitionInput)
           | Inr identity \<Rightarrow>
               if RelayActor identity \<noteq> reg_actor intent \<or> PublicBaseURL identity \<noteq> reg_base intent
               then Some (Err ErrTransitionInput) else None)"

definition validateIdentityIntent :: "string \<Rightarrow> goerror option" where
  "validateIdentityIntent actor =
     (if length actor = 0 \<or> length actor > maximumRelayActorBytes then Some (Err ErrTransitionInput)
      else case NormalizeRelayActorURL actor of
             Inl _ \<Rightarrow> Some (Err ErrTransitionInput)
           | Inr canonical \<Rightarrow> if canonical \<noteq> actor then Some (Err ErrTransitionInput) else None)"

definition validateModerationIntent :: "ModerationIntent \<Rightarrow> goerror option" where
  "validateModerationIntent intent =
     (case validateIdentityIntent (mod_actor intent) of
        Some e \<Rightarrow> Some e
      | None \<Rightarrow>
          if \<not> ValidOperatorID (mod_moderator intent) \<or> \<not> ValidModerationReasonCode (mod_reason intent)
          then Some (Err ErrTransitionInput) else None)"

definition transitionUnix :: "int \<Rightarrow> int result" where
  "transitionUnix acceptedUnix =
     (if acceptedUnix < 0 then Inl (Err ErrTransitionTime) else Inr acceptedUnix)"

subsection \<open>Shared reads and writes\<close>

definition selectRelay :: "string \<Rightarrow> string \<Rightarrow> (db, relay_row option) tx" where
  "selectRelay action actor = query action (\<lambda>d. map_of (relays d) actor)"

definition event_times :: "db \<Rightarrow> string \<Rightarrow> int list" where
  "event_times d actor = map event_at (filter (\<lambda>e. event_actor e = actor) (relay_events d))"

definition moderation_times :: "db \<Rightarrow> string \<Rightarrow> int list" where
  "moderation_times d actor =
     map moderation_at (filter (\<lambda>e. moderation_actor e = actor) (moderation_events d))"

definition later_of :: "int \<Rightarrow> int option \<Rightarrow> int" where
  "later_of latest v = (case v of Some t \<Rightarrow> if t > latest then t else latest | None \<Rightarrow> latest)"

definition requireMonotonicTime :: "string \<Rightarrow> int \<Rightarrow> relay_row option \<Rightarrow> (db, unit) tx" where
  "requireMonotonicTime actor acceptedUnix relay =
     (let latest0 =
        (case relay of
           None \<Rightarrow> -1
         | Some r \<Rightarrow> if last_seen_at r > updated_at r then last_seen_at r else updated_at r)
      in bindt (query ''read relay event time'' (\<lambda>d. sql_max (event_times d actor))) (\<lambda>latestEvent.
         let latest1 = later_of latest0 latestEvent in
         bindt (query ''read moderation event time'' (\<lambda>d. sql_max (moderation_times d actor)))
           (\<lambda>latestModeration.
             let latest2 = later_of latest1 latestModeration in
             if acceptedUnix < latest2 then fail (Err ErrTransitionTime) else ret ())))"

definition insertRelayEvent :: "string \<Rightarrow> relay_event_kind \<Rightarrow> int \<Rightarrow> (db, unit) tx" where
  "insertRelayEvent actor kind t = exec ''write relay event'' (insert_relay_event actor kind t)"

definition selectObservation :: "string \<Rightarrow> string \<Rightarrow> (db, observation option) tx" where
  "selectObservation action actor = query action (\<lambda>d. map_of (relay_observations d) actor)"

definition retainedObservationIdentity :: "string \<Rightarrow> string \<Rightarrow> (db, bool) tx" where
  "retainedObservationIdentity action actor = query action (\<lambda>d. retained d actor)"

definition empty_observation :: "int \<Rightarrow> observation" where
  "empty_observation t =
     \<lparr>actor_state = ReachabilityUnknown, actor_last_checked = None, actor_last_success = None,
      inbox_url = None, inbox_declared = None, inbox_probe_state = InboxNotChecked,
      inbox_last_checked = None, rfc9421_verified = None, observation_updated_at = t, revision = 1\<rparr>"

definition insertEmptyObservation :: "string \<Rightarrow> int \<Rightarrow> (db, unit) tx" where
  "insertEmptyObservation actor t =
     exec ''create relay observation'' (insert_observation actor (empty_observation t))"

definition maxInt64 :: "int \<Rightarrow> int \<Rightarrow> int" where
  "maxInt64 l r = (if l > r then l else r)"

definition recordRFC9421VerifiedTx :: "string \<Rightarrow> int \<Rightarrow> (db, unit) tx" where
  "recordRFC9421VerifiedTx actor verifiedUnix =
     bindt (selectObservation ''read RFC 9421 observation'' actor) (\<lambda>found.
     bindt (case found of
              Some current \<Rightarrow> ret current
            | None \<Rightarrow>
                bindt (insertEmptyObservation actor verifiedUnix) (\<lambda>_.
                bindt (selectObservation ''read inserted RFC 9421 observation'' actor) (\<lambda>again.
                  case again of
                    Some current \<Rightarrow> ret current
                  | None \<Rightarrow>
                      fail (storageFailure ''read inserted RFC 9421 observation''
                              (Opaque ''observation row missing after RFC 9421 insert''))))) (\<lambda>current.
     if (case rfc9421_verified current of Some v \<Rightarrow> verifiedUnix < v | None \<Rightarrow> False)
     then fail (Err ErrObservationTime)
     else exec ''write RFC 9421 observation''
            (update_observation actor (\<lambda>r. r\<lparr>rfc9421_verified := Some verifiedUnix,
               observation_updated_at := maxInt64 (observation_updated_at current) verifiedUnix,
               revision := revision r + 1\<rparr>))))"

definition selectEnrollmentOpen :: "(db, bool) tx" where
  "selectEnrollmentOpen =
     bindt (query ''read enrollment policy'' directory_policy) (\<lambda>row.
       case row of
         None \<Rightarrow> fail (storageFailure ''read enrollment policy'' (Opaque ''sql: no rows in result set''))
       | Some p \<Rightarrow>
           if enrollment_open p \<noteq> 0 \<and> enrollment_open p \<noteq> 1
           then fail (storageFailure ''read enrollment policy'' (Err ErrStorageFailure))
           else ret (enrollment_open p = 1))"

subsection \<open>Register, heartbeat, unregister\<close>

definition register_new_row :: "string \<Rightarrow> int \<Rightarrow> relay_row" where
  "register_new_row base t =
     \<lparr>public_base_url = base, lifecycle_state = Registered, administrative_state = Active,
      first_registered_at = t, updated_at = t, last_seen_at = t, last_heartbeat_at = Some t,
      unregistered_at = None, pruned_at = None, suspended_at = None\<rparr>"

definition seen_row :: "int \<Rightarrow> relay_row \<Rightarrow> relay_row" where
  "seen_row t r = r\<lparr>updated_at := t, last_seen_at := t, last_heartbeat_at := Some t\<rparr>"

definition reregister_row :: "string \<Rightarrow> int \<Rightarrow> relay_row \<Rightarrow> relay_row" where
  "reregister_row base t r =
     r\<lparr>public_base_url := base, lifecycle_state := Registered, updated_at := t, last_seen_at := t,
       last_heartbeat_at := Some t, unregistered_at := None, pruned_at := None\<rparr>"

text \<open>The switch of \<open>Register\<close>: the write, its outcome and its event kind.\<close>

definition classify_registration :: "RegisterIntent \<Rightarrow> int \<Rightarrow> relay_row option
    \<Rightarrow> (outcome \<times> relay_event_kind \<times> (db \<Rightarrow> db option)) option" where
  "classify_registration intent t relay =
     (case relay of
        None \<Rightarrow>
          Some (OutcomeCreated, RegisterCreated,
                insert_relay (reg_actor intent) (register_new_row (reg_base intent) t))
      | Some r \<Rightarrow>
          if lifecycle_state r = Registered \<and> public_base_url r = reg_base intent
          then Some (OutcomeUnchanged, RegisterUnchanged, update_relay (reg_actor intent) (seen_row t))
          else if lifecycle_state r = Unregistered \<or> lifecycle_state r = Pruned
          then Some (OutcomeUpdated, RegisterUpdated,
                     update_relay (reg_actor intent) (reregister_row (reg_base intent) t))
          else None)"

definition is_suspended :: "relay_row option \<Rightarrow> bool" where
  "is_suspended relay = (case relay of None \<Rightarrow> False | Some r \<Rightarrow> administrative_state r = Suspended)"

definition register_tx :: "RegisterIntent \<Rightarrow> int \<Rightarrow> (db, outcome completion) tx" where
  "register_tx intent t =
     bindt (selectRelay ''read relay'' (reg_actor intent)) (\<lambda>relay.
     if is_suspended relay then fail (Err ErrRelaySuspended)
     else
       bindt (if relay = None
              then bindt selectEnrollmentOpen (\<lambda>enrollmentOpen.
                     if \<not> enrollmentOpen then fail (Err ErrEnrollmentClosed) else ret ())
              else ret ()) (\<lambda>_.
       bindt (requireMonotonicTime (reg_actor intent) t relay) (\<lambda>_.
       case classify_registration intent t relay of
         None \<Rightarrow> fail (storageFailure ''classify registration'' (Opaque ''invalid relay state''))
       | Some (outcome, kind, write) \<Rightarrow>
           bindt (exec ''write relay'' write) (\<lambda>_.
           bindt (recordRFC9421VerifiedTx (reg_actor intent) t) (\<lambda>_.
           bindt (insertRelayEvent (reg_actor intent) kind t) (\<lambda>_.
           ret (Commit ''commit register'' outcome)))))))"

definition Register :: "environment \<Rightarrow> RegisterIntent \<Rightarrow> int \<Rightarrow> db \<Rightarrow> outcome result \<times> db" where
  "Register env intent acceptedAt d =
     (case validateRegisterIntent intent of
        Some e \<Rightarrow> (Inl e, d)
      | None \<Rightarrow>
          (case transitionUnix acceptedAt of
             Inl e \<Rightarrow> (Inl e, d)
           | Inr acceptedUnix \<Rightarrow> run_tx env (register_tx intent acceptedUnix) d))"

definition heartbeat_tx :: "string \<Rightarrow> int \<Rightarrow> (db, outcome completion) tx" where
  "heartbeat_tx actor t =
     bindt (selectRelay ''read relay'' actor) (\<lambda>relay.
     case relay of
       None \<Rightarrow> fail (Err ErrRelayAbsent)
     | Some r \<Rightarrow>
         if lifecycle_state r \<noteq> Registered then fail (Err ErrRelayAbsent)
         else if administrative_state r = Suspended then fail (Err ErrRelaySuspended)
         else
           bindt (requireMonotonicTime actor t relay) (\<lambda>_.
           bindt (exec ''write heartbeat'' (update_relay actor (seen_row t))) (\<lambda>_.
           bindt (recordRFC9421VerifiedTx actor t) (\<lambda>_.
           bindt (insertRelayEvent actor HeartbeatRecorded t) (\<lambda>_.
           ret (Commit ''commit heartbeat'' OutcomeRecorded))))))"

definition Heartbeat :: "environment \<Rightarrow> string \<Rightarrow> int \<Rightarrow> db \<Rightarrow> outcome result \<times> db" where
  "Heartbeat env actor acceptedAt d =
     (case validateIdentityIntent actor of
        Some e \<Rightarrow> (Inl e, d)
      | None \<Rightarrow>
          (case transitionUnix acceptedAt of
             Inl e \<Rightarrow> (Inl e, d)
           | Inr acceptedUnix \<Rightarrow> run_tx env (heartbeat_tx actor acceptedUnix) d))"

definition unregistered_row :: "int \<Rightarrow> relay_row \<Rightarrow> relay_row" where
  "unregistered_row t r =
     r\<lparr>lifecycle_state := Unregistered, updated_at := t, unregistered_at := Some t\<rparr>"

definition is_registered :: "relay_row option \<Rightarrow> bool" where
  "is_registered relay = (case relay of None \<Rightarrow> False | Some r \<Rightarrow> lifecycle_state r = Registered)"

definition unregister_tx :: "string \<Rightarrow> int \<Rightarrow> (db, outcome completion) tx" where
  "unregister_tx actor t =
     bindt (selectRelay ''read relay'' actor) (\<lambda>relay.
     bindt (requireMonotonicTime actor t relay) (\<lambda>_.
     let (outcome, kind) =
       (if is_registered relay then (OutcomeRemoved, UnregisterRemoved)
        else (OutcomeAbsent, UnregisterAbsent)) in
     bindt (if is_registered relay
            then exec ''write unregister'' (update_relay actor (unregistered_row t)) else ret ()) (\<lambda>_.
     bindt (retainedObservationIdentity ''read RFC 9421 observation identity'' actor) (\<lambda>kept.
     bindt (if kept then recordRFC9421VerifiedTx actor t else ret ()) (\<lambda>_.
     bindt (insertRelayEvent actor kind t) (\<lambda>_.
     ret (Commit ''commit unregister'' outcome)))))))"

definition Unregister :: "environment \<Rightarrow> string \<Rightarrow> int \<Rightarrow> db \<Rightarrow> outcome result \<times> db" where
  "Unregister env actor acceptedAt d =
     (case validateIdentityIntent actor of
        Some e \<Rightarrow> (Inl e, d)
      | None \<Rightarrow>
          (case transitionUnix acceptedAt of
             Inl e \<Rightarrow> (Inl e, d)
           | Inr acceptedUnix \<Rightarrow> run_tx env (unregister_tx actor acceptedUnix) d))"

subsection \<open>Moderation\<close>

datatype ModerationOutcome =
  ModerationSuspended | ModerationAlreadySuspended | ModerationRestored | ModerationAlreadyActive

fun classifyModeration ::
  "administrative \<Rightarrow> administrative \<Rightarrow> ModerationOutcome \<times> moderation_action \<times> bool" where
  "classifyModeration Active Suspended = (ModerationSuspended, SuspendApplied, True)"
| "classifyModeration Suspended Suspended = (ModerationAlreadySuspended, SuspendUnchanged, False)"
| "classifyModeration Suspended Active = (ModerationRestored, RestoreApplied, True)"
| "classifyModeration Active Active = (ModerationAlreadyActive, RestoreUnchanged, False)"

definition moderated_row :: "administrative \<Rightarrow> int \<Rightarrow> relay_row \<Rightarrow> relay_row" where
  "moderated_row target t r =
     r\<lparr>administrative_state := target,
       suspended_at := (if target = Suspended then Some t else None), updated_at := t\<rparr>"

definition insertModerationEvent :: "ModerationIntent \<Rightarrow> moderation_action \<Rightarrow> int \<Rightarrow> (db, unit) tx" where
  "insertModerationEvent intent act t =
     exec ''write moderation event''
       (insert_moderation_event (mod_actor intent) act (mod_moderator intent) (mod_reason intent) t)"

definition moderate_tx :: "ModerationIntent \<Rightarrow> int \<Rightarrow> administrative \<Rightarrow> (db, ModerationOutcome completion) tx" where
  "moderate_tx intent t target =
     bindt (selectRelay ''read relay for moderation'' (mod_actor intent)) (\<lambda>relay.
     case relay of
       None \<Rightarrow> fail (Err ErrRelayAbsent)
     | Some r \<Rightarrow>
         bindt (requireMonotonicTime (mod_actor intent) t relay) (\<lambda>_.
         case classifyModeration (administrative_state r) target of (outcome, act, changed) \<Rightarrow>
         bindt (if changed
                then exec ''write relay moderation'' (update_relay (mod_actor intent) (moderated_row target t))
                else ret ()) (\<lambda>_.
         bindt (insertModerationEvent intent act t) (\<lambda>_.
         ret (Commit ''commit relay moderation'' outcome)))))"

definition moderate :: "environment \<Rightarrow> ModerationIntent \<Rightarrow> int \<Rightarrow> administrative \<Rightarrow> db
    \<Rightarrow> ModerationOutcome result \<times> db" where
  "moderate env intent acceptedAt target d =
     (case validateModerationIntent intent of
        Some e \<Rightarrow> (Inl e, d)
      | None \<Rightarrow>
          (case transitionUnix acceptedAt of
             Inl e \<Rightarrow> (Inl e, d)
           | Inr acceptedUnix \<Rightarrow> run_tx env (moderate_tx intent acceptedUnix target) d))"

definition Suspend :: "environment \<Rightarrow> ModerationIntent \<Rightarrow> int \<Rightarrow> db \<Rightarrow> ModerationOutcome result \<times> db" where
  "Suspend env intent acceptedAt d = moderate env intent acceptedAt Suspended d"

definition Restore :: "environment \<Rightarrow> ModerationIntent \<Rightarrow> int \<Rightarrow> db \<Rightarrow> ModerationOutcome result \<times> db" where
  "Restore env intent acceptedAt d = moderate env intent acceptedAt Active d"

subsection \<open>Enrollment policy\<close>

datatype EnrollmentOutcome =
  EnrollmentOpened | EnrollmentAlreadyOpen | EnrollmentClosed | EnrollmentAlreadyClosed

definition classifyEnrollment :: "bool \<Rightarrow> bool \<Rightarrow> EnrollmentOutcome \<times> enrollment_action" where
  "classifyEnrollment current target =
     (if \<not> current \<and> target then (EnrollmentOpened, EnrollmentOpenedEvent)
      else if current \<and> target then (EnrollmentAlreadyOpen, EnrollmentOpenUnchanged)
      else if current \<and> \<not> target then (EnrollmentClosed, EnrollmentClosedEvent)
      else (EnrollmentAlreadyClosed, EnrollmentClosedUnchanged))"

definition boolInteger :: "bool \<Rightarrow> int" where
  "boolInteger b = (if b then 1 else 0)"

definition requireEnrollmentTime :: "int \<Rightarrow> (db, unit) tx" where
  "requireEnrollmentTime t =
     bindt (query ''read enrollment policy time'' directory_policy) (\<lambda>row.
     case row of
       None \<Rightarrow> fail (storageFailure ''read enrollment policy time'' (Opaque ''sql: no rows in result set''))
     | Some p \<Rightarrow>
         bindt (query ''read enrollment event time'' (\<lambda>d. sql_max (map enrollment_at (enrollment_events d))))
           (\<lambda>latestEvent.
             if t < later_of (policy_updated_at p) latestEvent then fail (Err ErrTransitionTime)
             else ret ()))"

definition set_enrollment_tx :: "bool \<Rightarrow> string \<Rightarrow> int \<Rightarrow> (db, EnrollmentOutcome completion) tx" where
  "set_enrollment_tx target operator t =
     bindt selectEnrollmentOpen (\<lambda>current.
     bindt (requireEnrollmentTime t) (\<lambda>_.
     case classifyEnrollment current target of (outcome, act) \<Rightarrow>
     bindt (if current \<noteq> target
            then exec ''write enrollment policy'' (update_policy (boolInteger target) t)
            else ret ()) (\<lambda>_.
     bindt (exec ''write enrollment event'' (insert_enrollment_event act operator t)) (\<lambda>_.
     ret (Commit ''commit enrollment policy'' outcome)))))"

definition SetEnrollment :: "environment \<Rightarrow> bool \<Rightarrow> string \<Rightarrow> int \<Rightarrow> db \<Rightarrow> EnrollmentOutcome result \<times> db" where
  "SetEnrollment env target operator acceptedAt d =
     (if \<not> ValidOperatorID operator then (Inl (Err ErrTransitionInput), d)
      else case transitionUnix acceptedAt of
             Inl e \<Rightarrow> (Inl e, d)
           | Inr acceptedUnix \<Rightarrow> run_tx env (set_enrollment_tx target operator acceptedUnix) d)"

definition EnrollmentOpen :: "bool \<Rightarrow> db \<Rightarrow> bool result" where
  "EnrollmentOpen fault d =
     (if fault then Inl (storageFailure ''read enrollment policy'' driver_error)
      else case directory_policy d of
        None \<Rightarrow> Inl (storageFailure ''read enrollment policy'' (Opaque ''sql: no rows in result set''))
      | Some p \<Rightarrow>
          if enrollment_open p \<noteq> 0 \<and> enrollment_open p \<noteq> 1 then Inl (Err ErrStorageFailure)
          else Inr (enrollment_open p = 1))"

subsection \<open>Fault tolerance of the transactions\<close>

lemmas store_tx_defs = selectRelay_def requireMonotonicTime_def insertRelayEvent_def selectObservation_def
  retainedObservationIdentity_def insertEmptyObservation_def recordRFC9421VerifiedTx_def
  selectEnrollmentOpen_def insertModerationEvent_def requireEnrollmentTime_def

lemma register_tolerant: "fault_tolerant (register_tx intent t)"
  unfolding register_tx_def store_tx_defs Let_def by (intro tolerant)

lemma heartbeat_tolerant: "fault_tolerant (heartbeat_tx actor t)"
  unfolding heartbeat_tx_def store_tx_defs Let_def by (intro tolerant)

lemma unregister_tolerant: "fault_tolerant (unregister_tx actor t)"
  unfolding unregister_tx_def store_tx_defs Let_def by (intro tolerant)

lemma moderate_tolerant: "fault_tolerant (moderate_tx intent t target)"
  unfolding moderate_tx_def store_tx_defs Let_def by (intro tolerant)

lemma set_enrollment_tolerant: "fault_tolerant (set_enrollment_tx target operator t)"
  unfolding set_enrollment_tx_def store_tx_defs Let_def by (intro tolerant)

subsection \<open>The invariant\<close>

definition actor_times :: "db \<Rightarrow> string \<Rightarrow> int list" where
  "actor_times d actor =
     (case map_of (relays d) actor of None \<Rightarrow> [] | Some r \<Rightarrow> [updated_at r, last_seen_at r]) @
     event_times d actor @ moderation_times d actor"

definition fresh_at :: "db \<Rightarrow> string \<Rightarrow> int \<Rightarrow> bool" where
  "fresh_at d actor t \<longleftrightarrow> list_all (\<lambda>x. x \<le> t) (actor_times d actor)"

definition relays_ok :: "db \<Rightarrow> bool" where
  "relays_ok d \<longleftrightarrow> table_ok (relays d) \<and>
     (\<forall>actor r. map_of (relays d) actor = Some r \<longrightarrow>
        relay_check actor r \<and> canonical_identity actor (public_base_url r))"

definition observations_ok :: "db \<Rightarrow> bool" where
  "observations_ok d \<longleftrightarrow> table_ok (relay_observations d) \<and>
     (\<forall>actor r. map_of (relay_observations d) actor = Some r \<longrightarrow>
        observation_check actor r \<and> retained d actor \<and>
        (\<forall>v. rfc9421_verified r = Some v \<longrightarrow> (\<exists>x \<in> set (event_times d actor). v \<le> x)))"

definition discoveries_ok :: "db \<Rightarrow> bool" where
  "discoveries_ok d \<longleftrightarrow> table_ok (relay_discoveries d) \<and>
     (\<forall>actor r. map_of (relay_discoveries d) actor = Some r \<longrightarrow>
        discovery_check actor r \<and> canonical_identity actor (discovery_base_url r))"

definition policy_ok :: "db \<Rightarrow> bool" where
  "policy_ok d \<longleftrightarrow> (\<exists>p. directory_policy d = Some p \<and>
     (enrollment_open p = 0 \<or> enrollment_open p = 1) \<and> 0 \<le> policy_updated_at p)"

text \<open>Event ids grow, and the events of one actor are in the order of their times.\<close>

definition events_ok :: "db \<Rightarrow> bool" where
  "events_ok d \<longleftrightarrow>
     sorted_wrt (<) (map event_id (relay_events d)) \<and>
     (\<forall>e \<in> set (relay_events d). event_id e \<le> relay_event_seq d) \<and>
     (\<forall>actor. sorted (event_times d actor)) \<and>
     sorted_wrt (<) (map moderation_id (moderation_events d)) \<and>
     (\<forall>e \<in> set (moderation_events d). moderation_id e \<le> moderation_event_seq d) \<and>
     (\<forall>actor. sorted (moderation_times d actor)) \<and>
     sorted (map enrollment_at (enrollment_events d))"

definition db_ok :: "db \<Rightarrow> bool" where
  "db_ok d \<longleftrightarrow> relays_ok d \<and> observations_ok d \<and> discoveries_ok d \<and> policy_ok d \<and> events_ok d"

lemma migrated_ok: "db_ok migrated"
  by (simp add: db_ok_def migrated_def relays_ok_def observations_ok_def discoveries_ok_def
      policy_ok_def events_ok_def event_times_def moderation_times_def)

subsection \<open>Effects\<close>

text \<open>What a successful statement leaves behind.\<close>

definition put_relay :: "string \<Rightarrow> relay_row \<Rightarrow> db \<Rightarrow> db" where
  "put_relay actor r d = d\<lparr>relays := AList.update actor r (relays d)\<rparr>"

definition log_relay :: "string \<Rightarrow> relay_event_kind \<Rightarrow> int \<Rightarrow> db \<Rightarrow> db" where
  "log_relay actor kind t d =
     d\<lparr>relay_events := relay_events d @
         [\<lparr>event_id = relay_event_seq d + 1, event_actor = actor, event_kind = kind, event_at = t\<rparr>],
       relay_event_seq := relay_event_seq d + 1\<rparr>"

definition verified_observation :: "int \<Rightarrow> observation option \<Rightarrow> observation" where
  "verified_observation t found =
     (let r = (case found of None \<Rightarrow> empty_observation t | Some r \<Rightarrow> r) in
      r\<lparr>rfc9421_verified := Some t, observation_updated_at := maxInt64 (observation_updated_at r) t,
        revision := revision r + 1\<rparr>)"

definition put_verified :: "string \<Rightarrow> int \<Rightarrow> db \<Rightarrow> db" where
  "put_verified actor t d =
     d\<lparr>relay_observations :=
         AList.update actor (verified_observation t (map_of (relay_observations d) actor))
           (relay_observations d)\<rparr>"

lemma update_update: "AList.update k w (AList.update k v t) = AList.update k w t"
  by (induction t) auto

lemma observation_check_verified:
  assumes "0 \<le> t" and "actor_length_ok actor"
    and "\<And>r. found = Some r \<Longrightarrow> observation_check actor r"
  shows "observation_check actor (verified_observation t found)"
    and "observation_check actor (empty_observation t)"
proof -
  show "observation_check actor (verified_observation t found)"
    using assms
    by (cases found) (auto simp: observation_check_def verified_observation_def empty_observation_def
        actor_probe_ok_def maxInt64_def opt_le_def Let_def split: reachability.splits option.splits)
  show "observation_check actor (empty_observation t)"
    using assms(1,2) by (simp add: observation_check_def empty_observation_def actor_probe_ok_def)
qed

lemma recordRFC9421_calm:
  assumes "0 \<le> t" and "actor_length_ok actor" and "retained d actor"
    and ok: "\<And>r. map_of (relay_observations d) actor = Some r \<Longrightarrow>
      observation_check actor r \<and> (\<forall>v. rfc9421_verified r = Some v \<longrightarrow> v \<le> t)"
  shows "recordRFC9421VerifiedTx actor t (d, []) = (Inr (), (put_verified actor t d, []))"
proof -
  note chk = observation_check_verified [OF assms(1,2), of "map_of (relay_observations d) actor"]
  show ?thesis
  proof (cases "map_of (relay_observations d) actor")
    case None
    with chk assms(3) show ?thesis
      by (simp add: recordRFC9421VerifiedTx_def selectObservation_def insertEmptyObservation_def
          insert_observation_def update_observation_def put_verified_def verified_observation_def
          update_update Let_def tx_simps)
        (simp add: empty_observation_def)
  next
    case (Some r)
    with chk ok [OF Some] show ?thesis
      by (auto simp: recordRFC9421VerifiedTx_def selectObservation_def update_observation_def
          put_verified_def verified_observation_def Let_def tx_simps split: option.splits)
  qed
qed

lemma later_of_le: "later_of a v \<le> t \<longleftrightarrow> a \<le> t \<and> (case v of None \<Rightarrow> True | Some x \<Rightarrow> x \<le> t)"
  by (auto simp: later_of_def split: option.splits)

lemma requireMonotonicTime_calm:
  assumes "0 \<le> t"
  shows "requireMonotonicTime actor t (map_of (relays d) actor) (d, []) =
    (if fresh_at d actor t then Inr () else Inl (Err ErrTransitionTime), (d, []))"
  using assms
  by (auto simp: requireMonotonicTime_def tx_simps Let_def not_less later_of_le sql_max_le_iff fresh_at_def
      actor_times_def list_all_iff simp flip: not_le split: option.splits)

subsection \<open>Functional behaviour without faults\<close>

lemma relay_check_seen:
  assumes "relay_check actor r" and "updated_at r \<le> t" "last_seen_at r \<le> t" and "lifecycle_state r = Registered"
  shows "relay_check actor (seen_row t r)"
  using assms
  by (auto simp: relay_check_def seen_row_def lifecycle_times_ok_def opt_le_def opt_ge_def split: option.splits)

lemma relay_check_reregister:
  assumes "relay_check actor r" and "updated_at r \<le> t" "last_seen_at r \<le> t" and "base_length_ok base"
  shows "relay_check actor (reregister_row base t r)"
  using assms
  by (auto simp: relay_check_def reregister_row_def lifecycle_times_ok_def opt_le_def opt_ge_def split: option.splits)

lemma relay_check_new:
  "0 \<le> t \<Longrightarrow> actor_length_ok actor \<Longrightarrow> base_length_ok base \<Longrightarrow> relay_check actor (register_new_row base t)"
  by (simp add: relay_check_def register_new_row_def lifecycle_times_ok_def)

lemma relay_check_unregistered:
  assumes "relay_check actor r" and "updated_at r \<le> t" "lifecycle_state r = Registered"
  shows "relay_check actor (unregistered_row t r)"
  using assms
  by (auto simp: relay_check_def unregistered_row_def lifecycle_times_ok_def opt_le_def opt_ge_def split: option.splits)

lemma relay_check_moderated:
  assumes "relay_check actor r" and "updated_at r \<le> t"
  shows "relay_check actor (moderated_row target t r)"
  using assms
  by (cases target) (auto simp: relay_check_def moderated_row_def lifecycle_times_ok_def opt_le_def opt_ge_def
      split: option.splits lifecycle.splits)

lemma fresh_row:
  assumes "fresh_at d actor t" and "map_of (relays d) actor = Some r"
  shows "updated_at r \<le> t" "last_seen_at r \<le> t"
  using assms by (auto simp: fresh_at_def actor_times_def)

lemma fresh_event: "fresh_at d actor t \<Longrightarrow> x \<in> set (event_times d actor) \<Longrightarrow> x \<le> t"
  by (auto simp: fresh_at_def actor_times_def list_all_iff)

lemma fresh_moderation: "fresh_at d actor t \<Longrightarrow> x \<in> set (moderation_times d actor) \<Longrightarrow> x \<le> t"
  by (auto simp: fresh_at_def actor_times_def list_all_iff)

lemma db_okD:
  assumes "db_ok d"
  shows "relays_ok d" "observations_ok d" "discoveries_ok d" "policy_ok d" "events_ok d"
  using assms by (auto simp: db_ok_def)

lemma relays_okD:
  assumes "db_ok d" and "map_of (relays d) actor = Some r"
  shows "relay_check actor r" "canonical_identity actor (public_base_url r)"
  using assms by (auto simp: db_ok_def relays_ok_def)

text \<open>
  Recording a verification always succeeds for a fresh time: the last recorded time is
  never later than the last event of the actor.
\<close>

lemma record_fresh:
  assumes ok: "db_ok d" and fresh: "fresh_at d actor t" and "0 \<le> t" "actor_length_ok actor"
    and ret: "retained d' actor" and same: "relay_observations d' = relay_observations d"
  shows "recordRFC9421VerifiedTx actor t (d', []) = (Inr (), (put_verified actor t d', []))"
proof (rule recordRFC9421_calm [OF assms(3,4) ret])
  fix r assume r: "map_of (relay_observations d') actor = Some r"
  then have chk: "observation_check actor r"
    and "\<forall>v. rfc9421_verified r = Some v \<longrightarrow> (\<exists>x \<in> set (event_times d actor). v \<le> x)"
    using ok same by (auto simp: db_ok_def observations_ok_def)
  then show "observation_check actor r \<and> (\<forall>v. rfc9421_verified r = Some v \<longrightarrow> v \<le> t)"
    using fresh_event [OF fresh] by (meson order_trans)
qed

lemma validateRegisterIntent_None:
  "validateRegisterIntent intent = None \<longleftrightarrow>
     actor_length_ok (reg_actor intent) \<and> base_length_ok (reg_base intent) \<and>
     canonical_identity (reg_actor intent) (reg_base intent)"
  by (auto simp: validateRegisterIntent_def actor_length_ok_def base_length_ok_def canonical_identity_def
      Suc_le_eq split: sum.splits)

lemma validateIdentityIntent_None:
  "validateIdentityIntent actor = None \<longleftrightarrow> actor_length_ok actor \<and> NormalizeRelayActorURL actor = Inr actor"
  by (auto simp: validateIdentityIntent_def actor_length_ok_def Suc_le_eq split: sum.splits)

definition enrollment_is_open :: "db \<Rightarrow> bool" where
  "enrollment_is_open d = (case directory_policy d of None \<Rightarrow> False | Some p \<Rightarrow> enrollment_open p = 1)"

lemma selectEnrollmentOpen_calm:
  "policy_ok d \<Longrightarrow> selectEnrollmentOpen (d, []) = (Inr (enrollment_is_open d), (d, []))"
  by (auto simp: selectEnrollmentOpen_def policy_ok_def enrollment_is_open_def tx_simps)

definition accept_relay :: "string \<Rightarrow> relay_row \<Rightarrow> relay_event_kind \<Rightarrow> int \<Rightarrow> db \<Rightarrow> db" where
  "accept_relay actor r kind t d = log_relay actor kind t (put_verified actor t (put_relay actor r d))"

text \<open>The complete behaviour of \<open>Register\<close> on a valid request.\<close>

definition register_spec :: "RegisterIntent \<Rightarrow> int \<Rightarrow> db \<Rightarrow> outcome result \<times> db" where
  "register_spec intent t d =
     (let actor = reg_actor intent in
      case map_of (relays d) actor of
        None \<Rightarrow>
          if \<not> enrollment_is_open d then (Inl (Err ErrEnrollmentClosed), d)
          else if \<not> fresh_at d actor t then (Inl (Err ErrTransitionTime), d)
          else (Inr OutcomeCreated,
                accept_relay actor (register_new_row (reg_base intent) t) RegisterCreated t d)
      | Some r \<Rightarrow>
          if administrative_state r = Suspended then (Inl (Err ErrRelaySuspended), d)
          else if \<not> fresh_at d actor t then (Inl (Err ErrTransitionTime), d)
          else if lifecycle_state r = Registered
          then (Inr OutcomeUnchanged, accept_relay actor (seen_row t r) RegisterUnchanged t d)
          else (Inr OutcomeUpdated,
                accept_relay actor (reregister_row (reg_base intent) t r) RegisterUpdated t d))"

lemma insertRelayEvent_calm:
  "actor_length_ok actor \<Longrightarrow> 0 \<le> t \<Longrightarrow>
   insertRelayEvent actor kind t (d, []) = (Inr (), (log_relay actor kind t d, []))"
  by (simp add: insertRelayEvent_def insert_relay_event_def log_relay_def tx_simps)

lemma retained_put [simp]: "retained (put_relay actor r d) actor"
  by (simp add: retained_def put_relay_def)

lemma put_relay_observations [simp]: "relay_observations (put_relay actor r d) = relay_observations d"
  by (simp add: put_relay_def)

lemma update_relay_put:
  "map_of (relays d) actor = Some r \<Longrightarrow> relay_check actor (f r) \<Longrightarrow>
   update_relay actor f d = Some (put_relay actor (f r) d)"
  by (simp add: update_relay_def put_relay_def)

lemma register_calm:
  assumes ok: "db_ok d" and valid: "validateRegisterIntent intent = None" and t: "0 \<le> t"
  shows "run_tx calm (register_tx intent t) d = register_spec intent t d"
proof -
  have v: "actor_length_ok (reg_actor intent)" "base_length_ok (reg_base intent)"
    "canonical_identity (reg_actor intent) (reg_base intent)"
    using valid by (auto simp: validateRegisterIntent_None)
  note calm = selectEnrollmentOpen_calm [OF db_okD(4) [OF ok]] requireMonotonicTime_calm [OF t]
    insertRelayEvent_calm [OF v(1) t]
  note rec = record_fresh [OF ok _ t v(1) retained_put put_relay_observations]
  show ?thesis
  proof (cases "map_of (relays d) (reg_actor intent)")
    case None
    have ins: "insert_relay (reg_actor intent) (register_new_row (reg_base intent) t) d
        = Some (put_relay (reg_actor intent) (register_new_row (reg_base intent) t) d)"
      using None relay_check_new [OF t v(1,2)] by (simp add: insert_relay_def put_relay_def)
    show ?thesis
      using calm(2) [of "reg_actor intent" d] None
      by (simp add: register_tx_def register_spec_def selectRelay_def is_suspended_def classify_registration_def
          ins rec calm accept_relay_def tx_simps Let_def)
  next
    case (Some r)
    note R = relays_okD [OF ok Some]
    have base: "public_base_url r = reg_base intent" by (rule canonical_identity_base [OF R(2) v(3)])
    have seen: "update_relay (reg_actor intent) (seen_row t) d = Some (put_relay (reg_actor intent) (seen_row t r) d)"
      if "fresh_at d (reg_actor intent) t" "lifecycle_state r = Registered"
      by (rule update_relay_put [where f = "seen_row t", OF Some relay_check_seen [OF R(1) fresh_row [OF that(1) Some] that(2)]])
    have rereg: "update_relay (reg_actor intent) (reregister_row (reg_base intent) t) d
       = Some (put_relay (reg_actor intent) (reregister_row (reg_base intent) t r) d)"
      if "fresh_at d (reg_actor intent) t"
      by (rule update_relay_put [where f = "reregister_row (reg_base intent) t",
            OF Some relay_check_reregister [OF R(1) fresh_row [OF that Some] v(2)]])
    show ?thesis
      using calm(2) [of "reg_actor intent" d] Some seen rereg
      by (cases "lifecycle_state r")
        (auto simp: register_tx_def register_spec_def selectRelay_def is_suspended_def classify_registration_def
          rec calm base accept_relay_def tx_simps Let_def)
  qed
qed

definition heartbeat_spec :: "string \<Rightarrow> int \<Rightarrow> db \<Rightarrow> outcome result \<times> db" where
  "heartbeat_spec actor t d =
     (case map_of (relays d) actor of
        None \<Rightarrow> (Inl (Err ErrRelayAbsent), d)
      | Some r \<Rightarrow>
          if lifecycle_state r \<noteq> Registered then (Inl (Err ErrRelayAbsent), d)
          else if administrative_state r = Suspended then (Inl (Err ErrRelaySuspended), d)
          else if \<not> fresh_at d actor t then (Inl (Err ErrTransitionTime), d)
          else (Inr OutcomeRecorded, accept_relay actor (seen_row t r) HeartbeatRecorded t d))"

lemma heartbeat_calm:
  assumes ok: "db_ok d" and valid: "validateIdentityIntent actor = None" and t: "0 \<le> t"
  shows "run_tx calm (heartbeat_tx actor t) d = heartbeat_spec actor t d"
proof -
  have v: "actor_length_ok actor" using valid by (simp add: validateIdentityIntent_None)
  note calm = requireMonotonicTime_calm [OF t] insertRelayEvent_calm [OF v t]
  note rec = record_fresh [OF ok _ t v retained_put put_relay_observations]
  show ?thesis
  proof (cases "map_of (relays d) actor")
    case None
    then show ?thesis by (simp add: heartbeat_tx_def heartbeat_spec_def selectRelay_def tx_simps)
  next
    case (Some r)
    note R = relays_okD [OF ok Some]
    have seen: "update_relay actor (seen_row t) d = Some (put_relay actor (seen_row t r) d)"
      if "fresh_at d actor t" "lifecycle_state r = Registered"
      by (rule update_relay_put [where f = "seen_row t",
            OF Some relay_check_seen [OF R(1) fresh_row [OF that(1) Some] that(2)]])
    show ?thesis
      using calm(1) [of actor d] Some seen
      by (auto simp: heartbeat_tx_def heartbeat_spec_def selectRelay_def rec calm accept_relay_def tx_simps)
  qed
qed

text \<open>
  \<open>Unregister\<close> writes the row only of a registered relay, the verification evidence only
  of a retained identity, and the event always.
\<close>

definition unregister_spec :: "string \<Rightarrow> int \<Rightarrow> db \<Rightarrow> outcome result \<times> db" where
  "unregister_spec actor t d =
     (if \<not> fresh_at d actor t then (Inl (Err ErrTransitionTime), d)
      else case map_of (relays d) actor of
        Some r \<Rightarrow>
          if lifecycle_state r = Registered
          then (Inr OutcomeRemoved, accept_relay actor (unregistered_row t r) UnregisterRemoved t d)
          else (Inr OutcomeAbsent, log_relay actor UnregisterAbsent t (put_verified actor t d))
      | None \<Rightarrow>
          (Inr OutcomeAbsent,
           log_relay actor UnregisterAbsent t (if retained d actor then put_verified actor t d else d)))"

lemma unregister_calm:
  assumes ok: "db_ok d" and valid: "validateIdentityIntent actor = None" and t: "0 \<le> t"
  shows "run_tx calm (unregister_tx actor t) d = unregister_spec actor t d"
proof -
  have v: "actor_length_ok actor" using valid by (simp add: validateIdentityIntent_None)
  note calm = requireMonotonicTime_calm [OF t] insertRelayEvent_calm [OF v t]
  note rec = record_fresh [OF ok _ t v]
  show ?thesis
  proof (cases "map_of (relays d) actor")
    case None
    then show ?thesis
      using calm(1) [of actor d]
      by (simp add: unregister_tx_def unregister_spec_def selectRelay_def is_registered_def
          retainedObservationIdentity_def rec calm tx_simps Let_def)
  next
    case (Some r)
    note R = relays_okD [OF ok Some]
    have upd: "update_relay actor (unregistered_row t) d = Some (put_relay actor (unregistered_row t r) d)"
      if "fresh_at d actor t" "lifecycle_state r = Registered"
      by (rule update_relay_put [where f = "unregistered_row t",
            OF Some relay_check_unregistered [OF R(1) fresh_row(1) [OF that(1) Some] that(2)]])
    have ret: "retained d actor" using Some by (simp add: retained_def)
    show ?thesis
      using calm(1) [of actor d] Some upd ret
      by (cases "lifecycle_state r = Registered"; cases "fresh_at d actor t")
        (simp_all add: unregister_tx_def unregister_spec_def selectRelay_def is_registered_def
          retainedObservationIdentity_def rec calm accept_relay_def tx_simps Let_def)
  qed
qed

definition log_moderation :: "ModerationIntent \<Rightarrow> moderation_action \<Rightarrow> int \<Rightarrow> db \<Rightarrow> db" where
  "log_moderation intent act t d =
     d\<lparr>moderation_events := moderation_events d @
         [\<lparr>moderation_id = moderation_event_seq d + 1, moderation_actor = mod_actor intent,
           moderation_action = act, moderator_id = mod_moderator intent,
           reason_code = mod_reason intent, moderation_at = t\<rparr>],
       moderation_event_seq := moderation_event_seq d + 1\<rparr>"

definition moderate_spec :: "ModerationIntent \<Rightarrow> int \<Rightarrow> administrative \<Rightarrow> db \<Rightarrow> ModerationOutcome result \<times> db" where
  "moderate_spec intent t target d =
     (case map_of (relays d) (mod_actor intent) of
        None \<Rightarrow> (Inl (Err ErrRelayAbsent), d)
      | Some r \<Rightarrow>
          if \<not> fresh_at d (mod_actor intent) t then (Inl (Err ErrTransitionTime), d)
          else case classifyModeration (administrative_state r) target of (outcome, act, changed) \<Rightarrow>
            (Inr outcome,
             log_moderation intent act t
               (if changed then put_relay (mod_actor intent) (moderated_row target t r) d else d)))"

lemma ValidOperatorID_check: "ValidOperatorID s \<longleftrightarrow> operator_check s"
proof
  assume v: "ValidOperatorID s"
  then have ch: "(is_upper (s ! i) \<or> is_lower (s ! i) \<or> is_digit (s ! i)) \<or> (0 < i \<and> chars_in ''@._:+-'' (s ! i))"
    if "i < length s" for i
    using that by (simp add: ValidOperatorID_def list_all_iff Let_def)
  have len: "0 < length s" "length s \<le> 128" using v by (auto simp: ValidOperatorID_def)
  moreover have "list_all token_char s"
    using ch by (fastforce simp: list_all_iff token_char_def in_set_conv_nth)
  moreover have "is_upper (hd s) \<or> is_lower (hd s) \<or> is_digit (hd s)"
    using ch [of 0] len by (simp add: hd_conv_nth)
  ultimately show "operator_check s" by (simp add: operator_check_def Suc_le_eq)
next
  assume c: "operator_check s"
  then have "s \<noteq> []" by (auto simp: operator_check_def)
  with c show "ValidOperatorID s"
    by (auto simp: operator_check_def ValidOperatorID_def list_all_iff token_char_def Let_def hd_conv_nth
        dest: nth_mem) (metis gr0I)+
qed

lemma ValidModerationReasonCode_check: "ValidModerationReasonCode s \<longleftrightarrow> reason_check s"
proof
  assume v: "ValidModerationReasonCode s"
  then have ch: "if i = 0 then is_lower (s ! i) else is_lower (s ! i) \<or> is_digit (s ! i) \<or> chars_in ''_-'' (s ! i)"
    if "i < length s" for i
    using that by (simp add: ValidModerationReasonCode_def list_all_iff Let_def)
  have len: "0 < length s" "length s \<le> 64" using v by (auto simp: ValidModerationReasonCode_def)
  moreover have "list_all (\<lambda>c. is_lower c \<or> is_digit c \<or> chars_in ''_-'' c) s"
    using ch by (fastforce simp: list_all_iff in_set_conv_nth split: if_splits)
  moreover have "is_lower (hd s)" using ch [of 0] len by (simp add: hd_conv_nth)
  ultimately show "reason_check s" by (simp add: reason_check_def Suc_le_eq)
next
  assume c: "reason_check s"
  then have "s \<noteq> []" by (auto simp: reason_check_def)
  with c show "ValidModerationReasonCode s"
    by (auto simp: reason_check_def ValidModerationReasonCode_def list_all_iff Let_def hd_conv_nth dest: nth_mem)
qed

lemma validateModerationIntent_None:
  "validateModerationIntent intent = None \<longleftrightarrow>
     validateIdentityIntent (mod_actor intent) = None \<and>
     operator_check (mod_moderator intent) \<and> reason_check (mod_reason intent)"
  by (auto simp: validateModerationIntent_def ValidOperatorID_check ValidModerationReasonCode_check
      split: option.splits)

lemma moderate_calm:
  assumes ok: "db_ok d" and valid: "validateModerationIntent intent = None" and t: "0 \<le> t"
  shows "run_tx calm (moderate_tx intent t target) d = moderate_spec intent t target d"
proof -
  have v: "actor_length_ok (mod_actor intent)" "operator_check (mod_moderator intent)" "reason_check (mod_reason intent)"
    using valid by (auto simp: validateModerationIntent_None validateIdentityIntent_None)
  note calm = requireMonotonicTime_calm [OF t]
  have ev: "insertModerationEvent intent act t (d', []) = (Inr (), (log_moderation intent act t d', []))" for act d'
    using v t by (simp add: insertModerationEvent_def insert_moderation_event_def log_moderation_def tx_simps)
  show ?thesis
  proof (cases "map_of (relays d) (mod_actor intent)")
    case None
    then show ?thesis by (simp add: moderate_tx_def moderate_spec_def selectRelay_def tx_simps)
  next
    case (Some r)
    have upd: "update_relay (mod_actor intent) (moderated_row target t) d
        = Some (put_relay (mod_actor intent) (moderated_row target t r) d)" if "fresh_at d (mod_actor intent) t"
      by (rule update_relay_put [where f = "moderated_row target t",
            OF Some relay_check_moderated [OF relays_okD(1) [OF ok Some] fresh_row(1) [OF that Some]]])
    show ?thesis
      using calm [of "mod_actor intent" d] Some upd
      by (cases "fresh_at d (mod_actor intent) t")
        (simp_all add: moderate_tx_def moderate_spec_def selectRelay_def ev tx_simps split: prod.splits)
  qed
qed

definition log_enrollment :: "enrollment_action \<Rightarrow> string \<Rightarrow> int \<Rightarrow> db \<Rightarrow> db" where
  "log_enrollment act operator t d =
     d\<lparr>enrollment_events := enrollment_events d @
         [\<lparr>enrollment_id = enrollment_event_seq d + 1, enrollment_action = act,
           enrollment_operator = operator, enrollment_at = t\<rparr>],
       enrollment_event_seq := enrollment_event_seq d + 1\<rparr>"

definition enrollment_fresh :: "db \<Rightarrow> int \<Rightarrow> bool" where
  "enrollment_fresh d t \<longleftrightarrow>
     (case directory_policy d of None \<Rightarrow> False | Some p \<Rightarrow> policy_updated_at p \<le> t) \<and>
     list_all (\<lambda>e. enrollment_at e \<le> t) (enrollment_events d)"

definition set_enrollment_spec :: "bool \<Rightarrow> string \<Rightarrow> int \<Rightarrow> db \<Rightarrow> EnrollmentOutcome result \<times> db" where
  "set_enrollment_spec target operator t d =
     (if \<not> enrollment_fresh d t then (Inl (Err ErrTransitionTime), d)
      else case classifyEnrollment (enrollment_is_open d) target of (outcome, act) \<Rightarrow>
        (Inr outcome,
         log_enrollment act operator t
           (if enrollment_is_open d \<noteq> target
            then d\<lparr>directory_policy := Some \<lparr>enrollment_open = boolInteger target, policy_updated_at = t\<rparr>\<rparr>
            else d)))"

lemma set_enrollment_calm:
  assumes ok: "db_ok d" and valid: "ValidOperatorID operator" and t: "0 \<le> t"
  shows "run_tx calm (set_enrollment_tx target operator t) d = set_enrollment_spec target operator t d"
proof -
  obtain p where p: "directory_policy d = Some p" using db_okD(4) [OF ok] by (auto simp: policy_ok_def)
  have time: "requireEnrollmentTime t (d, []) =
    (if enrollment_fresh d t then Inr () else Inl (Err ErrTransitionTime), (d, []))"
    using p by (auto simp: requireEnrollmentTime_def enrollment_fresh_def tx_simps later_of_le sql_max_le_iff
        list_all_iff simp flip: not_le split: option.splits)
  have ev: "insert_enrollment_event act operator t d' = Some (log_enrollment act operator t d')" for act d'
    using valid t by (simp add: insert_enrollment_event_def log_enrollment_def ValidOperatorID_check)
  have upd: "update_policy (boolInteger target) t d =
    Some (d\<lparr>directory_policy := Some \<lparr>enrollment_open = boolInteger target, policy_updated_at = t\<rparr>\<rparr>)"
    using p t by (simp add: update_policy_def boolInteger_def)
  show ?thesis
    by (cases "enrollment_fresh d t")
      (simp_all add: set_enrollment_tx_def set_enrollment_spec_def selectEnrollmentOpen_calm [OF db_okD(4) [OF ok]]
        time ev upd tx_simps split: prod.splits)
qed

subsection \<open>Preservation of the invariant\<close>

lemmas db_ok_parts = db_ok_def relays_ok_def observations_ok_def discoveries_ok_def policy_ok_def

lemma put_relay_times [simp]:
  "event_times (put_relay a r d) actor = event_times d actor"
  "moderation_times (put_relay a r d) actor = moderation_times d actor"
  by (simp_all add: event_times_def moderation_times_def put_relay_def)

lemma put_verified_times [simp]:
  "event_times (put_verified a t d) actor = event_times d actor"
  "moderation_times (put_verified a t d) actor = moderation_times d actor"
  by (simp_all add: event_times_def moderation_times_def put_verified_def)

lemma log_relay_times [simp]:
  "event_times (log_relay a k t d) actor = event_times d actor @ (if actor = a then [t] else [])"
  "moderation_times (log_relay a k t d) actor = moderation_times d actor"
  by (simp_all add: event_times_def moderation_times_def log_relay_def)

lemma log_moderation_times [simp]:
  "event_times (log_moderation i act t d) actor = event_times d actor"
  "moderation_times (log_moderation i act t d) actor =
     moderation_times d actor @ (if actor = mod_actor i then [t] else [])"
  by (auto simp: event_times_def moderation_times_def log_moderation_def)

lemma put_relay_ok:
  assumes ok: "db_ok d" and "relay_check actor r" "canonical_identity actor (public_base_url r)"
  shows "db_ok (put_relay actor r d)"
proof -
  have "relays_ok (put_relay actor r d)" using assms by (auto simp: db_ok_def relays_ok_def put_relay_def)
  moreover have "retained d a \<Longrightarrow> retained (put_relay actor r d) a" for a
    by (auto simp: retained_def put_relay_def)
  then have "observations_ok (put_relay actor r d)"
    using ok by (auto simp: db_ok_def observations_ok_def simp del: map_of_eq_Some_iff)
  moreover have "discoveries_ok (put_relay actor r d)" "policy_ok (put_relay actor r d)"
    using ok by (auto simp: db_ok_def discoveries_ok_def policy_ok_def put_relay_def)
  moreover have "events_ok (put_relay actor r d)"
    using ok unfolding db_ok_def events_ok_def by (simp add: put_relay_def event_times_def moderation_times_def)
  ultimately show ?thesis by (simp add: db_ok_def)
qed

lemma log_relay_ok:
  assumes ok: "db_ok d" and fresh: "\<And>x. x \<in> set (event_times d actor) \<Longrightarrow> x \<le> t"
  shows "db_ok (log_relay actor kind t d)"
proof -
  have "relays_ok (log_relay actor kind t d)" "discoveries_ok (log_relay actor kind t d)"
    "policy_ok (log_relay actor kind t d)"
    using ok by (auto simp: db_ok_parts log_relay_def)
  moreover have "retained (log_relay actor kind t d) a = retained d a" for a
    by (simp add: retained_def log_relay_def)
  then have "observations_ok (log_relay actor kind t d)"
    using ok by (fastforce simp: db_ok_def observations_ok_def log_relay_def [of actor kind t d, THEN arg_cong, of relay_observations]
        simp del: map_of_eq_Some_iff)
  moreover have "events_ok (log_relay actor kind t d)"
    using ok fresh unfolding db_ok_def events_ok_def
    by (auto simp: log_relay_def event_times_def moderation_times_def sorted_append sorted_wrt_append)
  ultimately show ?thesis by (simp add: db_ok_def)
qed

lemma verified_log_ok:
  assumes ok: "db_ok d" and fresh: "\<And>x. x \<in> set (event_times d actor) \<Longrightarrow> x \<le> t"
    and "0 \<le> t" "actor_length_ok actor" "retained d actor"
  shows "db_ok (log_relay actor kind t (put_verified actor t d))"
proof -
  let ?d = "log_relay actor kind t (put_verified actor t d)"
  have ok': "db_ok (log_relay actor kind t d)" by (rule log_relay_ok [OF ok fresh])
  have obs: "map_of (relay_observations ?d) =
     (map_of (relay_observations d))(actor \<mapsto> verified_observation t (map_of (relay_observations d) actor))"
    by (simp add: log_relay_def put_verified_def)
  have keep: "retained ?d a = retained d a" for a
    by (simp add: retained_def log_relay_def put_verified_def)
  have "observation_check actor (verified_observation t (map_of (relay_observations d) actor))"
    using ok assms(3,4) by (intro observation_check_verified(1)) (auto simp: db_ok_def observations_ok_def)
  moreover have "table_ok (relay_observations ?d)"
    using ok by (simp add: db_ok_def observations_ok_def log_relay_def put_verified_def)
  moreover have "rfc9421_verified (verified_observation t found) = Some t" for found
    by (simp add: verified_observation_def Let_def)
  ultimately have "observations_ok ?d"
    using ok assms(5) unfolding observations_ok_def obs keep
    by (auto simp: db_ok_def observations_ok_def simp del: map_of_eq_Some_iff split: if_splits)
  moreover have "relays_ok ?d" "discoveries_ok ?d" "policy_ok ?d" "events_ok ?d"
    using ok' by (auto simp: db_ok_parts events_ok_def log_relay_def put_verified_def event_times_def moderation_times_def)
  ultimately show ?thesis by (simp add: db_ok_def)
qed

lemma accept_relay_ok:
  assumes ok: "db_ok d" and fresh: "fresh_at d actor t" and "0 \<le> t" "actor_length_ok actor"
    and "relay_check actor r" "canonical_identity actor (public_base_url r)"
  shows "db_ok (accept_relay actor r kind t d)"
  unfolding accept_relay_def
  using assms by (intro verified_log_ok put_relay_ok) (auto intro: fresh_event)

lemma log_moderation_ok:
  assumes ok: "db_ok d" and fresh: "\<And>x. x \<in> set (moderation_times d (mod_actor i)) \<Longrightarrow> x \<le> t"
  shows "db_ok (log_moderation i act t d)"
proof -
  have "retained (log_moderation i act t d) a = retained d a" for a
    by (simp add: retained_def log_moderation_def)
  then have "observations_ok (log_moderation i act t d)"
    using ok by (auto simp: db_ok_def observations_ok_def log_moderation_def event_times_def simp del: map_of_eq_Some_iff)
  moreover have "relays_ok (log_moderation i act t d)" "discoveries_ok (log_moderation i act t d)"
    "policy_ok (log_moderation i act t d)"
    using ok by (auto simp: db_ok_parts log_moderation_def)
  moreover have "events_ok (log_moderation i act t d)"
    using ok fresh unfolding db_ok_def events_ok_def
    by (auto simp: log_moderation_def event_times_def moderation_times_def sorted_append sorted_wrt_append)
  ultimately show ?thesis by (simp add: db_ok_def)
qed

lemma enrollment_ok:
  assumes ok: "db_ok d" and fresh: "enrollment_fresh d t" and "0 \<le> t"
  shows "db_ok (log_enrollment act op t d)"
    and "db_ok (log_enrollment act op t
           (d\<lparr>directory_policy := Some \<lparr>enrollment_open = boolInteger b, policy_updated_at = t\<rparr>\<rparr>))"
  using assms
  by (auto simp: db_ok_parts events_ok_def log_enrollment_def event_times_def moderation_times_def
      retained_def boolInteger_def enrollment_fresh_def list_all_iff sorted_append simp del: map_of_eq_Some_iff)


end
