(* ===== verification/DiscoveryStore.thy ===== *)
theory DiscoveryStore
  imports RelayStore
begin

section \<open>Discoveries and observations\<close>

text \<open>
  \<open>internal/storage/sqlite/discovery.go\<close> with the validators of
  \<open>internal/storage/discovery.go\<close>: operator-recorded discoveries with their audit events,
  and the reachability observations of retained identities.
\<close>

subsection \<open>Inputs\<close>

record DiscoveryAddIntent =
  add_actor :: string
  add_base :: string
  add_operator :: string
  add_reason :: string
  add_source :: source_kind
  add_label :: string

record DiscoveryRemoveIntent =
  rem_actor :: string
  rem_operator :: string
  rem_reason :: string
  rem_source :: source_kind
  rem_label :: string

datatype DiscoveryOutcome =
  DiscoveryAdded | DiscoveryUpdated | DiscoveryUnchanged | DiscoveryRemovedOK | DiscoveryAbsent

definition ValidDiscoverySourceLabel :: "string \<Rightarrow> bool" where
  "ValidDiscoverySourceLabel value \<longleftrightarrow> value = [] \<or>
     (\<not> length value > 128 \<and>
      list_all (\<lambda>i. let c = value ! i in
         (is_upper c \<or> is_lower c \<or> is_digit c) \<or> (0 < i \<and> chars_in ''@._:+-'' c))
        [0..<length value])"

definition validateDiscoveryAddIntent :: "DiscoveryAddIntent \<Rightarrow> goerror option" where
  "validateDiscoveryAddIntent intent =
     (case NormalizeRelayIdentity (add_actor intent) (add_base intent) of
        Inl _ \<Rightarrow> Some (Err ErrTransitionInput)
      | Inr identity \<Rightarrow>
          if RelayActor identity \<noteq> add_actor intent \<or> PublicBaseURL identity \<noteq> add_base intent \<or>
             \<not> ValidOperatorID (add_operator intent) \<or> \<not> ValidModerationReasonCode (add_reason intent) \<or>
             \<not> ValidDiscoverySourceLabel (add_label intent)
          then Some (Err ErrTransitionInput) else None)"

definition validateDiscoveryRemoveIntent :: "DiscoveryRemoveIntent \<Rightarrow> goerror option" where
  "validateDiscoveryRemoveIntent intent =
     (if validateIdentityIntent (rem_actor intent) \<noteq> None \<or>
         \<not> ValidOperatorID (rem_operator intent) \<or> \<not> ValidModerationReasonCode (rem_reason intent) \<or>
         \<not> ValidDiscoverySourceLabel (rem_label intent)
      then Some (Err ErrTransitionInput) else None)"

subsection \<open>Discoveries\<close>

definition selectDiscovery :: "string \<Rightarrow> (db, discovery_row option) tx" where
  "selectDiscovery actor = query ''read discovery'' (\<lambda>d. map_of (relay_discoveries d) actor)"

definition discovery_times :: "db \<Rightarrow> string \<Rightarrow> int list" where
  "discovery_times d actor =
     map discovery_at (filter (\<lambda>e. discovery_actor e = actor) (discovery_events d))"

definition requireDiscoveryTime :: "string \<Rightarrow> int \<Rightarrow> discovery_row option \<Rightarrow> (db, unit) tx" where
  "requireDiscoveryTime actor acceptedUnix current =
     (let latest = (case current of None \<Rightarrow> -1 | Some c \<Rightarrow> discovery_updated_at c) in
      bindt (query ''read discovery event time'' (\<lambda>d. sql_max (discovery_times d actor))) (\<lambda>latestEvent.
        if acceptedUnix < later_of latest latestEvent then fail (Err ErrTransitionTime) else ret ()))"

definition insertDiscoveryEvent ::
  "string \<Rightarrow> discovery_action \<Rightarrow> string \<Rightarrow> string \<Rightarrow> source_kind \<Rightarrow> string \<Rightarrow> int \<Rightarrow> (db, unit) tx" where
  "insertDiscoveryEvent actor act operator reason kind label t =
     exec ''write discovery event''
       (insert_discovery_event actor act operator reason kind (if label \<noteq> [] then Some label else None) t)"

definition discovered_row :: "string \<Rightarrow> int \<Rightarrow> discovery_row" where
  "discovered_row base t =
     \<lparr>discovery_base_url = base, discovery_state = DiscoveryActive, first_discovered_at = t,
      discovery_updated_at = t, removed_at = None\<rparr>"

definition rediscovered_row :: "string \<Rightarrow> int \<Rightarrow> discovery_row \<Rightarrow> discovery_row" where
  "rediscovered_row base t r =
     r\<lparr>discovery_base_url := base, discovery_state := DiscoveryActive, discovery_updated_at := t,
       removed_at := None\<rparr>"

text \<open>The switch of \<open>AddDiscovery\<close>: outcome, event and the write, if any.\<close>

definition classify_discovery :: "DiscoveryAddIntent \<Rightarrow> int \<Rightarrow> discovery_row option
    \<Rightarrow> DiscoveryOutcome \<times> discovery_action \<times> (db \<Rightarrow> db option) option" where
  "classify_discovery intent t current =
     (case current of
        None \<Rightarrow>
          (DiscoveryAdded, DiscoveryAddedEvent,
           Some (insert_discovery (add_actor intent) (discovered_row (add_base intent) t)))
      | Some c \<Rightarrow>
          if discovery_state c = DiscoveryActive \<and> discovery_base_url c = add_base intent
          then (DiscoveryUnchanged, DiscoveryUnchangedEvent, None)
          else (DiscoveryUpdated, DiscoveryUpdatedEvent,
                Some (update_discovery (add_actor intent) (rediscovered_row (add_base intent) t))))"

definition add_discovery_tx :: "DiscoveryAddIntent \<Rightarrow> int \<Rightarrow> (db, DiscoveryOutcome completion) tx" where
  "add_discovery_tx intent t =
     bindt (selectDiscovery (add_actor intent)) (\<lambda>current.
     bindt (requireDiscoveryTime (add_actor intent) t current) (\<lambda>_.
     case classify_discovery intent t current of (outcome, act, write) \<Rightarrow>
     bindt (case write of None \<Rightarrow> ret () | Some w \<Rightarrow> exec ''write discovery'' w) (\<lambda>_.
     bindt (insertDiscoveryEvent (add_actor intent) act (add_operator intent) (add_reason intent)
              (add_source intent) (add_label intent) t) (\<lambda>_.
     ret (Commit ''commit discovery add'' outcome)))))"

definition AddDiscovery :: "environment \<Rightarrow> DiscoveryAddIntent \<Rightarrow> int \<Rightarrow> db \<Rightarrow> DiscoveryOutcome result \<times> db" where
  "AddDiscovery env intent acceptedAt d =
     (case validateDiscoveryAddIntent intent of
        Some e \<Rightarrow> (Inl e, d)
      | None \<Rightarrow>
          (case transitionUnix acceptedAt of
             Inl e \<Rightarrow> (Inl e, d)
           | Inr acceptedUnix \<Rightarrow> run_tx env (add_discovery_tx intent acceptedUnix) d))"

definition removed_row :: "int \<Rightarrow> discovery_row \<Rightarrow> discovery_row" where
  "removed_row t r =
     r\<lparr>discovery_state := DiscoveryRemoved, discovery_updated_at := t, removed_at := Some t\<rparr>"

definition is_active_discovery :: "discovery_row option \<Rightarrow> bool" where
  "is_active_discovery current =
     (case current of None \<Rightarrow> False | Some c \<Rightarrow> discovery_state c = DiscoveryActive)"

definition remove_discovery_tx :: "DiscoveryRemoveIntent \<Rightarrow> int \<Rightarrow> (db, DiscoveryOutcome completion) tx" where
  "remove_discovery_tx intent t =
     bindt (selectDiscovery (rem_actor intent)) (\<lambda>current.
     bindt (requireDiscoveryTime (rem_actor intent) t current) (\<lambda>_.
     let (outcome, act) =
       (if is_active_discovery current then (DiscoveryRemovedOK, DiscoveryRemovedEvent)
        else (DiscoveryAbsent, DiscoveryAbsentEvent)) in
     bindt (if is_active_discovery current
            then exec ''write discovery removal'' (update_discovery (rem_actor intent) (removed_row t))
            else ret ()) (\<lambda>_.
     bindt (insertDiscoveryEvent (rem_actor intent) act (rem_operator intent) (rem_reason intent)
              (rem_source intent) (rem_label intent) t) (\<lambda>_.
     ret (Commit ''commit discovery removal'' outcome)))))"

definition RemoveDiscovery :: "environment \<Rightarrow> DiscoveryRemoveIntent \<Rightarrow> int \<Rightarrow> db \<Rightarrow> DiscoveryOutcome result \<times> db" where
  "RemoveDiscovery env intent acceptedAt d =
     (case validateDiscoveryRemoveIntent intent of
        Some e \<Rightarrow> (Inl e, d)
      | None \<Rightarrow>
          (case transitionUnix acceptedAt of
             Inl e \<Rightarrow> (Inl e, d)
           | Inr acceptedUnix \<Rightarrow> run_tx env (remove_discovery_tx intent acceptedUnix) d))"

definition GetDiscovery :: "bool \<Rightarrow> string \<Rightarrow> db \<Rightarrow> discovery_row option result" where
  "GetDiscovery fault actor d =
     (if validateIdentityIntent actor \<noteq> None then Inl (Err ErrDiscoveryReadInput)
      else if fault then Inl (storageFailure ''read discovery state'' driver_error)
      else Inr (map_of (relay_discoveries d) actor))"

subsection \<open>Observations\<close>

record ActorObservationIntent =
  obs_actor :: string
  obs_state :: reachability
  obs_inbox :: string

record InboxObservationIntent =
  inb_actor :: string
  inb_url :: string
  inb_state :: inbox_probe

definition canonical_inbox :: "string \<Rightarrow> bool" where
  "canonical_inbox u \<longleftrightarrow> NormalizeRelayActorURL u = Inr u \<and> length u \<le> maximumRelayActorBytes"

definition validateActorObservationIntent :: "ActorObservationIntent \<Rightarrow> goerror option" where
  "validateActorObservationIntent intent =
     (if validateIdentityIntent (obs_actor intent) \<noteq> None \<or>
         (obs_state intent \<noteq> ReachabilityReachable \<and> obs_state intent \<noteq> ReachabilityUnreachable)
      then Some (Err ErrObservationInput)
      else if obs_state intent = ReachabilityUnreachable \<and> obs_inbox intent \<noteq> []
      then Some (Err ErrObservationInput)
      else if obs_inbox intent \<noteq> [] \<and> \<not> canonical_inbox (obs_inbox intent)
      then Some (Err ErrObservationInput)
      else None)"

definition validateInboxObservationIntent :: "InboxObservationIntent \<Rightarrow> goerror option" where
  "validateInboxObservationIntent intent =
     (if validateIdentityIntent (inb_actor intent) \<noteq> None \<or> inb_state intent = InboxNotChecked \<or>
         inb_url intent = []
      then Some (Err ErrObservationInput)
      else if \<not> canonical_inbox (inb_url intent) then Some (Err ErrObservationInput)
      else None)"

definition observationUnix :: "int \<Rightarrow> int result" where
  "observationUnix value = (if value < 0 then Inl (Err ErrObservationTime) else Inr value)"

definition observed_row :: "ActorObservationIntent \<Rightarrow> int \<Rightarrow> int \<Rightarrow> observation \<Rightarrow> observation" where
  "observed_row intent t updatedUnix r =
     (if obs_state intent = ReachabilityReachable
      then r\<lparr>actor_state := obs_state intent, actor_last_checked := Some t, actor_last_success := Some t,
             inbox_url := (if obs_inbox intent \<noteq> [] then Some (obs_inbox intent) else None),
             inbox_declared := (if obs_inbox intent \<noteq> [] then Some t else None),
             inbox_probe_state := InboxNotChecked, inbox_last_checked := None,
             observation_updated_at := updatedUnix, revision := revision r + 1\<rparr>
      else r\<lparr>actor_state := obs_state intent, actor_last_checked := Some t,
             observation_updated_at := updatedUnix, revision := revision r + 1\<rparr>)"

definition record_actor_tx :: "ActorObservationIntent \<Rightarrow> int \<Rightarrow> (db, unit completion) tx" where
  "record_actor_tx intent t =
     bindt (retainedObservationIdentity ''read observation identity'' (obs_actor intent)) (\<lambda>kept.
     if \<not> kept then fail (Err ErrObservationAbsent)
     else
       bindt (selectObservation ''read actor observation'' (obs_actor intent)) (\<lambda>found.
       if (case found of Some c \<Rightarrow> \<not> opt_le (actor_last_checked c) t | None \<Rightarrow> False)
       then fail (Err ErrObservationTime)
       else
         bindt (case found of
                  Some current \<Rightarrow> ret current
                | None \<Rightarrow>
                    bindt (insertEmptyObservation (obs_actor intent) t) (\<lambda>_.
                    bindt (selectObservation ''read inserted actor observation'' (obs_actor intent)) (\<lambda>again.
                      case again of
                        Some current \<Rightarrow> ret current
                      | None \<Rightarrow>
                          fail (storageFailure ''read inserted actor observation''
                                  (Opaque ''observation row missing after insert''))))) (\<lambda>current.
         bindt (exec ''write actor observation''
                  (update_observation (obs_actor intent)
                     (observed_row intent t (maxInt64 (observation_updated_at current) t)))) (\<lambda>_.
         ret (Commit ''commit actor observation'' ())))))"

definition RecordActorObservation :: "environment \<Rightarrow> ActorObservationIntent \<Rightarrow> int \<Rightarrow> db \<Rightarrow> unit result \<times> db" where
  "RecordActorObservation env intent observedAt d =
     (case validateActorObservationIntent intent of
        Some e \<Rightarrow> (Inl e, d)
      | None \<Rightarrow>
          (case observationUnix observedAt of
             Inl e \<Rightarrow> (Inl e, d)
           | Inr observedUnix \<Rightarrow> run_tx env (record_actor_tx intent observedUnix) d))"

definition probed_row :: "InboxObservationIntent \<Rightarrow> int \<Rightarrow> int \<Rightarrow> observation \<Rightarrow> observation" where
  "probed_row intent t updatedUnix r =
     r\<lparr>inbox_probe_state := inb_state intent, inbox_last_checked := Some t,
       observation_updated_at := updatedUnix, revision := revision r + 1\<rparr>"

definition record_inbox_tx :: "InboxObservationIntent \<Rightarrow> int \<Rightarrow> (db, unit completion) tx" where
  "record_inbox_tx intent t =
     bindt (selectObservation ''read inbox observation'' (inb_actor intent)) (\<lambda>found.
     case found of
       None \<Rightarrow> fail (Err ErrObservationConflict)
     | Some current \<Rightarrow>
         if inbox_url current \<noteq> Some (inb_url intent) then fail (Err ErrObservationConflict)
         else if \<not> opt_le (inbox_declared current) t \<or> \<not> opt_le (inbox_last_checked current) t
         then fail (Err ErrObservationTime)
         else
           bindt (exec ''write inbox observation''
                    (update_observation (inb_actor intent)
                       (probed_row intent t (maxInt64 (observation_updated_at current) t)))) (\<lambda>_.
           ret (Commit ''commit inbox observation'' ())))"

definition RecordInboxObservation :: "environment \<Rightarrow> InboxObservationIntent \<Rightarrow> int \<Rightarrow> db \<Rightarrow> unit result \<times> db" where
  "RecordInboxObservation env intent observedAt d =
     (case validateInboxObservationIntent intent of
        Some e \<Rightarrow> (Inl e, d)
      | None \<Rightarrow>
          (case observationUnix observedAt of
             Inl e \<Rightarrow> (Inl e, d)
           | Inr observedUnix \<Rightarrow> run_tx env (record_inbox_tx intent observedUnix) d))"

definition decodeObservation :: "observation \<Rightarrow> observation result" where
  "decodeObservation r =
     (if observation_updated_at r < 0 \<or> revision r < 1 then Inl (Opaque ''invalid observation row'') else Inr r)"

definition GetObservation :: "bool \<Rightarrow> string \<Rightarrow> db \<Rightarrow> observation option result" where
  "GetObservation fault actor d =
     (if validateIdentityIntent actor \<noteq> None then Inl (Err ErrObservationInput)
      else if fault then Inl (storageFailure ''read relay observation'' driver_error)
      else case map_of (relay_observations d) actor of
             None \<Rightarrow> Inr None
           | Some r \<Rightarrow>
               (case decodeObservation r of
                  Inl e \<Rightarrow> Inl (storageFailure ''validate relay observation'' e)
                | Inr observation \<Rightarrow> Inr (Some observation)))"

subsection \<open>Fault tolerance\<close>

lemmas discovery_tx_defs = selectDiscovery_def requireDiscoveryTime_def insertDiscoveryEvent_def

lemma add_discovery_tolerant: "fault_tolerant (add_discovery_tx intent t)"
  unfolding add_discovery_tx_def discovery_tx_defs Let_def by (intro tolerant)

lemma remove_discovery_tolerant: "fault_tolerant (remove_discovery_tx intent t)"
  unfolding remove_discovery_tx_def discovery_tx_defs Let_def by (intro tolerant)

lemma record_actor_tolerant: "fault_tolerant (record_actor_tx intent t)"
  unfolding record_actor_tx_def store_tx_defs by (intro tolerant)

lemma record_inbox_tolerant: "fault_tolerant (record_inbox_tx intent t)"
  unfolding record_inbox_tx_def store_tx_defs by (intro tolerant)

subsection \<open>Functional behaviour without faults\<close>

definition discovery_fresh :: "db \<Rightarrow> string \<Rightarrow> int \<Rightarrow> bool" where
  "discovery_fresh d actor t \<longleftrightarrow>
     (case map_of (relay_discoveries d) actor of None \<Rightarrow> True | Some c \<Rightarrow> discovery_updated_at c \<le> t) \<and>
     list_all (\<lambda>x. x \<le> t) (discovery_times d actor)"

lemma requireDiscoveryTime_calm:
  assumes "0 \<le> t"
  shows "requireDiscoveryTime actor t (map_of (relay_discoveries d) actor) (d, []) =
    (if discovery_fresh d actor t then Inr () else Inl (Err ErrTransitionTime), (d, []))"
  using assms
  by (auto simp: requireDiscoveryTime_def tx_simps Let_def later_of_le sql_max_le_iff discovery_fresh_def
      list_all_iff simp flip: not_le split: option.splits)

lemma ValidDiscoverySourceLabel_check:
  "ValidDiscoverySourceLabel s \<longleftrightarrow> s = [] \<or> operator_check s"
proof -
  have "s \<noteq> [] \<Longrightarrow> ValidDiscoverySourceLabel s = ValidOperatorID s"
    by (auto simp: ValidDiscoverySourceLabel_def ValidOperatorID_def)
  then show ?thesis
    by (cases "s = []") (auto simp: ValidDiscoverySourceLabel_def ValidOperatorID_check)
qed

definition put_discovery :: "string \<Rightarrow> discovery_row \<Rightarrow> db \<Rightarrow> db" where
  "put_discovery actor r d = d\<lparr>relay_discoveries := AList.update actor r (relay_discoveries d)\<rparr>"

definition log_discovery :: "string \<Rightarrow> discovery_action \<Rightarrow> string \<Rightarrow> string \<Rightarrow> source_kind \<Rightarrow> string \<Rightarrow> int \<Rightarrow> db \<Rightarrow> db" where
  "log_discovery actor act operator reason kind label t d =
     d\<lparr>discovery_events := discovery_events d @
         [\<lparr>discovery_id = discovery_event_seq d + 1, discovery_actor = actor,
           discovery_action = act, discovery_operator = operator, discovery_reason = reason,
           discovery_source = kind, discovery_label = (if label \<noteq> [] then Some label else None),
           discovery_at = t\<rparr>],
       discovery_event_seq := discovery_event_seq d + 1\<rparr>"

lemma validateDiscoveryAddIntent_None:
  "validateDiscoveryAddIntent intent = None \<longleftrightarrow>
     canonical_identity (add_actor intent) (add_base intent) \<and>
     operator_check (add_operator intent) \<and> reason_check (add_reason intent) \<and>
     (add_label intent = [] \<or> operator_check (add_label intent))"
  by (auto simp: validateDiscoveryAddIntent_def canonical_identity_def ValidOperatorID_check
      ValidModerationReasonCode_check ValidDiscoverySourceLabel_check split: sum.splits)

definition add_discovery_spec :: "DiscoveryAddIntent \<Rightarrow> int \<Rightarrow> db \<Rightarrow> DiscoveryOutcome result \<times> db" where
  "add_discovery_spec intent t d =
     (let actor = add_actor intent;
          logged = (\<lambda>act. log_discovery actor act (add_operator intent) (add_reason intent)
                      (add_source intent) (add_label intent) t) in
      if \<not> discovery_fresh d actor t then (Inl (Err ErrTransitionTime), d)
      else case map_of (relay_discoveries d) actor of
        None \<Rightarrow>
          if actor_length_ok actor \<and> base_length_ok (add_base intent)
          then (Inr DiscoveryAdded,
                logged DiscoveryAddedEvent (put_discovery actor (discovered_row (add_base intent) t) d))
          else (Inl (storageFailure ''write discovery'' constraint_error), d)
      | Some c \<Rightarrow>
          if discovery_state c = DiscoveryActive then (Inr DiscoveryUnchanged, logged DiscoveryUnchangedEvent d)
          else (Inr DiscoveryUpdated,
                logged DiscoveryUpdatedEvent (put_discovery actor (rediscovered_row (add_base intent) t c) d)))"

lemma discoveries_okD:
  assumes "db_ok d" and "map_of (relay_discoveries d) actor = Some c"
  shows "discovery_check actor c" "canonical_identity actor (discovery_base_url c)"
  using assms by (auto simp: db_ok_def discoveries_ok_def)

lemma insertDiscoveryEvent_calm:
  assumes "actor_length_ok actor" "operator_check operator" "reason_check reason"
    "label = [] \<or> operator_check label" "0 \<le> t"
  shows "insertDiscoveryEvent actor act operator reason kind label t (d, [])
    = (Inr (), (log_discovery actor act operator reason kind label t d, []))"
  using assms by (auto simp: insertDiscoveryEvent_def insert_discovery_event_def log_discovery_def tx_simps)

lemma discovery_check_rows:
  assumes "discovery_check actor c" "discovery_updated_at c \<le> t"
  shows "discovery_base_url c = base \<Longrightarrow> discovery_check actor (rediscovered_row base t c)"
    and "discovery_check actor (removed_row t c)"
  using assms by (auto simp: discovery_check_def rediscovered_row_def removed_row_def)

lemma add_discovery_calm:
  assumes ok: "db_ok d" and valid: "validateDiscoveryAddIntent intent = None" and t: "0 \<le> t"
  shows "run_tx calm (add_discovery_tx intent t) d = add_discovery_spec intent t d"
proof -
  have v: "canonical_identity (add_actor intent) (add_base intent)" "operator_check (add_operator intent)"
    "reason_check (add_reason intent)" "add_label intent = [] \<or> operator_check (add_label intent)"
    using valid by (auto simp: validateDiscoveryAddIntent_None)
  note time = requireDiscoveryTime_calm [OF t, of "add_actor intent" d]
  note ev = insertDiscoveryEvent_calm [OF _ v(2,3,4) t]
  show ?thesis
  proof (cases "map_of (relay_discoveries d) (add_actor intent)")
    case None
    have "discovery_check (add_actor intent) (discovered_row (add_base intent) t) \<longleftrightarrow>
        actor_length_ok (add_actor intent) \<and> base_length_ok (add_base intent)"
      using t by (auto simp: discovery_check_def discovered_row_def)
    then have ins: "insert_discovery (add_actor intent) (discovered_row (add_base intent) t) d =
        (if actor_length_ok (add_actor intent) \<and> base_length_ok (add_base intent)
         then Some (put_discovery (add_actor intent) (discovered_row (add_base intent) t) d) else None)"
      using None by (simp add: insert_discovery_def put_discovery_def)
    show ?thesis
      using time None
      by (auto simp: add_discovery_tx_def add_discovery_spec_def selectDiscovery_def classify_discovery_def
          ins ev tx_simps Let_def)
  next
    case (Some c)
    note C = discoveries_okD [OF ok Some]
    have base: "discovery_base_url c = add_base intent" by (rule canonical_identity_base [OF C(2) v(1)])
    have len: "actor_length_ok (add_actor intent)" using C(1) by (simp add: discovery_check_def)
    have upd: "update_discovery (add_actor intent) (rediscovered_row (add_base intent) t) d
        = Some (put_discovery (add_actor intent) (rediscovered_row (add_base intent) t c) d)"
      if "discovery_fresh d (add_actor intent) t"
      using that Some discovery_check_rows(1) [OF C(1) _ base, of t]
      by (simp add: update_discovery_def put_discovery_def discovery_fresh_def)
    show ?thesis
      using time Some upd
      by (cases "discovery_fresh d (add_actor intent) t")
        (simp_all add: add_discovery_tx_def add_discovery_spec_def selectDiscovery_def classify_discovery_def
          ev [OF len] base tx_simps Let_def)
  qed
qed

definition remove_discovery_spec :: "DiscoveryRemoveIntent \<Rightarrow> int \<Rightarrow> db \<Rightarrow> DiscoveryOutcome result \<times> db" where
  "remove_discovery_spec intent t d =
     (let actor = rem_actor intent;
          logged = (\<lambda>act. log_discovery actor act (rem_operator intent) (rem_reason intent)
                      (rem_source intent) (rem_label intent) t) in
      if \<not> discovery_fresh d actor t then (Inl (Err ErrTransitionTime), d)
      else case map_of (relay_discoveries d) actor of
        None \<Rightarrow> (Inr DiscoveryAbsent, logged DiscoveryAbsentEvent d)
      | Some c \<Rightarrow>
          if discovery_state c = DiscoveryActive
          then (Inr DiscoveryRemovedOK, logged DiscoveryRemovedEvent (put_discovery actor (removed_row t c) d))
          else (Inr DiscoveryAbsent, logged DiscoveryAbsentEvent d))"

lemma remove_discovery_calm:
  assumes ok: "db_ok d" and valid: "validateDiscoveryRemoveIntent intent = None" and t: "0 \<le> t"
  shows "run_tx calm (remove_discovery_tx intent t) d = remove_discovery_spec intent t d"
proof -
  have v: "actor_length_ok (rem_actor intent)" "operator_check (rem_operator intent)"
    "reason_check (rem_reason intent)" "rem_label intent = [] \<or> operator_check (rem_label intent)"
    using valid by (auto simp: validateDiscoveryRemoveIntent_def validateIdentityIntent_None ValidOperatorID_check
        ValidModerationReasonCode_check ValidDiscoverySourceLabel_check split: if_splits)
  note time = requireDiscoveryTime_calm [OF t, of "rem_actor intent" d]
  note ev = insertDiscoveryEvent_calm [OF v t]
  show ?thesis
  proof (cases "map_of (relay_discoveries d) (rem_actor intent)")
    case None
    then show ?thesis using time
      by (simp add: remove_discovery_tx_def remove_discovery_spec_def selectDiscovery_def is_active_discovery_def
          ev tx_simps Let_def)
  next
    case (Some c)
    have upd: "update_discovery (rem_actor intent) (removed_row t) d
        = Some (put_discovery (rem_actor intent) (removed_row t c) d)"
      if "discovery_fresh d (rem_actor intent) t"
      using that Some discovery_check_rows(2) [OF discoveries_okD(1) [OF ok Some], of t]
      by (simp add: update_discovery_def put_discovery_def discovery_fresh_def)
    show ?thesis
      using time Some upd
      by (cases "discovery_fresh d (rem_actor intent) t")
        (simp_all add: remove_discovery_tx_def remove_discovery_spec_def selectDiscovery_def is_active_discovery_def
          ev tx_simps Let_def)
  qed
qed

subsection \<open>Preservation of the invariant\<close>

lemma log_discovery_ok: "db_ok d \<Longrightarrow> db_ok (log_discovery actor act op reason kind label t d)"
  by (auto simp: db_ok_parts events_ok_def log_discovery_def event_times_def moderation_times_def retained_def
      simp del: map_of_eq_Some_iff)

lemma put_discovery_ok:
  assumes ok: "db_ok d" and "discovery_check actor c" "canonical_identity actor (discovery_base_url c)"
  shows "db_ok (put_discovery actor c d)"
proof -
  have "retained d a \<Longrightarrow> retained (put_discovery actor c d) a" for a
    by (auto simp: retained_def put_discovery_def)
  then have "observations_ok (put_discovery actor c d)"
    using ok by (auto simp: db_ok_def observations_ok_def put_discovery_def event_times_def simp del: map_of_eq_Some_iff)
  moreover have "discoveries_ok (put_discovery actor c d)"
    using assms by (auto simp: db_ok_def discoveries_ok_def put_discovery_def)
  moreover have "relays_ok (put_discovery actor c d)" "policy_ok (put_discovery actor c d)" "events_ok (put_discovery actor c d)"
    using ok by (auto simp: db_ok_parts events_ok_def put_discovery_def event_times_def moderation_times_def)
  ultimately show ?thesis by (simp add: db_ok_def)
qed

lemma add_discovery_spec_ok:
  assumes ok: "db_ok d" and valid: "validateDiscoveryAddIntent intent = None" and t: "0 \<le> t"
  shows "db_ok (snd (add_discovery_spec intent t d))"
proof -
  have canon: "canonical_identity (add_actor intent) (add_base intent)"
    using valid by (simp add: validateDiscoveryAddIntent_None)
  have new: "db_ok (put_discovery (add_actor intent) (discovered_row (add_base intent) t) d)"
    if "actor_length_ok (add_actor intent)" "base_length_ok (add_base intent)"
    using that canon t by (intro put_discovery_ok [OF ok]) (auto simp: discovery_check_def discovered_row_def)
  have again: "db_ok (put_discovery (add_actor intent) (rediscovered_row (add_base intent) t c) d)"
    if "map_of (relay_discoveries d) (add_actor intent) = Some c" "discovery_fresh d (add_actor intent) t" for c
    using that canon discoveries_okD [OF ok that(1)] canonical_identity_base [of "add_actor intent" "discovery_base_url c" "add_base intent"]
    by (intro put_discovery_ok [OF ok] discovery_check_rows(1))
      (auto simp: discovery_fresh_def rediscovered_row_def)
  show ?thesis
    using ok by (auto simp: add_discovery_spec_def Let_def intro!: log_discovery_ok new again split: option.splits)
qed

lemma remove_discovery_spec_ok:
  assumes ok: "db_ok d"
  shows "db_ok (snd (remove_discovery_spec intent t d))"
proof -
  have "db_ok (put_discovery (rem_actor intent) (removed_row t c) d)"
    if "map_of (relay_discoveries d) (rem_actor intent) = Some c" "discovery_fresh d (rem_actor intent) t" for c
    using that discoveries_okD [OF ok that(1)]
    by (intro put_discovery_ok [OF ok] discovery_check_rows(2)) (auto simp: discovery_fresh_def removed_row_def)
  then show ?thesis
    using ok by (auto simp: remove_discovery_spec_def Let_def intro!: log_discovery_ok split: option.splits)
qed

lemma update_observation_ok:
  assumes ok: "db_ok d" and upd: "update_observation actor f d = Some d'"
    and keep: "\<And>r. rfc9421_verified (f r) = rfc9421_verified r"
  shows "db_ok d'"
proof (cases "map_of (relay_observations d) actor")
  case None
  with upd ok show ?thesis by (simp add: update_observation_def)
next
  case (Some r)
  with upd have d': "d' = d\<lparr>relay_observations := AList.update actor (f r) (relay_observations d)\<rparr>"
    and chk: "observation_check actor (f r)" by (auto simp: update_observation_def split: if_splits)
  have "observations_ok d'"
    using ok Some chk keep [of r]
    by (auto simp: d' db_ok_def observations_ok_def retained_def event_times_def simp del: map_of_eq_Some_iff split: if_splits)
  then show ?thesis using ok by (auto simp: d' db_ok_parts events_ok_def event_times_def moderation_times_def)
qed

lemma insert_observation_ok:
  assumes ok: "db_ok d" and ins: "insert_observation actor r d = Some d'" and "rfc9421_verified r = None"
  shows "db_ok d'"
proof (cases "d' = d")
  case False
  with ins have d': "d' = d\<lparr>relay_observations := AList.update actor r (relay_observations d)\<rparr>"
    and chk: "observation_check actor r" and ret: "retained d actor"
    by (auto simp: insert_observation_def split: if_splits)
  have "retained d' a = retained d a" "event_times d' a = event_times d a" for a
    by (simp_all add: d' retained_def event_times_def)
  then have "observations_ok d'"
    using ok chk ret assms(3) by (auto simp: d' db_ok_def observations_ok_def simp del: map_of_eq_Some_iff)
  moreover have "relays_ok d'" "discoveries_ok d'" "policy_ok d'" "events_ok d'"
    using ok by (auto simp: d' db_ok_parts events_ok_def event_times_def moderation_times_def)
  ultimately show ?thesis by (simp add: db_ok_def)
qed (use ok in simp)

lemma record_actor_ok:
  assumes ok: "db_ok d"
  shows "db_ok (snd (run_tx calm (record_actor_tx intent t) d))"
proof -
  have ins: "db_ok d1" if "insert_observation (obs_actor intent) (empty_observation t) d = Some d1" for d1
    by (rule insert_observation_ok [OF ok that]) (simp add: empty_observation_def)
  have upd: "db_ok d2" if "db_ok d1" "update_observation (obs_actor intent) (observed_row intent t u) d1 = Some d2" for d1 d2 u
    by (rule update_observation_ok [OF that]) (simp add: observed_row_def)
  show ?thesis
    using ok
    by (auto simp: record_actor_tx_def store_tx_defs tx_simps intro: upd [OF ok] upd [OF ins]
        split: option.splits if_splits)
qed

lemma record_inbox_ok:
  assumes ok: "db_ok d"
  shows "db_ok (snd (run_tx calm (record_inbox_tx intent t) d))"
proof -
  have upd: "db_ok d2" if "update_observation (inb_actor intent) (probed_row intent t u) d = Some d2" for d2 u
    by (rule update_observation_ok [OF ok that]) (simp add: probed_row_def)
  show ?thesis
    using ok
    by (auto simp: record_inbox_tx_def store_tx_defs tx_simps intro: upd split: option.splits if_splits)
qed


end
