(* ===== verification/Listing.thy ===== *)
theory Listing
  imports DiscoveryStore
begin

section \<open>Health classification, public listing and soft pruning\<close>

text \<open>
  \<open>internal/storage/health.go\<close>, \<open>pruning.go\<close>, \<open>public_listing.go\<close>, their SQLite
  implementations and \<open>internal/pruning/run.go\<close>. A cursor is the pair of last-seen time
  and actor in the lexicographic order of SQLite row values; \<open>(0, '''')\<close> is the zero
  cursor. An observation time is the value of \<open>ObservedAt.UTC().Unix()\<close>. Reads take the
  faults of the query and of the row iteration.
\<close>

subsection \<open>Health\<close>

definition HealthyThrough :: int where "HealthyThrough = 36 * 3600"
definition StaleBefore :: int where "StaleBefore = 7 * 24 * 3600"
definition DeadBefore :: int where "DeadBefore = 30 * 24 * 3600"
definition ReachabilityFreshness :: int where "ReachabilityFreshness = 6 * 3600"
definition MaximumHealthProjectionPage :: int where "MaximumHealthProjectionPage = 100"
definition MaximumPublicListingPage :: int where "MaximumPublicListingPage = 100"
definition MaximumPruneCandidatePage :: int where "MaximumPruneCandidatePage = 100"
definition MaximumSoftPruneAttemptsPerRun :: nat where "MaximumSoftPruneAttemptsPerRun = 1000"

lemmas health_defs = HealthyThrough_def StaleBefore_def DeadBefore_def ReachabilityFreshness_def
  MaximumHealthProjectionPage_def MaximumPublicListingPage_def MaximumPruneCandidatePage_def

definition ClassifyHealth :: "int \<Rightarrow> int \<Rightarrow> health_state result" where
  "ClassifyHealth lastSeenUnix observedUnix =
     (if lastSeenUnix < 0 \<or> observedUnix < 0 \<or> lastSeenUnix > observedUnix then Inl (Err ErrHealthTime)
      else
        let ageSeconds = observedUnix - lastSeenUnix in
        if ageSeconds \<le> HealthyThrough then Inr HealthHealthy
        else if ageSeconds < StaleBefore then Inr HealthStale
        else if ageSeconds < DeadBefore then Inr HealthDead
        else Inr HealthPrune)"

subsection \<open>Cursors and pages\<close>

type_synonym cursor = "int \<times> string"

definition zero_cursor :: cursor where "zero_cursor = (0, [])"

definition cursor_Valid :: "cursor \<Rightarrow> bool" where
  "cursor_Valid c \<longleftrightarrow> c = zero_cursor \<or> (fst c \<ge> 0 \<and> snd c \<noteq> [])"

definition validHealthProjectionActor :: "string \<Rightarrow> bool" where
  "validHealthProjectionActor actor \<longleftrightarrow>
     \<not> (length actor = 0 \<or> length actor > maximumRelayActorBytes) \<and>
     NormalizeRelayActorURL actor = Inr actor"

record page_query =
  After :: cursor
  Limit :: int
  ObservedAt :: int

record HealthProjectionRelay =
  hp_actor :: string
  hp_base :: string
  hp_state :: health_state
  hp_last_seen :: int

definition hp_key :: "HealthProjectionRelay \<Rightarrow> cursor" where
  "hp_key r = (hp_last_seen r, hp_actor r)"

definition PublicEligible :: "HealthProjectionRelay \<Rightarrow> bool" where
  "PublicEligible r \<longleftrightarrow> hp_state r \<noteq> HealthPrune"

definition row_key :: "string \<times> relay_row \<Rightarrow> cursor" where
  "row_key ar = (last_seen_at (snd ar), fst ar)"

text \<open>One scanned row of a health page: the identity check, then the classification.\<close>

definition decode_health :: "string \<Rightarrow> int \<Rightarrow> string \<times> relay_row \<Rightarrow> HealthProjectionRelay result" where
  "decode_health action observedUnix ar =
     (if \<not> canonical_identity (fst ar) (public_base_url (snd ar))
      then Inl (storageFailure action (Opaque ''invalid retained relay identity''))
      else case ClassifyHealth (last_seen_at (snd ar)) observedUnix of
             Inl e \<Rightarrow> Inl e
           | Inr h \<Rightarrow> Inr \<lparr>hp_actor = fst ar, hp_base = public_base_url (snd ar), hp_state = h,
                           hp_last_seen = last_seen_at (snd ar)\<rparr>)"

definition health_input_ok :: "int \<Rightarrow> page_query \<Rightarrow> bool" where
  "health_input_ok maximumPage q \<longleftrightarrow>
     \<not> (\<not> cursor_Valid (After q) \<or> Limit q \<le> 0 \<or> Limit q > maximumPage \<or>
        (After q \<noteq> zero_cursor \<and> \<not> validHealthProjectionActor (snd (After q)))) \<and>
     \<not> (ObservedAt q < 0 \<or> (After q \<noteq> zero_cursor \<and> fst (After q) > ObservedAt q))"

definition ProjectHealth :: "read_faults \<Rightarrow> page_query \<Rightarrow> db \<Rightarrow> (HealthProjectionRelay list \<times> cursor) result" where
  "ProjectHealth rf q d =
     (if \<not> health_input_ok MaximumHealthProjectionPage q then Inl (Err ErrHealthReadInput)
      else
        scan_page rf ''read health projection'' ''iterate health projection''
          (decode_health ''validate health projection'' (ObservedAt q)) hp_key zero_cursor
          (nat (Limit q))
          (keyset_rows row_key (After q) (nat (Limit q) + 1)
             (filter (\<lambda>ar. lifecycle_state (snd ar) = Registered \<and> administrative_state (snd ar) = Active)
                (relays d))))"

definition decode_public :: "int \<Rightarrow> string \<times> relay_row \<Rightarrow> HealthProjectionRelay result" where
  "decode_public observedUnix ar =
     (case decode_health ''validate public relay listing'' observedUnix ar of
        Inl e \<Rightarrow> Inl e
      | Inr r \<Rightarrow> if \<not> PublicEligible r then Inl (Err ErrHealthTime) else Inr r)"

definition ListPublicRelays :: "read_faults \<Rightarrow> page_query \<Rightarrow> db \<Rightarrow> (HealthProjectionRelay list \<times> cursor) result" where
  "ListPublicRelays rf q d =
     (if \<not> health_input_ok MaximumPublicListingPage q then Inl (Err ErrHealthReadInput)
      else
        let cutoffUnix = ObservedAt q - DeadBefore in
        scan_page rf ''read public relay listing'' ''iterate public relay listing''
          (decode_public (ObservedAt q)) hp_key zero_cursor (nat (Limit q))
          (keyset_rows row_key (After q) (nat (Limit q) + 1)
             (filter (\<lambda>ar. lifecycle_state (snd ar) = Registered \<and> administrative_state (snd ar) = Active \<and>
                        last_seen_at (snd ar) > cutoffUnix)
                (relays d))))"

subsection \<open>Pruning candidates and the pruning transition\<close>

record PruneCandidate =
  pc_actor :: string
  pc_base :: string
  pc_admin :: administrative
  pc_last_seen :: int

definition pc_key :: "PruneCandidate \<Rightarrow> cursor" where
  "pc_key c = (pc_last_seen c, pc_actor c)"

datatype PruneOutcome = PruneApplied | PruneAlreadyPruned | PruneNotEligible

text \<open>A currently reachable actor with recent evidence is protected.\<close>

definition recently_reachable :: "observation option \<Rightarrow> int \<Rightarrow> bool" where
  "recently_reachable found reachabilityCutoff =
     (case found of
        None \<Rightarrow> False
      | Some o1 \<Rightarrow> actor_state o1 = ReachabilityReachable \<and>
          (case actor_last_success o1 of None \<Rightarrow> False | Some s \<Rightarrow> s \<ge> reachabilityCutoff))"

definition decode_candidate :: "int \<Rightarrow> string \<times> relay_row \<Rightarrow> PruneCandidate result" where
  "decode_candidate cutoffUnix ar =
     (if \<not> canonical_identity (fst ar) (public_base_url (snd ar))
      then Inl (storageFailure ''validate soft-pruning candidate'' (Opaque ''invalid retained relay identity''))
      else if last_seen_at (snd ar) < 0 \<or> last_seen_at (snd ar) > cutoffUnix
      then Inl (storageFailure ''validate soft-pruning candidate'' (Opaque ''invalid retained pruning state''))
      else Inr \<lparr>pc_actor = fst ar, pc_base = public_base_url (snd ar),
                pc_admin = administrative_state (snd ar), pc_last_seen = last_seen_at (snd ar)\<rparr>)"

definition prunable :: "db \<Rightarrow> int \<Rightarrow> string \<times> relay_row \<Rightarrow> bool" where
  "prunable d observedUnix ar \<longleftrightarrow>
     lifecycle_state (snd ar) = Registered \<and> last_seen_at (snd ar) \<le> observedUnix - DeadBefore \<and>
     \<not> recently_reachable (map_of (relay_observations d) (fst ar)) (observedUnix - ReachabilityFreshness)"

definition PruneCandidates :: "read_faults \<Rightarrow> page_query \<Rightarrow> db \<Rightarrow> (PruneCandidate list \<times> cursor) result" where
  "PruneCandidates rf q d =
     (if \<not> cursor_Valid (After q) \<or> Limit q \<le> 0 \<or> Limit q > MaximumPruneCandidatePage \<or>
         (After q \<noteq> zero_cursor \<and> \<not> validHealthProjectionActor (snd (After q)))
      then Inl (Err ErrPruningReadInput)
      else if ObservedAt q < 0 then Inl (Err ErrPruningReadInput)
      else
        let cutoffUnix = ObservedAt q - DeadBefore in
        if After q \<noteq> zero_cursor \<and> fst (After q) > cutoffUnix then Inl (Err ErrPruningReadInput)
        else
          scan_page rf ''read soft-pruning candidates'' ''iterate soft-pruning candidates''
            (decode_candidate cutoffUnix) pc_key zero_cursor (nat (Limit q))
            (keyset_rows row_key (After q) (nat (Limit q) + 1)
               (filter (prunable d (ObservedAt q)) (relays d))))"

definition pruned_row :: "int \<Rightarrow> relay_row \<Rightarrow> relay_row" where
  "pruned_row t r = r\<lparr>lifecycle_state := Pruned, updated_at := t, pruned_at := Some t\<rparr>"

text \<open>
  The guarded \<open>UPDATE\<close> of \<open>SoftPrune\<close> and the check of its affected rows: the statement
  changes the row only while it is still registered and old enough.
\<close>

definition update_pruned :: "string \<Rightarrow> int \<Rightarrow> int \<Rightarrow> db \<Rightarrow> db option" where
  "update_pruned actor t cutoffUnix d =
     (case map_of (relays d) actor of
        Some r \<Rightarrow>
          if lifecycle_state r = Registered \<and> last_seen_at r \<le> cutoffUnix
          then update_relay actor (pruned_row t) d else Some d
      | None \<Rightarrow> Some d)"

definition rows_affected :: "string \<Rightarrow> int \<Rightarrow> relay_row option \<Rightarrow> nat" where
  "rows_affected actor cutoffUnix found =
     (case found of
        None \<Rightarrow> 0
      | Some r \<Rightarrow> if lifecycle_state r = Registered \<and> last_seen_at r \<le> cutoffUnix then 1 else 0)"

definition soft_prune_tx :: "string \<Rightarrow> int \<Rightarrow> (db, PruneOutcome completion) tx" where
  "soft_prune_tx actor observedUnix =
     (let cutoffUnix = observedUnix - DeadBefore;
          reachabilityCutoffUnix = observedUnix - ReachabilityFreshness in
      bindt (selectRelay ''read relay for soft pruning'' actor) (\<lambda>relay.
      case relay of
        None \<Rightarrow> ret (Abandon PruneNotEligible)
      | Some r \<Rightarrow>
          if lifecycle_state r = Pruned then ret (Abandon PruneAlreadyPruned)
          else if lifecycle_state r \<noteq> Registered \<or> last_seen_at r > cutoffUnix
          then ret (Abandon PruneNotEligible)
          else
            bindt (selectObservation ''read reachability for soft pruning'' actor) (\<lambda>observation.
            if recently_reachable observation reachabilityCutoffUnix then ret (Abandon PruneNotEligible)
            else
              bindt (on_error (bindt (requireMonotonicTime actor observedUnix relay) (\<lambda>_. ret True))
                       ErrTransitionTime (ret False)) (\<lambda>monotonic.
              if \<not> monotonic then ret (Abandon PruneNotEligible)
              else
                bindt (exec ''write soft-pruning transition'' (update_pruned actor observedUnix cutoffUnix)) (\<lambda>_.
                if rows_affected actor cutoffUnix relay \<noteq> 1
                then fail (storageFailure ''write soft-pruning transition'' (Opaque ''unexpected affected row count''))
                else
                  bindt (insertRelayEvent actor RelayPruned observedUnix) (\<lambda>_.
                  ret (Commit ''commit soft-pruning transition'' PruneApplied)))))))"

definition SoftPrune :: "environment \<Rightarrow> string \<Rightarrow> int \<Rightarrow> db \<Rightarrow> PruneOutcome result \<times> db" where
  "SoftPrune env actor observedAt d =
     (case validateIdentityIntent actor of
        Some e \<Rightarrow> (Inl e, d)
      | None \<Rightarrow>
          (case transitionUnix observedAt of
             Inl e \<Rightarrow> (Inl e, d)
           | Inr observedUnix \<Rightarrow> run_tx env (soft_prune_tx actor observedUnix) d))"

subsection \<open>Row keys\<close>

lemma row_key_distinct: "table_ok t \<Longrightarrow> distinct (map row_key (filter P t))"
  by (induction t) (auto simp: row_key_def image_iff rev_image_eqI)

lemma row_key_less_zero:
  assumes "0 \<le> last_seen_at (snd ar)" "fst ar \<noteq> []"
  shows "zero_cursor < row_key ar"
  using assms by (cases "fst ar") (auto simp: zero_cursor_def row_key_def less_prod_def Nil_less_Cons le_less)

subsection \<open>The listings as keyset listings\<close>

record read_state =
  rs_db :: db
  rs_limit :: int
  rs_at :: int

definition read_ok :: "int \<Rightarrow> read_state \<Rightarrow> bool" where
  "read_ok maximumPage s \<longleftrightarrow> db_ok (rs_db s) \<and> 0 < rs_limit s \<and> rs_limit s \<le> maximumPage \<and> 0 \<le> rs_at s \<and>
     list_all (\<lambda>ar. last_seen_at (snd ar) \<le> rs_at s) (relays (rs_db s))"

lemma relays_mem:
  assumes "db_ok d" and "ar \<in> set (relays d)"
  shows "relay_check (fst ar) (snd ar)" "canonical_identity (fst ar) (public_base_url (snd ar))"
    "0 \<le> last_seen_at (snd ar)" "fst ar \<noteq> []" "validHealthProjectionActor (fst ar)"
proof -
  have "map_of (relays d) (fst ar) = Some (snd ar)" using assms by (simp add: db_ok_def relays_ok_def)
  note R = relays_okD [OF assms(1) this]
  then show "relay_check (fst ar) (snd ar)" "canonical_identity (fst ar) (public_base_url (snd ar))"
    "0 \<le> last_seen_at (snd ar)" "fst ar \<noteq> []" "validHealthProjectionActor (fst ar)"
    by (auto simp: relay_check_def actor_length_ok_def validHealthProjectionActor_def canonical_identity_actor)
qed

definition health_view :: "int \<Rightarrow> string \<times> relay_row \<Rightarrow> HealthProjectionRelay" where
  "health_view at ar = \<lparr>hp_actor = fst ar, hp_base = public_base_url (snd ar),
     hp_state = (case ClassifyHealth (last_seen_at (snd ar)) at of Inr h \<Rightarrow> h | Inl _ \<Rightarrow> HealthPrune),
     hp_last_seen = last_seen_at (snd ar)\<rparr>"

definition listed :: "(string \<times> relay_row \<Rightarrow> bool) \<Rightarrow> db \<Rightarrow> int \<Rightarrow> HealthProjectionRelay list" where
  "listed P d at = map (health_view at) (sort_key row_key (filter P (relays d)))"

definition active_registered :: "string \<times> relay_row \<Rightarrow> bool" where
  "active_registered ar \<longleftrightarrow> lifecycle_state (snd ar) = Registered \<and> administrative_state (snd ar) = Active"

definition publicly_listed :: "int \<Rightarrow> string \<times> relay_row \<Rightarrow> bool" where
  "publicly_listed at ar \<longleftrightarrow> active_registered ar \<and> last_seen_at (snd ar) > at - DeadBefore"

lemma hp_key_view [simp]: "hp_key (health_view at ar) = row_key ar"
  by (simp add: hp_key_def health_view_def row_key_def)

lemma decode_health_view:
  assumes "db_ok d" "ar \<in> set (relays d)" "last_seen_at (snd ar) \<le> at" "0 \<le> at"
  shows "decode_health a at ar = Inr (health_view at ar)"
  using assms(3,4) relays_mem [OF assms(1,2)]
  by (auto simp: decode_health_def health_view_def ClassifyHealth_def Let_def)

lemma decode_public_view:
  assumes "db_ok d" "ar \<in> set (relays d)" "last_seen_at (snd ar) \<le> at" "0 \<le> at" "publicly_listed at ar"
  shows "decode_public at ar = Inr (health_view at ar)"
  using assms(3-5) relays_mem [OF assms(1,2)] decode_health_view [OF assms(1-4)]
  by (auto simp: decode_public_def PublicEligible_def health_view_def ClassifyHealth_def publicly_listed_def Let_def
      split: if_splits)

lemma cursor_of_row:
  assumes "db_ok d" "ar \<in> set (relays d)" "last_seen_at (snd ar) \<le> at"
  shows "health_input_ok maxPage \<lparr>After = row_key ar, Limit = l, ObservedAt = at\<rparr> \<longleftrightarrow>
    0 < l \<and> l \<le> maxPage \<and> 0 \<le> at"
  using relays_mem [OF assms(1,2)] assms(3)
  by (auto simp: health_input_ok_def cursor_Valid_def row_key_def)

lemma listed_sorted: "db_ok d \<Longrightarrow> sorted_wrt (<) (map hp_key (listed P d at))"
  using sort_key_strict [OF row_key_distinct, of "relays d" P] by (simp add: listed_def o_def db_ok_def relays_ok_def)

lemma listed_after_zero: "db_ok d \<Longrightarrow> x \<in> set (listed P d at) \<Longrightarrow> zero_cursor < hp_key x"
  using relays_mem by (auto simp: listed_def intro!: row_key_less_zero)

lemma listed_cursor:
  assumes ok: "read_ok maxPage s" and c: "c = zero_cursor \<or> c \<in> hp_key ` set (listed P (rs_db s) (rs_at s))"
  shows "health_input_ok maxPage \<lparr>After = c, Limit = rs_limit s, ObservedAt = rs_at s\<rparr>"
  using c
proof
  assume "c = zero_cursor"
  with ok show ?thesis by (simp add: health_input_ok_def cursor_Valid_def read_ok_def)
next
  assume "c \<in> hp_key ` set (listed P (rs_db s) (rs_at s))"
  then obtain ar where "ar \<in> set (relays (rs_db s))" "c = row_key ar" by (auto simp: listed_def)
  with cursor_of_row [of "rs_db s" ar "rs_at s"] ok show ?thesis by (simp add: read_ok_def list_all_iff)
qed

interpretation health_pages: keyset_listing "read_ok MaximumHealthProjectionPage"
  "\<lambda>s. listed active_registered (rs_db s) (rs_at s)" hp_key zero_cursor "\<lambda>s. nat (rs_limit s)"
  "\<lambda>s c. ProjectHealth quiet \<lparr>After = c, Limit = rs_limit s, ObservedAt = rs_at s\<rparr> (rs_db s)"
proof unfold_locales
  fix s :: read_state and c
  assume ok: "read_ok MaximumHealthProjectionPage s"
    and c: "c = zero_cursor \<or> c \<in> hp_key ` set (listed active_registered (rs_db s) (rs_at s))"
  then have d: "db_ok (rs_db s)" "0 \<le> rs_at s"
    and seen: "\<And>ar. ar \<in> set (relays (rs_db s)) \<Longrightarrow> last_seen_at (snd ar) \<le> rs_at s"
    by (auto simp: read_ok_def list_all_iff)
  show "ProjectHealth quiet \<lparr>After = c, Limit = rs_limit s, ObservedAt = rs_at s\<rparr> (rs_db s) =
     Inr (page_of hp_key zero_cursor (nat (rs_limit s)) (listed active_registered (rs_db s) (rs_at s)) c)"
    using listed_cursor [OF ok c]
    unfolding ProjectHealth_def listed_def active_registered_def [abs_def]
    by (simp, intro keyset_page) (auto intro: decode_health_view [OF d(1) _ seen d(2)])
qed (auto simp: read_ok_def listed_sorted listed_after_zero)

interpretation public_pages: keyset_listing "read_ok MaximumPublicListingPage"
  "\<lambda>s. listed (publicly_listed (rs_at s)) (rs_db s) (rs_at s)" hp_key zero_cursor "\<lambda>s. nat (rs_limit s)"
  "\<lambda>s c. ListPublicRelays quiet \<lparr>After = c, Limit = rs_limit s, ObservedAt = rs_at s\<rparr> (rs_db s)"
proof unfold_locales
  fix s :: read_state and c
  assume ok: "read_ok MaximumPublicListingPage s"
    and c: "c = zero_cursor \<or> c \<in> hp_key ` set (listed (publicly_listed (rs_at s)) (rs_db s) (rs_at s))"
  then have d: "db_ok (rs_db s)" "0 \<le> rs_at s"
    and seen: "\<And>ar. ar \<in> set (relays (rs_db s)) \<Longrightarrow> last_seen_at (snd ar) \<le> rs_at s"
    by (auto simp: read_ok_def list_all_iff)
  have flt: "filter (\<lambda>ar. lifecycle_state (snd ar) = Registered \<and> administrative_state (snd ar) = Active \<and>
      rs_at s - DeadBefore < last_seen_at (snd ar)) (relays (rs_db s)) = filter (publicly_listed (rs_at s)) (relays (rs_db s))"
    by (auto simp: publicly_listed_def active_registered_def intro!: filter_cong)
  show "ListPublicRelays quiet \<lparr>After = c, Limit = rs_limit s, ObservedAt = rs_at s\<rparr> (rs_db s) =
     Inr (page_of hp_key zero_cursor (nat (rs_limit s)) (listed (publicly_listed (rs_at s)) (rs_db s) (rs_at s)) c)"
    using listed_cursor [OF ok c]
    unfolding ListPublicRelays_def listed_def
    by (simp add: Let_def flt, intro keyset_page) (auto intro: decode_public_view [OF d(1) _ seen d(2)])
qed (auto simp: read_ok_def listed_sorted listed_after_zero)

lemma ListPublicRelays_rows:
  assumes "ListPublicRelays rf q d = Inr (page, nxt)"
  shows "health_input_ok MaximumPublicListingPage q"
    and "length page \<le> nat (Limit q) \<and> (nxt = zero_cursor \<or> nxt = hp_key (last page) \<and> length page = nat (Limit q))"
    and "list_all2 (\<lambda>ar x. decode_public (ObservedAt q) ar = Inr x)
      (take (length page) (keyset_rows row_key (After q) (nat (Limit q) + 1)
         (filter (publicly_listed (ObservedAt q)) (relays d)))) page"
proof -
  have eq: "(\<lambda>ar. lifecycle_state (snd ar) = Registered \<and> administrative_state (snd ar) = Active \<and>
      ObservedAt q - DeadBefore < last_seen_at (snd ar)) = publicly_listed (ObservedAt q)"
    by (auto simp: publicly_listed_def active_registered_def fun_eq_iff)
  show "health_input_ok MaximumPublicListingPage q"
    using assms by (auto simp: ListPublicRelays_def split: if_splits)
  have scan: "read_page (decode_public (ObservedAt q)) hp_key zero_cursor (nat (Limit q)) []
      (keyset_rows row_key (After q) (nat (Limit q) + 1) (filter (publicly_listed (ObservedAt q)) (relays d))) = Inr (page, nxt)"
    using assms unfolding ListPublicRelays_def Let_def eq by (auto split: if_splits dest: scan_page_Inr)
  show "length page \<le> nat (Limit q) \<and> (nxt = zero_cursor \<or> nxt = hp_key (last page) \<and> length page = nat (Limit q))"
    using read_page_bounded [OF scan] by simp
  show "list_all2 (\<lambda>ar x. decode_public (ObservedAt q) ar = Inr x)
      (take (length page) (keyset_rows row_key (After q) (nat (Limit q) + 1)
         (filter (publicly_listed (ObservedAt q)) (relays d)))) page"
    using read_page_error [OF scan] by simp
qed

lemma decode_public_Inr:
  assumes "decode_public at ar = Inr x"
  shows "x = health_view at ar" "0 \<le> last_seen_at (snd ar)" "last_seen_at (snd ar) \<le> at"
    "canonical_identity (fst ar) (public_base_url (snd ar))"
  using assms
  by (auto simp: decode_public_def decode_health_def health_view_def ClassifyHealth_def Let_def split: sum.splits if_splits)

subsection \<open>Soft pruning\<close>

lemma soft_prune_tolerant: "fault_tolerant (soft_prune_tx actor t)"
  unfolding soft_prune_tx_def store_tx_defs Let_def by (intro tolerant) simp

definition soft_prune_spec :: "string \<Rightarrow> int \<Rightarrow> db \<Rightarrow> PruneOutcome result \<times> db" where
  "soft_prune_spec actor t d =
     (case map_of (relays d) actor of
        None \<Rightarrow> (Inr PruneNotEligible, d)
      | Some r \<Rightarrow>
          if lifecycle_state r = Pruned then (Inr PruneAlreadyPruned, d)
          else if prunable d t (actor, r) \<and> fresh_at d actor t
          then (Inr PruneApplied, log_relay actor RelayPruned t (put_relay actor (pruned_row t r) d))
          else (Inr PruneNotEligible, d))"

lemma relay_check_pruned:
  assumes "relay_check actor r" and "updated_at r \<le> t" "last_seen_at r \<le> t" "lifecycle_state r = Registered"
  shows "relay_check actor (pruned_row t r)"
  using assms
  by (auto simp: relay_check_def pruned_row_def lifecycle_times_ok_def opt_le_def opt_ge_def split: option.splits)

lemma soft_prune_calm:
  assumes ok: "db_ok d" and valid: "validateIdentityIntent actor = None" and t: "0 \<le> t"
  shows "run_tx calm (soft_prune_tx actor t) d = soft_prune_spec actor t d"
proof -
  have v: "actor_length_ok actor" using valid by (simp add: validateIdentityIntent_None)
  note calm = requireMonotonicTime_calm [OF t, of actor d] insertRelayEvent_calm [OF v t]
  show ?thesis
  proof (cases "map_of (relays d) actor")
    case None
    then show ?thesis by (simp add: soft_prune_tx_def soft_prune_spec_def selectRelay_def tx_simps Let_def)
  next
    case (Some r)
    have upd: "update_pruned actor t (t - DeadBefore) d = Some (put_relay actor (pruned_row t r) d)"
      if "fresh_at d actor t" "lifecycle_state r = Registered" "last_seen_at r \<le> t - DeadBefore"
      using that Some relay_check_pruned [OF relays_okD(1) [OF ok Some] fresh_row [OF that(1) Some] that(2)]
      by (simp add: update_pruned_def update_relay_put)
    show ?thesis
      using calm(1) Some upd
      by (cases "lifecycle_state r"; cases "fresh_at d actor t")
        (auto simp: soft_prune_tx_def soft_prune_spec_def selectRelay_def selectObservation_def prunable_def
          on_error_def rows_affected_def calm(2) tx_simps Let_def)
  qed
qed

lemma soft_prune_spec_ok:
  assumes ok: "db_ok d"
  shows "db_ok (snd (soft_prune_spec actor t d))"
proof -
  have "db_ok (log_relay actor RelayPruned t (put_relay actor (pruned_row t r) d))"
    if r: "map_of (relays d) actor = Some r" and "prunable d t (actor, r)" "fresh_at d actor t" for r
    using that relays_okD [OF ok r] fresh_row [OF that(3) r] fresh_event [OF that(3)]
    by (intro log_relay_ok put_relay_ok [OF ok] relay_check_pruned)
      (auto simp: prunable_def pruned_row_def)
  then show ?thesis using ok by (auto simp: soft_prune_spec_def split: option.splits)
qed


end
