(* ===== verification/PruneRun.thy ===== *)
theory PruneRun
  imports Listing
begin

section \<open>Bounded pruning runs\<close>

text \<open>
  \<open>internal/pruning/run.go\<close>: one maintenance run over an abstract pruning repository. The
  repository is a record of the two operations of \<open>storage.PruningRepository\<close> and of the
  context error, all over an explicit state. The outer loop runs on fuel; the budget of
  1000 attempts is always enough, since every page that does not end the run has at least
  one candidate.
\<close>

record 's pruning_repository =
  repo_candidates :: "'s \<Rightarrow> page_query \<Rightarrow> (PruneCandidate list \<times> cursor) result"
  repo_soft_prune :: "'s \<Rightarrow> string \<Rightarrow> int \<Rightarrow> PruneOutcome result \<times> 's"
  repo_ctx_err :: "'s \<Rightarrow> goerror option"

record prune_result =
  ObservedUnix :: int
  Scanned :: nat
  PrunedCount :: nat
  Skipped :: nat
  Truncated :: bool

definition cursorAfter :: "cursor \<Rightarrow> cursor \<Rightarrow> bool" where
  "cursorAfter candidate previous \<longleftrightarrow>
     fst candidate > fst previous \<or> (fst candidate = fst previous \<and> snd candidate > snd previous)"

definition count_outcome :: "PruneOutcome \<Rightarrow> prune_result \<Rightarrow> prune_result" where
  "count_outcome outcome res =
     (let res1 = res\<lparr>Scanned := Scanned res + 1\<rparr> in
      case outcome of
        PruneApplied \<Rightarrow> res1\<lparr>PrunedCount := PrunedCount res1 + 1\<rparr>
      | _ \<Rightarrow> res1\<lparr>Skipped := Skipped res1 + 1\<rparr>)"

text \<open>
  The inner loop over the candidates of one page: an early return is the left case, the
  position after the page the right one.
\<close>

fun prune_page :: "'s pruning_repository \<Rightarrow> int \<Rightarrow> PruneCandidate list \<Rightarrow> cursor \<Rightarrow> prune_result \<Rightarrow> 's
    \<Rightarrow> ((prune_result \<times> goerror) + (cursor \<times> prune_result)) \<times> 's" where
  "prune_page repo observedAt [] position res s = (Inr (position, res), s)"
| "prune_page repo observedAt (c # cs) position res s =
     (let candidatePosition = pc_key c in
      if \<not> cursor_Valid candidatePosition \<or> NormalizeRelayActorURL (pc_actor c) \<noteq> Inr (pc_actor c) \<or>
         pc_last_seen c > observedAt - DeadBefore \<or> \<not> cursorAfter candidatePosition position
      then (Inl (res, Err ErrPruningConfiguration), s)
      else case repo_ctx_err repo s of
        Some e \<Rightarrow> (Inl (res, e), s)
      | None \<Rightarrow>
          (case repo_soft_prune repo s (pc_actor c) observedAt of
             (Inl e, s') \<Rightarrow> (Inl (res, e), s')
           | (Inr outcome, s') \<Rightarrow>
               prune_page repo observedAt cs candidatePosition (count_outcome outcome res) s'))"

text \<open>The page size of the next read: a full page, or what is left of the budget.\<close>

definition page_limit :: "prune_result \<Rightarrow> int" where
  "page_limit res =
     (let remaining = int (MaximumSoftPruneAttemptsPerRun - Scanned res) in
      if remaining < MaximumPruneCandidatePage then remaining else MaximumPruneCandidatePage)"

fun prune_loop :: "'s pruning_repository \<Rightarrow> int \<Rightarrow> nat \<Rightarrow> cursor \<Rightarrow> prune_result \<Rightarrow> 's
    \<Rightarrow> ((prune_result \<times> goerror option) \<times> 's) option" where
  "prune_loop repo observedAt 0 cursor res s = None"
| "prune_loop repo observedAt (Suc fuel) cursor res s =
     (if \<not> Scanned res < MaximumSoftPruneAttemptsPerRun then Some ((res, None), s)
      else
        case repo_candidates repo s \<lparr>After = cursor, Limit = page_limit res, ObservedAt = observedAt\<rparr> of
             Inl e \<Rightarrow> Some ((res, Some e), s)
           | Inr (candidates, next) \<Rightarrow>
               if candidates = [] then
                 (if next \<noteq> zero_cursor then Some ((res, Some (Err ErrPruningConfiguration)), s)
                  else Some ((res, None), s))
               else if int (length candidates) > page_limit res
               then Some ((res, Some (Err ErrPruningConfiguration)), s)
               else case prune_page repo observedAt candidates cursor res s of
                 (Inl (res', e), s') \<Rightarrow> Some ((res', Some e), s')
               | (Inr (position, res'), s') \<Rightarrow>
                   if next = zero_cursor then Some ((res', None), s')
                   else if \<not> cursor_Valid next \<or> next \<noteq> position
                   then Some ((res', Some (Err ErrPruningConfiguration)), s')
                   else if Scanned res' = MaximumSoftPruneAttemptsPerRun
                   then Some ((res'\<lparr>Truncated := True\<rparr>, None), s')
                   else prune_loop repo observedAt fuel next res' s')"

definition zero_result :: prune_result where
  "zero_result = \<lparr>ObservedUnix = 0, Scanned = 0, PrunedCount = 0, Skipped = 0, Truncated = False\<rparr>"

definition prune_Run :: "'s pruning_repository \<Rightarrow> int \<Rightarrow> 's \<Rightarrow> ((prune_result \<times> goerror option) \<times> 's) option" where
  "prune_Run repo observedAt s =
     (if observedAt < 0 then Some ((zero_result, Some (Err ErrPruningConfiguration)), s)
      else case repo_ctx_err repo s of
        Some e \<Rightarrow> Some ((zero_result, Some e), s)
      | None \<Rightarrow>
          prune_loop repo observedAt (Suc MaximumSoftPruneAttemptsPerRun) zero_cursor
            (zero_result\<lparr>ObservedUnix := observedAt\<rparr>) s)"

subsection \<open>Bounds for every repository\<close>

definition result_ok :: "prune_result \<Rightarrow> bool" where
  "result_ok res \<longleftrightarrow> Scanned res = PrunedCount res + Skipped res \<and> Scanned res \<le> MaximumSoftPruneAttemptsPerRun"

lemma count_outcome_simps [simp]:
  "Scanned (count_outcome out res) = Suc (Scanned res)"
  "Truncated (count_outcome out res) = Truncated res"
  "PrunedCount (count_outcome out res) + Skipped (count_outcome out res) = Suc (PrunedCount res + Skipped res)"
  by (cases out; simp add: count_outcome_def Let_def)+

lemma count_outcome_pruned:
  "PrunedCount (count_outcome out res) = PrunedCount res + (if out = PruneApplied then 1 else 0)"
  by (cases out; simp add: count_outcome_def Let_def)

lemma prune_page_counts:
  assumes "prune_page repo t cs pos res s = (out, s')" and "Scanned res = PrunedCount res + Skipped res"
  shows "case out of
      Inl (res', e) \<Rightarrow> Scanned res' = PrunedCount res' + Skipped res' \<and> Scanned res' \<le> Scanned res + length cs
    | Inr (pos', res') \<Rightarrow> Scanned res' = PrunedCount res' + Skipped res' \<and> Scanned res' = Scanned res + length cs"
  using assms
proof (induction cs arbitrary: pos res s)
  case (Cons c cs)
  obtain r s1 where soft: "repo_soft_prune repo s (pc_actor c) t = (r, s1)" by fastforce
  show ?case
  proof (cases r)
    case (Inl e)
    with Cons.prems soft show ?thesis by (auto simp: Let_def split: if_splits option.splits)
  next
    case (Inr outcome)
    have "Scanned (count_outcome outcome res) =
        PrunedCount (count_outcome outcome res) + Skipped (count_outcome outcome res)"
      using Cons.prems(2) by (simp only: count_outcome_simps)
    note IH = Cons.IH [OF _ this, of "pc_key c" s1]
    show ?thesis
    proof (cases "repo_ctx_err repo s = None \<and> prune_page repo t (c # cs) pos res s =
        prune_page repo t cs (pc_key c) (count_outcome outcome res) s1")
      case True
      with Cons.prems(1) have "prune_page repo t cs (pc_key c) (count_outcome outcome res) s1 = (out, s')" by metis
      from IH [OF this] show ?thesis by (auto split: sum.splits)
    next
      case False
      with Cons.prems soft Inr show ?thesis by (auto simp: Let_def split: if_splits option.splits)
    qed
  qed
qed auto

lemma prune_loop_step:
  assumes scan: "Scanned res < MaximumSoftPruneAttemptsPerRun" and ok: "result_ok res"
  obtains (stop) res' err s' where "prune_loop repo t (Suc fuel) cursor res s = Some ((res', err), s')" "result_ok res'"
  | (continue) nxt res1 s1 where
      "prune_loop repo t (Suc fuel) cursor res s = prune_loop repo t fuel nxt res1 s1"
      "result_ok res1" "Scanned res < Scanned res1"
proof -
  show thesis
  proof (cases "repo_candidates repo s \<lparr>After = cursor, Limit = page_limit res, ObservedAt = t\<rparr>")
    case (Inl e)
    with scan ok show ?thesis by (intro stop [of res "Some e" s]) (simp_all add: Let_def)
  next
    case (Inr page)
    obtain cands nxt where page: "page = (cands, nxt)" by (cases page)
    note fetch = Inr [unfolded page]
    show ?thesis
    proof (cases "cands = [] \<or> int (length cands) > page_limit res")
      case True
      with scan fetch ok show ?thesis
        by (intro stop [of res "if cands = [] \<and> nxt = zero_cursor then None else Some (Err ErrPruningConfiguration)" s])
          (auto simp: Let_def)
    next
      case False
      then have len: "0 < length cands" "length cands \<le> MaximumSoftPruneAttemptsPerRun - Scanned res"
        by (auto simp: page_limit_def Let_def split: if_splits)
      obtain out s1 where run: "prune_page repo t cands cursor res s = (out, s1)" by fastforce
      have counts: "case out of
          Inl (res', e) \<Rightarrow> Scanned res' = PrunedCount res' + Skipped res' \<and> Scanned res' \<le> Scanned res + length cands
        | Inr (pos', res') \<Rightarrow> Scanned res' = PrunedCount res' + Skipped res' \<and> Scanned res' = Scanned res + length cands"
        using prune_page_counts [OF run] ok by (simp add: result_ok_def)
      show ?thesis
      proof (cases out)
        case (Inl early)
        obtain res1 e where early: "early = (res1, e)" by (cases early)
        show ?thesis
          by (rule stop [of res1 "Some e" s1])
            (use counts len scan False fetch run Inl early in \<open>auto simp: Let_def result_ok_def\<close>)
      next
        case (Inr fin)
        obtain pos1 res1 where d: "fin = (pos1, res1)" by (cases fin)
        have res1: "result_ok res1" "Scanned res1 = Scanned res + length cands"
          using counts Inr d len scan by (auto simp: result_ok_def)
        let ?fin = "nxt = zero_cursor \<or> \<not> cursor_Valid nxt \<or> nxt \<noteq> pos1 \<or>
              Scanned res1 = MaximumSoftPruneAttemptsPerRun"
        have step: "prune_loop repo t (Suc fuel) cursor res s =
          (if nxt = zero_cursor then Some ((res1, None), s1)
           else if \<not> cursor_Valid nxt \<or> nxt \<noteq> pos1 then Some ((res1, Some (Err ErrPruningConfiguration)), s1)
           else if Scanned res1 = MaximumSoftPruneAttemptsPerRun then Some ((res1\<lparr>Truncated := True\<rparr>, None), s1)
           else prune_loop repo t fuel nxt res1 s1)"
          using scan fetch run Inr d False by (simp add: Let_def)
        show ?thesis
        proof (cases ?fin)
          case False
          with step res1 len show ?thesis by (intro continue [of nxt res1 s1]) auto
        next
          case True
          have tr: "result_ok (res1\<lparr>Truncated := True\<rparr>)" using res1 by (simp add: result_ok_def)
          from True step res1(1) tr stop show ?thesis by (cases "nxt = zero_cursor"; cases "\<not> cursor_Valid nxt \<or> nxt \<noteq> pos1") auto
        qed
      qed
    qed
  qed
qed

lemma prune_loop_bounded:
  assumes "MaximumSoftPruneAttemptsPerRun - Scanned res < fuel" and "result_ok res"
  shows "\<exists>res' err s'. prune_loop repo t fuel cursor res s = Some ((res', err), s') \<and> result_ok res'"
  using assms
proof (induction fuel arbitrary: cursor res s)
  case (Suc fuel)
  show ?case
  proof (cases "Scanned res < MaximumSoftPruneAttemptsPerRun")
    case True
    show ?thesis
    proof (rule prune_loop_step [OF True Suc.prems(2), of repo t fuel cursor s])
      fix nxt res1 s1
      assume "prune_loop repo t (Suc fuel) cursor res s = prune_loop repo t fuel nxt res1 s1"
        and r: "result_ok res1" "Scanned res < Scanned res1"
      moreover have "MaximumSoftPruneAttemptsPerRun - Scanned res1 < fuel"
        using Suc.prems(1) r by (auto simp: result_ok_def)
      ultimately show ?thesis using Suc.IH by metis
    qed blast
  qed (use Suc.prems in auto)
qed simp

subsection \<open>Complete runs over a repository that keeps its contract\<close>

text \<open>
  The contract a run relies on: \<open>due s t\<close> is what the repository offers at time \<open>t\<close> in
  cursor order, a page is cut from it, and an attempt on an offered relay either takes it
  off the list or, when it is stuck, leaves the list alone.
\<close>

definition prune_cursor_ok :: "int \<Rightarrow> cursor \<Rightarrow> bool" where
  "prune_cursor_ok t c \<longleftrightarrow> cursor_Valid c \<and> validHealthProjectionActor (snd c) \<and> fst c \<le> t - DeadBefore"

locale pruning_contract =
  fixes repo :: "'s pruning_repository" and inv :: "'s \<Rightarrow> bool"
    and due :: "'s \<Rightarrow> int \<Rightarrow> PruneCandidate list" and stuck :: "'s \<Rightarrow> int \<Rightarrow> PruneCandidate \<Rightarrow> bool"
  assumes ctx_alive: "inv s \<Longrightarrow> repo_ctx_err repo s = None"
    and due_sorted: "inv s \<Longrightarrow> sorted_wrt (<) (map pc_key (due s t))"
    and due_cursor: "inv s \<Longrightarrow> x \<in> set (due s t) \<Longrightarrow> prune_cursor_ok t (pc_key x) \<and> zero_cursor < pc_key x"
    and page_law: "inv s \<Longrightarrow> 0 \<le> t \<Longrightarrow> 0 < l \<Longrightarrow> l \<le> MaximumPruneCandidatePage \<Longrightarrow>
      c = zero_cursor \<or> prune_cursor_ok t c \<Longrightarrow>
      repo_candidates repo s \<lparr>After = c, Limit = l, ObservedAt = t\<rparr> =
        Inr (page_of pc_key zero_cursor (nat l) (due s t) c)"
    and attempt_law: "inv s \<Longrightarrow> 0 \<le> t \<Longrightarrow> x \<in> set (due s t) \<Longrightarrow>
      \<exists>s'. repo_soft_prune repo s (pc_actor x) t =
          (Inr (if stuck s t x then PruneNotEligible else PruneApplied), s') \<and> inv s' \<and>
        due s' t = (if stuck s t x then due s t else filter (\<lambda>y. y \<noteq> x) (due s t)) \<and>
        (\<forall>y \<in> set (due s t). y \<noteq> x \<longrightarrow> stuck s' t y = stuck s t y)"
begin

lemma candidate_valid:
  assumes "inv s" and "x \<in> set (due s t)"
  shows "cursor_Valid (pc_key x)" "NormalizeRelayActorURL (pc_actor x) = Inr (pc_actor x)"
    "\<not> pc_last_seen x > t - DeadBefore"
  using due_cursor [OF assms] by (auto simp: prune_cursor_ok_def pc_key_def validHealthProjectionActor_def)

lemma page_run:
  assumes "inv s" "0 \<le> t" "sorted_wrt (<) (pos # map pc_key cs)" "set cs \<subseteq> set (due s t)"
  shows "\<exists>res' s'. prune_page repo t cs pos res s = (Inr (if cs = [] then pos else pc_key (last cs), res'), s') \<and>
    inv s' \<and> Scanned res' = Scanned res + length cs \<and> Truncated res' = Truncated res \<and>
    PrunedCount res' = PrunedCount res + length (filter (\<lambda>x. \<not> stuck s t x) cs) \<and>
    due s' t = filter (\<lambda>x. x \<in> set cs \<longrightarrow> stuck s t x) (due s t) \<and>
    (\<forall>y \<in> set (due s t) - set cs. stuck s' t y = stuck s t y)"
  using assms
proof (induction cs arbitrary: s pos res)
  case (Cons c cs)
  have c: "c \<in> set (due s t)" using Cons.prems by simp
  obtain s1 where s1: "repo_soft_prune repo s (pc_actor c) t =
      (Inr (if stuck s t c then PruneNotEligible else PruneApplied), s1)" "inv s1"
    "due s1 t = (if stuck s t c then due s t else filter (\<lambda>y. y \<noteq> c) (due s t))"
    "\<And>y. y \<in> set (due s t) \<Longrightarrow> y \<noteq> c \<Longrightarrow> stuck s1 t y = stuck s t y"
    using attempt_law [OF Cons.prems(1,2) c] by blast
  let ?res = "count_outcome (if stuck s t c then PruneNotEligible else PruneApplied) res"
  have nc: "c \<notin> set cs" using Cons.prems(3) by auto
  have after: "cursorAfter (pc_key c) pos"
    using Cons.prems(3) by (auto simp: cursorAfter_def less_prod_def less_le prod_eq_iff)
  have step: "prune_page repo t (c # cs) pos res s = prune_page repo t cs (pc_key c) ?res s1"
    using candidate_valid [OF Cons.prems(1) c] after ctx_alive [OF Cons.prems(1)] s1(1) by (simp add: Let_def)
  have sub: "set cs \<subseteq> set (due s1 t)" using Cons.prems(4) nc s1(3) by auto
  have srt: "sorted_wrt (<) (pc_key c # map pc_key cs)" using Cons.prems(3) by simp
  obtain res' s' where IH: "prune_page repo t cs (pc_key c) ?res s1 =
      (Inr (if cs = [] then pc_key c else pc_key (last cs), res'), s')" "inv s'"
    "Scanned res' = Scanned ?res + length cs" "Truncated res' = Truncated ?res"
    "PrunedCount res' = PrunedCount ?res + length (filter (\<lambda>x. \<not> stuck s1 t x) cs)"
    "due s' t = filter (\<lambda>x. x \<in> set cs \<longrightarrow> stuck s1 t x) (due s1 t)"
    "\<And>y. y \<in> set (due s1 t) - set cs \<Longrightarrow> stuck s' t y = stuck s1 t y"
    using Cons.IH [OF s1(2) Cons.prems(2) srt sub, of ?res] by blast
  have same: "stuck s1 t x = stuck s t x" if "x \<in> set cs" for x
    using that nc Cons.prems(4) by (intro s1(4)) auto
  have "filter (\<lambda>x. \<not> stuck s1 t x) cs = filter (\<lambda>x. \<not> stuck s t x) cs"
    using same by (intro filter_cong) auto
  moreover have "due s' t = filter (\<lambda>x. x \<in> set (c # cs) \<longrightarrow> stuck s t x) (due s t)"
    unfolding IH(6) s1(3) using same nc by (auto simp: filter_filter intro!: filter_cong)
  moreover have "stuck s' t y = stuck s t y" if "y \<in> set (due s t) - set (c # cs)" for y
    using that s1(3,4) IH(7) by auto
  ultimately show ?case
    using IH(1-5) step by (auto simp: count_outcome_pruned)
qed auto

lemma last_key_take:
  assumes "inv s" and "xs = take n (filter (\<lambda>x. c < pc_key x) (due s t))" and "xs \<noteq> []"
  shows "filter (\<lambda>x. pc_key (last xs) < pc_key x) (due s t) = drop n (filter (\<lambda>x. c < pc_key x) (due s t))"
proof -
  let ?R = "filter (\<lambda>x. c < pc_key x) (due s t)"
  have srt: "sorted_wrt (<) (map pc_key (due s t))" by (rule due_sorted [OF assms(1)])
  have R: "?R = butlast xs @ last xs # drop n ?R"
    using assms(2,3) by (metis append_butlast_last_id append_take_drop_id append.assoc append_Cons append_Nil)
  have "last xs \<in> set ?R" by (subst R) simp
  then have "filter (\<lambda>y. pc_key (last xs) < pc_key y) (due s t) = filter (\<lambda>y. pc_key (last xs) < pc_key y) ?R"
    by (auto simp: filter_filter intro: filter_cong)
  also have "\<dots> = drop n ?R"
  proof -
    have "sorted_wrt (<) (map pc_key ?R)" using srt by (simp add: sorted_wrt_map sorted_wrt_filter)
    then show ?thesis
      by (subst (asm) R, subst R) (auto simp: sorted_wrt_append filter_empty_conv filter_id_conv)
  qed
  finally show ?thesis .
qed

lemma loop_run:
  assumes "inv s" "0 \<le> t" "c = zero_cursor \<or> prune_cursor_ok t c" "result_ok res"
    and "R = filter (\<lambda>x. c < pc_key x) (due s t)" and "n = MaximumSoftPruneAttemptsPerRun - Scanned res"
    and "0 < n" and "n < fuel" and "\<not> Truncated res"
  shows "\<exists>res' s'. prune_loop repo t fuel c res s = Some ((res', None), s') \<and> inv s' \<and>
    Scanned res' = Scanned res + min n (length R) \<and> Truncated res' = (n < length R) \<and>
    PrunedCount res' = PrunedCount res + length (filter (\<lambda>x. \<not> stuck s t x) (take n R)) \<and>
    due s' t = filter (\<lambda>x. x \<in> set (take n R) \<longrightarrow> stuck s t x) (due s t)"
  using assms
proof (induction fuel arbitrary: s c res R n)
  case (Suc fuel)
  define l where "l = nat (page_limit res)"
  have l: "0 < l" "int l = page_limit res" "l \<le> n" "page_limit res \<le> MaximumPruneCandidatePage" "0 < page_limit res"
    using Suc.prems by (auto simp: l_def page_limit_def MaximumPruneCandidatePage_def Let_def)
  have scan: "Scanned res < MaximumSoftPruneAttemptsPerRun" using Suc.prems by simp
  have fetch: "repo_candidates repo s \<lparr>After = c, Limit = page_limit res, ObservedAt = t\<rparr> =
      Inr (take l R, if length R \<le> l then zero_cursor else pc_key (last (take l R)))"
    using page_law [OF Suc.prems(1,2) l(5,4) Suc.prems(3)] Suc.prems(5) by (simp add: page_of_def Let_def l_def)
  show ?case
  proof (cases "R = []")
    case True
    with fetch scan Suc.prems show ?thesis by simp
  next
    case False
    let ?page = "take l R"
    have ne: "?page \<noteq> []" using False l(1) by simp
    have len: "\<not> int (length ?page) > page_limit res" using l(2) by simp
    have Rsub: "set R \<subseteq> set (due s t)" using Suc.prems(5) by auto
    have srt: "sorted_wrt (<) (map pc_key R)"
      using due_sorted [OF Suc.prems(1), of t] Suc.prems(5) by (simp add: sorted_wrt_map sorted_wrt_filter)
    then have "sorted_wrt (<) (map pc_key ?page)" by (simp add: sorted_wrt_take flip: take_map)
    moreover have "\<forall>x \<in> set ?page. c < pc_key x" using Suc.prems(5) by (auto dest!: in_set_takeD)
    ultimately have srt1: "sorted_wrt (<) (c # map pc_key ?page)" by auto
    have sub1: "set ?page \<subseteq> set (due s t)" using Rsub by (auto dest: in_set_takeD)
    obtain res1 s1 where P: "prune_page repo t ?page c res s = (Inr (pc_key (last ?page), res1), s1)" "inv s1"
      "Scanned res1 = Scanned res + length ?page" "Truncated res1 = Truncated res"
      "PrunedCount res1 = PrunedCount res + length (filter (\<lambda>x. \<not> stuck s t x) ?page)"
      "due s1 t = filter (\<lambda>x. x \<in> set ?page \<longrightarrow> stuck s t x) (due s t)"
      "\<And>y. y \<in> set (due s t) - set ?page \<Longrightarrow> stuck s1 t y = stuck s t y"
      using page_run [OF Suc.prems(1,2) srt1 sub1, of res] ne by auto
    show ?thesis
    proof (cases "length R \<le> l")
      case True
      then have "prune_loop repo t (Suc fuel) c res s = Some ((res1, None), s1)"
        using fetch scan ne len P(1) by simp
      with True l P Suc.prems show ?thesis by (auto simp: min_def)
    next
      case more: False
      let ?last = "pc_key (last ?page)"
      have lastmem: "last ?page \<in> set (due s t)" using sub1 ne by (meson last_in_set subsetD)
      note lastok = due_cursor [OF Suc.prems(1) lastmem]
      have lenl: "length ?page = l" using more by simp
      have step: "prune_loop repo t (Suc fuel) c res s =
        (if Scanned res1 = MaximumSoftPruneAttemptsPerRun then Some ((res1\<lparr>Truncated := True\<rparr>, None), s1)
         else prune_loop repo t fuel ?last res1 s1)"
        using fetch scan ne len P(1) more lastok by (auto simp: prune_cursor_ok_def)
      show ?thesis
      proof (cases "l = n")
        case True
        with step more P lenl Suc.prems show ?thesis by (auto simp: result_ok_def)
      next
        case False
        define R1 where "R1 = drop l R"
        define n1 where "n1 = n - l"
        have ok1: "result_ok res1"
          using prune_page_counts [OF P(1)] Suc.prems(4,6) P(3) lenl l(3) by (auto simp: result_ok_def)
        have rest: "filter (\<lambda>x. ?last < pc_key x) (due s t) = R1"
          unfolding R1_def Suc.prems(5) by (rule last_key_take [OF Suc.prems(1)]) (use ne Suc.prems(5) in auto)
        have disj: "set R1 \<inter> set ?page = {}"
        proof -
          have "distinct R" using srt by (metis distinct_map strict_sorted_iff)
          then show ?thesis unfolding R1_def by (metis append_take_drop_id distinct_append inf_commute)
        qed
        have R1: "R1 = filter (\<lambda>x. ?last < pc_key x) (due s1 t)"
        proof -
          have "filter (\<lambda>x. ?last < pc_key x) (due s1 t) =
              filter (\<lambda>x. x \<in> set ?page \<longrightarrow> stuck s t x) (filter (\<lambda>x. ?last < pc_key x) (due s t))"
            unfolding P(6) by (simp add: filter_filter conj_commute)
          also have "\<dots> = R1" unfolding rest using disj by (auto simp: filter_id_conv)
          finally show ?thesis by simp
        qed
        have n1: "n1 = MaximumSoftPruneAttemptsPerRun - Scanned res1" "0 < n1" "n1 < fuel"
          using Suc.prems(6,7,8) P(3) lenl l False by (auto simp: n1_def)
        have "Scanned res1 \<noteq> MaximumSoftPruneAttemptsPerRun" using n1 by simp
        obtain res2 s2 where L: "prune_loop repo t fuel ?last res1 s1 = Some ((res2, None), s2)" "inv s2"
          "Scanned res2 = Scanned res1 + min n1 (length R1)" "Truncated res2 = (n1 < length R1)"
          "PrunedCount res2 = PrunedCount res1 + length (filter (\<lambda>x. \<not> stuck s1 t x) (take n1 R1))"
          "due s2 t = filter (\<lambda>x. x \<in> set (take n1 R1) \<longrightarrow> stuck s1 t x) (due s1 t)"
          using Suc.IH [OF P(2) Suc.prems(2) _ ok1 R1 n1, of] lastok P(4) Suc.prems(9) by metis
        have tk: "take n R = ?page @ take n1 R1"
          using l(3) by (simp add: R1_def n1_def take_add [symmetric])
        have same: "stuck s1 t x = stuck s t x" if "x \<in> set R1" for x
          using that disj Rsub by (intro P(7)) (auto simp: R1_def dest: in_set_dropD)
        have "filter (\<lambda>x. \<not> stuck s1 t x) (take n1 R1) = filter (\<lambda>x. \<not> stuck s t x) (take n1 R1)"
          using same by (intro filter_cong) (auto dest: in_set_takeD)
        moreover have "due s2 t = filter (\<lambda>x. x \<in> set (take n R) \<longrightarrow> stuck s t x) (due s t)"
          unfolding L(6) P(6) tk using same by (auto simp: filter_filter dest: in_set_takeD intro!: filter_cong)
        moreover have "length R = l + length R1" using more by (simp add: R1_def)
        ultimately show ?thesis
          using step \<open>Scanned res1 \<noteq> _\<close> L P(3,5) lenl l(3) False
          by (auto simp: tk n1_def)
      qed
    qed
  qed
qed simp

theorem run_complete:
  assumes "inv s" "0 \<le> t"
  shows "\<exists>res s'. prune_Run repo t s = Some ((res, None), s') \<and> inv s' \<and>
    Scanned res = min MaximumSoftPruneAttemptsPerRun (length (due s t)) \<and>
    Truncated res = (MaximumSoftPruneAttemptsPerRun < length (due s t)) \<and>
    PrunedCount res = length (filter (\<lambda>x. \<not> stuck s t x) (take MaximumSoftPruneAttemptsPerRun (due s t))) \<and>
    due s' t = filter (\<lambda>x. x \<in> set (take MaximumSoftPruneAttemptsPerRun (due s t)) \<longrightarrow> stuck s t x) (due s t)"
proof -
  have "filter (\<lambda>x. zero_cursor < pc_key x) (due s t) = due s t"
    using due_cursor [OF assms(1)] by (auto simp: filter_id_conv)
  moreover have "0 < MaximumSoftPruneAttemptsPerRun" by (simp add: MaximumSoftPruneAttemptsPerRun_def)
  ultimately show ?thesis
    using loop_run [OF assms, of zero_cursor "zero_result\<lparr>ObservedUnix := t\<rparr>" "due s t"
        MaximumSoftPruneAttemptsPerRun "Suc MaximumSoftPruneAttemptsPerRun"] assms ctx_alive
    by (auto simp: prune_Run_def zero_result_def result_ok_def)
qed

end


subsection \<open>The SQLite repository keeps the contract\<close>

definition sqlite_pruning :: "db pruning_repository" where
  "sqlite_pruning = \<lparr>repo_candidates = (\<lambda>d q. PruneCandidates quiet q d),
     repo_soft_prune = (\<lambda>d actor t. SoftPrune calm actor t d), repo_ctx_err = (\<lambda>_. None)\<rparr>"

definition candidate_view :: "string \<times> relay_row \<Rightarrow> PruneCandidate" where
  "candidate_view ar = \<lparr>pc_actor = fst ar, pc_base = public_base_url (snd ar),
     pc_admin = administrative_state (snd ar), pc_last_seen = last_seen_at (snd ar)\<rparr>"

definition prune_due :: "db \<Rightarrow> int \<Rightarrow> PruneCandidate list" where
  "prune_due d t = map candidate_view (sort_key row_key (filter (prunable d t) (relays d)))"

definition prune_stuck :: "db \<Rightarrow> int \<Rightarrow> PruneCandidate \<Rightarrow> bool" where
  "prune_stuck d t x \<longleftrightarrow> \<not> fresh_at d (pc_actor x) t"

lemma pc_key_view [simp]: "pc_key (candidate_view ar) = row_key ar"
  by (simp add: pc_key_def candidate_view_def row_key_def)

lemma prune_due_mem:
  "x \<in> set (prune_due d t) \<longleftrightarrow> (\<exists>ar \<in> set (relays d). prunable d t ar \<and> x = candidate_view ar)"
  by (auto simp: prune_due_def)

lemma filter_update_dropped:
  assumes "\<not> P (k, v)"
  shows "table_ok t \<Longrightarrow> filter P (AList.update k v t) = filter (\<lambda>ar. fst ar \<noteq> k) (filter P t)"
proof (induction t)
  case (Cons a t)
  have "filter (\<lambda>ar. fst ar \<noteq> k) (filter P t) = filter P t" if "k \<notin> fst ` set t"
    using that by (auto simp: filter_filter intro!: filter_cong)
  with Cons assms show ?case by (auto simp: filter_id_conv)
qed (use assms in auto)

lemma fresh_at_other:
  assumes "a \<noteq> actor"
  shows "fresh_at (log_relay actor k t (put_relay actor r d)) a t' = fresh_at d a t'"
  using assms by (simp add: fresh_at_def actor_times_def) (simp add: log_relay_def put_relay_def)

lemma due_after_prune:
  assumes ok: "db_ok d" and r: "map_of (relays d) actor = Some r"
  shows "prune_due (log_relay actor RelayPruned t (put_relay actor (pruned_row t r) d)) t =
    filter (\<lambda>y. y \<noteq> candidate_view (actor, r)) (prune_due d t)"
proof -
  let ?d = "log_relay actor RelayPruned t (put_relay actor (pruned_row t r) d)"
  have same: "prunable ?d t = prunable d t"
    by (auto simp: prunable_def log_relay_def put_relay_def fun_eq_iff)
  have tab: "table_ok (relays d)" using ok by (simp add: db_ok_def relays_ok_def)
  have "\<not> prunable d t (actor, pruned_row t r)" by (simp add: prunable_def pruned_row_def)
  from filter_update_dropped [of "prunable d t", OF this tab]
  have "filter (prunable ?d t) (relays ?d) = filter (\<lambda>ar. fst ar \<noteq> actor) (filter (prunable d t) (relays d))"
    unfolding same by (simp add: log_relay_def put_relay_def)
  moreover have "candidate_view ar \<noteq> candidate_view (actor, r) \<longleftrightarrow> fst ar \<noteq> actor" if "ar \<in> set (relays d)" for ar
  proof -
    have "ar = (actor, r)" if "fst ar = actor"
      using that \<open>ar \<in> set (relays d)\<close> tab r by (metis eq_key_imp_eq_value map_of_SomeD prod.collapse)
    then show ?thesis by (cases ar) (auto simp: candidate_view_def)
  qed
  ultimately show ?thesis
    by (simp add: prune_due_def filter_sort [symmetric] filter_map o_def)
      (rule arg_cong [of _ _ "map candidate_view"], auto intro!: filter_cong)
qed

interpretation sqlite_prune: pruning_contract sqlite_pruning db_ok prune_due prune_stuck
proof unfold_locales
  fix d :: db and t l :: int and c x
  assume ok: "db_ok d"
  show "repo_ctx_err sqlite_pruning d = None" by (simp add: sqlite_pruning_def)
  show "sorted_wrt (<) (map pc_key (prune_due d t))"
    using sort_key_strict [OF row_key_distinct, of "relays d" "prunable d t"] ok
    by (simp add: prune_due_def o_def db_ok_def relays_ok_def)
  show "prune_cursor_ok t (pc_key x) \<and> zero_cursor < pc_key x" if "x \<in> set (prune_due d t)"
    using that relays_mem [OF ok]
    by (auto simp: prune_due_mem prune_cursor_ok_def prunable_def cursor_Valid_def intro!: row_key_less_zero)
      (auto simp: row_key_def)
  show "repo_candidates sqlite_pruning d \<lparr>After = c, Limit = l, ObservedAt = t\<rparr> =
        Inr (page_of pc_key zero_cursor (nat l) (prune_due d t) c)"
    if "0 \<le> t" "0 < l" "l \<le> MaximumPruneCandidatePage" "c = zero_cursor \<or> prune_cursor_ok t c"
  proof -
    have dec: "decode_candidate (t - DeadBefore) ar = Inr (candidate_view ar)"
      if "ar \<in> set (filter (prunable d t) (relays d))" for ar
      using that relays_mem [OF ok, of ar] by (auto simp: decode_candidate_def candidate_view_def prunable_def)
    show ?thesis
      using that
      by (simp add: sqlite_pruning_def PruneCandidates_def prune_due_def Let_def)
        (auto simp: prune_cursor_ok_def cursor_Valid_def intro!: keyset_page dec)
  qed
  show "\<exists>s'. repo_soft_prune sqlite_pruning d (pc_actor x) t =
          (Inr (if prune_stuck d t x then PruneNotEligible else PruneApplied), s') \<and> db_ok s' \<and>
        prune_due s' t = (if prune_stuck d t x then prune_due d t else filter (\<lambda>y. y \<noteq> x) (prune_due d t)) \<and>
        (\<forall>y \<in> set (prune_due d t). y \<noteq> x \<longrightarrow> prune_stuck s' t y = prune_stuck d t y)"
    if t0: "0 \<le> t" and xmem: "x \<in> set (prune_due d t)"
  proof -
    obtain actor r where ar: "(actor, r) \<in> set (relays d)" "prunable d t (actor, r)" "x = candidate_view (actor, r)"
      using xmem by (auto simp: prune_due_mem)
    have tab: "table_ok (relays d)" using ok by (simp add: db_ok_def relays_ok_def)
    have r: "map_of (relays d) actor = Some r" using ar(1) tab by simp
    have valid: "validateIdentityIntent actor = None"
      using relays_mem [OF ok ar(1)]
      by (simp add: validateIdentityIntent_None relay_check_def validHealthProjectionActor_def)
    have actor: "pc_actor x = actor" using ar(3) by (simp add: candidate_view_def)
    have spec: "repo_soft_prune sqlite_pruning d (pc_actor x) t = soft_prune_spec actor t d"
      using soft_prune_calm [OF ok valid t0] valid t0
      by (simp add: sqlite_pruning_def SoftPrune_def transitionUnix_def actor)
    have others: "pc_actor y \<noteq> actor" if ymem: "y \<in> set (prune_due d t)" and "y \<noteq> x" for y
    proof
      assume eq: "pc_actor y = actor"
      obtain a' r' where y: "(a', r') \<in> set (relays d)" "y = candidate_view (a', r')" using ymem by (auto simp: prune_due_mem)
      with eq have "a' = actor" by (simp add: candidate_view_def)
      with y r tab have "r' = r" by (metis eq_key_imp_eq_value map_of_SomeD)
      with y \<open>a' = actor\<close> ar(3) \<open>y \<noteq> x\<close> show False by simp
    qed
    show ?thesis
    proof (cases "fresh_at d actor t")
      case True
      let ?d = "log_relay actor RelayPruned t (put_relay actor (pruned_row t r) d)"
      have out: "soft_prune_spec actor t d = (Inr PruneApplied, ?d)"
        using r ar(2) True by (auto simp: soft_prune_spec_def prunable_def)
      have "db_ok ?d" using soft_prune_spec_ok [OF ok, of actor t] out by simp
      moreover have "prune_due ?d t = filter (\<lambda>y. y \<noteq> x) (prune_due d t)"
        using due_after_prune [OF ok r] ar(3) by simp
      moreover have "prune_stuck ?d t y = prune_stuck d t y" if "y \<in> set (prune_due d t)" "y \<noteq> x" for y
        using others [OF that] by (simp add: prune_stuck_def fresh_at_other)
      ultimately show ?thesis using True out spec actor by (auto simp: prune_stuck_def)
    next
      case False
      then have "soft_prune_spec actor t d = (Inr PruneNotEligible, d)"
        using r ar(2) by (auto simp: soft_prune_spec_def prunable_def)
      with False spec ok actor show ?thesis by (auto simp: prune_stuck_def)
    qed
  qed
qed


end
