(* ===== verification/StoreMachine.thy ===== *)
theory StoreMachine
  imports PruneRun
begin

section \<open>The repository as a state machine\<close>

text \<open>
  Every mutating operation of the relay repository as one labelled step on the database:
  lifecycle, moderation, enrollment, discovery, observation and pruning, each with an
  arbitrary environment (write admission, statement faults, commit faults). The relation
  \<open>effect\<close> lists what a step can do; it is derived from the operations, and the properties
  below are proved by case analysis on it.
\<close>

datatype store_op =
    OpRegister RegisterIntent int
  | OpHeartbeat string int
  | OpUnregister string int
  | OpModerate ModerationIntent int administrative
  | OpEnrollment bool string int
  | OpAddDiscovery DiscoveryAddIntent int
  | OpRemoveDiscovery DiscoveryRemoveIntent int
  | OpActorObservation ActorObservationIntent int
  | OpInboxObservation InboxObservationIntent int
  | OpSoftPrune string int

definition outcome_error :: "'a result \<times> db \<Rightarrow> goerror option \<times> db" where
  "outcome_error out = (case fst out of Inl e \<Rightarrow> Some e | Inr _ \<Rightarrow> None, snd out)"

fun apply_op :: "environment \<Rightarrow> store_op \<Rightarrow> db \<Rightarrow> goerror option \<times> db" where
  "apply_op env (OpRegister intent t) d = outcome_error (Register env intent t d)"
| "apply_op env (OpHeartbeat actor t) d = outcome_error (Heartbeat env actor t d)"
| "apply_op env (OpUnregister actor t) d = outcome_error (Unregister env actor t d)"
| "apply_op env (OpModerate intent t Suspended) d = outcome_error (Suspend env intent t d)"
| "apply_op env (OpModerate intent t Active) d = outcome_error (Restore env intent t d)"
| "apply_op env (OpEnrollment target operator t) d = outcome_error (SetEnrollment env target operator t d)"
| "apply_op env (OpAddDiscovery intent t) d = outcome_error (AddDiscovery env intent t d)"
| "apply_op env (OpRemoveDiscovery intent t) d = outcome_error (RemoveDiscovery env intent t d)"
| "apply_op env (OpActorObservation intent t) d = outcome_error (RecordActorObservation env intent t d)"
| "apply_op env (OpInboxObservation intent t) d = outcome_error (RecordInboxObservation env intent t d)"
| "apply_op env (OpSoftPrune actor t) d = outcome_error (SoftPrune env actor t d)"

lemmas op_defs = Register_def Heartbeat_def Unregister_def Suspend_def Restore_def moderate_def
  SetEnrollment_def AddDiscovery_def RemoveDiscovery_def RecordActorObservation_def
  RecordInboxObservation_def SoftPrune_def

lemmas all_tolerant = register_tolerant heartbeat_tolerant unregister_tolerant moderate_tolerant
  set_enrollment_tolerant add_discovery_tolerant remove_discovery_tolerant record_actor_tolerant
  record_inbox_tolerant soft_prune_tolerant

text \<open>Every transaction of the repository, with admission and faults of any kind.\<close>

lemma outcome_error_tolerant:
  assumes "fault_tolerant t"
  shows "outcome_error (run_tx env t d) = outcome_error (run_tx calm t d) \<or>
    (snd (outcome_error (run_tx env t d)) = d \<and>
     (\<exists>e. fst (outcome_error (run_tx env t d)) = Some e \<and> errors_is e ErrStorageFailure))"
  using run_tx_tolerant [OF assms, of d env] by (auto simp: interrupted_def outcome_error_def)

lemma apply_op_tolerant:
  "apply_op env op d = apply_op calm op d \<or>
   (snd (apply_op env op d) = d \<and> (\<exists>e. fst (apply_op env op d) = Some e \<and> errors_is e ErrStorageFailure))"
  by (cases "(env, op, d)" rule: apply_op.cases)
    (auto simp: op_defs outcome_error_tolerant [OF register_tolerant] outcome_error_tolerant [OF heartbeat_tolerant]
      outcome_error_tolerant [OF unregister_tolerant] outcome_error_tolerant [OF moderate_tolerant]
      outcome_error_tolerant [OF set_enrollment_tolerant] outcome_error_tolerant [OF add_discovery_tolerant]
      outcome_error_tolerant [OF remove_discovery_tolerant] outcome_error_tolerant [OF record_actor_tolerant]
      outcome_error_tolerant [OF record_inbox_tolerant] outcome_error_tolerant [OF soft_prune_tolerant]
      split: option.splits sum.splits)

lemma outcome_error_unchanged:
  "fst (outcome_error (run_tx env t d)) = Some e \<Longrightarrow> snd (outcome_error (run_tx env t d)) = d"
  using run_tx_error_unchanged [of env t d] by (auto simp: outcome_error_def split: sum.splits)

lemma apply_op_error_unchanged:
  "fst (apply_op env op d) = Some e \<Longrightarrow> snd (apply_op env op d) = d"
  by (cases "(env, op, d)" rule: apply_op.cases)
    (auto simp: op_defs outcome_error_unchanged split: option.splits sum.splits if_splits
      simp: outcome_error_def [of "(Inl _, _)"])

subsection \<open>What an operation can do to the state\<close>

inductive effect :: "store_op \<Rightarrow> db \<Rightarrow> db \<Rightarrow> bool" where
  none: "effect op d d"
| created: "map_of (relays d) actor = None \<Longrightarrow> enrollment_is_open d \<Longrightarrow> fresh_at d actor t \<Longrightarrow> 0 \<le> t \<Longrightarrow>
    validateRegisterIntent intent = None \<Longrightarrow> reg_actor intent = actor \<Longrightarrow>
    effect (OpRegister intent t) d (accept_relay actor (register_new_row (reg_base intent) t) RegisterCreated t d)"
| confirmed: "map_of (relays d) actor = Some r \<Longrightarrow> lifecycle_state r = Registered \<Longrightarrow>
    administrative_state r = Active \<Longrightarrow> fresh_at d actor t \<Longrightarrow> 0 \<le> t \<Longrightarrow> actor_length_ok actor \<Longrightarrow>
    (\<exists>intent. op = OpRegister intent t \<and> reg_actor intent = actor \<and> kind = RegisterUnchanged) \<or>
      (op = OpHeartbeat actor t \<and> kind = HeartbeatRecorded) \<Longrightarrow>
    effect op d (accept_relay actor (seen_row t r) kind t d)"
| reregistered: "map_of (relays d) actor = Some r \<Longrightarrow> lifecycle_state r \<noteq> Registered \<Longrightarrow>
    administrative_state r = Active \<Longrightarrow> fresh_at d actor t \<Longrightarrow> 0 \<le> t \<Longrightarrow>
    validateRegisterIntent intent = None \<Longrightarrow> reg_actor intent = actor \<Longrightarrow>
    effect (OpRegister intent t) d (accept_relay actor (reregister_row (reg_base intent) t r) RegisterUpdated t d)"
| unregistered: "map_of (relays d) actor = Some r \<Longrightarrow> lifecycle_state r = Registered \<Longrightarrow>
    fresh_at d actor t \<Longrightarrow> 0 \<le> t \<Longrightarrow> actor_length_ok actor \<Longrightarrow>
    effect (OpUnregister actor t) d (accept_relay actor (unregistered_row t r) UnregisterRemoved t d)"
| absent: "\<not> is_registered (map_of (relays d) actor) \<Longrightarrow> fresh_at d actor t \<Longrightarrow> 0 \<le> t \<Longrightarrow> actor_length_ok actor \<Longrightarrow>
    effect (OpUnregister actor t) d
      (log_relay actor UnregisterAbsent t (if retained d actor then put_verified actor t d else d))"
| pruned: "map_of (relays d) actor = Some r \<Longrightarrow> prunable d t (actor, r) \<Longrightarrow> fresh_at d actor t \<Longrightarrow> 0 \<le> t \<Longrightarrow>
    actor_length_ok actor \<Longrightarrow>
    effect (OpSoftPrune actor t) d (log_relay actor RelayPruned t (put_relay actor (pruned_row t r) d))"
| moderated: "map_of (relays d) (mod_actor i) = Some r \<Longrightarrow> fresh_at d (mod_actor i) t \<Longrightarrow> 0 \<le> t \<Longrightarrow>
    administrative_state r \<noteq> target \<Longrightarrow> act = (if target = Suspended then SuspendApplied else RestoreApplied) \<Longrightarrow>
    effect (OpModerate i t target) d
      (log_moderation i act t (put_relay (mod_actor i) (moderated_row target t r) d))"
| remoderated: "map_of (relays d) (mod_actor i) = Some r \<Longrightarrow> fresh_at d (mod_actor i) t \<Longrightarrow> 0 \<le> t \<Longrightarrow>
    administrative_state r = target \<Longrightarrow> act = (if target = Suspended then SuspendUnchanged else RestoreUnchanged) \<Longrightarrow>
    effect (OpModerate i t target) d (log_moderation i act t d)"
| enrollment: "enrollment_fresh d t \<Longrightarrow> 0 \<le> t \<Longrightarrow>
    effect (OpEnrollment target operator t) d
      (log_enrollment act operator t
         (if enrollment_is_open d \<noteq> target
          then d\<lparr>directory_policy := Some \<lparr>enrollment_open = boolInteger target, policy_updated_at = t\<rparr>\<rparr>
          else d))"
| discovery: "relays d' = relays d \<Longrightarrow> relay_events d' = relay_events d \<Longrightarrow>
    relay_event_seq d' = relay_event_seq d \<Longrightarrow> moderation_events d' = moderation_events d \<Longrightarrow>
    directory_policy d' = directory_policy d \<Longrightarrow> enrollment_events d' = enrollment_events d \<Longrightarrow>
    (\<exists>i t. op = OpAddDiscovery i t) \<or> (\<exists>i t. op = OpRemoveDiscovery i t) \<or>
      (\<exists>i t. op = OpActorObservation i t) \<or> (\<exists>i t. op = OpInboxObservation i t) \<Longrightarrow>
    prefix (discovery_events d) (discovery_events d') \<Longrightarrow> db_ok d' \<Longrightarrow>
    effect op d d'"

lemma register_effect:
  assumes "db_ok d" "validateRegisterIntent intent = None" "0 \<le> t"
  shows "effect (OpRegister intent t) d (snd (register_spec intent t d))"
proof (cases "map_of (relays d) (reg_actor intent)")
  case None
  with assms show ?thesis
    by (auto simp: register_spec_def Let_def intro!: effect.none effect.created)
next
  case (Some r)
  have "administrative_state r = Active \<or> administrative_state r = Suspended" by (cases "administrative_state r") auto
  moreover have "actor_length_ok (reg_actor intent)" using assms(2) by (simp add: validateRegisterIntent_None)
  ultimately show ?thesis
    using Some assms
    by (auto simp: register_spec_def Let_def intro!: effect.none effect.confirmed effect.reregistered)
qed

lemma heartbeat_effect:
  assumes "db_ok d" "validateIdentityIntent actor = None" "0 \<le> t"
  shows "effect (OpHeartbeat actor t) d (snd (heartbeat_spec actor t d))"
proof (cases "map_of (relays d) actor")
  case (Some r)
  have "administrative_state r = Active \<or> administrative_state r = Suspended" by (cases "administrative_state r") auto
  moreover have "actor_length_ok actor" using assms(2) by (simp add: validateIdentityIntent_None)
  ultimately show ?thesis
    using Some assms by (auto simp: heartbeat_spec_def intro!: effect.none effect.confirmed)
qed (simp add: heartbeat_spec_def effect.none)

lemma unregister_effect:
  assumes "db_ok d" "validateIdentityIntent actor = None" "0 \<le> t"
  shows "effect (OpUnregister actor t) d (snd (unregister_spec actor t d))"
proof -
  have len: "actor_length_ok actor" using assms(2) by (simp add: validateIdentityIntent_None)
  show ?thesis
  proof (cases "is_registered (map_of (relays d) actor)")
    case True
    then obtain r where "map_of (relays d) actor = Some r" "lifecycle_state r = Registered"
      by (auto simp: is_registered_def split: option.splits)
    with assms len show ?thesis
      by (auto simp: unregister_spec_def intro!: effect.none effect.unregistered)
  next
    case False
    have "snd (unregister_spec actor t d) = d \<or> fresh_at d actor t \<and> snd (unregister_spec actor t d) =
        log_relay actor UnregisterAbsent t (if retained d actor then put_verified actor t d else d)"
      using False by (auto simp: unregister_spec_def is_registered_def retained_def split: option.splits)
    then show ?thesis using effect.absent [OF False _ assms(3) len] effect.none by metis
  qed
qed

lemma moderate_effect:
  assumes "0 \<le> t"
  shows "effect (OpModerate i t target) d (snd (moderate_spec i t target d))"
proof (cases "map_of (relays d) (mod_actor i)")
  case (Some r)
  show ?thesis
  proof (cases "fresh_at d (mod_actor i) t")
    case True
    with Some assms show ?thesis
      by (cases "administrative_state r"; cases target)
        (auto simp: moderate_spec_def intro!: effect.moderated effect.remoderated)
  qed (use Some in \<open>simp add: moderate_spec_def effect.none\<close>)
qed (simp add: moderate_spec_def effect.none)

lemma enrollment_effect:
  assumes "0 \<le> t"
  shows "effect (OpEnrollment target operator t) d (snd (set_enrollment_spec target operator t d))"
proof (cases "enrollment_fresh d t")
  case True
  obtain outcome act where "classifyEnrollment (enrollment_is_open d) target = (outcome, act)" by fastforce
  with True show ?thesis
    using effect.enrollment [OF True assms, of target operator act] by (simp add: set_enrollment_spec_def)
qed (simp add: set_enrollment_spec_def effect.none)

lemma soft_prune_effect:
  assumes "validateIdentityIntent actor = None" "0 \<le> t"
  shows "effect (OpSoftPrune actor t) d (snd (soft_prune_spec actor t d))"
  using assms by (auto simp: soft_prune_spec_def validateIdentityIntent_None split: option.splits
      intro!: effect.none effect.pruned)

lemma add_discovery_effect:
  assumes "db_ok d" "validateDiscoveryAddIntent i = None" "0 \<le> t"
  shows "effect (OpAddDiscovery i t) d (snd (add_discovery_spec i t d))"
proof (rule effect.discovery)
  show "db_ok (snd (add_discovery_spec i t d))" by (rule add_discovery_spec_ok [OF assms])
qed (auto simp: add_discovery_spec_def log_discovery_def put_discovery_def Let_def split: option.splits)

lemma remove_discovery_effect:
  assumes "db_ok d"
  shows "effect (OpRemoveDiscovery i t) d (snd (remove_discovery_spec i t d))"
proof (rule effect.discovery)
  show "db_ok (snd (remove_discovery_spec i t d))" by (rule remove_discovery_spec_ok [OF assms])
qed (auto simp: remove_discovery_spec_def log_discovery_def put_discovery_def Let_def split: option.splits)

text \<open>Observation writes touch the observation table only.\<close>

definition observations_only :: "db \<Rightarrow> db \<Rightarrow> bool" where
  "observations_only d d' \<longleftrightarrow> d' = d\<lparr>relay_observations := relay_observations d'\<rparr>"

lemma observations_only_refl: "observations_only d d"
  by (simp add: observations_only_def)

lemma observations_only_insert: "insert_observation actor r d = Some d' \<Longrightarrow> observations_only d d'"
  by (auto simp: observations_only_def insert_observation_def split: if_splits)

lemma observations_only_update: "update_observation actor f d = Some d' \<Longrightarrow> observations_only d d'"
  by (auto simp: observations_only_def update_observation_def split: if_splits option.splits)

lemma observations_only_trans: "observations_only d d1 \<Longrightarrow> observations_only d1 d2 \<Longrightarrow> observations_only d d2"
  by (cases d; cases d1; cases d2) (simp add: observations_only_def)

lemma record_actor_frame: "observations_only d (snd (run_tx calm (record_actor_tx i t) d))"
  by (auto simp: record_actor_tx_def store_tx_defs tx_simps observations_only_refl observations_only_update
      intro: observations_only_trans [OF observations_only_insert observations_only_update]
      split: option.splits if_splits)

lemma record_inbox_frame: "observations_only d (snd (run_tx calm (record_inbox_tx i t) d))"
  by (auto simp: record_inbox_tx_def store_tx_defs tx_simps observations_only_refl observations_only_update
      split: option.splits if_splits)

lemma observations_only_effect:
  assumes frame: "observations_only d d'" and "db_ok d'"
    and "(\<exists>i t. op = OpActorObservation i t) \<or> (\<exists>i t. op = OpInboxObservation i t)"
  shows "effect op d d'"
proof -
  have "relays d' = relays d" "relay_events d' = relay_events d" "relay_event_seq d' = relay_event_seq d"
    "moderation_events d' = moderation_events d" "directory_policy d' = directory_policy d"
    "enrollment_events d' = enrollment_events d" "discovery_events d' = discovery_events d"
    by (subst frame [unfolded observations_only_def], simp)+
  with assms show ?thesis by (intro effect.discovery) auto
qed

lemma observation_effect:
  assumes ok: "db_ok d"
  shows "effect (OpActorObservation i t) d (snd (run_tx calm (record_actor_tx i t) d))"
    and "effect (OpInboxObservation j t) d (snd (run_tx calm (record_inbox_tx j t) d))"
  by (auto intro!: observations_only_effect record_actor_frame record_inbox_frame
      record_actor_ok [OF ok] record_inbox_ok [OF ok])

lemmas op_effects = register_effect heartbeat_effect unregister_effect moderate_effect enrollment_effect
  soft_prune_effect add_discovery_effect remove_discovery_effect observation_effect

lemmas op_calm = register_calm heartbeat_calm unregister_calm moderate_calm set_enrollment_calm
  add_discovery_calm remove_discovery_calm soft_prune_calm

lemma outcome_error_snd [simp]: "snd (outcome_error out) = snd out"
  by (simp add: outcome_error_def)

lemma apply_op_calm_effect:
  assumes ok: "db_ok d"
  shows "effect op d (snd (apply_op calm op d))"
  by (cases "(calm, op, d)" rule: apply_op.cases)
    (auto simp: op_defs transitionUnix_def observationUnix_def op_calm [OF ok] ok
      intro: op_effects effect.none split: option.splits sum.splits)

lemma apply_op_effect:
  assumes ok: "db_ok d"
  shows "effect op d (snd (apply_op env op d))"
  using apply_op_tolerant [of env op d] apply_op_calm_effect [OF ok, of op] effect.none by metis

lemma effect_ok:
  assumes "effect op d d'" and ok: "db_ok d"
  shows "db_ok d'"
  using assms(1)
proof cases
  case (created actor t intent)
  then show ?thesis
    by (auto simp: validateRegisterIntent_None register_new_row_def intro!: accept_relay_ok [OF ok] relay_check_new [unfolded register_new_row_def])
next
  case (confirmed actor r t kind)
  note R = relays_okD [OF ok confirmed(2)]
  from confirmed R show ?thesis
    by (auto simp: seen_row_def intro!: accept_relay_ok [OF ok] relay_check_seen [unfolded seen_row_def] fresh_row)
next
  case (reregistered actor r t intent)
  note R = relays_okD [OF ok reregistered(3)]
  show ?thesis
    unfolding reregistered(2)
    using reregistered R by (intro accept_relay_ok [OF ok] relay_check_reregister fresh_row)
      (auto simp: validateRegisterIntent_None reregister_row_def)
next
  case (unregistered actor r t)
  note R = relays_okD [OF ok unregistered(3)]
  show ?thesis
    unfolding unregistered(2)
    using unregistered R by (intro accept_relay_ok [OF ok] relay_check_unregistered fresh_row)
      (auto simp: unregistered_row_def)
next
  case (absent actor t)
  then show ?thesis
    using log_relay_ok [OF ok fresh_event] verified_log_ok [OF ok fresh_event] by auto
next
  case (pruned actor r t)
  then show ?thesis using soft_prune_spec_ok [OF ok, of actor t] by (auto simp: soft_prune_spec_def prunable_def)
next
  case (moderated i r t target act)
  note R = relays_okD [OF ok moderated(3)]
  have "db_ok (put_relay (mod_actor i) (moderated_row target t r) d)"
    using moderated R fresh_row by (intro put_relay_ok [OF ok] relay_check_moderated) (auto simp: moderated_row_def)
  with moderated show ?thesis by (auto intro!: log_moderation_ok dest: fresh_moderation)
next
  case (remoderated i r t target act)
  then show ?thesis by (auto intro!: log_moderation_ok [OF ok] dest: fresh_moderation)
next
  case (enrollment t target operator act)
  then show ?thesis by (auto intro!: enrollment_ok [OF ok])
qed (use ok in auto)

subsection \<open>Reachable databases\<close>

inductive reachable :: "db \<Rightarrow> bool" where
  start: "reachable migrated"
| step: "reachable d \<Longrightarrow> reachable (snd (apply_op env op d))"

inductive_cases reachableE: "reachable d"

lemma reachable_ok: "reachable d \<Longrightarrow> db_ok d"
  by (induction rule: reachable.induct) (auto intro: migrated_ok effect_ok apply_op_effect)

fun run_ops :: "(environment \<times> store_op) list \<Rightarrow> db \<Rightarrow> db" where
  "run_ops [] d = d"
| "run_ops ((env, op) # ops) d = run_ops ops (snd (apply_op env op d))"

lemma run_ops_ok: "db_ok d \<Longrightarrow> db_ok (run_ops ops d)"
  by (induction ops d rule: run_ops.induct) (auto intro: effect_ok apply_op_effect)

text \<open>A relation kept by every step is kept by every run.\<close>

lemma run_ops_induct:
  assumes step: "\<And>d env op. db_ok d \<Longrightarrow> (env, op) \<in> set ops \<Longrightarrow> R d (snd (apply_op env op d))"
    and refl: "\<And>d. R d d" and trans: "\<And>a b c. R a b \<Longrightarrow> R b c \<Longrightarrow> R a c" and ok: "db_ok d"
  shows "R d (run_ops ops d)"
  using assms
proof (induction ops d rule: run_ops.induct)
  case (2 env op ops d)
  have ok': "db_ok (snd (apply_op env op d))" by (rule effect_ok [OF apply_op_effect [OF 2(5)] 2(5)])
  have "R (snd (apply_op env op d)) (run_ops ops (snd (apply_op env op d)))"
    by (rule 2(1) [OF _ _ _ ok']) (use 2(2-3) in \<open>auto intro: 2(4)\<close>)
  then show ?case using 2(2) [OF 2(5), of env op] 2(4) by auto
qed simp

subsection \<open>The lifecycle of one relay\<close>

datatype status = Unknown | Known lifecycle administrative

definition status_of :: "db \<Rightarrow> string \<Rightarrow> status" where
  "status_of d actor =
     (case map_of (relays d) actor of
        None \<Rightarrow> Unknown
      | Some r \<Rightarrow> Known (lifecycle_state r) (administrative_state r))"

inductive lifecycle_step :: "store_op \<Rightarrow> string \<Rightarrow> status \<Rightarrow> status \<Rightarrow> bool" where
  enrol: "lifecycle_step (OpRegister i t) (reg_actor i) Unknown (Known Registered Active)"
| return: "l \<noteq> Registered \<Longrightarrow>
    lifecycle_step (OpRegister i t) (reg_actor i) (Known l Active) (Known Registered Active)"
| leave: "lifecycle_step (OpUnregister actor t) actor (Known Registered m) (Known Unregistered m)"
| prune: "lifecycle_step (OpSoftPrune actor t) actor (Known Registered m) (Known Pruned m)"
| suspend: "lifecycle_step (OpModerate i t Suspended) (mod_actor i) (Known l Active) (Known l Suspended)"
| restore: "lifecycle_step (OpModerate i t Active) (mod_actor i) (Known l Suspended) (Known l Active)"

inductive_simps lifecycle_step_Unknown: "lifecycle_step op actor Unknown s"
inductive_simps lifecycle_step_Suspended: "lifecycle_step op actor (Known l Suspended) s"

lemma relays_log [simp]:
  "relays (log_relay a k t d) = relays d" "relays (put_verified a t d) = relays d"
  "relays (log_moderation i act t d) = relays d" "relays (log_enrollment e op t d) = relays d"
  by (simp_all add: log_relay_def put_verified_def log_moderation_def log_enrollment_def)

lemma relays_put [simp]: "relays (put_relay a r d) = AList.update a r (relays d)"
  by (simp add: put_relay_def)

lemma relays_accept [simp]: "relays (accept_relay a r k t d) = AList.update a r (relays d)"
  by (simp add: accept_relay_def)

lemma effect_lifecycle:
  assumes "effect op d d'"
  shows "status_of d' actor = status_of d actor \<or> lifecycle_step op actor (status_of d actor) (status_of d' actor)"
  using assms
proof cases
  case (moderated i r t target act)
  then show ?thesis
    by (cases target; cases "administrative_state r")
      (auto simp: status_of_def moderated_row_def intro: lifecycle_step.intros)
qed (auto simp: status_of_def register_new_row_def seen_row_def reregister_row_def unregistered_row_def
    pruned_row_def prunable_def intro: lifecycle_step.intros)

subsection \<open>History\<close>

lemma relay_events_log [simp]:
  "relay_events (put_verified a t d) = relay_events d" "relay_events (put_relay a r d) = relay_events d"
  "relay_events (log_moderation i act t d) = relay_events d" "relay_events (log_enrollment e op t d) = relay_events d"
  "moderation_events (put_verified a t d) = moderation_events d" "moderation_events (put_relay a r d) = moderation_events d"
  "moderation_events (log_relay a k t d) = moderation_events d" "moderation_events (log_enrollment e op t d) = moderation_events d"
  by (simp_all add: log_relay_def put_verified_def log_moderation_def log_enrollment_def put_relay_def)

lemma relay_events_append [simp]:
  "relay_events (log_relay a k t d) = relay_events d @
     [\<lparr>event_id = relay_event_seq d + 1, event_actor = a, event_kind = k, event_at = t\<rparr>]"
  "moderation_events (log_moderation i act t d) = moderation_events d @
     [\<lparr>moderation_id = moderation_event_seq d + 1, moderation_actor = mod_actor i, moderation_action = act,
       moderator_id = mod_moderator i, reason_code = mod_reason i, moderation_at = t\<rparr>]"
  by (simp_all add: log_relay_def log_moderation_def)

lemma events_policy [simp]:
  "relay_events (d\<lparr>directory_policy := p\<rparr>) = relay_events d"
  "moderation_events (d\<lparr>directory_policy := p\<rparr>) = moderation_events d"
  by simp_all

text \<open>The history is append-only, and a row changes only together with one new event for its actor.\<close>

definition audited :: "db \<Rightarrow> db \<Rightarrow> bool" where
  "audited d d' \<longleftrightarrow>
     prefix (relay_events d) (relay_events d') \<and> prefix (moderation_events d) (moderation_events d') \<and>
     (\<forall>actor. map_of (relays d') actor = map_of (relays d) actor \<or>
        (\<exists>e. relay_events d' = relay_events d @ [e] \<and> event_actor e = actor \<and> moderation_events d' = moderation_events d) \<or>
        (\<exists>e. moderation_events d' = moderation_events d @ [e] \<and> moderation_actor e = actor \<and> relay_events d' = relay_events d))"

lemma effect_audited:
  assumes "effect op d d'"
  shows "audited d d'"
  using assms
  by cases (auto simp: audited_def accept_relay_def simp del: map_of_eq_Some_iff)

subsection \<open>Times and moderation\<close>

text \<open>Rows are never deleted, keep their first registration, and are never seen earlier than before.\<close>

definition row_history :: "db \<Rightarrow> db \<Rightarrow> bool" where
  "row_history d d' \<longleftrightarrow> (\<forall>actor r. map_of (relays d) actor = Some r \<longrightarrow>
     (\<exists>r'. map_of (relays d') actor = Some r' \<and> public_base_url r' = public_base_url r \<and>
        first_registered_at r' = first_registered_at r \<and> last_seen_at r \<le> last_seen_at r' \<and>
        updated_at r \<le> updated_at r'))"

lemma row_history_refl: "row_history d d"
  by (auto simp: row_history_def)

lemma row_history_trans:
  assumes ab: "row_history a b" and bc: "row_history b c"
  shows "row_history a c"
  unfolding row_history_def
proof (intro allI impI)
  fix actor r assume "map_of (relays a) actor = Some r"
  with ab obtain r1 where r1: "map_of (relays b) actor = Some r1" "public_base_url r1 = public_base_url r"
    "first_registered_at r1 = first_registered_at r" "last_seen_at r \<le> last_seen_at r1" "updated_at r \<le> updated_at r1"
    unfolding row_history_def by blast
  with bc obtain r2 where "map_of (relays c) actor = Some r2" "public_base_url r2 = public_base_url r1"
    "first_registered_at r2 = first_registered_at r1" "last_seen_at r1 \<le> last_seen_at r2" "updated_at r1 \<le> updated_at r2"
    unfolding row_history_def by blast
  with r1 show "\<exists>r'. map_of (relays c) actor = Some r' \<and> public_base_url r' = public_base_url r \<and>
      first_registered_at r' = first_registered_at r \<and> last_seen_at r \<le> last_seen_at r' \<and> updated_at r \<le> updated_at r'"
    by (intro exI [of _ r2]) auto
qed

lemma row_history_put:
  assumes r: "map_of (relays d) actor = Some r" and rel: "relays d' = AList.update actor r' (relays d)"
    and "public_base_url r' = public_base_url r" "first_registered_at r' = first_registered_at r"
      "last_seen_at r \<le> last_seen_at r'" "updated_at r \<le> updated_at r'"
  shows "row_history d d'"
  unfolding row_history_def
proof (intro allI impI)
  fix a q assume q: "map_of (relays d) a = Some q"
  show "\<exists>r'. map_of (relays d') a = Some r' \<and> public_base_url r' = public_base_url q \<and>
      first_registered_at r' = first_registered_at q \<and> last_seen_at q \<le> last_seen_at r' \<and> updated_at q \<le> updated_at r'"
  proof (cases "a = actor")
    case True
    then have "map_of (relays d') a = Some r'" "q = r" using r rel q by auto
    with assms(3-6) show ?thesis by blast
  next
    case False
    then have "map_of (relays d') a = Some q" using rel q by simp
    then show ?thesis by blast
  qed
qed

lemma effect_row_history:
  assumes "effect op d d'" and ok: "db_ok d"
  shows "row_history d d'"
  using assms(1)
proof cases
  case (reregistered actor r t intent)
  have "public_base_url r = reg_base intent"
    using relays_okD(2) [OF ok reregistered(3)] reregistered
    by (auto simp: validateRegisterIntent_None intro: canonical_identity_base)
  with reregistered fresh_row [OF reregistered(6,3)] show ?thesis
    by (intro row_history_put [OF reregistered(3), where r' = "reregister_row (reg_base intent) t r"]) (auto simp: reregister_row_def)
next
  case (confirmed actor r t kind)
  with fresh_row [OF confirmed(5,2)] show ?thesis
    by (intro row_history_put [OF confirmed(2), where r' = "seen_row t r"]) (auto simp: seen_row_def)
next
  case (unregistered actor r t)
  with fresh_row [OF unregistered(5,3)] show ?thesis
    by (intro row_history_put [OF unregistered(3), where r' = "unregistered_row t r"]) (auto simp: unregistered_row_def)
next
  case (pruned actor r t)
  with fresh_row [OF pruned(5,3)] show ?thesis
    by (intro row_history_put [OF pruned(3), where r' = "pruned_row t r"]) (auto simp: pruned_row_def)
next
  case (moderated i r t target act)
  with fresh_row [OF moderated(4,3)] show ?thesis
    by (intro row_history_put [OF moderated(3), where r' = "moderated_row target t r"]) (auto simp: moderated_row_def)
qed (auto simp: row_history_def simp del: map_of_eq_Some_iff)

text \<open>Only moderation touches the administrative state and the suspension time of a relay.\<close>

definition same_moderation :: "db \<Rightarrow> db \<Rightarrow> bool" where
  "same_moderation d d' \<longleftrightarrow> (\<forall>actor r. map_of (relays d) actor = Some r \<longrightarrow>
     (\<exists>r'. map_of (relays d') actor = Some r' \<and> administrative_state r' = administrative_state r \<and>
        suspended_at r' = suspended_at r))"

lemma effect_same_moderation:
  assumes "effect op d d'" and "\<And>i t target. op \<noteq> OpModerate i t target"
  shows "same_moderation d d'"
  using assms(1)
  by cases (use assms(2) in \<open>auto simp: same_moderation_def seen_row_def reregister_row_def
      unregistered_row_def pruned_row_def simp del: map_of_eq_Some_iff\<close>)

text \<open>While enrollment is closed no relay is added.\<close>

definition no_new_relay :: "db \<Rightarrow> db \<Rightarrow> bool" where
  "no_new_relay d d' \<longleftrightarrow> enrollment_is_open d \<or>
     (\<not> enrollment_is_open d' \<and> dom (map_of (relays d')) \<subseteq> dom (map_of (relays d)))"

lemma enrollment_is_open_log [simp]:
  "enrollment_is_open (log_relay a k t d) = enrollment_is_open d"
  "enrollment_is_open (put_verified a t d) = enrollment_is_open d"
  "enrollment_is_open (put_relay a r d) = enrollment_is_open d"
  "enrollment_is_open (log_moderation i act t d) = enrollment_is_open d"
  "enrollment_is_open (log_enrollment e op t d) = enrollment_is_open d"
  "enrollment_is_open (d\<lparr>directory_policy := Some \<lparr>enrollment_open = boolInteger b, policy_updated_at = t\<rparr>\<rparr>) = b"
  by (simp_all add: enrollment_is_open_def log_relay_def put_verified_def log_moderation_def log_enrollment_def
      put_relay_def boolInteger_def)

lemma effect_no_new_relay:
  assumes "effect op d d'" and "\<And>operator t. op \<noteq> OpEnrollment True operator t"
  shows "no_new_relay d d'"
  using assms(1)
  by cases (use assms(2) in \<open>auto simp: no_new_relay_def accept_relay_def enrollment_is_open_def [of d']
      enrollment_is_open_def [of d] simp del: map_of_eq_Some_iff\<close>)

subsection \<open>Examples\<close>

definition sample_intent :: RegisterIntent where
  "sample_intent = \<lparr>reg_actor = sample_actor, reg_base = sample_base\<rparr>"

definition sample_moderation :: ModerationIntent where
  "sample_moderation = \<lparr>mod_actor = sample_actor, mod_moderator = ''op'', mod_reason = ''spam''\<rparr>"

definition opened_db :: db where
  "opened_db = run_ops [(calm, OpEnrollment True ''op'' 1)] migrated"

definition registered_db :: db where
  "registered_db = run_ops [(calm, OpEnrollment True ''op'' 1), (calm, OpRegister sample_intent 5)] migrated"

definition suspended_db :: db where
  "suspended_db = run_ops [(calm, OpEnrollment True ''op'' 1), (calm, OpRegister sample_intent 5),
     (calm, OpModerate sample_moderation 6 Suspended)] migrated"

lemma sample_intents_valid:
  "validateRegisterIntent sample_intent = None" "validateIdentityIntent sample_actor = None"
  "ValidOperatorID ''op''" "validateModerationIntent sample_moderation = None"
proof -
  have len: "actor_length_ok sample_actor" "base_length_ok sample_base"
    by (simp_all add: actor_length_ok_def base_length_ok_def sample_actor_def sample_base_def
        maximumRelayActorBytes_def maximumPublicBaseBytes_def)
  then show v: "validateRegisterIntent sample_intent = None" "validateIdentityIntent sample_actor = None"
    using sample_identity sample_actor_canonical
    by (simp_all add: validateRegisterIntent_None validateIdentityIntent_None sample_intent_def)
  show "ValidOperatorID ''op''"
    by (simp add: ValidOperatorID_check operator_check_def token_char_def is_lower_def code_def)
  show "validateModerationIntent sample_moderation = None"
    using v by (simp add: validateModerationIntent_None sample_moderation_def operator_check_def reason_check_def
        token_char_def is_lower_def code_def)
qed

lemma Register_eval:
  "db_ok d \<Longrightarrow> validateRegisterIntent intent = None \<Longrightarrow> 0 \<le> t \<Longrightarrow> Register calm intent t d = register_spec intent t d"
  by (simp add: Register_def transitionUnix_def register_calm)

lemma moderate_eval:
  "db_ok d \<Longrightarrow> validateModerationIntent i = None \<Longrightarrow> 0 \<le> t \<Longrightarrow> moderate calm i t target d = moderate_spec i t target d"
  by (simp add: moderate_def transitionUnix_def moderate_calm)

lemma SetEnrollment_eval:
  "db_ok d \<Longrightarrow> ValidOperatorID operator \<Longrightarrow> 0 \<le> t \<Longrightarrow>
   SetEnrollment calm target operator t d = set_enrollment_spec target operator t d"
  by (simp add: SetEnrollment_def transitionUnix_def set_enrollment_calm)

lemmas freshness = fresh_at_def actor_times_def event_times_def moderation_times_def

lemma opened_db_ok: "db_ok opened_db"
  unfolding opened_db_def by (rule run_ops_ok [OF migrated_ok])

lemma opened_db_eq:
  "opened_db = log_enrollment EnrollmentOpenedEvent ''op'' 1
     (migrated\<lparr>directory_policy := Some \<lparr>enrollment_open = 1, policy_updated_at = 1\<rparr>\<rparr>)"
  using SetEnrollment_eval [OF migrated_ok sample_intents_valid(3), of 1 True]
  by (simp add: opened_db_def set_enrollment_spec_def enrollment_fresh_def enrollment_is_open_def
      classifyEnrollment_def boolInteger_def migrated_def)

lemma opened_db_facts:
  "enrollment_is_open opened_db" "relays opened_db = []" "fresh_at opened_db sample_actor 5"
  by (simp_all add: opened_db_eq log_enrollment_def migrated_def enrollment_is_open_def freshness)

lemma registered_db_ok: "db_ok registered_db"
  unfolding registered_db_def by (rule run_ops_ok [OF migrated_ok])

lemma registered_db_eq:
  "registered_db = accept_relay sample_actor (register_new_row sample_base 5) RegisterCreated 5 opened_db"
proof -
  have "registered_db = snd (Register calm sample_intent 5 opened_db)"
    by (simp add: registered_db_def opened_db_def)
  then show ?thesis
    using Register_eval [OF opened_db_ok sample_intents_valid(1), of 5] opened_db_facts
    by (simp add: register_spec_def sample_intent_def)
qed

lemma registered_db_row: "map_of (relays registered_db) sample_actor = Some (register_new_row sample_base 5)"
  by (simp add: registered_db_eq)

lemma registered_db_fresh: "5 \<le> t \<Longrightarrow> fresh_at registered_db sample_actor t"
  by (simp add: registered_db_eq opened_db_eq accept_relay_def log_relay_def put_verified_def put_relay_def
      log_enrollment_def migrated_def register_new_row_def freshness)

lemma suspended_db_ok: "db_ok suspended_db"
  unfolding suspended_db_def by (rule run_ops_ok [OF migrated_ok])

lemma suspended_db_row:
  "map_of (relays suspended_db) sample_actor = Some (moderated_row Suspended 6 (register_new_row sample_base 5))"
proof -
  have "suspended_db = snd (moderate calm sample_moderation 6 Suspended registered_db)"
    by (simp add: suspended_db_def registered_db_def Suspend_def)
  also have "\<dots> = snd (moderate_spec sample_moderation 6 Suspended registered_db)"
    by (simp add: moderate_eval [OF registered_db_ok sample_intents_valid(4)])
  finally have eq: "suspended_db = snd (moderate_spec sample_moderation 6 Suspended registered_db)" .
  show ?thesis
    unfolding eq using registered_db_row registered_db_fresh [of 6]
    by (simp add: moderate_spec_def sample_moderation_def register_new_row_def)
qed

subsection \<open>Properties\<close>








text \<open>No sequence of lifecycle, enrollment, discovery, observation and pruning writes
  changes who is suspended or since when; only moderation does.\<close>

theorem only_moderation_moderates:
  assumes "db_ok d" and "list_all (\<lambda>(env, op). case op of OpModerate _ _ _ \<Rightarrow> False | _ \<Rightarrow> True) ops"
  shows "same_moderation d (run_ops ops d)"
proof (rule run_ops_induct [where R = same_moderation])
  show "same_moderation d d" for d by (simp add: same_moderation_def)
  show "same_moderation a c" if "same_moderation a b" "same_moderation b c" for a b c
    using that unfolding same_moderation_def by metis
  show "same_moderation d' (snd (apply_op env op d'))" if "db_ok d'" "(env, op) \<in> set ops" for d' env op
    using assms(2) that by (intro effect_same_moderation [OF apply_op_effect]) (auto simp: list_all_iff)
qed (rule assms)

theorem only_moderation_moderates_witness:
  "same_moderation suspended_db (run_ops [(calm, OpUnregister sample_actor 8), (calm, OpRegister sample_intent 9)] suspended_db)"
  by (rule only_moderation_moderates [OF suspended_db_ok]) simp





text \<open>C10: the complete behaviour of an undisturbed \<open>Register\<close> on a well-formed database:
  invalid input and negative times are refused first; then suspension, closed enrollment
  and regressing times in that order; a new relay is created, a registered one confirmed
  and an unregistered or pruned one restored, with the row, the verification evidence and
  the event written together. No branch ends in a storage failure.\<close>

theorem register_functional:
  assumes "db_ok d"
  shows "Register calm intent t d =
    (if validateRegisterIntent intent \<noteq> None then (Inl (Err ErrTransitionInput), d)
     else if t < 0 then (Inl (Err ErrTransitionTime), d)
     else register_spec intent t d)"
  using Register_eval [OF assms, of intent t]
  by (auto simp: Register_def validateRegisterIntent_def transitionUnix_def split: sum.splits if_splits)

theorem register_functional_witness:
  "Register calm sample_intent 5 opened_db =
     (Inr OutcomeCreated, accept_relay sample_actor (register_new_row sample_base 5) RegisterCreated 5 opened_db)"
  using register_functional [OF opened_db_ok, of sample_intent 5] opened_db_facts
  by (simp add: sample_intents_valid register_spec_def) (simp add: sample_intent_def opened_db_facts)

text \<open>The complete behaviour of an undisturbed \<open>Heartbeat\<close>: only an active registered
  relay with a time not before its history is recorded.\<close>

theorem heartbeat_functional:
  assumes "db_ok d"
  shows "Heartbeat calm actor t d =
    (if validateIdentityIntent actor \<noteq> None then (Inl (Err ErrTransitionInput), d)
     else if t < 0 then (Inl (Err ErrTransitionTime), d)
     else heartbeat_spec actor t d)"
  using heartbeat_calm [OF assms, of actor t]
  by (auto simp: Heartbeat_def validateIdentityIntent_def transitionUnix_def split: sum.splits if_splits)

theorem heartbeat_functional_witness:
  "fst (Heartbeat calm sample_actor 9 registered_db) = Inr OutcomeRecorded"
  using heartbeat_functional [OF registered_db_ok, of sample_actor 9]
  by (simp add: sample_intents_valid heartbeat_spec_def registered_db_row registered_db_fresh register_new_row_def)

text \<open>The complete behaviour of an undisturbed \<open>Unregister\<close>: a registered relay is
  removed once, every other case is reported absent, and both are recorded in the history;
  suspension is kept.\<close>

theorem unregister_functional:
  assumes "db_ok d"
  shows "Unregister calm actor t d =
    (if validateIdentityIntent actor \<noteq> None then (Inl (Err ErrTransitionInput), d)
     else if t < 0 then (Inl (Err ErrTransitionTime), d)
     else unregister_spec actor t d)"
  using unregister_calm [OF assms, of actor t]
  by (auto simp: Unregister_def validateIdentityIntent_def transitionUnix_def split: sum.splits if_splits)

theorem unregister_functional_witness:
  "fst (Unregister calm sample_actor 9 registered_db) = Inr OutcomeRemoved"
  using unregister_functional [OF registered_db_ok, of sample_actor 9]
  by (simp add: sample_intents_valid unregister_spec_def registered_db_row registered_db_fresh register_new_row_def)

text \<open>A suspended relay cannot become visible by its own action: registration and
  heartbeat of a suspended registered relay are refused with the suspension error and
  change nothing, whatever their time.\<close>

lemma suspended_relay_refused:
  assumes "db_ok d" and "map_of (relays d) (reg_actor intent) = Some r" and "administrative_state r = Suspended"
    and "lifecycle_state r = Registered" and "validateRegisterIntent intent = None" and "0 \<le> t"
  shows "Register calm intent t d = (Inl (Err ErrRelaySuspended), d) \<and>
    Heartbeat calm (reg_actor intent) t d = (Inl (Err ErrRelaySuspended), d)"
proof -
  have v: "validateIdentityIntent (reg_actor intent) = None"
    using assms(5) by (auto simp: validateRegisterIntent_None validateIdentityIntent_None canonical_identity_actor)
  show ?thesis
    using Register_eval [OF assms(1,5,6)] heartbeat_calm [OF assms(1) v assms(6)] assms v
    by (simp add: register_spec_def Heartbeat_def transitionUnix_def heartbeat_spec_def)
qed

lemma suspended_relay_refused_witness:
  "Register calm sample_intent 9 suspended_db = (Inl (Err ErrRelaySuspended), suspended_db)"
  using suspended_relay_refused [OF suspended_db_ok, of sample_intent _ 9] suspended_db_row
  by (simp add: sample_intents_valid) (simp add: sample_intent_def moderated_row_def register_new_row_def)

end
