(* ===== verification/Replay.thy ===== *)
theory Replay
  imports Tx
begin

section \<open>Replay reservations\<close>

text \<open>
  \<open>internal/storage/sqlite/replay.go\<close> and the store interface, the key derivation and the
  in-memory reference store of \<open>internal/protocol/v1/replay.go\<close>. A replay key is the byte
  string of a SHA-256 digest; the digest function is an argument of the derivation. Times
  are Unix seconds: both stores truncate the clock reading and the expiry to seconds
  first. The clock reading of a call is an argument, as are the state of the context, the
  answer of the write admission and the driver faults.
\<close>

definition RFC9421ReplayTTL :: int where "RFC9421ReplayTTL = 10 * 60"
definition defaultRFC9421ReplayCapacity :: int where "defaultRFC9421ReplayCapacity = 10000"
definition defaultRFC9421ReplayCleanupBatch :: int where "defaultRFC9421ReplayCleanupBatch = 256"
definition maximumRFC9421ReplayCleanupBatch :: int where "maximumRFC9421ReplayCleanupBatch = 4096"

definition DeriveRFC9421ReplayKey :: "(string \<Rightarrow> string) \<Rightarrow> string \<Rightarrow> string \<Rightarrow> string" where
  "DeriveRFC9421ReplayKey sha256 keyID nonce = sha256 (keyID @ [CHR 0x00] @ nonce)"

subsection \<open>The SQLite store\<close>

record reservation =
  reserved_at :: int
  expires_at :: int

type_synonym replay_table = "(string, reservation) table"

text \<open>The \<open>CHECK\<close> constraints of \<open>replay_reservations\<close>.\<close>

definition reservation_check :: "string \<Rightarrow> reservation \<Rightarrow> bool" where
  "reservation_check key r \<longleftrightarrow> length key = 32 \<and> reserved_at r \<ge> 0 \<and> expires_at r > reserved_at r"

definition replay_ok :: "replay_table \<Rightarrow> bool" where
  "replay_ok t \<longleftrightarrow> table_ok t \<and> (\<forall>key r. map_of t key = Some r \<longrightarrow> reservation_check key r)"

text \<open>One statement that yields a value, and the transaction frame, with the error wrapping of this store.\<close>

definition replay_exec :: "string \<Rightarrow> ('d \<Rightarrow> ('d \<times> 'a) option) \<Rightarrow> ('d, 'a) tx" where
  "replay_exec action f s =
     (case s of (d, fs) \<Rightarrow>
        if fs \<noteq> [] \<and> hd fs then (Inl (replayStoreFailure action driver_error), (d, tl fs))
        else case f d of
               None \<Rightarrow> (Inl (replayStoreFailure action constraint_error), (d, tl fs))
             | Some (d', x) \<Rightarrow> (Inr x, (d', tl fs)))"

definition run_replay :: "environment \<Rightarrow> string \<Rightarrow> string \<Rightarrow> ('d, 'a) tx \<Rightarrow> 'd \<Rightarrow> 'a result \<times> 'd" where
  "run_replay env beginAction commitAction t d =
     (case admission env of
        Some e \<Rightarrow> (Inl (Wrapped ErrRFC9421ReplayStore [] e), d)
      | None \<Rightarrow>
          if begin_fault env then (Inl (replayStoreFailure beginAction driver_error), d)
          else case t (d, faults env) of
                 (Inl e, _) \<Rightarrow> (Inl e, d)
               | (Inr x, (d', _)) \<Rightarrow>
                   if commit_fault env then (Inl (replayStoreFailure commitAction driver_error), d)
                   else (Inr x, d'))"

definition delete_expired_key :: "string \<Rightarrow> int \<Rightarrow> replay_table \<Rightarrow> replay_table" where
  "delete_expired_key key nowUnix t = filter (\<lambda>(k, r). \<not> (k = key \<and> expires_at r \<le> nowUnix)) t"

definition expired_keys :: "int \<Rightarrow> nat \<Rightarrow> replay_table \<Rightarrow> string list" where
  "expired_keys nowUnix limit t =
     map fst (take limit (sort_key (\<lambda>(k, r). (expires_at r, k)) (filter (\<lambda>(k, r). expires_at r \<le> nowUnix) t)))"

definition delete_expired :: "int \<Rightarrow> nat \<Rightarrow> replay_table \<Rightarrow> replay_table" where
  "delete_expired nowUnix limit t = filter (\<lambda>(k, r). k \<notin> set (expired_keys nowUnix limit t)) t"

definition cleanupExpiredRFC9421Replay :: "int \<Rightarrow> int \<Rightarrow> (replay_table, int) tx" where
  "cleanupExpiredRFC9421Replay nowUnix limit =
     bindt (replay_exec ''delete expired replay reservations''
              (\<lambda>t. Some (delete_expired nowUnix (nat limit) t,
                         int (length t) - int (length (delete_expired nowUnix (nat limit) t))))) (\<lambda>affected.
     bindt (replay_exec ''count expired replay reservations'' (\<lambda>t. Some (t, affected))) (\<lambda>deleted.
     if deleted < 0 \<or> deleted > limit
     then fail (replayStoreFailure ''count expired replay reservations'' (Opaque ''unexpected rows affected''))
     else ret deleted))"

definition insert_reservation :: "string \<Rightarrow> int \<Rightarrow> int \<Rightarrow> replay_table \<Rightarrow> (replay_table \<times> int) option" where
  "insert_reservation key nowUnix expiresUnix t =
     (let r = \<lparr>reserved_at = nowUnix, expires_at = expiresUnix\<rparr> in
      if \<not> reservation_check key r then None
      else if map_of t key \<noteq> None then Some (t, 0)
      else Some (AList.update key r t, 1))"

definition reserve_tx :: "int \<Rightarrow> string \<Rightarrow> int \<Rightarrow> int \<Rightarrow> (replay_table, bool) tx" where
  "reserve_tx cleanupBatch key nowUnix expiresUnix =
     bindt (replay_exec ''remove expired replay key'' (\<lambda>t. Some (delete_expired_key key nowUnix t, ()))) (\<lambda>_.
     bindt (cleanupExpiredRFC9421Replay nowUnix cleanupBatch) (\<lambda>_.
     bindt (replay_exec ''write replay reservation'' (insert_reservation key nowUnix expiresUnix)) (\<lambda>affected.
     bindt (replay_exec ''classify replay reservation'' (\<lambda>t. Some (t, affected))) (\<lambda>rowsAffected.
     if rowsAffected \<noteq> 0 \<and> rowsAffected \<noteq> 1
     then fail (replayStoreFailure ''classify replay reservation'' (Opaque ''unexpected rows affected''))
     else ret (rowsAffected = 1)))))"

definition newRFC9421ReplayStore :: "int \<Rightarrow> int result" where
  "newRFC9421ReplayStore cleanupBatch =
     (if cleanupBatch \<le> 0 \<or> cleanupBatch > maximumRFC9421ReplayCleanupBatch
      then Inl (Err ErrRFC9421ReplayStore) else Inr cleanupBatch)"

definition replay_validate :: "int \<Rightarrow> goerror option \<Rightarrow> int \<Rightarrow> int \<Rightarrow> (int \<times> int) result" where
  "replay_validate cleanupBatch ctxErr nowUnix expiresUnix =
     (if cleanupBatch \<le> 0 \<or> cleanupBatch > maximumRFC9421ReplayCleanupBatch
      then Inl (Err ErrRFC9421ReplayStore)
      else case ctxErr of
        Some e \<Rightarrow> Inl (replayStoreFailure ''cancel replay reservation'' e)
      | None \<Rightarrow>
          if nowUnix < 0 \<or> \<not> expiresUnix > nowUnix \<or> expiresUnix > nowUnix + RFC9421ReplayTTL
          then Inl (Err ErrRFC9421ReplayStore) else Inr (nowUnix, expiresUnix))"

definition ReserveRFC9421Replay :: "int \<Rightarrow> goerror option \<Rightarrow> environment \<Rightarrow> string \<Rightarrow> int \<Rightarrow> int
    \<Rightarrow> replay_table \<Rightarrow> bool result \<times> replay_table" where
  "ReserveRFC9421Replay cleanupBatch ctxErr env key expiresAt now t =
     (case replay_validate cleanupBatch ctxErr now expiresAt of
        Inl e \<Rightarrow> (Inl e, t)
      | Inr (nowUnix, expiresUnix) \<Rightarrow>
          run_replay env ''begin reservation'' ''commit replay reservation''
            (reserve_tx cleanupBatch key nowUnix expiresUnix) t)"

definition CleanupExpiredRFC9421Replay :: "goerror option \<Rightarrow> environment \<Rightarrow> int \<Rightarrow> int
    \<Rightarrow> replay_table \<Rightarrow> int result \<times> replay_table" where
  "CleanupExpiredRFC9421Replay ctxErr env limit now t =
     (if limit \<le> 0 \<or> limit > maximumRFC9421ReplayCleanupBatch then (Inl (Err ErrRFC9421ReplayStore), t)
      else case ctxErr of
        Some e \<Rightarrow> (Inl (replayStoreFailure ''cancel replay cleanup'' e), t)
      | None \<Rightarrow>
          if now < 0 then (Inl (Err ErrRFC9421ReplayStore), t)
          else run_replay env ''begin replay cleanup'' ''commit replay cleanup''
                 (cleanupExpiredRFC9421Replay now limit) t)"

subsection \<open>The in-memory reference store\<close>

record memory_store =
  memory_entries :: "(string, int) table"
  memory_capacity :: int

definition newMemoryRFC9421ReplayStore :: "int \<Rightarrow> memory_store result" where
  "newMemoryRFC9421ReplayStore capacity0 =
     (let capacity = (if capacity0 = 0 then defaultRFC9421ReplayCapacity else capacity0) in
      if capacity < 0 then Inl (Err ErrRFC9421ReplayStore)
      else Inr \<lparr>memory_entries = [], memory_capacity = capacity\<rparr>)"

text \<open>The two \<open>select\<close>s read the context before and after the lock.\<close>

definition memory_reserve :: "bool \<times> bool \<Rightarrow> string \<Rightarrow> int \<Rightarrow> int \<Rightarrow> memory_store \<Rightarrow> bool result \<times> memory_store" where
  "memory_reserve cancelled key expiresAt now s =
     (if memory_capacity s \<le> 0 \<or> fst cancelled \<or> snd cancelled then (Inl (Err ErrRFC9421ReplayStore), s)
      else if \<not> expiresAt > now then (Inl (Err ErrRFC9421ReplayStore), s)
      else
        let existing = map_of (memory_entries s) key in
        if existing \<noteq> None \<and> the existing > now then (Inr False, s)
        else
          let s1 = s\<lparr>memory_entries := AList.delete key (memory_entries s)\<rparr>;
              s2 = (if int (length (memory_entries s1)) \<ge> memory_capacity s1
                    then s1\<lparr>memory_entries := filter (\<lambda>(k, x). x > now) (memory_entries s1)\<rparr> else s1)
          in if int (length (memory_entries s2)) \<ge> memory_capacity s2
             then (Inl (Err ErrRFC9421ReplayStoreFull), s2)
             else (Inr True, s2\<lparr>memory_entries := AList.update key expiresAt (memory_entries s2)\<rparr>))"

subsection \<open>The contract of a replay store\<close>

text \<open>
  \<open>held s key t\<close>: a reservation of \<open>key\<close> is still live at \<open>t\<close>. A store grants a key only
  when no reservation of it is live, keeps what it granted until it expires, and no call
  (another reservation, maintenance) removes a live reservation.
\<close>

datatype ('e, 'm) replay_op = Reserve 'e string int | Maintain 'm

text \<open>The grants of a run: key, clock reading and expiry.\<close>

fun granted :: "('e \<Rightarrow> string \<Rightarrow> int \<Rightarrow> int \<Rightarrow> 's \<Rightarrow> bool result \<times> 's) \<Rightarrow> ('m \<Rightarrow> int \<Rightarrow> 's \<Rightarrow> 's)
    \<Rightarrow> (int \<times> ('e, 'm) replay_op) list \<Rightarrow> 's \<Rightarrow> (string \<times> int \<times> int) list" where
  "granted reserve maintain [] s = []"
| "granted reserve maintain ((now, Reserve e key x) # ops) s =
     (case reserve e key x now s of
        (Inr True, s') \<Rightarrow> (key, now, x) # granted reserve maintain ops s'
      | (_, s') \<Rightarrow> granted reserve maintain ops s')"
| "granted reserve maintain ((now, Maintain m) # ops) s = granted reserve maintain ops (maintain m now s)"

lemma granted_Reserve:
  "granted reserve maintain ((now, Reserve e key x) # ops) s =
     (if fst (reserve e key x now s) = Inr True then [(key, now, x)] else []) @
     granted reserve maintain ops (snd (reserve e key x now s))"
  by (cases "reserve e key x now s") (auto split: sum.splits bool.splits)

locale replay_store =
  fixes reserve :: "'e \<Rightarrow> string \<Rightarrow> int \<Rightarrow> int \<Rightarrow> 's \<Rightarrow> bool result \<times> 's" and maintain :: "'m \<Rightarrow> int \<Rightarrow> 's \<Rightarrow> 's"
    and inv :: "'s \<Rightarrow> bool" and held :: "'s \<Rightarrow> string \<Rightarrow> int \<Rightarrow> bool"
  assumes reserve_inv: "inv s \<Longrightarrow> inv (snd (reserve e key x now s))"
    and maintain_inv: "inv s \<Longrightarrow> inv (maintain m now s)"
    and granted_free: "inv s \<Longrightarrow> fst (reserve e key x now s) = Inr True \<Longrightarrow> \<not> held s key now"
    and granted_held: "inv s \<Longrightarrow> fst (reserve e key x now s) = Inr True \<Longrightarrow> t < x \<Longrightarrow>
      held (snd (reserve e key x now s)) key t"
    and reserve_keeps: "inv s \<Longrightarrow> held s key' t \<Longrightarrow> now \<le> t \<Longrightarrow> held (snd (reserve e key x now s)) key' t"
    and maintain_keeps: "inv s \<Longrightarrow> held s key' t \<Longrightarrow> now \<le> t \<Longrightarrow> held (maintain m now s) key' t"
begin

lemma held_blocks:
  assumes "inv s" and "\<And>t. now0 \<le> t \<Longrightarrow> t < x0 \<Longrightarrow> held s key0 t" and "sorted (now0 # map fst ops)"
    and "(key0, now, x) \<in> set (granted reserve maintain ops s)"
  shows "x0 \<le> now"
  using assms
proof (induction ops arbitrary: s now0)
  case (Cons op ops)
  obtain n1 o1 where op: "op = (n1, o1)" by (cases op)
  have n: "now0 \<le> n1" "sorted (n1 # map fst ops)" using Cons.prems(3) op by auto
  show ?case
  proof (cases o1)
    case (Reserve e key y)
    let ?s = "snd (reserve e key y n1 s)"
    have held: "held ?s key0 t" if "n1 \<le> t" "t < x0" for t
      using that Cons.prems(2) [of t] n(1) reserve_keeps [OF Cons.prems(1)] by simp
    from Cons.prems(4) consider "fst (reserve e key y n1 s) = Inr True" "key = key0" "now = n1"
      | "(key0, now, x) \<in> set (granted reserve maintain ops ?s)"
      using op Reserve by (auto simp: granted_Reserve simp del: granted.simps split: if_splits)
    then show ?thesis
    proof cases
      case 1
      with granted_free [OF Cons.prems(1) 1(1)] Cons.prems(2) [of n1] n(1) show ?thesis by force
    next
      case 2
      show ?thesis by (rule Cons.IH [OF reserve_inv [OF Cons.prems(1)] held n(2) 2])
    qed
  next
    case (Maintain m)
    have held: "held (maintain m n1 s) key0 t" if "n1 \<le> t" "t < x0" for t
      using that Cons.prems(2) [of t] n(1) maintain_keeps [OF Cons.prems(1)] by simp
    show ?thesis
      by (rule Cons.IH [OF maintain_inv [OF Cons.prems(1)] held n(2)]) (use Cons.prems(4) op Maintain in auto)
  qed
qed simp

text \<open>Along a run with a clock that does not go back, a key is granted again only after its expiry.\<close>

lemma no_double_grant:
  assumes "inv s" and "sorted (map fst ops)"
  shows "sorted_wrt (\<lambda>(key, now, x) (key', now', x'). key = key' \<longrightarrow> x \<le> now') (granted reserve maintain ops s)"
  using assms
proof (induction ops arbitrary: s)
  case (Cons op ops)
  obtain n1 o1 where op: "op = (n1, o1)" by (cases op)
  show ?case
  proof (cases o1)
    case (Reserve e key x)
    let ?s = "snd (reserve e key x n1 s)"
    have IH: "sorted_wrt (\<lambda>(key, now, x) (key', now', x'). key = key' \<longrightarrow> x \<le> now') (granted reserve maintain ops ?s)"
      using Cons.prems by (intro Cons.IH reserve_inv) auto
    have "x \<le> now'" if "fst (reserve e key x n1 s) = Inr True" "(key, now', x') \<in> set (granted reserve maintain ops ?s)" for now' x'
      using Cons.prems op that by (intro held_blocks [OF reserve_inv granted_held _ that(2)]) auto
    with IH show ?thesis unfolding op Reserve granted_Reserve by auto
  next
    case (Maintain m)
    with Cons op show ?thesis by (auto intro: maintain_inv)
  qed
qed simp

end

subsection \<open>The SQLite store keeps the contract\<close>

definition replay_held :: "replay_table \<Rightarrow> string \<Rightarrow> int \<Rightarrow> bool" where
  "replay_held t key u \<longleftrightarrow> (case map_of t key of None \<Rightarrow> False | Some r \<Rightarrow> u < expires_at r)"

text \<open>A maintenance step at \<open>now\<close> only removes reservations that have expired.\<close>

definition purged :: "int \<Rightarrow> replay_table \<Rightarrow> replay_table \<Rightarrow> bool" where
  "purged now t t' \<longleftrightarrow> table_ok t' \<and>
     (\<forall>k. map_of t' k = map_of t k \<or> (map_of t' k = None \<and> \<not> replay_held t k now))"

lemma map_of_filter_keys:
  "table_ok t \<Longrightarrow> map_of (filter (\<lambda>(k, r). P k r) t) k =
     (case map_of t k of None \<Rightarrow> None | Some r \<Rightarrow> if P k r then Some r else None)"
  by (induction t) (auto split: option.splits simp: map_of_eq_None_iff dest: map_of_SomeD)

lemma purged_refl: "table_ok t \<Longrightarrow> purged now t t"
  by (simp add: purged_def)

lemma purged_trans: "purged now a b \<Longrightarrow> purged now b c \<Longrightarrow> purged now a c"
  unfolding purged_def replay_held_def by (metis option.simps(4))

lemma purged_filter:
  assumes "table_ok t" and "\<And>k r. (k, r) \<in> set t \<Longrightarrow> \<not> P k r \<Longrightarrow> expires_at r \<le> now"
  shows "purged now t (filter (\<lambda>(k, r). P k r) t)"
  using assms
  by (auto simp: purged_def map_of_filter_keys replay_held_def distinct_map_filter not_less
      dest!: map_of_SomeD split: option.splits)

lemma purged_key: "table_ok t \<Longrightarrow> purged now t (delete_expired_key key now t)"
  unfolding delete_expired_key_def by (rule purged_filter) auto

lemma expired_keys_expired:
  assumes "table_ok t" "k \<in> set (expired_keys now n t)" "(k, r) \<in> set t"
  shows "expires_at r \<le> now"
proof -
  from assms(2) obtain r' where "(k, r') \<in> set t" "expires_at r' \<le> now"
    by (auto simp: expired_keys_def dest!: in_set_takeD)
  with assms(1,3) show ?thesis by (metis eq_key_imp_eq_value)
qed

lemma purged_expired: "table_ok t \<Longrightarrow> purged now t (delete_expired now n t)"
  unfolding delete_expired_def by (rule purged_filter) (auto intro: expired_keys_expired)

lemma purged_held:
  assumes "purged now t t'" and "replay_held t k u" and "now \<le> u"
  shows "replay_held t' k u"
proof -
  have "replay_held t k now" using assms(2,3) by (auto simp: replay_held_def split: option.splits)
  with assms(1) have "map_of t' k = map_of t k" unfolding purged_def by blast
  with assms(2) show ?thesis by (simp add: replay_held_def)
qed

lemma purged_ok: "purged now t t' \<Longrightarrow> replay_ok t \<Longrightarrow> replay_ok t'"
  unfolding purged_def replay_ok_def by (metis option.distinct(1))

definition reserve_outcome :: "string \<Rightarrow> int \<Rightarrow> int \<Rightarrow> replay_table \<Rightarrow> bool \<Rightarrow> replay_table \<Rightarrow> bool" where
  "reserve_outcome key now x t b t' \<longleftrightarrow> (\<exists>t1. purged now t t1 \<and> \<not> (replay_held t1 key now = False \<and> map_of t1 key \<noteq> None) \<and>
     (if b then map_of t1 key = None \<and> reservation_check key \<lparr>reserved_at = now, expires_at = x\<rparr> \<and>
        t' = AList.update key \<lparr>reserved_at = now, expires_at = x\<rparr> t1
      else t' = t1))"

lemma reserve_tx_outcome:
  assumes "table_ok t" and "reserve_tx batch key now x (t, fs) = (Inr b, (t', fs'))"
  shows "reserve_outcome key now x t b t'"
proof -
  let ?t0 = "delete_expired_key key now t"
  let ?t1 = "delete_expired now (nat batch) ?t0"
  have p0: "purged now t ?t0" by (rule purged_key [OF assms(1)])
  have p1: "purged now ?t0 ?t1" using p0 by (intro purged_expired) (simp add: purged_def)
  have p: "purged now t ?t1" by (rule purged_trans [OF p0 p1])
  have "\<not> (map_of ?t0 key \<noteq> None \<and> \<not> replay_held ?t0 key now)"
    using assms(1) by (auto simp: delete_expired_key_def map_of_filter_keys replay_held_def split: option.splits if_splits)
  then have live: "\<not> (map_of ?t1 key \<noteq> None \<and> \<not> replay_held ?t1 key now)"
    using p1 unfolding purged_def replay_held_def by (metis option.simps(4))
  have "(case insert_reservation key now x ?t1 of None \<Rightarrow> False
      | Some (t2, n) \<Rightarrow> t' = t2 \<and> (n = 0 \<or> n = 1) \<and> b = (n = 1))"
    using assms(2)
    by (auto simp: reserve_tx_def cleanupExpiredRFC9421Replay_def bindt_def replay_exec_def fail_def ret_def
        split: prod.splits sum.splits option.splits if_splits)
  then show ?thesis
    using p live by (auto simp: reserve_outcome_def insert_reservation_def Let_def split: option.splits if_splits)
qed

lemma cleanup_tx_outcome:
  assumes "table_ok t" and "cleanupExpiredRFC9421Replay now limit (t, fs) = (Inr n, (t', fs'))"
  shows "purged now t t'"
  using assms(2) purged_expired [OF assms(1), of now "nat limit"]
  by (auto simp: cleanupExpiredRFC9421Replay_def bindt_def replay_exec_def fail_def ret_def
      split: prod.splits sum.splits option.splits if_splits)

lemma run_replay_cases:
  obtains (unchanged) e where "run_replay env a c body d = (Inl e, d)"
  | (committed) x d' fs' where "run_replay env a c body d = (Inr x, d')" "body (d, faults env) = (Inr x, (d', fs'))"
proof -
  have "(\<exists>e. run_replay env a c body d = (Inl e, d)) \<or>
      (\<exists>x d' fs'. run_replay env a c body d = (Inr x, d') \<and> body (d, faults env) = (Inr x, (d', fs')))"
    unfolding run_replay_def by (auto split: option.splits prod.splits sum.splits if_splits)
  with that show ?thesis by blast
qed

lemma Reserve_cases:
  assumes "table_ok t"
  obtains (refused) e where "ReserveRFC9421Replay batch ctx env key x now t = (Inl e, t)"
  | (answered) b t' where "ReserveRFC9421Replay batch ctx env key x now t = (Inr b, t')" "reserve_outcome key now x t b t'"
proof (cases "replay_validate batch ctx now x")
  case (Inl e)
  then show ?thesis by (intro refused [of e]) (simp add: ReserveRFC9421Replay_def)
next
  case (Inr nx)
  then have nx: "nx = (now, x)" by (auto simp: replay_validate_def split: if_splits option.splits)
  have run: "ReserveRFC9421Replay batch ctx env key x now t =
      run_replay env ''begin reservation'' ''commit replay reservation'' (reserve_tx batch key now x) t"
    using Inr nx by (simp add: ReserveRFC9421Replay_def)
  show ?thesis
    by (rule run_replay_cases [of env "''begin reservation''" "''commit replay reservation''" "reserve_tx batch key now x" t])
      (use run refused answered reserve_tx_outcome [OF assms] in auto)
qed

lemma Cleanup_purged:
  assumes "table_ok t"
  shows "purged now t (snd (CleanupExpiredRFC9421Replay ctx env limit now t))"
  by (rule run_replay_cases [of env "''begin replay cleanup''" "''commit replay cleanup''" "cleanupExpiredRFC9421Replay now limit" t])
    (auto simp: CleanupExpiredRFC9421Replay_def purged_refl [OF assms] intro: cleanup_tx_outcome [OF assms] split: option.splits)

lemma reserve_outcome_ok: "reserve_outcome key now x t b t' \<Longrightarrow> replay_ok t \<Longrightarrow> replay_ok t'"
  by (auto simp: reserve_outcome_def replay_ok_def dest: purged_ok split: if_splits)

lemma reserve_outcome_keeps:
  assumes "reserve_outcome key now x t b t'" and "replay_held t key' u" "now \<le> u"
  shows "replay_held t' key' u"
proof -
  from assms(1) obtain t1 where t1: "purged now t t1"
    "if b then map_of t1 key = None \<and> t' = AList.update key \<lparr>reserved_at = now, expires_at = x\<rparr> t1 else t' = t1"
    by (auto simp: reserve_outcome_def split: if_splits)
  from purged_held [OF t1(1) assms(2,3)] t1(2) show ?thesis by (auto simp: replay_held_def split: if_splits)
qed

lemma reserve_outcome_free:
  assumes "reserve_outcome key now x t True t'"
  shows "\<not> replay_held t key now"
proof
  assume held: "replay_held t key now"
  from assms obtain t1 where t1: "purged now t t1" "map_of t1 key = None" by (auto simp: reserve_outcome_def)
  from purged_held [OF t1(1) held order_refl] t1(2) show False by (simp add: replay_held_def)
qed

lemma reserve_outcome_held: "reserve_outcome key now x t True t' \<Longrightarrow> u < x \<Longrightarrow> replay_held t' key u"
  by (auto simp: reserve_outcome_def replay_held_def)

interpretation sqlite_replay: replay_store
  "\<lambda>(batch, ctx, env). ReserveRFC9421Replay batch ctx env"
  "\<lambda>(ctx, env, limit) now t. snd (CleanupExpiredRFC9421Replay ctx env limit now t)" replay_ok replay_held
proof unfold_locales
  fix s :: replay_table and e :: "int \<times> goerror option \<times> environment" and m :: "goerror option \<times> environment \<times> int"
    and key key' :: string and x now t :: int
  assume ok: "replay_ok s"
  then have tab: "table_ok s" by (simp add: replay_ok_def)
  obtain batch ctx env where e: "e = (batch, ctx, env)" by (cases e)
  obtain ctx' env' limit where m: "m = (ctx', env', limit)" by (cases m)
  let ?r = "(case e of (batch, ctx, env) \<Rightarrow> ReserveRFC9421Replay batch ctx env) key x now s"
  let ?m = "(case m of (ctx, env, limit) \<Rightarrow> \<lambda>now t. snd (CleanupExpiredRFC9421Replay ctx env limit now t)) now s"
  note purge = Cleanup_purged [OF tab, of now ctx' env' limit]
  show "replay_ok ?m" using purged_ok [OF purge ok] m by simp
  show "replay_held ?m key' t" if "replay_held s key' t" "now \<le> t"
    using purged_held [OF purge that] m by simp
  have cases: "(\<exists>err. ?r = (Inl err, s)) \<or> (\<exists>b s'. ?r = (Inr b, s') \<and> reserve_outcome key now x s b s')"
    by (rule Reserve_cases [OF tab, of batch ctx env key x now]) (auto simp: e)
  then show "replay_ok (snd ?r)" using ok by (auto intro: reserve_outcome_ok)
  show "replay_held (snd ?r) key' t" if h: "replay_held s key' t" "now \<le> t"
    using cases h reserve_outcome_keeps by auto
  show "\<not> replay_held s key now" if "fst ?r = Inr True"
    using cases that reserve_outcome_free by auto
  show "replay_held (snd ?r) key t" if "fst ?r = Inr True" "t < x"
    using cases that reserve_outcome_held by auto
qed

subsection \<open>The in-memory store keeps the same contract\<close>

definition memory_held :: "memory_store \<Rightarrow> string \<Rightarrow> int \<Rightarrow> bool" where
  "memory_held s key u \<longleftrightarrow> (case map_of (memory_entries s) key of None \<Rightarrow> False | Some x \<Rightarrow> u < x)"

interpretation memory_replay: replay_store memory_reserve "\<lambda>(_ :: unit) _ s. s" "\<lambda>s. table_ok (memory_entries s)" memory_held
proof unfold_locales
  fix s :: memory_store and c key key' x now t
  assume ok: "table_ok (memory_entries s)"
  let ?r = "memory_reserve c key x now s"
  show "table_ok (memory_entries (snd ?r))"
    using ok by (auto simp: memory_reserve_def Let_def distinct_map_filter)
  show "\<not> memory_held s key now" if "fst ?r = Inr True"
    using that by (auto simp: memory_reserve_def memory_held_def Let_def split: if_splits option.splits)
  show "memory_held (snd ?r) key t" if "fst ?r = Inr True" "t < x"
    using that by (auto simp: memory_reserve_def memory_held_def Let_def split: if_splits)
  show "memory_held (snd ?r) key' t" if h: "memory_held s key' t" "now \<le> t"
  proof (cases "snd ?r = s")
    case False
    then have new: "\<not> memory_held s key now" "now < x"
      by (auto simp: memory_reserve_def memory_held_def Let_def split: if_splits option.splits)
    then have "key' \<noteq> key" using h by (auto simp: memory_held_def split: option.splits)
    with h ok show ?thesis
      by (auto simp: memory_reserve_def memory_held_def Let_def map_of_filter_keys simp del: map_of_eq_Some_iff
          split: option.splits)
  qed (use h in simp)
qed auto

subsection \<open>Availability of the SQLite store\<close>

lemma removed_count:
  assumes "table_ok t"
  shows "length (filter (\<lambda>(k, r). k \<in> set ks) t) \<le> length ks"
proof -
  let ?f = "filter (\<lambda>(k, r). k \<in> set ks) t"
  have "length ?f = card (set (map fst ?f))" using assms by (metis distinct_card distinct_map_filter length_map)
  also have "\<dots> \<le> card (set ks)" by (rule card_mono) auto
  also have "\<dots> \<le> length ks" by (rule card_length)
  finally show ?thesis .
qed

lemma delete_expired_count:
  assumes "table_ok t"
  shows "length (delete_expired now n t) \<le> length t" "length t \<le> length (delete_expired now n t) + n"
proof -
  show "length (delete_expired now n t) \<le> length t" by (simp add: delete_expired_def)
  have "length t = length (delete_expired now n t) + length (filter (\<lambda>(k, r). k \<in> set (expired_keys now n t)) t)"
    unfolding delete_expired_def
    using sum_length_filter_compl [of "\<lambda>(k, r). k \<in> set (expired_keys now n t)" t]
    by (simp add: case_prod_unfold)
  moreover have "length (expired_keys now n t) \<le> n" by (simp add: expired_keys_def)
  ultimately show "length t \<le> length (delete_expired now n t) + n"
    using removed_count [OF assms, of "expired_keys now n t"] by simp
qed

lemma reserve_calm:
  assumes ok: "replay_ok t" and batch: "0 < batch" "batch \<le> maximumRFC9421ReplayCleanupBatch"
    and times: "0 \<le> now" "now < x" "x \<le> now + RFC9421ReplayTTL" and key: "length key = 32"
  shows "fst (ReserveRFC9421Replay batch None calm key x now t) = Inr (\<not> replay_held t key now)"
proof -
  have tab: "table_ok t" using ok by (simp add: replay_ok_def)
  let ?t0 = "delete_expired_key key now t"
  let ?t1 = "delete_expired now (nat batch) ?t0"
  have p0: "purged now t ?t0" by (rule purged_key [OF tab])
  have tab0: "table_ok ?t0" using p0 by (simp add: purged_def)
  have p1: "purged now ?t0 ?t1" by (rule purged_expired [OF tab0])
  have free: "map_of ?t1 key = None \<longleftrightarrow> \<not> replay_held t key now"
  proof
    assume none: "map_of ?t1 key = None"
    show "\<not> replay_held t key now"
      using purged_held [OF purged_trans [OF p0 p1], of key now] none by (auto simp: replay_held_def)
  next
    assume "\<not> replay_held t key now"
    then have "map_of ?t0 key = None"
      using tab by (auto simp: delete_expired_key_def map_of_filter_keys replay_held_def
          simp del: map_of_eq_Some_iff split: option.splits)
    then show "map_of ?t1 key = None" using p1 unfolding purged_def by metis
  qed
  show ?thesis
    using delete_expired_count [OF tab0, of now "nat batch"] free batch times key
    by (auto simp: ReserveRFC9421Replay_def replay_validate_def run_replay_def calm_def reserve_tx_def
        cleanupExpiredRFC9421Replay_def bindt_def replay_exec_def fail_def ret_def insert_reservation_def
        reservation_check_def Let_def)
qed

subsection \<open>The two stores answer alike\<close>

fun reserve_answers :: "(string \<Rightarrow> int \<Rightarrow> int \<Rightarrow> 's \<Rightarrow> bool result \<times> 's) \<Rightarrow> (int \<times> string \<times> int) list \<Rightarrow> 's \<Rightarrow> bool result list" where
  "reserve_answers reserve [] s = []"
| "reserve_answers reserve ((now, key, x) # ops) s =
     fst (reserve key x now s) # reserve_answers reserve ops (snd (reserve key x now s))"

definition reservation_valid :: "int \<times> string \<times> int \<Rightarrow> bool" where
  "reservation_valid op \<longleftrightarrow> (case op of (now, key, x) \<Rightarrow>
     0 \<le> now \<and> now < x \<and> x \<le> now + RFC9421ReplayTTL \<and> length key = 32)"

definition same_held :: "int \<Rightarrow> memory_store \<Rightarrow> replay_table \<Rightarrow> bool" where
  "same_held now s t \<longleftrightarrow> (\<forall>key u. now \<le> u \<longrightarrow> memory_held s key u = replay_held t key u)"

lemma memory_reserve_room:
  assumes "int (length (memory_entries s)) < memory_capacity s" and "now < x"
  shows "memory_reserve (False, False) key x now s =
    (if memory_held s key now then (Inr False, s)
     else (Inr True, s\<lparr>memory_entries := AList.update key x (AList.delete key (memory_entries s))\<rparr>))"
proof -
  have "int (length (AList.delete key (memory_entries s))) < memory_capacity s"
    using assms(1) length_delete_le [of key "memory_entries s"] by linarith
  moreover have "\<not> memory_capacity s \<le> 0" using assms(1) by linarith
  ultimately show ?thesis
    using assms(2) by (auto simp: memory_reserve_def memory_held_def Let_def split: option.splits)
qed

lemma purged_held_iff:
  assumes "purged now t t1" "now \<le> u"
  shows "replay_held t1 k u = replay_held t k u"
proof
  assume "replay_held t1 k u"
  then show "replay_held t k u"
    using assms(1) unfolding purged_def replay_held_def by (metis option.simps(4))
qed (rule purged_held [OF assms(1) _ assms(2)])

lemma sqlite_step_held:
  assumes "replay_ok t" and "now \<le> u" and "fst (ReserveRFC9421Replay batch ctx env key x now t) = Inr (\<not> replay_held t key now)"
  shows "replay_held (snd (ReserveRFC9421Replay batch ctx env key x now t)) key' u =
    (if key' = key \<and> \<not> replay_held t key now then u < x else replay_held t key' u)"
proof -
  have tab: "table_ok t" using assms(1) by (simp add: replay_ok_def)
  show ?thesis
  proof (cases rule: Reserve_cases [OF tab, of batch ctx env key x now])
    case (2 b t')
    then obtain t1 where t1: "purged now t t1"
      "t' = (if b then AList.update key \<lparr>reserved_at = now, expires_at = x\<rparr> t1 else t1)"
      by (auto simp: reserve_outcome_def)
    have b: "b = (\<not> replay_held t key now)" using assms(3) 2(1) by simp
    show ?thesis
      using purged_held_iff [OF t1(1) assms(2), of key'] t1(2) b 2(1) by (auto simp: replay_held_def)
  qed (use assms(3) in simp)
qed

lemma stores_agree:
  assumes "sorted (map fst ops)" and "list_all reservation_valid ops"
    and "0 < batch" "batch \<le> maximumRFC9421ReplayCleanupBatch"
    and "replay_ok t" "table_ok (memory_entries s)"
    and "int (length (memory_entries s) + length ops) \<le> memory_capacity s"
    and "\<And>now. now \<in> fst ` set ops \<Longrightarrow> same_held now s t"
  shows "reserve_answers (memory_reserve (False, False)) ops s =
    reserve_answers (ReserveRFC9421Replay batch None calm) ops t"
  using assms
proof (induction ops arbitrary: s t)
  case (Cons op ops)
  obtain now key x where op: "op = (now, key, x)" by (cases op)
  have v: "0 \<le> now" "now < x" "x \<le> now + RFC9421ReplayTTL" "length key = 32"
    using Cons.prems(2) op by (auto simp: reservation_valid_def)
  have same: "same_held now s t" using Cons.prems(8) op by auto
  then have held: "memory_held s key now = replay_held t key now" by (simp add: same_held_def)
  have room: "int (length (memory_entries s)) < memory_capacity s" using Cons.prems(7) by simp
  note M = memory_reserve_room [OF room v(2), of key]
  have S: "fst (ReserveRFC9421Replay batch None calm key x now t) = Inr (\<not> replay_held t key now)"
    by (rule reserve_calm [OF Cons.prems(5,3,4) v])
  let ?s = "snd (memory_reserve (False, False) key x now s)"
  let ?t = "snd (ReserveRFC9421Replay batch None calm key x now t)"
  have "reserve_answers (memory_reserve (False, False)) ops ?s = reserve_answers (ReserveRFC9421Replay batch None calm) ops ?t"
  proof (rule Cons.IH)
    show "replay_ok ?t"
      using sqlite_replay.reserve_inv [OF Cons.prems(5), of "(batch, None, calm)" key x now] by simp
    show "table_ok (memory_entries ?s)" by (rule memory_replay.reserve_inv [OF Cons.prems(6)])
    have "length (AList.update key x (AList.delete key (memory_entries s))) \<le> Suc (length (memory_entries s))"
      using length_delete_le [of key "memory_entries s"] by (simp add: length_update_new)
    then show "int (length (memory_entries ?s) + length ops) \<le> memory_capacity ?s"
      using Cons.prems(7) by (auto simp: M)
    show "same_held n ?s ?t" if "n \<in> fst ` set ops" for n
      unfolding same_held_def
    proof (intro allI impI)
      fix k u assume "n \<le> u"
      moreover have "now \<le> n" using Cons.prems(1) that op by auto
      ultimately have u: "now \<le> u" by simp
      have "memory_held ?s k u = (if k = key \<and> \<not> memory_held s key now then u < x else memory_held s k u)"
        by (auto simp: M memory_held_def)
      then show "memory_held ?s k u = replay_held ?t k u"
        using sqlite_step_held [OF Cons.prems(5) u S, of k] same u held by (simp add: same_held_def)
    qed
  qed (use Cons.prems op in auto)
  with op S held M show ?case by simp
qed simp

text \<open>C40: the SQLite store and the in-memory reference store are equivalent: over any
  sequence of valid reservations with a clock that does not go back, starting empty, both
  give the same answers, as long as the memory store has room for them.\<close>

theorem replay_stores_equivalent:
  assumes "sorted (map fst ops)" and "list_all reservation_valid ops"
    and "newRFC9421ReplayStore batch = Inr batch" and "newMemoryRFC9421ReplayStore capacity = Inr store"
    and "int (length ops) \<le> memory_capacity store"
  shows "reserve_answers (memory_reserve (False, False)) ops store =
    reserve_answers (ReserveRFC9421Replay batch None calm) ops []"
proof -
  have "memory_entries store = []" using assms(4) by (auto simp: newMemoryRFC9421ReplayStore_def Let_def split: if_splits)
  moreover have "0 < batch" "batch \<le> maximumRFC9421ReplayCleanupBatch"
    using assms(3) by (auto simp: newRFC9421ReplayStore_def split: if_splits)
  ultimately show ?thesis
    using assms(1,2,5) by (intro stores_agree) (auto simp: replay_ok_def same_held_def memory_held_def replay_held_def)
qed

definition sample_replay_key :: string where "sample_replay_key = replicate 32 (CHR ''r'')"

theorem replay_stores_equivalent_witness:
  "reserve_answers (memory_reserve (False, False)) [(5, sample_replay_key, 9), (7, sample_replay_key, 12), (9, sample_replay_key, 12)]
     \<lparr>memory_entries = [], memory_capacity = 10000\<rparr> =
   reserve_answers (ReserveRFC9421Replay 256 None calm) [(5, sample_replay_key, 9), (7, sample_replay_key, 12), (9, sample_replay_key, 12)] []"
  by (rule replay_stores_equivalent [where capacity = 0])
    (simp_all add: reservation_valid_def RFC9421ReplayTTL_def sample_replay_key_def newRFC9421ReplayStore_def
      maximumRFC9421ReplayCleanupBatch_def newMemoryRFC9421ReplayStore_def defaultRFC9421ReplayCapacity_def)

end
