(* ===== verification/Rfc9421.thy ===== *)
theory Rfc9421
  imports Identity Vocabulary Replay
begin

section \<open>Signed requests\<close>

text \<open>
  \<open>internal/protocol/v1/rfc9421.go\<close>, \<open>content_digest.go\<close> and the verify-and-reserve
  composition of \<open>replay.go\<close>. The structured-field parser and serialiser (httpsfv), the
  signature parameter decoder and the RSA verifier (httpsig) are third-party code and,
  with the SHA-256 digest and the HTTP date parser, fields of the record \<open>externals\<close>;
  nothing is assumed of them. The key resolver is the interface of the source. Clock
  readings are Unix seconds: the verifier truncates them, and the signature times
  \<open>created\<close> and \<open>expires\<close> are structured-field integers.
\<close>

subsection \<open>Messages and external code\<close>

datatype sfv_value = SfvString string | SfvBytes string | SfvOther

text \<open>\<open>Params\<close> is nil or the list of parameter names in order.\<close>

record sfv_item =
  item_value :: sfv_value
  item_params :: "string list option"

record sfv_inner =
  inner_items :: "sfv_item list"
  inner_params :: "(string \<times> sfv_value) list option"

datatype sfv_member = Item sfv_item | InnerList sfv_inner

type_synonym sfv_dictionary = "(string \<times> sfv_member) list"

record sig_params =
  KeyID :: string
  Alg :: string
  Nonce :: string
  Tag :: string
  Created :: int
  Expires :: int
  CoveredComponents :: "string list"

text \<open>\<open>time.Time.IsZero\<close>: the first of January of the year 1.\<close>

definition zeroTime :: int where "zeroTime = -62135596800"

record rsa_key =
  modulus :: "nat option"
  exponent :: int

fun BitLen :: "nat \<Rightarrow> nat" where
  "BitLen n = (if n = 0 then 0 else 1 + BitLen (n div 2))"

declare BitLen.simps [simp del]

record externals =
  UnmarshalDictionary :: "string list \<Rightarrow> sfv_dictionary option"
  UnmarshalInnerList :: "sfv_inner \<Rightarrow> sig_params option"
  Marshal :: "sfv_inner \<Rightarrow> string option"
  sha256 :: "string \<Rightarrow> string"
  rsa_verify :: "rsa_key \<Rightarrow> string \<Rightarrow> string \<Rightarrow> bool"
  ParseTime :: "string \<Rightarrow> int option"

text \<open>The parts of \<open>http.Request\<close> the program reads. \<open>req_user\<close> is the text of \<open>URL.User\<close>.\<close>

record http_request =
  Method :: string
  URL :: "url option"
  req_user :: "string option"
  Fragment :: string
  RawFragment :: string
  RequestURI :: string
  request_Host :: string
  Header :: "(string, string list) table"

subsection \<open>Standard library\<close>

definition token_byte :: "char \<Rightarrow> bool" where
  "token_byte c \<longleftrightarrow> is_alnum c \<or> chars_in ''!#$%&*+-.^_|~'' c \<or> code c = 39 \<or> code c = 96"

definition to_upper :: "char \<Rightarrow> char" where
  "to_upper c = (if is_lower c then char_of (code c - 32) else c)"

fun canonical_case :: "bool \<Rightarrow> string \<Rightarrow> string" where
  "canonical_case upper [] = []"
| "canonical_case upper (c # s) = (if upper then to_upper c else to_lower c) # canonical_case (c = CHR ''-'') s"

definition CanonicalMIMEHeaderKey :: "string \<Rightarrow> string" where
  "CanonicalMIMEHeaderKey s = (if list_all token_byte s then canonical_case True s else s)"

definition Values :: "http_request \<Rightarrow> string \<Rightarrow> string list" where
  "Values r key = (case map_of (Header r) (CanonicalMIMEHeaderKey key) of None \<Rightarrow> [] | Some vs \<Rightarrow> vs)"

definition EscapedFragment :: "http_request \<Rightarrow> string" where
  "EscapedFragment r =
     (if RawFragment r \<noteq> [] \<and>
         list_all (\<lambda>c. chars_in ''!$&()*+,;=:@[]%'' c \<or> code c = 39 \<or> \<not> shouldEscape c encodeFragment) (RawFragment r) \<and>
         unescape (RawFragment r) encodeFragment = Some (Fragment r)
      then RawFragment r else escape (Fragment r) encodeFragment)"

text \<open>\<open>URL.String\<close> for a URL with a scheme and a host.\<close>

definition url_String :: "http_request \<Rightarrow> url \<Rightarrow> string" where
  "url_String r u =
     Scheme u @ '':'' @
     (if Opaque_part u \<noteq> [] then Opaque_part u
      else ''//'' @ (case req_user r of None \<Rightarrow> [] | Some ui \<Rightarrow> ui @ ''@'') @ escape (Host u) encodeHost @
        (let path = EscapedPath u in (if path \<noteq> [] \<and> hd path \<noteq> CHR ''/'' then ''/'' else []) @ path)) @
     (if ForceQuery u \<or> RawQuery u \<noteq> [] then ''?'' @ RawQuery u else []) @
     (if Fragment r \<noteq> [] then ''#'' @ EscapedFragment r else [])"

subsection \<open>The verification profile\<close>

definition RFC9421SignatureTag :: string where "RFC9421SignatureTag = ''activity-relay-directory-v1''"
definition RFC9421SignatureAlgorithm :: string where "RFC9421SignatureAlgorithm = ''rsa-v1_5-sha256''"
definition RFC9421MaximumAge :: int where "RFC9421MaximumAge = 5 * 60"
definition RFC9421FutureSkew :: int where "RFC9421FutureSkew = 30"
definition RFC9421MaximumLifetime :: int where "RFC9421MaximumLifetime = 5 * 60"
definition maxRFC9421KeyIDBytes :: nat where "maxRFC9421KeyIDBytes = 2048"
definition maxRFC9421NonceBytes :: nat where "maxRFC9421NonceBytes = 256"
definition maxRFC9421SignatureBytes :: nat where "maxRFC9421SignatureBytes = 1024"
definition maxRFC9421Components :: nat where "maxRFC9421Components = 32"
definition minimumRFC9421RSAKeyBits :: nat where "minimumRFC9421RSAKeyBits = 2048"

definition rfc9421POSTComponents :: "string list" where
  "rfc9421POSTComponents =
     [''@method'', ''@authority'', ''@target-uri'', ''content-digest'', ''content-type'', ''date'']"

record RFC9421ResolvedKey =
  key_id :: string
  Owner :: string
  ActorID :: string
  PublicKey :: "rsa_key option"

record RFC9421Verifier =
  authority :: string
  keyResolver :: "string \<Rightarrow> RFC9421ResolvedKey result"

record RFC9421Verification =
  ver_KeyID :: string
  KeyOwner :: string
  KeyActor :: string
  ver_Nonce :: string
  ver_Created :: int
  ver_Expires :: int
  ver_Components :: "string list"
  SignatureAlgorithm :: string

definition NewRFC9421Verifier :: "string \<Rightarrow> (string \<Rightarrow> RFC9421ResolvedKey result) option \<Rightarrow> RFC9421Verifier result" where
  "NewRFC9421Verifier options_authority resolver =
     (if TrimSpace options_authority = [] \<or> TrimSpace options_authority \<noteq> options_authority
      then Inl (Err ErrRFC9421Configuration)
      else case NormalizePublicBaseURL (''https://'' @ options_authority) of
        Inl _ \<Rightarrow> Inl (Err ErrRFC9421Configuration)
      | Inr base \<Rightarrow>
          if (if prefix ''https://'' base then drop 8 base else base) \<noteq> options_authority
          then Inl (Err ErrRFC9421Configuration)
          else case resolver of
            None \<Rightarrow> Inl (Err ErrRFC9421Configuration)
          | Some resolve \<Rightarrow> Inr \<lparr>authority = options_authority, keyResolver = resolve\<rparr>)"

record parsedRFC9421Message =
  params :: sig_params
  signatureParams :: string
  signature :: string

definition allowedParameters :: "string list" where
  "allowedParameters = [''alg'', ''created'', ''expires'', ''keyid'', ''nonce'', ''tag'']"

definition plain_string_item :: "sfv_item \<Rightarrow> bool" where
  "plain_string_item item \<longleftrightarrow> (\<exists>s. item_value item = SfvString s) \<and> item_params item = Some []"

definition parse_input :: "externals \<Rightarrow> sfv_inner \<Rightarrow> (sig_params \<times> string) result" where
  "parse_input X innerList =
     (if inner_items innerList = [] \<or> length (inner_items innerList) > maxRFC9421Components
      then Inl (Err ErrRFC9421Malformed)
      else if \<not> list_all plain_string_item (inner_items innerList) then Inl (Err ErrRFC9421Malformed)
      else case inner_params innerList of
        None \<Rightarrow> Inl (Err ErrRFC9421Malformed)
      | Some ps \<Rightarrow>
          if \<not> list_all (\<lambda>(name, _). name \<in> set allowedParameters) ps then Inl (Err ErrRFC9421Policy)
          else case UnmarshalInnerList X innerList of
            None \<Rightarrow> Inl (Err ErrRFC9421Malformed)
          | Some sp \<Rightarrow>
              (case Marshal X innerList of
                 None \<Rightarrow> Inl (Err ErrRFC9421Malformed)
               | Some text \<Rightarrow> Inr (sp, text)))"

definition parse_signature :: "sfv_member \<Rightarrow> string result" where
  "parse_signature member =
     (case member of
        Item item \<Rightarrow>
          if item_params item \<noteq> Some [] then Inl (Err ErrRFC9421Malformed)
          else (case item_value item of
                  SfvBytes sig \<Rightarrow>
                    if sig = [] \<or> length sig > maxRFC9421SignatureBytes then Inl (Err ErrRFC9421Malformed)
                    else Inr sig
                | _ \<Rightarrow> Inl (Err ErrRFC9421Malformed))
      | InnerList _ \<Rightarrow> Inl (Err ErrRFC9421Malformed))"

definition parseRFC9421Message :: "externals \<Rightarrow> http_request \<Rightarrow> parsedRFC9421Message result" where
  "parseRFC9421Message X request =
     (if Values request ''Signature-Input'' = [] \<or> Values request ''Signature'' = []
      then Inl (Err ErrRFC9421Malformed)
      else case UnmarshalDictionary X (Values request ''Signature-Input'') of
        None \<Rightarrow> Inl (Err ErrRFC9421Malformed)
      | Some inputs \<Rightarrow>
          (case UnmarshalDictionary X (Values request ''Signature'') of
             None \<Rightarrow> Inl (Err ErrRFC9421Malformed)
           | Some signatures \<Rightarrow>
               (case (inputs, signatures) of
                  ([(inputName, inputMember)], [(signatureName, signatureMember)]) \<Rightarrow>
                    if inputName \<noteq> signatureName \<or> length inputName > 64 then Inl (Err ErrRFC9421Policy)
                    else (case inputMember of
                            Item _ \<Rightarrow> Inl (Err ErrRFC9421Malformed)
                          | InnerList innerList \<Rightarrow>
                              (case parse_input X innerList of
                                 Inl e \<Rightarrow> Inl e
                               | Inr (sp, text) \<Rightarrow>
                                   (case parse_signature signatureMember of
                                      Inl e \<Rightarrow> Inl e
                                    | Inr sig \<Rightarrow> Inr \<lparr>params = sp, signatureParams = text, signature = sig\<rparr>)))
                | _ \<Rightarrow> Inl (Err ErrRFC9421Policy))))"

definition validRFC9421ComponentName :: "string \<Rightarrow> bool" where
  "validRFC9421ComponentName component \<longleftrightarrow>
     component \<in> {''@method'', ''@authority'', ''@scheme'', ''@target-uri''} \<or>
     (component \<noteq> [] \<and> hd component \<noteq> CHR ''@'' \<and>
      list_all (\<lambda>c. is_lower c \<or> is_digit c \<or> chars_in ''!#$%&*+-.^_|~'' c \<or> code c = 39 \<or> code c = 96) component)"

fun check_components :: "string list \<Rightarrow> string list \<Rightarrow> string list \<Rightarrow> goerror option" where
  "check_components required seen [] = (if required \<noteq> [] then Some (Err ErrRFC9421Policy) else None)"
| "check_components required seen (c # cs) =
     (if \<not> validRFC9421ComponentName c then Some (Err ErrRFC9421Policy)
      else if c \<in> set seen then Some (Err ErrRFC9421Policy)
      else check_components (removeAll c required) (c # seen) cs)"

definition validateRFC9421Parameters :: "sig_params \<Rightarrow> int \<Rightarrow> string \<Rightarrow> goerror option" where
  "validateRFC9421Parameters p now expectedTag =
     (if expectedTag = [] \<or> Tag p \<noteq> expectedTag \<or> Alg p \<noteq> RFC9421SignatureAlgorithm
      then Some (Err ErrRFC9421Policy)
      else if KeyID p = [] \<or> TrimSpace (KeyID p) \<noteq> KeyID p \<or> length (KeyID p) > maxRFC9421KeyIDBytes
      then Some (Err ErrRFC9421Policy)
      else if Nonce p = [] \<or> length (Nonce p) > maxRFC9421NonceBytes then Some (Err ErrRFC9421Policy)
      else if Created p = zeroTime \<or> Expires p = zeroTime then Some (Err ErrRFC9421Time)
      else if Created p < now - RFC9421MaximumAge \<or> Created p > now + RFC9421FutureSkew
      then Some (Err ErrRFC9421Time)
      else if \<not> Expires p > Created p \<or> \<not> Expires p > now \<or> Expires p > Created p + RFC9421MaximumLifetime
      then Some (Err ErrRFC9421Time)
      else check_components rfc9421POSTComponents [] (CoveredComponents p))"

definition validateRFC9421Request :: "externals \<Rightarrow> http_request \<Rightarrow> string \<Rightarrow> int \<Rightarrow> goerror option" where
  "validateRFC9421Request X request auth now =
     (case URL request of
        None \<Rightarrow> Some (Err ErrRFC9421Policy)
      | Some u \<Rightarrow>
          if Method request \<noteq> ''POST'' then Some (Err ErrRFC9421Policy)
          else
            let wireAuthority = (if request_Host request = [] then Host u else request_Host request) in
            if wireAuthority \<noteq> auth \<or> (Host u \<noteq> [] \<and> Host u \<noteq> auth) \<or>
               (Scheme u \<noteq> [] \<and> Scheme u \<noteq> ''https'') \<or> Fragment request \<noteq> []
            then Some (Err ErrRFC9421Policy)
            else if Values request ''Content-Type'' \<noteq> [''application/json''] then Some (Err ErrRFC9421Policy)
            else case Values request ''Date'' of
              [text] \<Rightarrow>
                (case ParseTime X text of
                   None \<Rightarrow> Some (Err ErrRFC9421Time)
                 | Some date \<Rightarrow>
                     if date < now - RFC9421MaximumAge \<or> date > now + RFC9421FutureSkew
                     then Some (Err ErrRFC9421Time) else None)
            | _ \<Rightarrow> Some (Err ErrRFC9421Time))"

definition rfc9421ComponentValue :: "http_request \<Rightarrow> string \<Rightarrow> string \<Rightarrow> string result" where
  "rfc9421ComponentValue request auth component =
     (if component = ''@method'' then Inr (Method request)
      else if component = ''@authority'' then Inr auth
      else if component = ''@scheme'' then Inr ''https''
      else if component = ''@target-uri'' then
        (case URL request of
           None \<Rightarrow> Inl (Err ErrRFC9421Policy)
         | Some u \<Rightarrow>
             let copied = u\<lparr>Scheme := ''https'', Host := auth, Path := (if Path u = [] then ''/'' else Path u)\<rparr>
             in Inr (url_String request copied))
      else
        let values = Values request component in
        if values = [] then Inl (Err ErrRFC9421Policy)
        else if list_ex (\<lambda>v. CHR 0x0D \<in> set v \<or> CHR 0x0A \<in> set v) values then Inl (Err ErrRFC9421Policy)
        else Inr (join_with '', '' (map TrimSpace values)))"

fun signing_lines :: "http_request \<Rightarrow> string \<Rightarrow> string list \<Rightarrow> string result" where
  "signing_lines request auth [] = Inr []"
| "signing_lines request auth (c # cs) =
     (case rfc9421ComponentValue request auth c of
        Inl e \<Rightarrow> Inl e
      | Inr v \<Rightarrow>
          (case signing_lines request auth cs of
             Inl e \<Rightarrow> Inl e
           | Inr rest \<Rightarrow> Inr ([CHR 0x22] @ c @ [CHR 0x22] @ '': '' @ v @ [CHR 0x0A] @ rest)))"

definition canonicalRFC9421SigningString ::
  "http_request \<Rightarrow> string \<Rightarrow> string list \<Rightarrow> string \<Rightarrow> string result" where
  "canonicalRFC9421SigningString request auth components sigParams =
     (if URL request = None \<or> sigParams = [] then Inl (Err ErrRFC9421Policy)
      else case signing_lines request auth components of
        Inl e \<Rightarrow> Inl e
      | Inr text \<Rightarrow> Inr (text @ [CHR 0x22] @ ''@signature-params'' @ [CHR 0x22] @ '': '' @ sigParams))"

definition validateRFC9421ResolvedKey :: "RFC9421ResolvedKey \<Rightarrow> string \<Rightarrow> (string \<times> string) result" where
  "validateRFC9421ResolvedKey resolved keyID =
     (case PublicKey resolved of
        None \<Rightarrow> Inl (Err ErrRFC9421Key)
      | Some key \<Rightarrow>
          (case modulus key of
             None \<Rightarrow> Inl (Err ErrRFC9421Key)
           | Some n \<Rightarrow>
               if key_id resolved \<noteq> keyID \<or> BitLen n < minimumRFC9421RSAKeyBits then Inl (Err ErrRFC9421Key)
               else if NormalizeRelayActorURL (Owner resolved) \<noteq> Inr (Owner resolved) then Inl (Err ErrRFC9421Key)
               else if NormalizeRelayActorURL (ActorID resolved) \<noteq> Inr (ActorID resolved) \<or>
                       ActorID resolved \<noteq> Owner resolved
               then Inl (Err ErrRFC9421Key)
               else Inr (Owner resolved, ActorID resolved)))"

definition VerifyRFC9530ContentDigestSHA256 :: "externals \<Rightarrow> string list \<Rightarrow> string \<Rightarrow> goerror option" where
  "VerifyRFC9530ContentDigestSHA256 X values body =
     (if values = [] then Some (Err ErrContentDigestMissing)
      else case UnmarshalDictionary X values of
        None \<Rightarrow> Some (Err ErrContentDigestMalformed)
      | Some dictionary \<Rightarrow>
          (case map_of dictionary ''sha-256'' of
             None \<Rightarrow> Some (Err ErrContentDigestSHA256Missing)
           | Some (InnerList _) \<Rightarrow> Some (Err ErrContentDigestSHA256Invalid)
           | Some (Item item) \<Rightarrow>
               (case item_value item of
                  SfvBytes presented \<Rightarrow>
                    if length presented \<noteq> 32 then Some (Err ErrContentDigestSHA256Invalid)
                    else if presented \<noteq> sha256 X body then Some (Err ErrContentDigestMismatch)
                    else None
                | _ \<Rightarrow> Some (Err ErrContentDigestSHA256Invalid))))"

text \<open>The cryptographic half of the verification, after the profile checks.\<close>

definition verify_key :: "externals \<Rightarrow> RFC9421Verifier \<Rightarrow> http_request \<Rightarrow> parsedRFC9421Message \<Rightarrow> RFC9421Verification result" where
  "verify_key X verifier request message =
     (case keyResolver verifier (KeyID (params message)) of
        Inl _ \<Rightarrow> Inl (Err ErrRFC9421Key)
      | Inr resolved \<Rightarrow>
          (case validateRFC9421ResolvedKey resolved (KeyID (params message)) of
             Inl e \<Rightarrow> Inl e
           | Inr (owner, actor) \<Rightarrow>
               (case canonicalRFC9421SigningString request (authority verifier)
                       (CoveredComponents (params message)) (signatureParams message) of
                  Inl _ \<Rightarrow> Inl (Err ErrRFC9421Policy)
                | Inr signingString \<Rightarrow>
                    if \<not> rsa_verify X (the (PublicKey resolved)) signingString (signature message)
                    then Inl (Err ErrRFC9421Crypto)
                    else Inr \<lparr>ver_KeyID = KeyID (params message), KeyOwner = owner, KeyActor = actor,
                              ver_Nonce = Nonce (params message), ver_Created = Created (params message),
                              ver_Expires = Expires (params message),
                              ver_Components = CoveredComponents (params message),
                              SignatureAlgorithm = Alg (params message)\<rparr>)))"

definition VerifyPOSTWithTag :: "externals \<Rightarrow> RFC9421Verifier \<Rightarrow> int \<Rightarrow> http_request \<Rightarrow> string \<Rightarrow> string
    \<Rightarrow> RFC9421Verification result" where
  "VerifyPOSTWithTag X verifier now request body expectedTag =
     (case validateRFC9421Request X request (authority verifier) now of
        Some e \<Rightarrow> Inl e
      | None \<Rightarrow>
          (case parseRFC9421Message X request of
             Inl e \<Rightarrow> Inl e
           | Inr message \<Rightarrow>
               (case validateRFC9421Parameters (params message) now expectedTag of
                  Some e \<Rightarrow> Inl e
                | None \<Rightarrow>
                    (case VerifyRFC9530ContentDigestSHA256 X (Values request ''Content-Digest'') body of
                       Some _ \<Rightarrow> Inl (Err ErrRFC9421Digest)
                     | None \<Rightarrow> verify_key X verifier request message))))"

definition VerifyPOST :: "externals \<Rightarrow> RFC9421Verifier \<Rightarrow> int \<Rightarrow> http_request \<Rightarrow> string \<Rightarrow> RFC9421Verification result" where
  "VerifyPOST X verifier now request body = VerifyPOSTWithTag X verifier now request body RFC9421SignatureTag"

definition BindRelayActor :: "RFC9421Verification \<Rightarrow> string \<Rightarrow> goerror option" where
  "BindRelayActor verification relayActor =
     (if NormalizeRelayActorURL relayActor \<noteq> Inr relayActor \<or> relayActor \<noteq> KeyOwner verification \<or>
         relayActor \<noteq> KeyActor verification
      then Some (Err ErrRFC9421ActorBinding) else None)"

text \<open>
  The verifier reads its clock twice: for the profile (\<open>now\<close>) and for the expiry of the
  reservation (\<open>later\<close>). \<open>reserve key expiry\<close> is the call of the replay store.
\<close>

definition VerifyPOSTAndReserveWithTag :: "externals \<Rightarrow> RFC9421Verifier \<Rightarrow> int \<Rightarrow> int
    \<Rightarrow> (string \<Rightarrow> int \<Rightarrow> 's \<Rightarrow> bool result \<times> 's) \<Rightarrow> http_request \<Rightarrow> string \<Rightarrow> string \<Rightarrow> string \<Rightarrow> 's
    \<Rightarrow> RFC9421Verification result \<times> 's" where
  "VerifyPOSTAndReserveWithTag X verifier now later reserve request body relayActor expectedTag s =
     (case VerifyPOSTWithTag X verifier now request body expectedTag of
        Inl e \<Rightarrow> (Inl e, s)
      | Inr verification \<Rightarrow>
          (case BindRelayActor verification relayActor of
             Some e \<Rightarrow> (Inl e, s)
           | None \<Rightarrow>
               (case reserve (DeriveRFC9421ReplayKey (sha256 X) (ver_KeyID verification) (ver_Nonce verification))
                       (later + RFC9421ReplayTTL) s of
                  (Inl _, s') \<Rightarrow> (Inl (Err ErrRFC9421ReplayStore), s')
                | (Inr reserved, s') \<Rightarrow>
                    (if \<not> reserved then Inl (Err ErrRFC9421Replay) else Inr verification, s'))))"

definition VerifyPOSTAndReserve :: "externals \<Rightarrow> RFC9421Verifier \<Rightarrow> int \<Rightarrow> int
    \<Rightarrow> (string \<Rightarrow> int \<Rightarrow> 's \<Rightarrow> bool result \<times> 's) \<Rightarrow> http_request \<Rightarrow> string \<Rightarrow> string \<Rightarrow> 's
    \<Rightarrow> RFC9421Verification result \<times> 's" where
  "VerifyPOSTAndReserve X verifier now later reserve request body relayActor s =
     VerifyPOSTAndReserveWithTag X verifier now later reserve request body relayActor RFC9421SignatureTag s"

subsection \<open>What a verified request guarantees\<close>

lemma check_components_None:
  "check_components required seen cs = None \<longleftrightarrow>
     list_all validRFC9421ComponentName cs \<and> distinct cs \<and> set cs \<inter> set seen = {} \<and> set required \<subseteq> set cs"
proof (induction required seen cs rule: check_components.induct)
  case (2 required seen c cs)
  then show ?case by (cases "validRFC9421ComponentName c \<and> c \<notin> set seen") auto
qed auto

text \<open>The profile of a parsed message and its request, as one predicate.\<close>

definition profile_ok :: "externals \<Rightarrow> RFC9421Verifier \<Rightarrow> int \<Rightarrow> string \<Rightarrow> http_request \<Rightarrow> parsedRFC9421Message \<Rightarrow> bool" where
  "profile_ok X verifier now tag request message \<longleftrightarrow>
     Method request = ''POST'' \<and> Fragment request = [] \<and>
     (\<exists>u. URL request = Some u \<and> Host u \<in> {[], authority verifier} \<and>
        request_Host request \<in> {[], authority verifier} \<and> (Host u = authority verifier \<or> request_Host request = authority verifier)) \<and>
     Values request ''Content-Type'' = [''application/json''] \<and>
     (\<exists>text date. Values request ''Date'' = [text] \<and> ParseTime X text = Some date \<and>
        now - RFC9421MaximumAge \<le> date \<and> date \<le> now + RFC9421FutureSkew) \<and>
     Tag (params message) = tag \<and> Alg (params message) = RFC9421SignatureAlgorithm \<and>
     KeyID (params message) \<noteq> [] \<and> Nonce (params message) \<noteq> [] \<and>
     now - RFC9421MaximumAge \<le> Created (params message) \<and> Created (params message) \<le> now + RFC9421FutureSkew \<and>
     now < Expires (params message) \<and> Created (params message) < Expires (params message) \<and>
     Expires (params message) \<le> Created (params message) + RFC9421MaximumLifetime \<and>
     distinct (CoveredComponents (params message)) \<and>
     list_all validRFC9421ComponentName (CoveredComponents (params message)) \<and>
     set rfc9421POSTComponents \<subseteq> set (CoveredComponents (params message))"

definition digest_ok :: "externals \<Rightarrow> http_request \<Rightarrow> string \<Rightarrow> bool" where
  "digest_ok X request body \<longleftrightarrow> (\<exists>dictionary item.
     UnmarshalDictionary X (Values request ''Content-Digest'') = Some dictionary \<and>
     map_of dictionary ''sha-256'' = Some (Item item) \<and> item_value item = SfvBytes (sha256 X body))"

definition signature_ok :: "externals \<Rightarrow> RFC9421Verifier \<Rightarrow> http_request \<Rightarrow> parsedRFC9421Message \<Rightarrow> string \<Rightarrow> bool" where
  "signature_ok X verifier request message actor \<longleftrightarrow> (\<exists>resolved key n text.
     keyResolver verifier (KeyID (params message)) = Inr resolved \<and> key_id resolved = KeyID (params message) \<and>
     Owner resolved = actor \<and> ActorID resolved = actor \<and> NormalizeRelayActorURL actor = Inr actor \<and>
     PublicKey resolved = Some key \<and> modulus key = Some n \<and> minimumRFC9421RSAKeyBits \<le> BitLen n \<and>
     canonicalRFC9421SigningString request (authority verifier) (CoveredComponents (params message))
       (signatureParams message) = Inr text \<and>
     rsa_verify X key text (signature message))"

lemma validateRFC9421Parameters_None:
  assumes "validateRFC9421Parameters p now tag = None"
  shows "Tag p = tag" "Alg p = RFC9421SignatureAlgorithm" "KeyID p \<noteq> []" "Nonce p \<noteq> []"
    "now - RFC9421MaximumAge \<le> Created p" "Created p \<le> now + RFC9421FutureSkew" "now < Expires p"
    "Created p < Expires p" "Expires p \<le> Created p + RFC9421MaximumLifetime"
    "distinct (CoveredComponents p)" "list_all validRFC9421ComponentName (CoveredComponents p)"
    "set rfc9421POSTComponents \<subseteq> set (CoveredComponents p)"
  using assms by (auto simp: validateRFC9421Parameters_def check_components_None split: if_splits)

lemma validateRFC9421Request_None:
  assumes "validateRFC9421Request X request auth now = None" and "auth \<noteq> []"
  shows "Method request = ''POST''" "Fragment request = []"
    "\<exists>u. URL request = Some u \<and> Host u \<in> {[], auth} \<and> request_Host request \<in> {[], auth} \<and>
       (Host u = auth \<or> request_Host request = auth)"
    "Values request ''Content-Type'' = [''application/json'']"
    "\<exists>text date. Values request ''Date'' = [text] \<and> ParseTime X text = Some date \<and>
        now - RFC9421MaximumAge \<le> date \<and> date \<le> now + RFC9421FutureSkew"
proof -
  define ctype where "ctype = Values request ''Content-Type''"
  define date where "date = Values request ''Date''"
  obtain u where u: "URL request = Some u" using assms(1) by (cases "URL request") (auto simp: validateRFC9421Request_def)
  note V = assms(1) [unfolded validateRFC9421Request_def u option.case Let_def, folded ctype_def date_def]
  have m: "Method request = ''POST''" and ct: "ctype = [''application/json'']"
    using V by (simp_all split: if_split_asm)
  then show "Method request = ''POST''" "Values request ''Content-Type'' = [''application/json'']"
    by (simp_all add: ctype_def)
  note W = V [unfolded m ct, simplified]
  then show "Fragment request = []" by (simp split: if_split_asm)
  have "(if request_Host request = [] then Host u else request_Host request) = auth" "Host u = [] \<or> Host u = auth"
    using W by (simp_all split: if_split_asm)
  then show "\<exists>u. URL request = Some u \<and> Host u \<in> {[], auth} \<and> request_Host request \<in> {[], auth} \<and>
       (Host u = auth \<or> request_Host request = auth)"
    using u assms(2) by (auto split: if_splits)
  obtain dt where dt: "date = [dt]" using W by (cases date rule: remdups_adj.cases) (simp_all split: if_split_asm)
  then obtain t where "ParseTime X dt = Some t" "\<not> (t < now - RFC9421MaximumAge \<or> t > now + RFC9421FutureSkew)"
    using W by (cases "ParseTime X dt") (simp_all split: if_split_asm)
  with dt show "\<exists>text date. Values request ''Date'' = [text] \<and> ParseTime X text = Some date \<and>
        now - RFC9421MaximumAge \<le> date \<and> date \<le> now + RFC9421FutureSkew"
    by (auto simp: date_def)
qed

lemma digest_None:
  "VerifyRFC9530ContentDigestSHA256 X (Values request ''Content-Digest'') body = None \<Longrightarrow> digest_ok X request body"
  by (auto simp: VerifyRFC9530ContentDigestSHA256_def digest_ok_def
      split: if_splits option.splits sfv_member.splits sfv_value.splits)

lemma verify_key_Inr:
  assumes "verify_key X verifier request message = Inr v"
  shows "signature_ok X verifier request message (KeyOwner v)" "KeyActor v = KeyOwner v"
    "ver_KeyID v = KeyID (params message)" "ver_Nonce v = Nonce (params message)"
    "ver_Created v = Created (params message)" "ver_Expires v = Expires (params message)"
  using assms
  by (auto simp: verify_key_def validateRFC9421ResolvedKey_def signature_ok_def
      split: sum.splits option.splits if_splits prod.splits)

lemma VerifyPOSTWithTag_Inr:
  assumes "VerifyPOSTWithTag X verifier now request body tag = Inr v" and "authority verifier \<noteq> []"
  obtains message where "parseRFC9421Message X request = Inr message" "profile_ok X verifier now tag request message"
    "digest_ok X request body" "verify_key X verifier request message = Inr v"
proof -
  from assms(1) obtain message where m: "parseRFC9421Message X request = Inr message"
    "validateRFC9421Request X request (authority verifier) now = None"
    "validateRFC9421Parameters (params message) now tag = None"
    "VerifyRFC9530ContentDigestSHA256 X (Values request ''Content-Digest'') body = None"
    "verify_key X verifier request message = Inr v"
    by (auto simp: VerifyPOSTWithTag_def split: option.splits sum.splits)
  have "profile_ok X verifier now tag request message"
    unfolding profile_ok_def
    using validateRFC9421Parameters_None [OF m(3)] validateRFC9421Request_None [OF m(2) assms(2)] by blast
  with that m digest_None [OF m(4)] show ?thesis by blast
qed

subsection \<open>The signing string is unambiguous\<close>

lemma marker_split:
  "x \<notin> set a \<Longrightarrow> x \<notin> set b \<Longrightarrow> a @ x # r = b @ x # s \<longleftrightarrow> a = b \<and> r = s"
  by (induction a arbitrary: b; case_tac b) auto

lemma valid_name_no_quote: "validRFC9421ComponentName c \<Longrightarrow> CHR 0x22 \<notin> set c"
  by (auto simp: validRFC9421ComponentName_def list_all_iff is_lower_def is_digit_def chars_in_def code_def)

lemma signature_params_not_valid: "\<not> validRFC9421ComponentName ''@signature-params''"
  by (simp add: validRFC9421ComponentName_def)

lemma trim_left_subset: "set (trim_left s) \<subseteq> set s"
proof (induction s rule: trim_left.induct)
  case (1 s)
  show ?case
  proof (cases "leading_space s")
    case (Some n)
    with 1 [OF Some] set_drop_subset [of n s] show ?thesis by (subst trim_left.simps) auto
  qed (subst trim_left.simps, simp)
qed

lemma trim_right_subset: "set (trim_right s) \<subseteq> set s"
proof (induction s rule: trim_right.induct)
  case (1 s)
  show ?case
  proof (cases "trailing_space s")
    case (Some n)
    with 1 [OF Some] set_take_subset [of "length s - n" s] show ?thesis by (subst trim_right.simps) auto
  qed (subst trim_right.simps, simp)
qed

lemma trim_subset: "set (TrimSpace v) \<subseteq> set v"
  unfolding TrimSpace_def using trim_left_subset trim_right_subset by blast

definition newline :: char where "newline = CHR 0x0A"

text \<open>The components that do not come from a header have one line.\<close>

definition single_line :: "http_request \<Rightarrow> string \<Rightarrow> bool" where
  "single_line request auth \<longleftrightarrow> newline \<notin> set (Method request) \<and> newline \<notin> set auth \<and>
     (\<forall>v. rfc9421ComponentValue request auth ''@target-uri'' = Inr v \<longrightarrow> newline \<notin> set v)"

lemma join_no_newline:
  assumes "newline \<notin> set sep" and "\<forall>w \<in> set ws. newline \<notin> set w"
  shows "newline \<notin> set (join_with sep ws)"
  using assms by (auto simp: join_with_def split: list.splits)

lemma component_no_newline:
  assumes "single_line request auth" and "rfc9421ComponentValue request auth c = Inr v"
  shows "newline \<notin> set v"
proof (cases "c \<in> {''@method'', ''@authority'', ''@scheme'', ''@target-uri''}")
  case True
  with assms show ?thesis
    by (auto simp: single_line_def rfc9421ComponentValue_def newline_def split: option.splits)
next
  case False
  let ?vs = "Values request c"
  from False assms(2) have v: "v = join_with '', '' (map TrimSpace ?vs)" "\<forall>w \<in> set ?vs. newline \<notin> set w"
    by (auto simp: rfc9421ComponentValue_def Let_def newline_def list_ex_iff split: if_splits)
  show ?thesis
    unfolding v(1) using v(2) trim_subset by (intro join_no_newline) (auto simp: newline_def)
qed

lemma signing_lines_unambiguous:
  assumes "signing_lines r1 a1 cs1 = Inr t1" "signing_lines r2 a2 cs2 = Inr t2"
    and "t1 @ CHR 0x22 # ''@signature-params'' @ CHR 0x22 # e1 = t2 @ CHR 0x22 # ''@signature-params'' @ CHR 0x22 # e2"
    and "list_all validRFC9421ComponentName cs1" "list_all validRFC9421ComponentName cs2"
    and "single_line r1 a1" "single_line r2 a2"
  shows "cs1 = cs2 \<and> e1 = e2 \<and> (\<forall>c \<in> set cs1. rfc9421ComponentValue r1 a1 c = rfc9421ComponentValue r2 a2 c)"
  using assms
proof (induction cs1 arbitrary: cs2 t1 t2)
  case Nil
  show ?case
  proof (cases cs2)
    case (Cons c cs)
    with Nil obtain v rest where "t2 = [CHR 0x22] @ c @ [CHR 0x22] @ '': '' @ v @ [CHR 0x0A] @ rest"
      by (auto split: sum.splits)
    with Nil Cons have "''@signature-params'' @ CHR 0x22 # e1 =
        c @ CHR 0x22 # '': '' @ v @ [CHR 0x0A] @ rest @ CHR 0x22 # ''@signature-params'' @ CHR 0x22 # e2" by simp
    then have "''@signature-params'' = c"
      by (subst (asm) marker_split) (use Nil Cons valid_name_no_quote [of c] in auto)
    with Nil Cons signature_params_not_valid show ?thesis by auto
  qed (use Nil in auto)
next
  case (Cons c cs)
  from Cons.prems(1) obtain v rest where v: "rfc9421ComponentValue r1 a1 c = Inr v" "signing_lines r1 a1 cs = Inr rest"
    and t1: "t1 = [CHR 0x22] @ c @ [CHR 0x22] @ '': '' @ v @ [newline] @ rest"
    by (auto simp: newline_def split: sum.splits)
  let ?end1 = "CHR 0x22 # ''@signature-params'' @ CHR 0x22 # e1"
  let ?end2 = "CHR 0x22 # ''@signature-params'' @ CHR 0x22 # e2"
  have q1: "CHR 0x22 \<notin> set c" using Cons.prems(4) valid_name_no_quote by simp
  show ?case
  proof (cases cs2)
    case Nil
    with Cons.prems t1 have "c @ CHR 0x22 # '': '' @ v @ [newline] @ rest @ ?end1 = ''@signature-params'' @ CHR 0x22 # e2"
      by simp
    then have "c = ''@signature-params''" by (subst (asm) marker_split) (use q1 in auto)
    with Cons.prems(4) signature_params_not_valid show ?thesis by auto
  next
    case (Cons c' cs')
    note cs2 = this
    with Cons.prems(2) obtain v' rest' where v': "rfc9421ComponentValue r2 a2 c' = Inr v'"
      "signing_lines r2 a2 cs' = Inr rest'" and t2: "t2 = [CHR 0x22] @ c' @ [CHR 0x22] @ '': '' @ v' @ [newline] @ rest'"
      by (auto simp: newline_def split: sum.splits)
    have q2: "CHR 0x22 \<notin> set c'" using Cons.prems(5) cs2 valid_name_no_quote by simp
    from Cons.prems(3) t1 t2 have "c @ CHR 0x22 # '': '' @ v @ newline # rest @ ?end1 =
        c' @ CHR 0x22 # '': '' @ v' @ newline # rest' @ ?end2" by simp
    then have c: "c = c'" and lines: "v @ newline # rest @ ?end1 = v' @ newline # rest' @ ?end2"
      by (simp_all add: marker_split [OF q1 q2])
    have "newline \<notin> set v" "newline \<notin> set v'"
      using component_no_newline Cons.prems(6,7) v(1) v'(1) by blast+
    from marker_split [OF this] lines have "v = v'" "rest @ ?end1 = rest' @ ?end2" by simp_all
    with Cons.IH [OF v(2) v'(2)] Cons.prems(4-7) cs2 c v(1) v'(1) show ?thesis by auto
  qed
qed

end
