(* ===== verification/AuthRun.thy ===== *)
theory AuthRun
  imports Rfc9421
begin

section \<open>Runs of the authenticator\<close>

text \<open>
  One attempt: the two clock readings of the verifier, the clock reading, the context and
  the environment of the store, and the request. Sweeps are the maintenance calls of the
  store. The list of accepted attempts is the run's result.
\<close>

record attempt =
  at_now :: int
  at_later :: int
  at_store :: int
  at_ctx :: "goerror option"
  at_env :: environment
  at_request :: http_request
  at_body :: string
  at_actor :: string
  at_tag :: string

datatype auth_op = Attempt attempt | Sweep int "goerror option" environment int

fun op_clock :: "auth_op \<Rightarrow> int" where
  "op_clock (Attempt a) = at_store a"
| "op_clock (Sweep now ctx env limit) = now"

definition attempt_step :: "externals \<Rightarrow> RFC9421Verifier \<Rightarrow> int \<Rightarrow> attempt \<Rightarrow> replay_table
    \<Rightarrow> RFC9421Verification result \<times> replay_table" where
  "attempt_step X verifier batch a =
     VerifyPOSTAndReserveWithTag X verifier (at_now a) (at_later a)
       (\<lambda>key expiry. ReserveRFC9421Replay batch (at_ctx a) (at_env a) key expiry (at_store a))
       (at_request a) (at_body a) (at_actor a) (at_tag a)"

fun auth_run :: "externals \<Rightarrow> RFC9421Verifier \<Rightarrow> int \<Rightarrow> auth_op list \<Rightarrow> replay_table
    \<Rightarrow> (attempt \<times> RFC9421Verification) list" where
  "auth_run X verifier batch [] t = []"
| "auth_run X verifier batch (Attempt a # ops) t =
     (case attempt_step X verifier batch a t of
        (Inr v, t') \<Rightarrow> (a, v) # auth_run X verifier batch ops t'
      | (Inl _, t') \<Rightarrow> auth_run X verifier batch ops t')"
| "auth_run X verifier batch (Sweep now ctx env limit # ops) t =
     auth_run X verifier batch ops (snd (CleanupExpiredRFC9421Replay ctx env limit now t))"

abbreviation sqlite_reserve :: "int \<times> goerror option \<times> environment \<Rightarrow> string \<Rightarrow> int \<Rightarrow> int \<Rightarrow> replay_table
    \<Rightarrow> bool result \<times> replay_table" where
  "sqlite_reserve \<equiv> \<lambda>(batch, ctx, env). ReserveRFC9421Replay batch ctx env"

abbreviation sqlite_sweep :: "goerror option \<times> environment \<times> int \<Rightarrow> int \<Rightarrow> replay_table \<Rightarrow> replay_table" where
  "sqlite_sweep \<equiv> \<lambda>(ctx, env, limit) now t. snd (CleanupExpiredRFC9421Replay ctx env limit now t)"

text \<open>The calls of the store that an operation makes: none when verification or binding fails.\<close>

definition verified_attempt :: "externals \<Rightarrow> RFC9421Verifier \<Rightarrow> attempt \<Rightarrow> RFC9421Verification option" where
  "verified_attempt X verifier a =
     (case VerifyPOSTWithTag X verifier (at_now a) (at_request a) (at_body a) (at_tag a) of
        Inl _ \<Rightarrow> None
      | Inr v \<Rightarrow> if BindRelayActor v (at_actor a) = None then Some v else None)"

definition replay_key :: "externals \<Rightarrow> RFC9421Verification \<Rightarrow> string" where
  "replay_key X v = DeriveRFC9421ReplayKey (sha256 X) (ver_KeyID v) (ver_Nonce v)"

fun store_calls :: "externals \<Rightarrow> RFC9421Verifier \<Rightarrow> int \<Rightarrow> auth_op
    \<Rightarrow> (int \<times> (int \<times> goerror option \<times> environment, goerror option \<times> environment \<times> int) replay_op) list" where
  "store_calls X verifier batch (Attempt a) =
     (case verified_attempt X verifier a of
        None \<Rightarrow> []
      | Some v \<Rightarrow> [(at_store a, Reserve (batch, at_ctx a, at_env a) (replay_key X v) (at_later a + RFC9421ReplayTTL))])"
| "store_calls X verifier batch (Sweep now ctx env limit) = [(now, Maintain (ctx, env, limit))]"

definition grant_of :: "externals \<Rightarrow> attempt \<times> RFC9421Verification \<Rightarrow> string \<times> int \<times> int" where
  "grant_of X av = (replay_key X (snd av), at_store (fst av), at_later (fst av) + RFC9421ReplayTTL)"

lemma attempt_step_refused: "verified_attempt X verifier a = None \<Longrightarrow> \<exists>e. attempt_step X verifier batch a t = (Inl e, t)"
  by (auto simp: attempt_step_def VerifyPOSTAndReserveWithTag_def verified_attempt_def
      split: sum.splits option.splits if_splits)

lemma attempt_step_verified:
  assumes "verified_attempt X verifier a = Some v"
  shows "attempt_step X verifier batch a t =
    (case ReserveRFC9421Replay batch (at_ctx a) (at_env a) (replay_key X v) (at_later a + RFC9421ReplayTTL) (at_store a) t of
       (Inl _, t') \<Rightarrow> (Inl (Err ErrRFC9421ReplayStore), t')
     | (Inr reserved, t') \<Rightarrow> (if \<not> reserved then Inl (Err ErrRFC9421Replay) else Inr v, t'))"
  using assms
  by (auto simp: attempt_step_def VerifyPOSTAndReserveWithTag_def verified_attempt_def replay_key_def
      split: sum.splits option.splits if_splits)

lemma attempt_step_Inr:
  assumes "attempt_step X verifier batch a t = (Inr v, t')"
  shows "verified_attempt X verifier a = Some v"
  using assms attempt_step_refused [of X verifier a batch t] attempt_step_verified [of X verifier a _ batch t]
  by (cases "verified_attempt X verifier a") (auto split: prod.splits sum.splits if_splits)

lemma auth_run_granted:
  "map (grant_of X) (auth_run X verifier batch ops t) =
     granted sqlite_reserve sqlite_sweep (concat (map (store_calls X verifier batch) ops)) t"
proof (induction ops arbitrary: t)
  case (Cons op ops)
  show ?case
  proof (cases op)
    case (Attempt a)
    show ?thesis
    proof (cases "verified_attempt X verifier a")
      case None
      with attempt_step_refused [OF None, of batch t] Cons Attempt show ?thesis by auto
    next
      case (Some v)
      obtain r t' where res: "ReserveRFC9421Replay batch (at_ctx a) (at_env a) (replay_key X v)
          (at_later a + RFC9421ReplayTTL) (at_store a) t = (r, t')" by fastforce
      have step: "attempt_step X verifier batch a t =
          (case r of Inl _ \<Rightarrow> Inl (Err ErrRFC9421ReplayStore)
           | Inr reserved \<Rightarrow> if \<not> reserved then Inl (Err ErrRFC9421Replay) else Inr v, t')"
        by (simp add: attempt_step_verified [OF Some] res split: sum.splits)
      show ?thesis using Cons Attempt Some res step
        by (cases r) (auto simp: grant_of_def split: bool.splits)
    qed
  qed (use Cons in simp)
qed simp

lemma auth_run_verified:
  assumes "(a, v) \<in> set (auth_run X verifier batch ops t)"
  shows "verified_attempt X verifier a = Some v \<and> Attempt a \<in> set ops"
  using assms
proof (induction ops arbitrary: t)
  case (Cons op ops)
  show ?case
  proof (cases op)
    case (Attempt b)
    obtain r t' where step: "attempt_step X verifier batch b t = (r, t')" by fastforce
    with Cons Attempt show ?thesis
      by (cases r) (auto dest: attempt_step_Inr)
  next
    case (Sweep now ctx env limit)
    with Cons show ?thesis by auto
  qed
qed simp

lemma store_calls_clock: "x \<in> set (store_calls X verifier batch op) \<Longrightarrow> fst x = op_clock op"
  by (cases op) (auto split: option.splits)

lemma store_calls_sorted:
  assumes "sorted (map op_clock ops)"
  shows "sorted (map fst (concat (map (store_calls X verifier batch) ops)))"
proof -
  have "sorted (map fst (store_calls X verifier batch op))" for op
    by (cases op) (auto split: option.splits)
  with assms show ?thesis
    by (induction ops) (auto simp: sorted_append dest!: store_calls_clock)
qed

lemma distinct_sorted_wrt: "distinct xs \<longleftrightarrow> sorted_wrt (\<noteq>) xs"
  by (induction xs) auto

lemma verified_window:
  assumes "verified_attempt X verifier a = Some v"
  shows "ver_Created v \<le> at_now a + RFC9421FutureSkew" "at_now a < ver_Expires v"
    "ver_Expires v \<le> ver_Created v + RFC9421MaximumLifetime"
proof -
  from assms obtain message where m: "validateRFC9421Parameters (params message) (at_now a) (at_tag a) = None"
    "verify_key X verifier (at_request a) message = Inr v"
    by (auto simp: verified_attempt_def VerifyPOSTWithTag_def split: sum.splits option.splits if_splits)
  show "ver_Created v \<le> at_now a + RFC9421FutureSkew" "at_now a < ver_Expires v"
    "ver_Expires v \<le> ver_Created v + RFC9421MaximumLifetime"
    unfolding verify_key_Inr(5,6) [OF m(2)] using validateRFC9421Parameters_None [OF m(1)] by auto
qed

text \<open>
  An attempt whose clock readings are in order and whose reservation is made less than
  the slack between the retention of a nonce and the life of a signature after the
  profile check.
\<close>

definition reserve_slack :: int where
  "reserve_slack = RFC9421ReplayTTL - RFC9421FutureSkew - RFC9421MaximumLifetime"

fun prompt :: "auth_op \<Rightarrow> bool" where
  "prompt (Attempt a) \<longleftrightarrow> at_now a \<le> at_later a \<and> at_later a \<le> at_store a \<and> at_store a \<le> at_now a + reserve_slack"
| "prompt (Sweep now ctx env limit) \<longleftrightarrow> True"

definition signed_identity :: "RFC9421Verification \<Rightarrow> string \<times> string \<times> int \<times> int" where
  "signed_identity v = (ver_KeyID v, ver_Nonce v, ver_Created v, ver_Expires v)"

text \<open>C2: no signed message is ever accepted twice: over any run of attempts and sweeps on the
  SQLite store, under any faults, any requests and any external code, with clocks that do
  not go back and reservations made within 270 seconds of the profile check, the accepted
  signatures are pairwise distinct in key id, nonce and signature times.\<close>

theorem signature_accepted_once:
  assumes "replay_ok t" and "sorted (map op_clock ops)" and "list_all prompt ops"
  shows "distinct (map (\<lambda>av. signed_identity (snd av)) (auth_run X verifier batch ops t))"
proof -
  let ?run = "auth_run X verifier batch ops t"
  have "sorted_wrt (\<lambda>(key, now, x) (key', now', x'). key = key' \<longrightarrow> x \<le> now') (map (grant_of X) ?run)"
    unfolding auth_run_granted
    by (rule sqlite_replay.no_double_grant [OF assms(1) store_calls_sorted [OF assms(2)]])
  then have apart: "sorted_wrt (\<lambda>av bw. replay_key X (snd av) = replay_key X (snd bw) \<longrightarrow>
      at_later (fst av) + RFC9421ReplayTTL \<le> at_store (fst bw)) ?run"
    by (simp add: sorted_wrt_map grant_of_def)
  have "sorted_wrt (\<lambda>av bw. signed_identity (snd av) \<noteq> signed_identity (snd bw)) ?run"
  proof (rule sorted_wrt_mono_rel [OF _ apart])
    fix av bw
    assume av: "av \<in> set ?run" and bw: "bw \<in> set ?run"
      and imp: "replay_key X (snd av) = replay_key X (snd bw) \<longrightarrow> at_later (fst av) + RFC9421ReplayTTL \<le> at_store (fst bw)"
    show "signed_identity (snd av) \<noteq> signed_identity (snd bw)"
    proof
      assume same: "signed_identity (snd av) = signed_identity (snd bw)"
      have A: "verified_attempt X verifier (fst av) = Some (snd av)" "prompt (Attempt (fst av))"
        using auth_run_verified [of "fst av" "snd av" X verifier batch ops t] av assms(3)
        by (auto simp: list_all_iff simp del: prompt.simps)
      have B: "verified_attempt X verifier (fst bw) = Some (snd bw)" "prompt (Attempt (fst bw))"
        using auth_run_verified [of "fst bw" "snd bw" X verifier batch ops t] bw assms(3)
        by (auto simp: list_all_iff simp del: prompt.simps)
      from same imp have "at_later (fst av) + RFC9421ReplayTTL \<le> at_store (fst bw)"
        by (auto simp: signed_identity_def replay_key_def)
      with verified_window [OF A(1)] verified_window [OF B(1)] A(2) B(2) same show False
        by (auto simp: prompt.simps signed_identity_def reserve_slack_def)
    qed
  qed
  then show ?thesis by (simp add: distinct_sorted_wrt sorted_wrt_map)
qed


subsection \<open>An example\<close>

definition sample_sig_params :: sig_params where
  "sample_sig_params = \<lparr>KeyID = ''k'', Alg = RFC9421SignatureAlgorithm, Nonce = ''n'', Tag = RFC9421SignatureTag,
     Created = 990, Expires = 1200, CoveredComponents = rfc9421POSTComponents\<rparr>"

definition sample_digest :: string where "sample_digest = replicate 32 (CHR ''h'')"

definition sample_dictionary :: "string list \<Rightarrow> sfv_dictionary option" where
  "sample_dictionary values =
     (if values = [''i''] then
        Some [(''d'', InnerList \<lparr>inner_items = [\<lparr>item_value = SfvString ''@method'', item_params = Some []\<rparr>],
                inner_params = Some [(''keyid'', SfvString ''k'')]\<rparr>)]
      else if values = [''s''] then Some [(''d'', Item \<lparr>item_value = SfvBytes ''sig'', item_params = Some []\<rparr>)]
      else if values = [''c''] then Some [(''sha-256'', Item \<lparr>item_value = SfvBytes sample_digest, item_params = Some []\<rparr>)]
      else None)"

definition sample_externals :: externals where
  "sample_externals = \<lparr>UnmarshalDictionary = sample_dictionary, UnmarshalInnerList = (\<lambda>_. Some sample_sig_params),
     Marshal = (\<lambda>_. Some ''p''), sha256 = (\<lambda>_. sample_digest), rsa_verify = (\<lambda>_ _ s. s = ''sig''),
     ParseTime = (\<lambda>_. Some 1000)\<rparr>"

definition sample_modulus :: nat where "sample_modulus = 2 ^ 2047"

definition sample_key :: RFC9421ResolvedKey where
  "sample_key = \<lparr>key_id = ''k'', Owner = sample_actor, ActorID = sample_actor,
     PublicKey = Some \<lparr>modulus = Some sample_modulus, exponent = 65537\<rparr>\<rparr>"

definition sample_verifier :: RFC9421Verifier where
  "sample_verifier = \<lparr>authority = ''d.e'', keyResolver = (\<lambda>_. Inr sample_key)\<rparr>"

definition sample_url :: url where
  "sample_url = \<lparr>Scheme = [], Opaque_part = [], User = False, Host = [], Path = ''/v1/relays/register'', RawPath = [],
     RawQuery = [], ForceQuery = False\<rparr>"

definition sample_request :: http_request where
  "sample_request = \<lparr>Method = ''POST'', URL = Some sample_url, req_user = None, Fragment = [], RawFragment = [],
     RequestURI = ''/v1/relays/register'', request_Host = ''d.e'',
     Header = [(''Content-Type'', [''application/json'']), (''Date'', [''x'']), (''Signature-Input'', [''i'']),
       (''Signature'', [''s'']), (''Content-Digest'', [''c''])]\<rparr>"

definition sample_verification :: RFC9421Verification where
  "sample_verification = \<lparr>ver_KeyID = ''k'', KeyOwner = sample_actor, KeyActor = sample_actor, ver_Nonce = ''n'',
     ver_Created = 990, ver_Expires = 1200, ver_Components = rfc9421POSTComponents,
     SignatureAlgorithm = RFC9421SignatureAlgorithm\<rparr>"

lemma sample_selectors [simp]:
  "Method sample_request = ''POST''" "URL sample_request = Some sample_url" "Fragment sample_request = []"
  "request_Host sample_request = ''d.e''" "Host sample_url = []" "Scheme sample_url = []"
  by (simp_all add: sample_request_def sample_url_def)

lemma BitLen_power: "BitLen (2 ^ n) = Suc n"
  by (induction n) (simp_all add: BitLen.simps [of "Suc 0"] BitLen.simps [of 0] BitLen.simps [of "2 * _"])

lemma sample_modulus_bits: "BitLen sample_modulus = 2048"
  unfolding sample_modulus_def by (rule trans [OF BitLen_power]) simp

lemma sample_values:
  "Values sample_request ''Content-Type'' = [''application/json'']" "Values sample_request ''content-type'' = [''application/json'']"
  "Values sample_request ''Date'' = [''x'']" "Values sample_request ''date'' = [''x'']"
  "Values sample_request ''Signature-Input'' = [''i'']" "Values sample_request ''Signature'' = [''s'']"
  "Values sample_request ''Content-Digest'' = [''c'']" "Values sample_request ''content-digest'' = [''c'']"
  by (simp_all add: Values_def sample_request_def CanonicalMIMEHeaderKey_def token_byte_def is_alnum_def is_lower_def
      is_upper_def is_digit_def chars_in_def code_def to_upper_def to_lower_def char_of_def bit_0)

lemma sample_signing:
  "\<exists>line. canonicalRFC9421SigningString sample_request ''d.e'' rfc9421POSTComponents ''p'' = Inr line"
  by (simp add: canonicalRFC9421SigningString_def rfc9421POSTComponents_def rfc9421ComponentValue_def sample_values
      Let_def)

lemma sample_verified: "VerifyPOSTWithTag sample_externals sample_verifier 1000 sample_request b RFC9421SignatureTag = Inr sample_verification"
proof -
  have tag: "RFC9421SignatureTag \<noteq> []" by (simp add: RFC9421SignatureTag_def)
  have req: "validateRFC9421Request sample_externals sample_request ''d.e'' 1000 = None"
    by (simp add: validateRFC9421Request_def sample_values sample_externals_def RFC9421MaximumAge_def RFC9421FutureSkew_def)
  have msg: "parseRFC9421Message sample_externals sample_request =
      Inr \<lparr>params = sample_sig_params, signatureParams = ''p'', signature = ''sig''\<rparr>"
    by (simp add: parseRFC9421Message_def sample_values sample_externals_def sample_dictionary_def parse_input_def
        parse_signature_def plain_string_item_def allowedParameters_def maxRFC9421Components_def
        maxRFC9421SignatureBytes_def)
  have par: "validateRFC9421Parameters sample_sig_params 1000 RFC9421SignatureTag = None"
    using tag
    by (simp add: validateRFC9421Parameters_def sample_sig_params_def check_components_None rfc9421POSTComponents_def
        validRFC9421ComponentName_def maxRFC9421KeyIDBytes_def maxRFC9421NonceBytes_def zeroTime_def
        RFC9421MaximumAge_def RFC9421FutureSkew_def RFC9421MaximumLifetime_def url_eval)
  have dig: "VerifyRFC9530ContentDigestSHA256 sample_externals (Values sample_request ''Content-Digest'') b = None"
    by (simp add: VerifyRFC9530ContentDigestSHA256_def sample_values sample_externals_def sample_dictionary_def sample_digest_def)
  have key: "validateRFC9421ResolvedKey sample_key ''k'' = Inr (sample_actor, sample_actor)"
    by (simp add: validateRFC9421ResolvedKey_def sample_key_def sample_modulus_bits minimumRFC9421RSAKeyBits_def
        sample_actor_canonical)
  obtain line where line: "canonicalRFC9421SigningString sample_request ''d.e'' rfc9421POSTComponents ''p'' = Inr line"
    using sample_signing by blast
  have "verify_key sample_externals sample_verifier sample_request
      \<lparr>params = sample_sig_params, signatureParams = ''p'', signature = ''sig''\<rparr> = Inr sample_verification"
    using key line
    by (simp add: verify_key_def sample_verifier_def sample_sig_params_def sample_externals_def sample_verification_def)
  with req msg par dig show ?thesis by (simp add: VerifyPOSTWithTag_def sample_verifier_def)
qed

definition sample_attempt :: "int \<Rightarrow> attempt" where
  "sample_attempt now = \<lparr>at_now = 1000, at_later = 1000, at_store = now, at_ctx = None, at_env = calm,
     at_request = sample_request, at_body = [], at_actor = sample_actor, at_tag = RFC9421SignatureTag\<rparr>"

lemma sample_attempt_selectors [simp]:
  "at_now (sample_attempt now) = 1000" "at_later (sample_attempt now) = 1000" "at_store (sample_attempt now) = now"
  "at_ctx (sample_attempt now) = None" "at_env (sample_attempt now) = calm"
  by (simp_all add: sample_attempt_def)

lemma sample_attempt_verified: "verified_attempt sample_externals sample_verifier (sample_attempt now) = Some sample_verification"
  by (simp add: verified_attempt_def sample_attempt_def sample_verified BindRelayActor_def sample_verification_def
      sample_actor_canonical)

lemma sample_attempt_accepted:
  "fst (attempt_step sample_externals sample_verifier 256 (sample_attempt 1000) []) = Inr sample_verification"
proof -
  have "fst (ReserveRFC9421Replay 256 None calm sample_digest 1600 1000 []) = Inr True"
    using reserve_calm [of "[]" 256 1000 1600 sample_digest]
    by (simp add: replay_ok_def replay_held_def maximumRFC9421ReplayCleanupBatch_def RFC9421ReplayTTL_def sample_digest_def)
  moreover have "replay_key sample_externals v = sample_digest" for v
    by (simp add: replay_key_def DeriveRFC9421ReplayKey_def sample_externals_def)
  ultimately show ?thesis
    by (simp add: attempt_step_verified [OF sample_attempt_verified] RFC9421ReplayTTL_def)
      (cases "ReserveRFC9421Replay 256 None calm sample_digest 1600 1000 []", simp)
qed

theorem signature_accepted_once_witness:
  "fst (attempt_step sample_externals sample_verifier 256 (sample_attempt 1000) []) = Inr sample_verification \<and>
   distinct (map (\<lambda>av. signed_identity (snd av))
     (auth_run sample_externals sample_verifier 256 [Attempt (sample_attempt 1000), Attempt (sample_attempt 1200)] []))"
  using signature_accepted_once [of "[]" "[Attempt (sample_attempt 1000), Attempt (sample_attempt 1200)]"
      sample_externals sample_verifier 256] sample_attempt_accepted
  by (simp add: replay_ok_def reserve_slack_def RFC9421ReplayTTL_def RFC9421FutureSkew_def
      RFC9421MaximumLifetime_def)

text \<open>C3: what a successful verify-and-reserve establishes, whatever the external code does:
  the request is a POST for this authority with the JSON content type and a current date;
  the signature carries the expected tag and algorithm, is within its time window and
  covers the six required components without duplicates; the content digest is that of
  the body; the signature verifies over the canonical signing string under an RSA key of
  at least 2048 bits that the resolver gave for exactly this key id and that belongs to
  the relay actor of the request; and the nonce was reserved.\<close>

theorem verification_sound:
  assumes "VerifyPOSTAndReserveWithTag X verifier now later reserve request body relayActor tag s = (Inr v, s')"
    and "authority verifier \<noteq> []"
  shows "\<exists>message. parseRFC9421Message X request = Inr message \<and> profile_ok X verifier now tag request message \<and>
    digest_ok X request body \<and> signature_ok X verifier request message relayActor \<and>
    KeyOwner v = relayActor \<and> KeyActor v = relayActor \<and>
    ver_KeyID v = KeyID (params message) \<and> ver_Nonce v = Nonce (params message) \<and>
    reserve (DeriveRFC9421ReplayKey (sha256 X) (ver_KeyID v) (ver_Nonce v)) (later + RFC9421ReplayTTL) s = (Inr True, s')"
proof -
  from assms(1) have ver: "VerifyPOSTWithTag X verifier now request body tag = Inr v"
    and bind: "BindRelayActor v relayActor = None"
    and res: "reserve (DeriveRFC9421ReplayKey (sha256 X) (ver_KeyID v) (ver_Nonce v)) (later + RFC9421ReplayTTL) s = (Inr True, s')"
    by (auto simp: VerifyPOSTAndReserveWithTag_def split: sum.splits option.splits prod.splits if_splits)
  obtain message where m: "parseRFC9421Message X request = Inr message" "profile_ok X verifier now tag request message"
    "digest_ok X request body" "verify_key X verifier request message = Inr v"
    by (rule VerifyPOSTWithTag_Inr [OF ver assms(2)])
  note K = verify_key_Inr [OF m(4)]
  from bind have "KeyOwner v = relayActor" by (auto simp: BindRelayActor_def split: if_splits)
  with m K res show ?thesis by auto
qed

theorem verification_sound_witness:
  "\<exists>t' message. attempt_step sample_externals sample_verifier 256 (sample_attempt 1000) [] = (Inr sample_verification, t') \<and>
     parseRFC9421Message sample_externals sample_request = Inr message \<and>
     profile_ok sample_externals sample_verifier 1000 RFC9421SignatureTag sample_request message"
proof -
  obtain t' where t': "attempt_step sample_externals sample_verifier 256 (sample_attempt 1000) [] = (Inr sample_verification, t')"
    using sample_attempt_accepted by (metis prod.collapse)
  from verification_sound [OF t' [unfolded attempt_step_def]] t' show ?thesis
    by (auto simp: sample_verifier_def sample_attempt_def)
qed

text \<open>The signing string is an injective encoding of what is signed: two requests with
  the same signing string have the same covered components in the same order, the same
  signature parameters and the same value for every covered component, so a signature
  made for one message never verifies for another.\<close>

theorem signing_string_unambiguous:
  assumes "canonicalRFC9421SigningString r1 a1 cs1 p1 = Inr line" "canonicalRFC9421SigningString r2 a2 cs2 p2 = Inr line"
    and "list_all validRFC9421ComponentName cs1" "list_all validRFC9421ComponentName cs2"
    and "single_line r1 a1" "single_line r2 a2"
  shows "cs1 = cs2 \<and> p1 = p2 \<and> (\<forall>c \<in> set cs1. rfc9421ComponentValue r1 a1 c = rfc9421ComponentValue r2 a2 c)"
proof -
  from assms(1,2) obtain t1 t2 where t: "signing_lines r1 a1 cs1 = Inr t1" "signing_lines r2 a2 cs2 = Inr t2"
    "t1 @ CHR 0x22 # ''@signature-params'' @ CHR 0x22 # '': '' @ p1 = t2 @ CHR 0x22 # ''@signature-params'' @ CHR 0x22 # '': '' @ p2"
    by (auto simp: canonicalRFC9421SigningString_def split: if_splits sum.splits)
  from signing_lines_unambiguous [OF t assms(3-6)] show ?thesis by simp
qed

definition sample_request2 :: http_request where
  "sample_request2 = sample_request\<lparr>RequestURI := []\<rparr>"

lemma sample_single_line: "single_line sample_request ''d.e''" "single_line sample_request2 ''d.e''"
  by (simp_all add: single_line_def rfc9421ComponentValue_def sample_request2_def url_String_def sample_request_def
      sample_url_def newline_def url_eval)

lemma sample_same_value: "rfc9421ComponentValue sample_request2 a c = rfc9421ComponentValue sample_request a c"
  by (simp add: rfc9421ComponentValue_def sample_request2_def Values_def url_String_def EscapedFragment_def sample_request_def Let_def)

lemma sample_same_lines: "signing_lines sample_request2 a cs = signing_lines sample_request a cs"
  by (induction cs) (auto simp: sample_same_value split: sum.splits)

theorem signing_string_unambiguous_witness:
  "map (rfc9421ComponentValue sample_request ''d.e'') rfc9421POSTComponents =
   map (rfc9421ComponentValue sample_request2 ''d.e'') rfc9421POSTComponents"
proof -
  obtain line where line: "canonicalRFC9421SigningString sample_request ''d.e'' rfc9421POSTComponents ''p'' = Inr line"
    using sample_signing by blast
  moreover have "canonicalRFC9421SigningString sample_request2 ''d.e'' rfc9421POSTComponents ''p'' = Inr line"
    using line by (simp add: canonicalRFC9421SigningString_def sample_same_lines) (simp add: sample_request2_def)
  moreover have "list_all validRFC9421ComponentName rfc9421POSTComponents"
    by (simp add: rfc9421POSTComponents_def validRFC9421ComponentName_def is_lower_def is_digit_def chars_in_def code_def)
  ultimately show ?thesis
    using signing_string_unambiguous [of sample_request "''d.e''" rfc9421POSTComponents "''p''" line sample_request2 "''d.e''"
        rfc9421POSTComponents "''p''"] sample_single_line by simp
qed

end
