(* ===== verification/Growth.thy ===== *)
theory Growth
  imports Tx GoStd "HOL-Library.Signed_Division"
begin

section \<open>The database growth guard\<close>

text \<open>
  \<open>internal/storage/growth.go\<close> and \<open>internal/storage/sqlite/growth.go\<close>: the guard samples
  the size of the database before every write, refuses writes at the hard limit and keeps
  one pending administrator alert. Here are the checked 64-bit arithmetic, the page
  limits, one sample, the classification with hysteresis, the persistent alert row, and
  the operations of the guard. What SQLite and the file system report during a call is an
  argument of the operation (a probe); the mail command is its delivery result.
\<close>

subsection \<open>Vocabulary and limits\<close>

text \<open>The Go string types keep a constructor for text outside the vocabulary, for which \<open>Valid\<close> is false.\<close>

datatype DatabaseGrowthState =
    DatabaseGrowthNormal | DatabaseGrowthWarning | DatabaseGrowthCritical | DatabaseGrowthHard
  | GrowthStateText string

fun growth_Valid :: "DatabaseGrowthState \<Rightarrow> bool" where
  "growth_Valid (GrowthStateText _) = False"
| "growth_Valid _ = True"

datatype DatabaseGrowthAlertKind =
    DatabaseGrowthAlertWarning | DatabaseGrowthAlertCritical | DatabaseGrowthAlertHard
  | DatabaseGrowthAlertRecovered | DatabaseGrowthAlertTest

fun alert_text :: "DatabaseGrowthAlertKind \<Rightarrow> string" where
  "alert_text DatabaseGrowthAlertWarning = ''warning''"
| "alert_text DatabaseGrowthAlertCritical = ''critical''"
| "alert_text DatabaseGrowthAlertHard = ''hard-limit''"
| "alert_text DatabaseGrowthAlertRecovered = ''recovered''"
| "alert_text DatabaseGrowthAlertTest = ''test''"

definition MaximumDatabaseMaxBytes :: int where "MaximumDatabaseMaxBytes = 2 ^ 40"
definition DatabaseCriticalPercent :: int where "DatabaseCriticalPercent = 90"
definition DatabaseHardPercent :: int where "DatabaseHardPercent = 100"
definition DatabaseGrowthRecoveryHysteresisPercent :: int where "DatabaseGrowthRecoveryHysteresisPercent = 5"
definition MaximumDatabaseGrowthHeadroomBytes :: int where "MaximumDatabaseGrowthHeadroomBytes = 128 * 2 ^ 20"
definition maximumGrowthPercentReport :: int where "maximumGrowthPercentReport = 999"
definition second :: int where "second = 1000000000"

lemmas growth_constants = MaximumDatabaseMaxBytes_def DatabaseCriticalPercent_def DatabaseHardPercent_def
  DatabaseGrowthRecoveryHysteresisPercent_def MaximumDatabaseGrowthHeadroomBytes_def
  maximumGrowthPercentReport_def second_def

subsection \<open>Checked arithmetic\<close>

text \<open>Go division truncates towards zero (\<open>sdiv\<close>) and its products wrap at 64 bits (\<open>int64\<close>).\<close>

definition checkedMultiply :: "int \<Rightarrow> int \<Rightarrow> int option" where
  "checkedMultiply a b =
     (if a < 0 \<or> b < 0 \<or> (a \<noteq> 0 \<and> b > max_int64 sdiv a) then None else Some (int64 (a * b)))"

fun checkedAdd_from :: "int \<Rightarrow> int list \<Rightarrow> int option" where
  "checkedAdd_from tot [] = Some tot"
| "checkedAdd_from tot (v # vs) =
     (if v < 0 \<or> tot > int64 (max_int64 - v) then None else checkedAdd_from (int64 (tot + v)) vs)"

definition checkedAdd :: "int list \<Rightarrow> int option" where
  "checkedAdd vs = checkedAdd_from 0 vs"

definition roundUp :: "int \<Rightarrow> int \<Rightarrow> int" where
  "roundUp v unit =
     (if v \<le> 0 \<or> unit \<le> 0 then 0
      else let remainder = v smod unit in
        if remainder = 0 then v
        else if v > int64 (max_int64 - int64 (unit - remainder)) then 0
        else int64 (v + int64 (unit - remainder)))"

definition atLeastPercent :: "int \<Rightarrow> int \<Rightarrow> int \<Rightarrow> bool" where
  "atLeastPercent v maximum pct =
     (if maximum \<le> 0 \<or> v < 0 \<or> pct \<le> 0 then False
      else if v \<ge> maximum then True
      else v \<ge> int64 (int64 (maximum * pct) + 99) sdiv 100)"

definition boundedPercent :: "int \<Rightarrow> int \<Rightarrow> int" where
  "boundedPercent v maximum =
     (if maximum \<le> 0 \<or> v \<le> 0 then 0
      else if v \<ge> int64 (maximum * maximumGrowthPercentReport) sdiv 100 then maximumGrowthPercentReport
      else int64 (v * 100) sdiv maximum)"

subsection \<open>Classification\<close>

definition classifyGrowthState :: "int \<Rightarrow> int \<Rightarrow> int \<Rightarrow> int \<Rightarrow> int \<Rightarrow> DatabaseGrowthState" where
  "classifyGrowthState usedLogical mainLimit physicalFamily maxBytes warningPercent =
     (if atLeastPercent usedLogical mainLimit DatabaseHardPercent \<or>
         atLeastPercent physicalFamily maxBytes DatabaseHardPercent then DatabaseGrowthHard
      else if atLeastPercent usedLogical mainLimit DatabaseCriticalPercent \<or>
         atLeastPercent physicalFamily maxBytes DatabaseCriticalPercent then DatabaseGrowthCritical
      else if atLeastPercent usedLogical mainLimit warningPercent \<or>
         atLeastPercent physicalFamily maxBytes warningPercent then DatabaseGrowthWarning
      else DatabaseGrowthNormal)"

fun growthRank :: "DatabaseGrowthState \<Rightarrow> int" where
  "growthRank DatabaseGrowthNormal = 0"
| "growthRank DatabaseGrowthWarning = 1"
| "growthRank DatabaseGrowthCritical = 2"
| "growthRank DatabaseGrowthHard = 3"
| "growthRank (GrowthStateText _) = - 1"

definition applyGrowthHysteresis :: "DatabaseGrowthState \<Rightarrow> int \<Rightarrow> DatabaseGrowthState \<Rightarrow> int \<Rightarrow> DatabaseGrowthState" where
  "applyGrowthHysteresis base pressure previous warning =
     (if \<not> growth_Valid previous then base
      else if growthRank base \<ge> growthRank previous then base
      else case previous of
        DatabaseGrowthHard \<Rightarrow>
          if pressure \<ge> DatabaseHardPercent - DatabaseGrowthRecoveryHysteresisPercent then DatabaseGrowthHard else base
      | DatabaseGrowthCritical \<Rightarrow>
          if pressure \<ge> DatabaseCriticalPercent - DatabaseGrowthRecoveryHysteresisPercent then DatabaseGrowthCritical else base
      | DatabaseGrowthWarning \<Rightarrow>
          if pressure \<ge> warning - DatabaseGrowthRecoveryHysteresisPercent then DatabaseGrowthWarning else base
      | _ \<Rightarrow> base)"

subsection \<open>Probes\<close>

text \<open>
  What one call sees of SQLite (\<open>PRAGMA\<close> values, \<open>None\<close> for a failed query) and of the
  file system (\<open>os.Lstat\<close>: symbolic link, regular file, size). Both report 64-bit integers.
\<close>

datatype file_stat = StatMissing | StatFailed | Stat bool bool int

record probe =
  pragma :: "string \<Rightarrow> int option"
  lstat :: "string \<Rightarrow> file_stat"

definition pragmaInt64 :: "probe \<Rightarrow> string \<Rightarrow> int result" where
  "pragmaInt64 p name =
     (if name \<in> {''page_size'', ''page_count'', ''freelist_count'', ''max_page_count'', ''cache_spill''} then
        case pragma p name of None \<Rightarrow> Inl driver_error | Some v \<Rightarrow> Inr (int64 v)
      else Inl (Err ErrGrowthConfiguration))"

definition growthFailure :: "sentinel \<Rightarrow> string \<Rightarrow> goerror" where
  "growthFailure s what = Wrapped s what (Opaque [])"

definition secureSidecarSize :: "probe \<Rightarrow> string \<Rightarrow> bool \<Rightarrow> int result" where
  "secureSidecarSize p path required =
     (case lstat p path of
        StatMissing \<Rightarrow> if \<not> required then Inr 0 else Inl (growthFailure ErrGrowthSample ''database family file'')
      | StatFailed \<Rightarrow> Inl (growthFailure ErrGrowthSample ''database family file'')
      | Stat symlink regular n \<Rightarrow>
          if symlink \<or> \<not> regular \<or> int64 n < 0 then Inl (growthFailure ErrGrowthSample ''database family file'')
          else Inr (int64 n))"

text \<open>The page limits: \<open>(desired pages, effective pages, main-file limit in bytes)\<close>.\<close>

definition databaseGrowthPageLimits :: "probe \<Rightarrow> int \<Rightarrow> (int \<times> int \<times> int) result" where
  "databaseGrowthPageLimits p maxBytes =
     (if maxBytes \<le> 0 \<or> maxBytes > MaximumDatabaseMaxBytes then Inl (Err ErrGrowthConfiguration)
      else case pragmaInt64 p ''page_size'' of
        Inl _ \<Rightarrow> Inl (growthFailure ErrGrowthConfiguration ''page size'')
      | Inr pageSize \<Rightarrow>
      if pageSize \<le> 0 then Inl (growthFailure ErrGrowthConfiguration ''page size'')
      else case pragmaInt64 p ''page_count'' of
        Inl _ \<Rightarrow> Inl (growthFailure ErrGrowthConfiguration ''page count'')
      | Inr pageCount \<Rightarrow>
      if pageCount < 0 then Inl (growthFailure ErrGrowthConfiguration ''page count'')
      else let
        eighth = maxBytes sdiv 8;
        capped = if eighth > MaximumDatabaseGrowthHeadroomBytes then MaximumDatabaseGrowthHeadroomBytes else eighth;
        minimumHeadroom = int64 (pageSize * 4);
        raised = if capped < minimumHeadroom then minimumHeadroom else capped;
        headroom = roundUp raised pageSize
      in if headroom \<le> 0 \<or> headroom \<ge> maxBytes then Inl (Err ErrGrowthConfiguration)
      else let
        mainLimit = maxBytes - headroom;
        desiredPages = mainLimit sdiv pageSize
      in if desiredPages \<le> 0 then Inl (Err ErrGrowthConfiguration)
      else Inr (desiredPages, if pageCount > desiredPages then pageCount else desiredPages, int64 (desiredPages * pageSize)))"

definition verifyDatabaseGrowthConnectionPolicy :: "probe \<Rightarrow> int \<Rightarrow> int \<Rightarrow> int \<Rightarrow> bool \<Rightarrow> goerror option" where
  "verifyDatabaseGrowthConnectionPolicy p maxBytes desiredPages mainLimit cacheSpillEnabled =
     (case databaseGrowthPageLimits p maxBytes of
        Inl e \<Rightarrow> Some e
      | Inr (computedDesired, expectedEffective, computedMainLimit) \<Rightarrow>
      if computedDesired \<noteq> desiredPages \<or> computedMainLimit \<noteq> mainLimit then
        Some (growthFailure ErrGrowthConfiguration ''growth limit changed during open'')
      else if pragmaInt64 p ''max_page_count'' \<noteq> Inr expectedEffective then
        Some (growthFailure ErrGrowthConfiguration ''pooled max page count not enforced'')
      else case pragmaInt64 p ''cache_spill'' of
        Inl _ \<Rightarrow> Some (growthFailure ErrGrowthConfiguration ''pooled cache spill policy not enforced'')
      | Inr cacheSpill \<Rightarrow>
          if (cacheSpillEnabled \<and> cacheSpill = 0) \<or> (\<not> cacheSpillEnabled \<and> cacheSpill \<noteq> 0)
          then Some (growthFailure ErrGrowthConfiguration ''pooled cache spill policy not enforced'')
          else None)"

definition ConfigureDatabaseGrowthLimit :: "probe \<Rightarrow> (int \<Rightarrow> int option) \<Rightarrow> int \<Rightarrow> (int \<times> int) result" where
  "ConfigureDatabaseGrowthLimit p setMaxPageCount maxBytes =
     (case databaseGrowthPageLimits p maxBytes of
        Inl e \<Rightarrow> Inl e
      | Inr (desiredPages, expectedEffective, mainLimit) \<Rightarrow>
      case setMaxPageCount desiredPages of
        None \<Rightarrow> Inl (growthFailure ErrGrowthConfiguration ''max page count'')
      | Some effective \<Rightarrow>
          if effective \<le> 0 then Inl (growthFailure ErrGrowthConfiguration ''max page count'')
          else if effective \<noteq> expectedEffective then
            Inl (growthFailure ErrGrowthConfiguration ''max page count not enforced'')
          else Inr (desiredPages, mainLimit))"

subsection \<open>One sample\<close>

record DatabaseGrowthSample =
  sample_ObservedUnix :: int
  sample_State :: DatabaseGrowthState
  PressurePercent :: int
  PageSize :: int
  PageCount :: int
  UsedPages :: int
  ReusablePages :: int
  MaxPageCount :: int
  UsedLogicalBytes :: int
  AllocatedLogicalBytes :: int
  MainPageLimitBytes :: int
  PhysicalMainBytes :: int
  WALBytes :: int
  SHMBytes :: int
  PhysicalFamilyBytes :: int
  GrowthBytes :: int
  GrowthKnown :: bool
  sample_MaxBytes :: int
  sample_WarningPercent :: int
  sample_RetentionDays :: int
  WriteAllowed :: bool

definition empty_sample :: DatabaseGrowthSample where
  "empty_sample = \<lparr>sample_ObservedUnix = 0, sample_State = GrowthStateText [], PressurePercent = 0, PageSize = 0,
     PageCount = 0, UsedPages = 0, ReusablePages = 0, MaxPageCount = 0, UsedLogicalBytes = 0,
     AllocatedLogicalBytes = 0, MainPageLimitBytes = 0, PhysicalMainBytes = 0, WALBytes = 0, SHMBytes = 0,
     PhysicalFamilyBytes = 0, GrowthBytes = 0, GrowthKnown = False, sample_MaxBytes = 0,
     sample_WarningPercent = 0, sample_RetentionDays = 0, WriteAllowed = False\<rparr>"

text \<open>The pragma reads of a sample: page size, page count, free-list count and effective maximum.\<close>

definition sample_pages :: "probe \<Rightarrow> (int \<times> int \<times> int \<times> int) result" where
  "sample_pages p =
     (case pragmaInt64 p ''page_size'' of Inl _ \<Rightarrow> Inl (growthFailure ErrGrowthSample ''page_size'')
      | Inr pageSize \<Rightarrow>
      if pageSize \<le> 0 then Inl (growthFailure ErrGrowthSample ''page_size'')
      else case pragmaInt64 p ''page_count'' of Inl _ \<Rightarrow> Inl (growthFailure ErrGrowthSample ''page_count'')
      | Inr pageCount \<Rightarrow>
      if pageCount < 0 then Inl (growthFailure ErrGrowthSample ''page_count'')
      else case pragmaInt64 p ''freelist_count'' of Inl _ \<Rightarrow> Inl (growthFailure ErrGrowthSample ''freelist_count'')
      | Inr freelistCount \<Rightarrow>
      if freelistCount < 0 \<or> freelistCount > pageCount then Inl (growthFailure ErrGrowthSample ''freelist_count'')
      else case pragmaInt64 p ''max_page_count'' of Inl _ \<Rightarrow> Inl (growthFailure ErrGrowthSample ''max_page_count'')
      | Inr effectiveMaxPages \<Rightarrow>
      if effectiveMaxPages \<le> 0 then Inl (growthFailure ErrGrowthSample ''max_page_count'')
      else Inr (pageSize, pageCount, freelistCount, effectiveMaxPages))"

text \<open>The sizes of the main file and of the \<open>-wal\<close> and \<open>-shm\<close> sidecars.\<close>

definition sample_files :: "probe \<Rightarrow> string \<Rightarrow> (int \<times> int \<times> int) result" where
  "sample_files p path =
     (case secureSidecarSize p path True of Inl e \<Rightarrow> Inl e
      | Inr mainBytes \<Rightarrow>
      case secureSidecarSize p (path @ ''-wal'') False of Inl e \<Rightarrow> Inl e
      | Inr walBytes \<Rightarrow>
      case secureSidecarSize p (path @ ''-shm'') False of Inl e \<Rightarrow> Inl e
      | Inr shmBytes \<Rightarrow> Inr (mainBytes, walBytes, shmBytes))"

definition sampleDatabaseGrowth :: "probe \<Rightarrow> string \<Rightarrow> int \<Rightarrow> int \<Rightarrow> int \<Rightarrow> int \<Rightarrow> int
    \<Rightarrow> DatabaseGrowthSample option \<Rightarrow> DatabaseGrowthState \<Rightarrow> DatabaseGrowthSample result" where
  "sampleDatabaseGrowth p path maxBytes warningPercent retentionDays desiredMaxPageCount mainPageLimitBytes previous previousState =
     (if path = [] \<or> maxBytes \<le> 0 \<or> warningPercent \<le> 0 \<or> warningPercent \<ge> DatabaseCriticalPercent \<or>
         desiredMaxPageCount \<le> 0 \<or> mainPageLimitBytes \<le> 0 then Inl (Err ErrGrowthConfiguration)
      else case sample_pages p of Inl e \<Rightarrow> Inl e
      | Inr (pageSize, pageCount, freelistCount, effectiveMaxPages) \<Rightarrow>
      case sample_files p path of Inl e \<Rightarrow> Inl e
      | Inr (mainBytes, walBytes, shmBytes) \<Rightarrow>
      case checkedMultiply (pageCount - freelistCount) pageSize of None \<Rightarrow> Inl (Err ErrGrowthSample)
      | Some usedBytes \<Rightarrow>
      case checkedMultiply pageCount pageSize of None \<Rightarrow> Inl (Err ErrGrowthSample)
      | Some allocatedBytes \<Rightarrow>
      case checkedAdd [mainBytes, walBytes, shmBytes] of None \<Rightarrow> Inl (Err ErrGrowthSample)
      | Some family \<Rightarrow>
      let
        logicalPct = boundedPercent usedBytes mainPageLimitBytes;
        physicalPct = boundedPercent family maxBytes;
        pressure = if physicalPct > logicalPct then physicalPct else logicalPct;
        baseState = classifyGrowthState usedBytes mainPageLimitBytes family maxBytes warningPercent;
        state = applyGrowthHysteresis baseState pressure previousState warningPercent
      in Inr \<lparr>sample_ObservedUnix = 0, sample_State = state, PressurePercent = pressure, PageSize = pageSize,
           PageCount = pageCount, UsedPages = pageCount - freelistCount, ReusablePages = freelistCount,
           MaxPageCount = effectiveMaxPages, UsedLogicalBytes = usedBytes, AllocatedLogicalBytes = allocatedBytes,
           MainPageLimitBytes = mainPageLimitBytes, PhysicalMainBytes = mainBytes, WALBytes = walBytes,
           SHMBytes = shmBytes, PhysicalFamilyBytes = family,
           GrowthBytes = (case previous of None \<Rightarrow> 0 | Some s \<Rightarrow> int64 (family - PhysicalFamilyBytes s)),
           GrowthKnown = (previous \<noteq> None), sample_MaxBytes = maxBytes, sample_WarningPercent = warningPercent,
           sample_RetentionDays = retentionDays, WriteAllowed = (state \<noteq> DatabaseGrowthHard)\<rparr>)"

definition CheckMigrationGrowthAdmission :: "probe \<Rightarrow> string \<Rightarrow> int \<Rightarrow> int \<Rightarrow> int \<Rightarrow> int \<Rightarrow> goerror option" where
  "CheckMigrationGrowthAdmission p path maxBytes warningPercent desiredMaxPageCount mainPageLimitBytes =
     (case sampleDatabaseGrowth p path maxBytes warningPercent 0 desiredMaxPageCount mainPageLimitBytes None DatabaseGrowthNormal of
        Inl e \<Rightarrow> Some e
      | Inr sample \<Rightarrow> if sample_State sample = DatabaseGrowthHard then Some (Err ErrWriteAdmissionHard) else None)"

subsection \<open>The persistent alert row\<close>

record growthPersistentState =
  growth_State :: DatabaseGrowthState
  SampledUnix :: int
  PhysicalBytes :: int
  TransitionUnix :: int
  LastEmailKind :: "DatabaseGrowthAlertKind option"
  LastEmailUnix :: "int option"
  PendingKind :: "DatabaseGrowthAlertKind option"
  PendingSinceUnix :: "int option"
  RetryAfterUnix :: "int option"
  RetryAttempt :: int

text \<open>The \<open>CHECK\<close> constraints of \<open>storage_growth_state\<close>, and the row the migration inserts.\<close>

definition opt_nonneg :: "int option \<Rightarrow> bool" where
  "opt_nonneg v = (case v of None \<Rightarrow> True | Some x \<Rightarrow> 0 \<le> x)"

definition growth_check :: "growthPersistentState \<Rightarrow> bool" where
  "growth_check s \<longleftrightarrow>
     growth_Valid (growth_State s) \<and> 0 \<le> SampledUnix s \<and> 0 \<le> PhysicalBytes s \<and> 0 \<le> TransitionUnix s \<and>
     LastEmailKind s \<noteq> Some DatabaseGrowthAlertTest \<and> opt_nonneg (LastEmailUnix s) \<and>
     PendingKind s \<noteq> Some DatabaseGrowthAlertTest \<and> opt_nonneg (PendingSinceUnix s) \<and>
     opt_nonneg (RetryAfterUnix s) \<and> 0 \<le> RetryAttempt s \<and> RetryAttempt s \<le> 3 \<and>
     (LastEmailKind s = None \<longleftrightarrow> LastEmailUnix s = None) \<and>
     ((PendingKind s = None \<and> PendingSinceUnix s = None \<and> RetryAfterUnix s = None \<and> RetryAttempt s = 0) \<or>
      (PendingKind s \<noteq> None \<and> PendingSinceUnix s \<noteq> None \<and> RetryAfterUnix s \<noteq> None))"

definition migrated_growth_row :: growthPersistentState where
  "migrated_growth_row = \<lparr>growth_State = DatabaseGrowthNormal, SampledUnix = 0, PhysicalBytes = 0,
     TransitionUnix = 0, LastEmailKind = None, LastEmailUnix = None, PendingKind = None,
     PendingSinceUnix = None, RetryAfterUnix = None, RetryAttempt = 0\<rparr>"

definition readGrowthPersistentState :: "bool \<Rightarrow> growthPersistentState \<Rightarrow> growthPersistentState result" where
  "readGrowthPersistentState fault row =
     (if fault then Inl (growthFailure ErrGrowthSample ''read persistent state'')
      else if \<not> growth_Valid (growth_State row) \<or> SampledUnix row < 0 \<or> PhysicalBytes row < 0 \<or>
              TransitionUnix row < 0 \<or> RetryAttempt row < 0 \<or> RetryAttempt row > 3
      then Inl (Err ErrGrowthSample) else Inr row)"

definition writeGrowthPersistentState :: "bool \<Rightarrow> growthPersistentState \<Rightarrow> growthPersistentState
    \<Rightarrow> goerror option \<times> growthPersistentState" where
  "writeGrowthPersistentState fault state row =
     (if \<not> growth_Valid (growth_State state) \<or> SampledUnix state < 0 \<or> PhysicalBytes state < 0 \<or>
         TransitionUnix state < 0 \<or> RetryAttempt state < 0 \<or> RetryAttempt state > 3
      then (Some (Err ErrGrowthConfiguration), row)
      else if fault \<or> \<not> growth_check state then (Some (growthFailure ErrGrowthSample ''persist alert state''), row)
      else (None, state))"

definition clearPending :: "growthPersistentState \<Rightarrow> growthPersistentState" where
  "clearPending s = s\<lparr>PendingKind := None, PendingSinceUnix := None, RetryAfterUnix := None, RetryAttempt := 0\<rparr>"

fun alertKindForState :: "DatabaseGrowthState \<Rightarrow> DatabaseGrowthAlertKind" where
  "alertKindForState DatabaseGrowthWarning = DatabaseGrowthAlertWarning"
| "alertKindForState DatabaseGrowthCritical = DatabaseGrowthAlertCritical"
| "alertKindForState DatabaseGrowthHard = DatabaseGrowthAlertHard"
| "alertKindForState _ = DatabaseGrowthAlertRecovered"

definition alertKindForTransition :: "DatabaseGrowthState \<Rightarrow> DatabaseGrowthState \<Rightarrow> DatabaseGrowthAlertKind" where
  "alertKindForTransition oldState newState =
     (if newState = DatabaseGrowthNormal \<and> oldState \<noteq> DatabaseGrowthNormal then DatabaseGrowthAlertRecovered
      else alertKindForState newState)"

definition retryDelayAfterFailure :: "int \<Rightarrow> int" where
  "retryDelayAfterFailure previousAttempt =
     (if previousAttempt = 0 then 5 * 60 * second
      else if previousAttempt = 1 then 15 * 60 * second
      else if previousAttempt = 2 then 60 * 60 * second
      else 24 * 3600 * second)"

subsection \<open>The guard\<close>

text \<open>
  \<open>DatabaseGrowthGuard\<close>. The channel \<open>wake\<close> of capacity one is a flag, the mutex is
  \<open>mu_locked\<close>. The persistent row travels beside the guard: the guard's copy \<open>loaded\<close> can
  run ahead of it when a write of the row fails.
\<close>

record DatabaseGrowthGuard =
  guard_path :: string
  guard_maxBytes :: int
  guard_warning :: int
  guard_retentionDays :: int
  emailEnabled :: bool
  mailer :: bool
  reminder :: int
  mu_locked :: bool
  wake :: bool
  last_sample :: DatabaseGrowthSample
  loaded :: growthPersistentState
  guard_mainPageLimitBytes :: int
  desiredMaxPageCount :: int
  sampleHealthy :: bool

record DatabaseGrowthOptions =
  opt_Path :: string
  opt_MaxBytes :: int
  opt_WarningPercent :: int
  opt_RetentionDays :: int
  opt_EmailEnabled :: bool
  opt_Mailer :: bool
  opt_SampleInterval :: int
  opt_ReminderInterval :: int

definition schedule_alert :: "DatabaseGrowthAlertKind \<Rightarrow> int \<Rightarrow> growthPersistentState \<Rightarrow> growthPersistentState" where
  "schedule_alert kind nowUnix s =
     s\<lparr>PendingKind := Some kind, PendingSinceUnix := Some nowUnix, RetryAfterUnix := Some nowUnix, RetryAttempt := 0\<rparr>"

text \<open>The three places of \<open>sampleLocked\<close> that schedule an alert: a transition, a state that
  was never mailed, and a reminder.\<close>

definition transition_alert :: "DatabaseGrowthGuard \<Rightarrow> DatabaseGrowthState \<Rightarrow> int \<Rightarrow> growthPersistentState \<Rightarrow> growthPersistentState" where
  "transition_alert guard newState nowUnix s =
     (let s' = s\<lparr>growth_State := newState, TransitionUnix := nowUnix\<rparr> in
      if emailEnabled guard then schedule_alert (alertKindForTransition (growth_State s) newState) nowUnix s'
      else clearPending s')"

definition needs_first_alert :: "DatabaseGrowthGuard \<Rightarrow> DatabaseGrowthState \<Rightarrow> growthPersistentState \<Rightarrow> bool" where
  "needs_first_alert guard state s \<longleftrightarrow>
     emailEnabled guard \<and> state \<noteq> DatabaseGrowthNormal \<and> PendingKind s = None \<and>
     LastEmailKind s \<noteq> Some (alertKindForState state)"

definition needs_reminder :: "DatabaseGrowthGuard \<Rightarrow> DatabaseGrowthState \<Rightarrow> int \<Rightarrow> growthPersistentState \<Rightarrow> bool" where
  "needs_reminder guard state nowUnix s \<longleftrightarrow>
     emailEnabled guard \<and> state \<noteq> DatabaseGrowthNormal \<and> PendingKind s = None \<and>
     (case LastEmailUnix s of None \<Rightarrow> False | Some t \<Rightarrow> int64 (nowUnix - t) \<ge> reminder guard sdiv second)"

definition alert_update :: "DatabaseGrowthGuard \<Rightarrow> DatabaseGrowthState \<Rightarrow> int \<Rightarrow> growthPersistentState \<Rightarrow> growthPersistentState \<times> bool" where
  "alert_update guard state nowUnix s =
     (let transitioned = state \<noteq> growth_State s;
          s1 = if transitioned then transition_alert guard state nowUnix s else s;
          first = needs_first_alert guard state s1;
          s2 = if first then schedule_alert (alertKindForState state) nowUnix s1 else s1;
          remind = needs_reminder guard state nowUnix s2;
          s3 = if remind then schedule_alert (alertKindForState state) nowUnix s2 else s2
      in (s3, transitioned \<or> first \<or> remind))"

definition previous_sample :: "DatabaseGrowthGuard \<Rightarrow> int \<Rightarrow> DatabaseGrowthSample option" where
  "previous_sample guard nowUnix =
     (if sample_ObservedUnix (last_sample guard) \<noteq> 0 \<or> SampledUnix (loaded guard) \<noteq> 0 then
        if sample_ObservedUnix (last_sample guard) = 0 then
          Some (empty_sample\<lparr>sample_ObservedUnix := nowUnix, PhysicalFamilyBytes := PhysicalBytes (loaded guard)\<rparr>)
        else Some (last_sample guard)
      else None)"

definition sampleLocked :: "probe \<Rightarrow> int \<Rightarrow> bool \<Rightarrow> bool \<Rightarrow> DatabaseGrowthGuard \<Rightarrow> growthPersistentState
    \<Rightarrow> (DatabaseGrowthSample \<times> bool) result \<times> DatabaseGrowthGuard \<times> growthPersistentState" where
  "sampleLocked p nowUnix fault persistPeriodic guard row =
     (if nowUnix < 0 then (Inl (Err ErrGrowthSample), guard\<lparr>sampleHealthy := False\<rparr>, row)
      else case sampleDatabaseGrowth p (guard_path guard) (guard_maxBytes guard) (guard_warning guard)
             (guard_retentionDays guard) (desiredMaxPageCount guard) (guard_mainPageLimitBytes guard)
             (previous_sample guard nowUnix) (growth_State (loaded guard)) of
        Inl e \<Rightarrow> (Inl e, guard\<lparr>sampleHealthy := False\<rparr>, row)
      | Inr s0 \<Rightarrow>
      let sample = s0\<lparr>sample_ObservedUnix := nowUnix\<rparr>;
          transitioned = sample_State sample \<noteq> growth_State (loaded guard)
      in case alert_update guard (sample_State sample) nowUnix (loaded guard) of (alerts, alertStateChanged) \<Rightarrow>
      let loaded' = alerts\<lparr>SampledUnix := nowUnix, PhysicalBytes := PhysicalFamilyBytes sample\<rparr>;
          guard' = guard\<lparr>loaded := loaded', last_sample := sample\<rparr>
      in if transitioned \<or> persistPeriodic \<or> alertStateChanged then
           case writeGrowthPersistentState fault loaded' row of
             (Some e, row') \<Rightarrow> (Inl e, guard'\<lparr>sampleHealthy := False\<rparr>, row')
           | (None, row') \<Rightarrow> (Inr (sample, transitioned), guard'\<lparr>sampleHealthy := True\<rparr>, row')
         else (Inr (sample, transitioned), guard'\<lparr>sampleHealthy := True\<rparr>, row))"

definition signalNotification :: "DatabaseGrowthGuard \<Rightarrow> DatabaseGrowthGuard" where
  "signalNotification guard = guard\<lparr>wake := True\<rparr>"

text \<open>
  Construction takes the probes of its three reads of the database (limits, connection
  policy, first sample), the fault of reading the row and of writing it.
\<close>

definition guard_options_ok :: "DatabaseGrowthOptions \<Rightarrow> bool" where
  "guard_options_ok opts \<longleftrightarrow>
     \<not> (opt_Path opts = [] \<or> opt_MaxBytes opts \<le> 0 \<or> opt_MaxBytes opts > MaximumDatabaseMaxBytes \<or>
        opt_WarningPercent opts \<le> 0 \<or> opt_WarningPercent opts \<ge> DatabaseCriticalPercent \<or> opt_RetentionDays opts < 0) \<and>
     \<not> (opt_SampleInterval opts < 0 \<or> opt_ReminderInterval opts < 0 \<or>
        opt_EmailEnabled opts \<and> \<not> opt_Mailer opts \<or> \<not> opt_EmailEnabled opts \<and> opt_Mailer opts)"

definition reminder_of :: "DatabaseGrowthOptions \<Rightarrow> int" where
  "reminder_of opts = (if opt_ReminderInterval opts = 0 then 24 * 3600 * second else opt_ReminderInterval opts)"

definition NewDatabaseGrowthGuard :: "probe \<Rightarrow> probe \<Rightarrow> probe \<Rightarrow> bool \<Rightarrow> bool \<Rightarrow> int \<Rightarrow> DatabaseGrowthOptions
    \<Rightarrow> growthPersistentState \<Rightarrow> DatabaseGrowthGuard result \<times> growthPersistentState" where
  "NewDatabaseGrowthGuard limitsProbe policyProbe sampleProbe readFault writeFault nowUnix opts row =
     (if \<not> guard_options_ok opts then (Inl (Err ErrGrowthConfiguration), row)
      else case databaseGrowthPageLimits limitsProbe (opt_MaxBytes opts) of
        Inl e \<Rightarrow> (Inl e, row)
      | Inr (desiredPages, _, mainLimit) \<Rightarrow>
      case verifyDatabaseGrowthConnectionPolicy policyProbe (opt_MaxBytes opts) desiredPages mainLimit False of
        Some e \<Rightarrow> (Inl e, row)
      | None \<Rightarrow>
      case readGrowthPersistentState readFault row of
        Inl e \<Rightarrow> (Inl e, row)
      | Inr state \<Rightarrow>
      let guard = \<lparr>guard_path = opt_Path opts, guard_maxBytes = opt_MaxBytes opts, guard_warning = opt_WarningPercent opts,
            guard_retentionDays = opt_RetentionDays opts, emailEnabled = opt_EmailEnabled opts, mailer = opt_Mailer opts,
            reminder = reminder_of opts, mu_locked = False, wake = False, last_sample = empty_sample, loaded = state,
            guard_mainPageLimitBytes = mainLimit, desiredMaxPageCount = desiredPages, sampleHealthy = False\<rparr>
      in case sampleLocked sampleProbe nowUnix writeFault True guard row of
           (Inl e, _, row') \<Rightarrow> (Inl e, row')
         | (Inr _, guard', row') \<Rightarrow> (Inr (signalNotification guard'), row'))"

text \<open>\<open>AcquireWrite\<close> returns with the mutex held when it grants a lease.\<close>

definition AcquireWrite :: "goerror option \<Rightarrow> probe \<Rightarrow> int \<Rightarrow> bool \<Rightarrow> DatabaseGrowthGuard \<Rightarrow> growthPersistentState
    \<Rightarrow> goerror option \<times> DatabaseGrowthGuard \<times> growthPersistentState" where
  "AcquireWrite ctx p nowUnix fault guard row =
     (case ctx of
        Some e \<Rightarrow> (Some e, guard, row)
      | None \<Rightarrow>
      case sampleLocked p nowUnix fault False guard row of
        (Inl e, guard', row') \<Rightarrow> (Some e, guard', row')
      | (Inr (sample, transitioned), guard', row') \<Rightarrow>
          let guard'' = if transitioned then signalNotification guard' else guard' in
          if sample_State sample = DatabaseGrowthHard then (Some (Err ErrWriteAdmissionHard), guard'', row')
          else (None, guard''\<lparr>mu_locked := True\<rparr>, row'))"

definition lease_Release :: "DatabaseGrowthGuard \<Rightarrow> DatabaseGrowthGuard" where
  "lease_Release guard = guard\<lparr>mu_locked := False\<rparr>"

definition growth_Ready :: "DatabaseGrowthGuard \<Rightarrow> goerror option" where
  "growth_Ready guard =
     (if \<not> sampleHealthy guard then Some (Err ErrGrowthSample)
      else if sample_State (last_sample guard) = DatabaseGrowthHard then Some (Err ErrWriteAdmissionHard)
      else None)"

definition SampleReadOnly :: "probe \<Rightarrow> DatabaseGrowthGuard \<Rightarrow> DatabaseGrowthSample result" where
  "SampleReadOnly p guard =
     sampleDatabaseGrowth p (guard_path guard) (guard_maxBytes guard) (guard_warning guard) (guard_retentionDays guard)
       (desiredMaxPageCount guard) (guard_mainPageLimitBytes guard) (Some (last_sample guard)) (growth_State (loaded guard))"

text \<open>
  \<open>tick\<close> up to its call of \<open>processPending\<close>: the passive checkpoint does not influence the
  rest. A cancelled context ends it before the sample.
\<close>

definition growth_tick :: "bool \<Rightarrow> probe \<Rightarrow> int \<Rightarrow> bool \<Rightarrow> DatabaseGrowthGuard \<Rightarrow> growthPersistentState
    \<Rightarrow> bool \<times> DatabaseGrowthGuard \<times> growthPersistentState" where
  "growth_tick cancelled p nowUnix fault guard row =
     (if cancelled then (False, guard, row)
      else case sampleLocked p nowUnix fault True guard row of
        (Inl e, guard', row') \<Rightarrow> (False, guard', row')
      | (Inr (sample, transitioned), guard', row') \<Rightarrow>
          (True, if transitioned then signalNotification guard' else guard', row'))"

subsection \<open>Delivery of the pending alert\<close>

text \<open>
  \<open>processPending\<close> releases the mutex while the mail command runs, so it is two steps:
  \<open>begin_delivery\<close> picks the pending alert, and \<open>finish_delivery\<close> records the result if the
  same alert is still pending. Any other operation may happen in between.
\<close>

record delivery =
  delivery_kind :: DatabaseGrowthAlertKind
  delivery_since :: int
  delivery_sample :: DatabaseGrowthSample

definition null_int :: "int option \<Rightarrow> int" where
  "null_int v = (case v of None \<Rightarrow> 0 | Some x \<Rightarrow> x)"

definition begin_delivery :: "bool \<Rightarrow> int \<Rightarrow> DatabaseGrowthGuard \<Rightarrow> delivery option" where
  "begin_delivery cancelled nowUnix guard =
     (if \<not> emailEnabled guard \<or> \<not> mailer guard \<or> cancelled then None
      else case PendingKind (loaded guard) of
        None \<Rightarrow> None
      | Some kind \<Rightarrow>
      case RetryAfterUnix (loaded guard) of
        None \<Rightarrow> None
      | Some t \<Rightarrow>
          if nowUnix < 0 \<or> nowUnix < t then None
          else Some \<lparr>delivery_kind = kind, delivery_since = null_int (PendingSinceUnix (loaded guard)),
                     delivery_sample = last_sample guard\<rparr>)"

definition delivery_failed :: "int \<Rightarrow> growthPersistentState \<Rightarrow> growthPersistentState" where
  "delivery_failed nowUnix s =
     (let previousAttempt = RetryAttempt s; attempt = previousAttempt + 1 in
      s\<lparr>RetryAttempt := (if attempt > 3 then 3 else attempt),
        RetryAfterUnix := Some (int64 (nowUnix + retryDelayAfterFailure previousAttempt sdiv second))\<rparr>)"

definition delivery_sent :: "DatabaseGrowthAlertKind \<Rightarrow> int \<Rightarrow> growthPersistentState \<Rightarrow> growthPersistentState" where
  "delivery_sent kind nowUnix s = clearPending (s\<lparr>LastEmailKind := Some kind, LastEmailUnix := Some nowUnix\<rparr>)"

definition finish_delivery :: "delivery \<Rightarrow> bool \<Rightarrow> int \<Rightarrow> bool \<Rightarrow> DatabaseGrowthGuard \<Rightarrow> growthPersistentState
    \<Rightarrow> DatabaseGrowthGuard \<times> growthPersistentState" where
  "finish_delivery d sent nowUnix fault guard row =
     (if PendingKind (loaded guard) \<noteq> Some (delivery_kind d) \<or>
         PendingSinceUnix (loaded guard) \<noteq> Some (delivery_since d) then (guard, row)
      else if nowUnix < 0 then (guard, row)
      else let loaded' = (if sent then delivery_sent (delivery_kind d) nowUnix (loaded guard)
                          else delivery_failed nowUnix (loaded guard)) in
        case writeGrowthPersistentState fault loaded' row of
          (Some e, row') \<Rightarrow> (guard\<lparr>loaded := loaded', sampleHealthy := False\<rparr>, row')
        | (None, row') \<Rightarrow> (guard\<lparr>loaded := loaded'\<rparr>, row'))"

text \<open>An uninterrupted \<open>processPending\<close>.\<close>

definition processPending :: "bool \<Rightarrow> int \<Rightarrow> int \<Rightarrow> bool \<Rightarrow> bool \<Rightarrow> DatabaseGrowthGuard \<Rightarrow> growthPersistentState
    \<Rightarrow> DatabaseGrowthGuard \<times> growthPersistentState" where
  "processPending cancelled now1 now2 sent fault guard row =
     (case begin_delivery cancelled now1 guard of
        None \<Rightarrow> (guard, row)
      | Some d \<Rightarrow> finish_delivery d sent now2 fault guard row)"

subsection \<open>Inspection and alert text\<close>

definition InspectDatabaseGrowth :: "probe \<Rightarrow> probe \<Rightarrow> bool \<Rightarrow> growthPersistentState \<Rightarrow> string \<Rightarrow> int \<Rightarrow> int \<Rightarrow> int
    \<Rightarrow> DatabaseGrowthSample result" where
  "InspectDatabaseGrowth limitsProbe sampleProbe readFault row path maxBytes warningPercent retentionDays =
     (case databaseGrowthPageLimits limitsProbe maxBytes of
        Inl e \<Rightarrow> Inl e
      | Inr (desired, effective, mainLimit) \<Rightarrow>
      case readGrowthPersistentState readFault row of
        Inl e \<Rightarrow> Inl e
      | Inr persisted \<Rightarrow>
      let previous = (if SampledUnix persisted \<noteq> 0
            then Some (empty_sample\<lparr>sample_ObservedUnix := SampledUnix persisted, PhysicalFamilyBytes := PhysicalBytes persisted\<rparr>)
            else None)
      in case sampleDatabaseGrowth sampleProbe path maxBytes warningPercent retentionDays desired mainLimit previous
               (growth_State persisted) of
           Inl e \<Rightarrow> Inl e
         | Inr sample \<Rightarrow> Inr (sample\<lparr>MaxPageCount := effective\<rparr>))"

definition RedactedGrowthError :: "goerror \<Rightarrow> string" where
  "RedactedGrowthError e =
     (if errors_is e ErrWriteAdmissionHard then ''database growth hard limit reached''
      else if errors_is e ErrGrowthConfiguration then ''database growth configuration is invalid''
      else ''database growth check failed'')"

definition format_int :: "int \<Rightarrow> string" where
  "format_int n = (if n < 0 then ''-'' @ itoa (nat (- n)) else itoa (nat n))"

definition report_line :: "string \<Rightarrow> string \<Rightarrow> string" where
  "report_line name v = name @ '': '' @ v @ [CHR 0x0A]"

definition remediation_checklist :: string where
  "remediation_checklist =
     ''Remediation checklist:'' @ [CHR 0x0A] @
     ''1. Check host filesystem free space and filesystem monitoring.'' @ [CHR 0x0A] @
     ''2. Preserve a fresh verified backup before any destructive retention action.'' @ [CHR 0x0A] @
     ''3. Review inactive-retention policy and candidate dry-run before approaching the hard limit.'' @ [CHR 0x0A] @
     ''4. If logical pages were already freed, schedule explicit offline checkpoint/VACUUM maintenance with adequate free space.'' @ [CHR 0x0A] @
     ''5. Increase DIRECTORY_DATABASE_MAX_BYTES only after reviewing host capacity and the reserved WAL/migration headroom.'' @ [CHR 0x0A]"

definition RenderGrowthAlert :: "DatabaseGrowthAlertKind \<Rightarrow> DatabaseGrowthSample \<Rightarrow> string \<times> string" where
  "RenderGrowthAlert kind sample =
     (let growth = (if GrowthKnown sample then format_int (GrowthBytes sample) else ''unknown'');
          body = report_line ''Activity-Relay-Directory storage state'' (alert_text kind) @ [CHR 0x0A] @
            report_line ''sampled_at_unix'' (format_int (sample_ObservedUnix sample)) @
            report_line ''pressure_percent'' (format_int (PressurePercent sample)) @
            report_line ''used_logical_pages'' (format_int (UsedPages sample)) @
            report_line ''allocated_logical_pages'' (format_int (PageCount sample)) @
            report_line ''reusable_pages'' (format_int (ReusablePages sample)) @
            report_line ''page_size_bytes'' (format_int (PageSize sample)) @
            report_line ''used_logical_bytes'' (format_int (UsedLogicalBytes sample)) @
            report_line ''allocated_logical_bytes'' (format_int (AllocatedLogicalBytes sample)) @
            report_line ''main_page_limit_bytes'' (format_int (MainPageLimitBytes sample)) @
            report_line ''physical_main_bytes'' (format_int (PhysicalMainBytes sample)) @
            report_line ''wal_bytes'' (format_int (WALBytes sample)) @
            report_line ''shm_bytes'' (format_int (SHMBytes sample)) @
            report_line ''physical_database_family_bytes'' (format_int (PhysicalFamilyBytes sample)) @
            report_line ''growth_since_previous_sample_bytes'' growth @
            report_line ''configured_max_bytes'' (format_int (sample_MaxBytes sample)) @
            report_line ''inactive_retention_days'' (format_int (sample_RetentionDays sample)) @
            report_line ''write_admission'' (if WriteAllowed sample then ''allowed'' else ''blocked'') @ [CHR 0x0A] @
            remediation_checklist
      in (''Activity-Relay-Directory storage '' @ alert_text kind, take (16 * 1024) body))"

subsection \<open>Exact arithmetic\<close>

lemma sdiv_nonneg: "0 \<le> a \<Longrightarrow> 0 < b \<Longrightarrow> a sdiv b = a div (b::int)"
  by (simp add: signed_divide_int_def sgn_if)

lemma smod_nonneg: "0 \<le> a \<Longrightarrow> 0 < b \<Longrightarrow> a smod b = a mod (b::int)"
  by (cases "a = 0") (auto simp: signed_modulo_int_def)

lemma le_div_iff: "0 < m \<Longrightarrow> k \<le> v div m \<longleftrightarrow> m * k \<le> (v::int)"
proof
  assume m: "0 < m" and "k \<le> v div m"
  then have "m * k \<le> m * (v div m)" by simp
  also have "\<dots> \<le> v" using m pos_mod_sign [of m v] mult_div_mod_eq [of m v] by linarith
  finally show "m * k \<le> v" .
next
  assume "0 < m" "m * k \<le> v"
  then have "(m * k) div m \<le> v div m" by (intro zdiv_mono1)
  with \<open>0 < m\<close> show "k \<le> v div m" by simp
qed

lemma checkedMultiply_iff:
  "checkedMultiply a b = Some r \<longleftrightarrow> 0 \<le> a \<and> 0 \<le> b \<and> a * b \<le> max_int64 \<and> r = a * b"
proof (cases "0 < a \<and> 0 \<le> b")
  case True
  have "b \<le> max_int64 sdiv a \<longleftrightarrow> a * b \<le> max_int64"
    using True le_div_iff [of a b max_int64] by (simp add: sdiv_nonneg)
  moreover have "a * b \<le> max_int64 \<Longrightarrow> int64 (a * b) = a * b"
    using True by (intro int64_id) (auto intro: order.trans [of _ 0])
  ultimately show ?thesis using True by (auto simp: checkedMultiply_def)
next
  case False
  then show ?thesis by (auto simp: checkedMultiply_def)
qed

lemma atLeastPercent_iff:
  assumes "0 < m" "m \<le> MaximumDatabaseMaxBytes" "0 \<le> v" "0 < k" "k \<le> 100"
  shows "atLeastPercent v m k \<longleftrightarrow> m * k \<le> v * 100"
proof -
  have small: "m * k \<le> 2 ^ 40 * 100"
    using assms by (intro mult_mono) (auto simp: growth_constants)
  have pos: "0 \<le> m * k" using assms by simp
  have mk: "m * k \<le> m * 100" using assms by simp
  have "int64 (m * k) = m * k" "int64 (m * k + 99) = m * k + 99" using small pos by simp_all
  moreover have "(m * k + 99) div 100 \<le> v \<longleftrightarrow> m * k \<le> v * 100" by linarith
  moreover have "m \<le> v \<Longrightarrow> m * k \<le> v * 100" using mk by linarith
  ultimately show ?thesis
    using assms small pos by (auto simp: atLeastPercent_def sdiv_nonneg)
qed

lemma boundedPercent_eq:
  assumes "0 < m" "m \<le> MaximumDatabaseMaxBytes" "0 \<le> v"
  shows "boundedPercent v m = (if 0 < v \<and> m * 999 div 100 \<le> v then 999 else v * 100 div m)"
proof -
  have big: "m * 999 \<le> 2 ^ 40 * 999" using assms by (auto simp: growth_constants)
  then have w: "int64 (m * 999) = m * 999" using assms by simp
  have "v < m * 999 div 100 \<Longrightarrow> int64 (v * 100) = v * 100" using big assms by simp
  with w assms show ?thesis
    by (auto simp: boundedPercent_def sdiv_nonneg maximumGrowthPercentReport_def)
qed

lemma boundedPercent_iff:
  assumes "0 < m" "m \<le> MaximumDatabaseMaxBytes" "0 \<le> v" "k \<le> 100"
  shows "k \<le> boundedPercent v m \<longleftrightarrow> m * k \<le> v * 100"
proof (cases "0 < v \<and> m * 999 div 100 \<le> v")
  case True
  have "m * k \<le> m * 100" using assms by simp
  with True have "m * k \<le> v * 100" using assms by linarith
  with True assms show ?thesis by (simp add: boundedPercent_eq)
next
  case False
  with assms show ?thesis by (auto simp: boundedPercent_eq le_div_iff)
qed

lemma checkedAdd_three:
  "checkedAdd [a, b, c] = Some t \<Longrightarrow> t = a + b + c \<and> 0 \<le> a \<and> 0 \<le> b \<and> 0 \<le> c"
  if "a \<le> max_int64" "b \<le> max_int64" "c \<le> max_int64"
  using that by (auto simp: checkedAdd_def split: if_splits)

lemma pragmaInt64_range: "pragmaInt64 p name = Inr v \<Longrightarrow> v \<le> max_int64"
  using int64_range by (auto simp: pragmaInt64_def split: if_splits option.splits)

lemma secureSidecarSize_range: "secureSidecarSize p path r = Inr v \<Longrightarrow> 0 \<le> v \<and> v \<le> max_int64"
  using int64_range by (auto simp: secureSidecarSize_def split: if_splits file_stat.splits)

lemma sample_pages_Inr:
  assumes "sample_pages p = Inr (pageSize, pageCount, freelistCount, effectiveMaxPages)"
  shows "pragmaInt64 p ''page_size'' = Inr pageSize \<and> pragmaInt64 p ''page_count'' = Inr pageCount \<and>
    pragmaInt64 p ''freelist_count'' = Inr freelistCount \<and> 0 < pageSize \<and> 0 \<le> freelistCount \<and> freelistCount \<le> pageCount"
  using assms by (auto simp: sample_pages_def split: sum.splits if_splits)

lemma sample_files_Inr:
  assumes "sample_files p path = Inr (mainBytes, walBytes, shmBytes)"
  shows "secureSidecarSize p path True = Inr mainBytes \<and> secureSidecarSize p (path @ ''-wal'') False = Inr walBytes \<and>
    secureSidecarSize p (path @ ''-shm'') False = Inr shmBytes"
  using assms by (auto simp: sample_files_def split: sum.splits)

text \<open>At or above \<open>k\<close> percent of one of the two budgets, as exact rational comparison.\<close>

definition over_percent :: "int \<Rightarrow> int \<Rightarrow> int \<Rightarrow> int \<Rightarrow> int \<Rightarrow> bool" where
  "over_percent k used mainLimit family maxBytes \<longleftrightarrow> mainLimit * k \<le> used * 100 \<or> maxBytes * k \<le> family * 100"

definition growth_spec :: "DatabaseGrowthState \<Rightarrow> int \<Rightarrow> (int \<Rightarrow> bool) \<Rightarrow> DatabaseGrowthState" where
  "growth_spec previous warning over =
     (if over 100 \<or> previous = DatabaseGrowthHard \<and> over 95 then DatabaseGrowthHard
      else if over 90 \<or> previous = DatabaseGrowthCritical \<and> over 85 then DatabaseGrowthCritical
      else if over warning \<or> previous = DatabaseGrowthWarning \<and> over (warning - 5) then DatabaseGrowthWarning
      else DatabaseGrowthNormal)"

definition limits_ok :: "int \<Rightarrow> int \<Rightarrow> int \<Rightarrow> bool" where
  "limits_ok maxBytes mainLimit warning \<longleftrightarrow>
     0 < mainLimit \<and> mainLimit \<le> maxBytes \<and> maxBytes \<le> MaximumDatabaseMaxBytes \<and> 0 < warning \<and> warning < DatabaseCriticalPercent"

lemma over_percent_mono:
  assumes "over_percent k u m f x" "j \<le> k" "0 < m" "0 < x"
  shows "over_percent j u m f x"
proof -
  have "m * j \<le> m * k" "x * j \<le> x * k" using assms by simp_all
  with assms(1) show ?thesis by (auto simp: over_percent_def)
qed

lemma classify_exact:
  assumes "limits_ok maxBytes mainLimit warning" "0 \<le> used" "0 \<le> family" "growth_Valid previous"
    and "pressure = max (boundedPercent used mainLimit) (boundedPercent family maxBytes)"
  shows "applyGrowthHysteresis (classifyGrowthState used mainLimit family maxBytes warning) pressure previous warning =
    growth_spec previous warning (\<lambda>k. over_percent k used mainLimit family maxBytes)"
proof -
  from assms(1) have b: "0 < mainLimit" "mainLimit \<le> MaximumDatabaseMaxBytes" "0 < maxBytes" "maxBytes \<le> MaximumDatabaseMaxBytes"
    "0 < warning" "warning < 90" by (auto simp: limits_ok_def DatabaseCriticalPercent_def)
  let ?over = "\<lambda>k. over_percent k used mainLimit family maxBytes"
  have at: "atLeastPercent used mainLimit k \<or> atLeastPercent family maxBytes k \<longleftrightarrow> ?over k" if "0 < k" "k \<le> 100" for k
    using that b assms(2,3) by (simp add: over_percent_def atLeastPercent_iff)
  have pr: "k \<le> pressure \<longleftrightarrow> ?over k" if "k \<le> 100" for k
    using that b assms(2,3,5) by (simp add: over_percent_def boundedPercent_iff le_max_iff_disj)
  have mono: "?over k \<Longrightarrow> j \<le> k \<Longrightarrow> ?over j" for j k using over_percent_mono b(1,3) by blast
  have steps: "?over 100 \<Longrightarrow> ?over 95" "?over 95 \<Longrightarrow> ?over 90" "?over 90 \<Longrightarrow> ?over 85" "?over 90 \<Longrightarrow> ?over warning"
    "?over warning \<Longrightarrow> ?over (warning - 5)"
    using b by (auto elim: mono)
  have base: "classifyGrowthState used mainLimit family maxBytes warning =
      growth_spec DatabaseGrowthNormal warning ?over"
    using b by (simp add: classifyGrowthState_def growth_spec_def at DatabaseHardPercent_def DatabaseCriticalPercent_def)
  from b show ?thesis
    unfolding base using assms(4) steps
    by (cases previous)
      (auto simp: applyGrowthHysteresis_def growth_spec_def pr DatabaseHardPercent_def DatabaseCriticalPercent_def
        DatabaseGrowthRecoveryHysteresisPercent_def)
qed

lemma sample_Inr:
  assumes "sampleDatabaseGrowth p path maxBytes warning retentionDays desired mainLimit previous previousState = Inr s"
  obtains pageSize pageCount freelistCount mainBytes walBytes shmBytes where
    "pragmaInt64 p ''page_size'' = Inr pageSize" "pragmaInt64 p ''page_count'' = Inr pageCount"
    "pragmaInt64 p ''freelist_count'' = Inr freelistCount"
    "secureSidecarSize p path True = Inr mainBytes" "secureSidecarSize p (path @ ''-wal'') False = Inr walBytes"
    "secureSidecarSize p (path @ ''-shm'') False = Inr shmBytes"
    "UsedLogicalBytes s = (pageCount - freelistCount) * pageSize" "0 \<le> UsedLogicalBytes s"
    "PhysicalFamilyBytes s = mainBytes + walBytes + shmBytes" "0 \<le> PhysicalFamilyBytes s"
    "sample_State s = applyGrowthHysteresis (classifyGrowthState (UsedLogicalBytes s) mainLimit (PhysicalFamilyBytes s) maxBytes warning)
       (PressurePercent s) previousState warning"
    "PressurePercent s = max (boundedPercent (UsedLogicalBytes s) mainLimit) (boundedPercent (PhysicalFamilyBytes s) maxBytes)"
    "WriteAllowed s = (sample_State s \<noteq> DatabaseGrowthHard)"
proof -
  from assms obtain pageSize pageCount freelistCount effective where pages: "sample_pages p = Inr (pageSize, pageCount, freelistCount, effective)"
    by (auto simp: sampleDatabaseGrowth_def split: if_splits sum.splits)
  from assms obtain mainBytes walBytes shmBytes where files: "sample_files p path = Inr (mainBytes, walBytes, shmBytes)"
    by (auto simp: sampleDatabaseGrowth_def split: if_splits sum.splits)
  from assms pages files obtain used allocated family where c:
    "checkedMultiply (pageCount - freelistCount) pageSize = Some used"
    "checkedMultiply pageCount pageSize = Some allocated" "checkedAdd [mainBytes, walBytes, shmBytes] = Some family"
    by (auto simp: sampleDatabaseGrowth_def split: if_splits option.splits)
  note P = sample_pages_Inr [OF pages]
  note F = sample_files_Inr [OF files]
  from F have r: "mainBytes \<le> max_int64" "walBytes \<le> max_int64" "shmBytes \<le> max_int64"
    using secureSidecarSize_range by blast+
  have fam: "family = mainBytes + walBytes + shmBytes \<and> 0 \<le> mainBytes \<and> 0 \<le> walBytes \<and> 0 \<le> shmBytes"
    by (rule checkedAdd_three [OF r c(3)])
  from c(1) have used: "used = (pageCount - freelistCount) * pageSize" "0 \<le> used"
    unfolding checkedMultiply_iff by simp_all
  from assms pages files c have s: "UsedLogicalBytes s = used" "PhysicalFamilyBytes s = family"
    "PressurePercent s = max (boundedPercent used mainLimit) (boundedPercent family maxBytes)"
    "sample_State s = applyGrowthHysteresis (classifyGrowthState used mainLimit family maxBytes warning) (PressurePercent s) previousState warning"
    "WriteAllowed s = (sample_State s \<noteq> DatabaseGrowthHard)"
    by (auto simp: sampleDatabaseGrowth_def Let_def split: if_splits)
  show ?thesis
    by (rule that [of pageSize pageCount freelistCount mainBytes walBytes shmBytes]) (use P F fam used s in auto)
qed

lemma roundUp_cases:
  assumes "v \<le> max_int64" "u \<le> max_int64" "0 < u"
  shows "roundUp v u \<le> 0 \<or> (v \<le> roundUp v u \<and> u dvd roundUp v u)"
proof (cases "0 < v")
  case True
  define r where "r = v mod u"
  have r: "0 \<le> r" "r < u" "u dvd v - r" using assms by (auto simp: r_def minus_mod_eq_mult_div)
  have s: "v smod u = r" using True assms by (simp add: smod_nonneg r_def)
  have i: "int64 (u - r) = u - r" "int64 (max_int64 - (u - r)) = max_int64 - (u - r)" using r assms by simp_all
  have "u dvd v - r + u" using r(3) by simp
  then have d: "u dvd v + (u - r)" by (simp add: algebra_simps)
  have "r = 0 \<Longrightarrow> u dvd v" using r(3) by simp
  with d s i r True assms show ?thesis by (auto simp: roundUp_def)
qed (simp add: roundUp_def)

lemma databaseGrowthPageLimits_Inr:
  assumes "databaseGrowthPageLimits p maxBytes = Inr (desired, effective, mainLimit)"
  obtains pageSize where "pragmaInt64 p ''page_size'' = Inr pageSize" "0 < pageSize" "0 < desired"
    "mainLimit = desired * pageSize" "mainLimit + 4 * pageSize \<le> maxBytes" "maxBytes \<le> MaximumDatabaseMaxBytes"
    "desired \<le> effective"
proof -
  let ?cap = "if maxBytes sdiv 8 > MaximumDatabaseGrowthHeadroomBytes then MaximumDatabaseGrowthHeadroomBytes else maxBytes sdiv 8"
  let ?raised = "\<lambda>ps. if ?cap < int64 (ps * 4) then int64 (ps * 4) else ?cap"
  from assms obtain pageSize where ps: "pragmaInt64 p ''page_size'' = Inr pageSize" "0 < pageSize"
    and lim: "0 < maxBytes" "maxBytes \<le> MaximumDatabaseMaxBytes"
    and h: "0 < roundUp (?raised pageSize) pageSize" "roundUp (?raised pageSize) pageSize < maxBytes"
    and des: "desired = (maxBytes - roundUp (?raised pageSize) pageSize) sdiv pageSize" "0 < desired"
    and main: "mainLimit = int64 (desired * pageSize)" "desired \<le> effective"
    by (auto simp: databaseGrowthPageLimits_def Let_def split: if_splits sum.splits)
  define headroom where "headroom = roundUp (?raised pageSize) pageSize"
  note h = h [folded headroom_def] and des = des [folded headroom_def]
  have mb: "maxBytes \<le> 2 ^ 40" using lim by (simp add: growth_constants)
  have "?cap \<le> max_int64" using mb lim by (auto simp: growth_constants sdiv_nonneg)
  then have "?raised pageSize \<le> max_int64" using int64_range [of "pageSize * 4"] by auto
  from roundUp_cases [OF this pragmaInt64_range [OF ps(1)] ps(2)] h(1)
  have up: "?raised pageSize \<le> headroom" "pageSize dvd headroom" by (auto simp: headroom_def)
  then have "pageSize \<le> headroom" using h(1) zdvd_imp_le by blast
  then have "pageSize * 4 \<le> max_int64" using h(2) mb by simp
  then have "int64 (pageSize * 4) = pageSize * 4" using ps(2) by simp
  with up(1) have four: "4 * pageSize \<le> headroom" by (simp split: if_splits)
  have d: "desired = (maxBytes - headroom) div pageSize" using des(1) h ps(2) by (simp add: sdiv_nonneg)
  have le: "desired * pageSize \<le> maxBytes - headroom"
    using le_div_iff [of pageSize desired "maxBytes - headroom"] ps(2) d by (simp add: mult.commute)
  moreover have "0 < desired * pageSize" using des(2) ps(2) by simp
  ultimately have "mainLimit = desired * pageSize" using main(1) mb h(1) by simp
  with that ps des(2) lim(2) main(2) four le show ?thesis by auto
qed

end
