(* ===== verification/GrowthGuard.thy ===== *)
theory GrowthGuard
  imports Growth
begin

section \<open>Runs of the database growth guard\<close>

text \<open>
  The reachable states of the guard, their invariant, and what the guard guarantees: exact
  classification, admission only below the limits, and alerts that are kept and delivered.
\<close>

subsection \<open>Runs of the guard\<close>

text \<open>
  The states a guard goes through: construction on a row that satisfies its constraints,
  then any sequence of write admissions (each holding the mutex until its release), ticks
  and deliveries, with any probes, clocks and faults. Only the goroutine of \<open>Run\<close> ticks and
  delivers, so a tick does not overlap a delivery, but write admissions do. The clock stays
  below \<open>2 ^ 62\<close> seconds.
\<close>

definition clock_bound :: int where "clock_bound = 2 ^ 62"

inductive growth_reachable :: "DatabaseGrowthGuard \<Rightarrow> growthPersistentState \<Rightarrow> delivery option \<Rightarrow> bool" where
  started: "growth_check row \<Longrightarrow> now < clock_bound \<Longrightarrow>
    NewDatabaseGrowthGuard p1 p2 p3 readFault writeFault now opts row = (Inr guard, row') \<Longrightarrow>
    growth_reachable guard row' None"
| acquired: "growth_reachable guard row d \<Longrightarrow> \<not> mu_locked guard \<Longrightarrow> now < clock_bound \<Longrightarrow>
    AcquireWrite ctx p now fault guard row = (e, guard', row') \<Longrightarrow> growth_reachable guard' row' d"
| released: "growth_reachable guard row d \<Longrightarrow> mu_locked guard \<Longrightarrow> growth_reachable (lease_Release guard) row d"
| ticked: "growth_reachable guard row None \<Longrightarrow> \<not> mu_locked guard \<Longrightarrow> now < clock_bound \<Longrightarrow>
    growth_tick cancelled p now fault guard row = (sampled, guard', row') \<Longrightarrow> growth_reachable guard' row' None"
| delivering: "growth_reachable guard row None \<Longrightarrow> \<not> mu_locked guard \<Longrightarrow>
    begin_delivery cancelled now guard = Some d \<Longrightarrow> growth_reachable (guard\<lparr>wake := False\<rparr>) row (Some d)"
| delivered: "growth_reachable guard row (Some d) \<Longrightarrow> \<not> mu_locked guard \<Longrightarrow> now < clock_bound \<Longrightarrow>
    finish_delivery d sent now fault guard row = (guard', row') \<Longrightarrow> growth_reachable guard' row' None"

definition guard_ok :: "DatabaseGrowthGuard \<Rightarrow> bool" where
  "guard_ok guard \<longleftrightarrow>
     limits_ok (guard_maxBytes guard) (guard_mainPageLimitBytes guard) (guard_warning guard) \<and>
     guard_path guard \<noteq> [] \<and> 0 < desiredMaxPageCount guard \<and> emailEnabled guard = mailer guard \<and>
     growth_check (loaded guard)"

lemma growth_check_schedule:
  "growth_check s \<Longrightarrow> kind \<noteq> DatabaseGrowthAlertTest \<Longrightarrow> 0 \<le> now \<Longrightarrow> growth_check (schedule_alert kind now s)"
  by (auto simp: growth_check_def schedule_alert_def opt_nonneg_def)

lemma growth_check_clear: "growth_check s \<Longrightarrow> growth_check (clearPending s)"
  by (auto simp: growth_check_def clearPending_def opt_nonneg_def)

lemma growth_check_sampled:
  "growth_check s \<Longrightarrow> 0 \<le> now \<Longrightarrow> 0 \<le> n \<Longrightarrow> growth_check (s\<lparr>SampledUnix := now, PhysicalBytes := n\<rparr>)"
  by (simp add: growth_check_def)

lemma growth_check_transition:
  "growth_check s \<Longrightarrow> growth_Valid st \<Longrightarrow> 0 \<le> now \<Longrightarrow> growth_check (s\<lparr>growth_State := st, TransitionUnix := now\<rparr>)"
  by (simp add: growth_check_def)

lemma alertKindForState_not_test: "alertKindForState st \<noteq> DatabaseGrowthAlertTest"
  by (cases st) auto

lemma alert_update_check:
  assumes "growth_check s" "growth_Valid st" "0 \<le> now"
  shows "growth_check (fst (alert_update guard st now s))"
  using assms
  by (auto simp: alert_update_def Let_def transition_alert_def alertKindForTransition_def alertKindForState_not_test
      intro!: growth_check_schedule growth_check_clear growth_check_transition)

lemma growth_spec_Valid: "growth_Valid (growth_spec prev w over)"
  by (simp add: growth_spec_def)

lemma sample_state_spec:
  assumes "sampleDatabaseGrowth p path maxBytes warning retentionDays desired mainLimit previous previousState = Inr s"
    and "limits_ok maxBytes mainLimit warning" "growth_Valid previousState"
  shows "sample_State s = growth_spec previousState warning
    (\<lambda>k. over_percent k (UsedLogicalBytes s) mainLimit (PhysicalFamilyBytes s) maxBytes) \<and> 0 \<le> PhysicalFamilyBytes s"
  by (rule sample_Inr [OF assms(1)]) (use classify_exact [OF assms(2)] assms(3) in auto)

text \<open>Everything \<open>sampleLocked\<close> does when it samples successfully.\<close>

lemma writeGrowth_check:
  assumes "growth_check s"
  shows "writeGrowthPersistentState fault s row =
    (if fault then (Some (growthFailure ErrGrowthSample ''persist alert state''), row) else (None, s))"
  using assms by (auto simp: writeGrowthPersistentState_def growth_check_def)

definition sampled_guard :: "DatabaseGrowthGuard \<Rightarrow> DatabaseGrowthSample \<Rightarrow> int \<Rightarrow> DatabaseGrowthGuard" where
  "sampled_guard guard s now =
     guard\<lparr>loaded := (fst (alert_update guard (sample_State s) now (loaded guard)))\<lparr>SampledUnix := now, PhysicalBytes := PhysicalFamilyBytes s\<rparr>,
           last_sample := s\<lparr>sample_ObservedUnix := now\<rparr>\<rparr>"

text \<open>The sample \<open>sampleLocked\<close> takes.\<close>

abbreviation guard_sample :: "probe \<Rightarrow> int \<Rightarrow> DatabaseGrowthGuard \<Rightarrow> DatabaseGrowthSample result" where
  "guard_sample p now guard \<equiv>
     sampleDatabaseGrowth p (guard_path guard) (guard_maxBytes guard) (guard_warning guard) (guard_retentionDays guard)
       (desiredMaxPageCount guard) (guard_mainPageLimitBytes guard) (previous_sample guard now) (growth_State (loaded guard))"

lemma sampleLocked_cases:
  assumes ok: "guard_ok guard" and run: "sampleLocked p now fault periodic guard row = (r, guard', row')"
  obtains (failed) e where "r = Inl e" "guard' = guard\<lparr>sampleHealthy := False\<rparr>" "row' = row"
      "now < 0 \<or> guard_sample p now guard = Inl e"
  | (unwritten) s where "guard' = (sampled_guard guard s now)\<lparr>sampleHealthy := False\<rparr>" "row' = row" "fault"
      "r = Inl (growthFailure ErrGrowthSample ''persist alert state'')" "growth_check (loaded guard')"
  | (sampled) s where "0 \<le> now"
      "guard_sample p now guard = Inr s"
      "r = Inr (s\<lparr>sample_ObservedUnix := now\<rparr>, sample_State s \<noteq> growth_State (loaded guard))"
      "guard' = (sampled_guard guard s now)\<lparr>sampleHealthy := True\<rparr>" "growth_check (loaded guard')"
      "row' = row \<or> row' = loaded guard'"
proof (cases "now < 0")
  case True
  with run show ?thesis by (intro failed) (auto simp: sampleLocked_def)
next
  case now: False
  let ?sample = "guard_sample p now guard"
  show ?thesis
  proof (cases ?sample)
    case (Inl e)
    with run now show ?thesis by (intro failed) (auto simp: sampleLocked_def)
  next
    case (Inr s)
    from ok have v: "growth_Valid (growth_State (loaded guard))" "growth_check (loaded guard)"
      "limits_ok (guard_maxBytes guard) (guard_mainPageLimitBytes guard) (guard_warning guard)"
      by (auto simp: guard_ok_def growth_check_def)
    note spec = sample_state_spec [OF Inr v(3) v(1)]
    have chk: "growth_check (loaded (sampled_guard guard s now))"
      using now spec v(2) growth_spec_Valid
      by (auto simp: sampled_guard_def intro!: growth_check_sampled alert_update_check)
    obtain alerts changed where au: "alert_update guard (sample_State s) now (loaded guard) = (alerts, changed)"
      by fastforce
    have sg: "sampled_guard guard s now =
        guard\<lparr>loaded := alerts\<lparr>SampledUnix := now, PhysicalBytes := PhysicalFamilyBytes s\<rparr>, last_sample := s\<lparr>sample_ObservedUnix := now\<rparr>\<rparr>"
      using au by (simp add: sampled_guard_def)
    note w = writeGrowth_check [OF chk]
    let ?g = "sampled_guard guard s now"
    let ?t = "sample_State s \<noteq> growth_State (loaded guard)"
    have "sampleLocked p now fault periodic guard row =
      (if (?t \<or> periodic \<or> changed) \<and> fault
       then (Inl (growthFailure ErrGrowthSample ''persist alert state''), ?g\<lparr>sampleHealthy := False\<rparr>, row)
       else (Inr (s\<lparr>sample_ObservedUnix := now\<rparr>, ?t), ?g\<lparr>sampleHealthy := True\<rparr>,
             if ?t \<or> periodic \<or> changed then loaded ?g else row))"
      using now Inr au w by (simp add: sampleLocked_def Let_def sg)
    with run have e: "(r, guard', row') =
      (if (?t \<or> periodic \<or> changed) \<and> fault
       then (Inl (growthFailure ErrGrowthSample ''persist alert state''), ?g\<lparr>sampleHealthy := False\<rparr>, row)
       else (Inr (s\<lparr>sample_ObservedUnix := now\<rparr>, ?t), ?g\<lparr>sampleHealthy := True\<rparr>,
             if ?t \<or> periodic \<or> changed then loaded ?g else row))" by simp
    show ?thesis
    proof (cases "(?t \<or> periodic \<or> changed) \<and> fault")
      case True
      with e chk show ?thesis by (intro unwritten [of s]) simp_all
    next
      case False
      with e chk now Inr show ?thesis by (intro sampled [of s]) (auto split: if_splits)
    qed
  qed
qed

lemma sampled_guard_fields:
  "guard_maxBytes (sampled_guard g s now) = guard_maxBytes g" "guard_mainPageLimitBytes (sampled_guard g s now) = guard_mainPageLimitBytes g"
  "guard_warning (sampled_guard g s now) = guard_warning g" "guard_path (sampled_guard g s now) = guard_path g"
  "desiredMaxPageCount (sampled_guard g s now) = desiredMaxPageCount g" "emailEnabled (sampled_guard g s now) = emailEnabled g"
  "mailer (sampled_guard g s now) = mailer g"
  by (simp_all add: sampled_guard_def)

lemma sampleLocked_ok:
  assumes "guard_ok guard" "growth_check row" "sampleLocked p now fault periodic guard row = (r, guard', row')"
  shows "guard_ok guard' \<and> growth_check row'"
  using assms(1,3)
proof (cases rule: sampleLocked_cases)
  case (failed e)
  with assms show ?thesis by (simp add: guard_ok_def)
next
  case (unwritten s)
  with assms show ?thesis by (simp add: guard_ok_def sampled_guard_fields)
next
  case (sampled s)
  with assms show ?thesis by (auto simp: guard_ok_def sampled_guard_fields)
qed

lemma AcquireWrite_ok:
  assumes "guard_ok guard" "growth_check row" "AcquireWrite ctx p now fault guard row = (e, guard', row')"
  shows "guard_ok guard' \<and> growth_check row'"
proof (cases ctx)
  case (Some e')
  with assms show ?thesis by (auto simp: AcquireWrite_def)
next
  case None
  obtain r g1 r1 where run: "sampleLocked p now fault False guard row = (r, g1, r1)" using prod_cases3 by blast
  from sampleLocked_ok [OF assms(1,2) run] None run assms(3) show ?thesis
    by (auto simp: AcquireWrite_def guard_ok_def signalNotification_def Let_def split: sum.splits if_splits)
qed

lemma growth_tick_ok:
  assumes "guard_ok guard" "growth_check row" "growth_tick cancelled p now fault guard row = (b, guard', row')"
  shows "guard_ok guard' \<and> growth_check row'"
proof (cases cancelled)
  case False
  obtain r g1 r1 where run: "sampleLocked p now fault True guard row = (r, g1, r1)" using prod_cases3 by blast
  from sampleLocked_ok [OF assms(1,2) run] False run assms(3) show ?thesis
    by (auto simp: growth_tick_def guard_ok_def signalNotification_def split: sum.splits if_splits)
qed (use assms in \<open>auto simp: growth_tick_def\<close>)

lemma retry_delay_bounds: "0 \<le> retryDelayAfterFailure n sdiv second \<and> retryDelayAfterFailure n sdiv second \<le> 86400"
  by (simp add: retryDelayAfterFailure_def second_def sdiv_nonneg)

lemma finish_delivery_ok:
  assumes "guard_ok guard" "growth_check row" "now < clock_bound" "finish_delivery d sent now fault guard row = (guard', row')"
  shows "guard_ok guard' \<and> growth_check row'"
proof (cases "PendingKind (loaded guard) = Some (delivery_kind d) \<and> PendingSinceUnix (loaded guard) = Some (delivery_since d) \<and> 0 \<le> now")
  case True
  from assms(1) have chk: "growth_check (loaded guard)" by (simp add: guard_ok_def)
  let ?l = "if sent then delivery_sent (delivery_kind d) now (loaded guard) else delivery_failed now (loaded guard)"
  have i: "int64 (now + retryDelayAfterFailure n sdiv second) = now + retryDelayAfterFailure n sdiv second" for n
    using True assms(3) retry_delay_bounds [of n] by (simp add: clock_bound_def)
  have "growth_check ?l"
    using chk True retry_delay_bounds [of "RetryAttempt (loaded guard)"]
    by (auto simp: growth_check_def delivery_sent_def delivery_failed_def clearPending_def opt_nonneg_def i Let_def)
  with True assms show ?thesis
    by (auto simp: finish_delivery_def writeGrowth_check Let_def guard_ok_def split: if_splits)
next
  case False
  with assms show ?thesis by (auto simp: finish_delivery_def split: if_splits)
qed

lemma NewDatabaseGrowthGuard_ok:
  assumes "growth_check row" "NewDatabaseGrowthGuard p1 p2 p3 rfault wfault now opts row = (Inr guard, row')"
  shows "guard_ok guard \<and> growth_check row'"
proof -
  from assms(2) obtain desired effective mainLimit where lim: "guard_options_ok opts"
    "databaseGrowthPageLimits p1 (opt_MaxBytes opts) = Inr (desired, effective, mainLimit)"
    by (auto simp: NewDatabaseGrowthGuard_def split: if_splits sum.splits)
  obtain ps where ps: "0 < ps" "0 < desired" "mainLimit = desired * ps" "mainLimit + 4 * ps \<le> opt_MaxBytes opts"
    by (rule databaseGrowthPageLimits_Inr [OF lim(2)])
  then have "0 < mainLimit" by simp
  with ps lim(1) have l: "limits_ok (opt_MaxBytes opts) mainLimit (opt_WarningPercent opts)"
    by (auto simp: limits_ok_def guard_options_ok_def)
  let ?g = "\<lparr>guard_path = opt_Path opts, guard_maxBytes = opt_MaxBytes opts, guard_warning = opt_WarningPercent opts,
            guard_retentionDays = opt_RetentionDays opts, emailEnabled = opt_EmailEnabled opts, mailer = opt_Mailer opts,
            reminder = reminder_of opts, mu_locked = False, wake = False, last_sample = empty_sample, loaded = row,
            guard_mainPageLimitBytes = mainLimit, desiredMaxPageCount = desired, sampleHealthy = False\<rparr>"
  obtain r g1 r1 where run: "sampleLocked p3 now wfault True ?g row = (r, g1, r1)" using prod_cases3 by blast
  have "guard_ok ?g" using l lim(1) ps(2) assms(1) by (auto simp: guard_ok_def guard_options_ok_def)
  from sampleLocked_ok [OF this assms(1) run] have "guard_ok g1" "growth_check r1" by simp_all
  moreover from assms(2) lim run have "guard = signalNotification g1 \<and> row' = r1"
    by (auto simp: NewDatabaseGrowthGuard_def readGrowthPersistentState_def split: option.splits if_splits sum.splits)
  ultimately show ?thesis by (simp add: guard_ok_def signalNotification_def)
qed

lemma growth_reachable_ok: "growth_reachable guard row d \<Longrightarrow> guard_ok guard \<and> growth_check row"
proof (induction rule: growth_reachable.induct)
  case started
  then show ?case using NewDatabaseGrowthGuard_ok by blast
next
  case acquired
  then show ?case using AcquireWrite_ok by blast
next
  case released
  then show ?case by (simp add: guard_ok_def lease_Release_def)
next
  case ticked
  then show ?case using growth_tick_ok by blast
next
  case delivering
  then show ?case by (simp add: guard_ok_def)
next
  case delivered
  then show ?case using finish_delivery_ok by blast
qed

subsection \<open>Classification and admission\<close>

text \<open>C26: a successful sample classifies the measured database exactly: the used pages and the file
  family that SQLite and the file system report decide the state by exact comparison with
  the budgets (100, 90 and the warning percentage; five points lower for the state being
  left), with no rounding or overflow, in every reachable guard; the guard's state is then
  that state.\<close>

theorem growth_state_exact:
  assumes "growth_reachable guard row d"
    and "sampleLocked p now fault periodic guard row = (Inr (s, transitioned), guard', row')"
  shows "\<exists>pageSize pageCount freelistCount mainBytes walBytes shmBytes.
    pragmaInt64 p ''page_size'' = Inr pageSize \<and> pragmaInt64 p ''page_count'' = Inr pageCount \<and>
    pragmaInt64 p ''freelist_count'' = Inr freelistCount \<and> secureSidecarSize p (guard_path guard) True = Inr mainBytes \<and>
    secureSidecarSize p (guard_path guard @ ''-wal'') False = Inr walBytes \<and>
    secureSidecarSize p (guard_path guard @ ''-shm'') False = Inr shmBytes \<and>
    sample_State s = growth_spec (growth_State (loaded guard)) (guard_warning guard)
      (\<lambda>k. over_percent k ((pageCount - freelistCount) * pageSize) (guard_mainPageLimitBytes guard)
             (mainBytes + walBytes + shmBytes) (guard_maxBytes guard)) \<and>
    growth_State (loaded guard') = sample_State s \<and> transitioned = (sample_State s \<noteq> growth_State (loaded guard))"
proof -
  from growth_reachable_ok [OF assms(1)] have ok: "guard_ok guard" by simp
  from ok assms(2) show ?thesis
  proof (cases rule: sampleLocked_cases)
    case (sampled s0)
    from ok have v: "limits_ok (guard_maxBytes guard) (guard_mainPageLimitBytes guard) (guard_warning guard)"
      "growth_Valid (growth_State (loaded guard))" by (auto simp: guard_ok_def growth_check_def)
    from sample_state_spec [OF sampled(2) v] have st: "sample_State s0 = growth_spec (growth_State (loaded guard)) (guard_warning guard)
      (\<lambda>k. over_percent k (UsedLogicalBytes s0) (guard_mainPageLimitBytes guard) (PhysicalFamilyBytes s0) (guard_maxBytes guard))" ..
    have "growth_State (fst (alert_update guard st now l)) = st" for st l
      by (simp add: alert_update_def Let_def transition_alert_def schedule_alert_def clearPending_def)
    with sampled have "growth_State (loaded guard') = sample_State s0" by (simp add: sampled_guard_def)
    moreover have "sample_State s = sample_State s0" "transitioned = (sample_State s0 \<noteq> growth_State (loaded guard))"
      using sampled(3) by simp_all
    moreover obtain pageSize pageCount freelistCount mainBytes walBytes shmBytes where
      m: "pragmaInt64 p ''page_size'' = Inr pageSize" "pragmaInt64 p ''page_count'' = Inr pageCount"
        "pragmaInt64 p ''freelist_count'' = Inr freelistCount" "secureSidecarSize p (guard_path guard) True = Inr mainBytes"
        "secureSidecarSize p (guard_path guard @ ''-wal'') False = Inr walBytes"
        "secureSidecarSize p (guard_path guard @ ''-shm'') False = Inr shmBytes"
        "UsedLogicalBytes s0 = (pageCount - freelistCount) * pageSize" "PhysicalFamilyBytes s0 = mainBytes + walBytes + shmBytes"
      by (rule sample_Inr [OF sampled(2)])
    note st [unfolded m(7,8)]
    ultimately show ?thesis using m(1-6) by (intro exI conjI) (assumption | simp)+
  qed simp_all
qed

text \<open>C25: in every reachable guard a write lease is granted only when the sample taken for it
  is below both hard limits (and below 95 percent of both while the guard is in the hard
  state); the lease holds the mutex, so no second admission happens before its release.\<close>

theorem admitted_write_below_limits:
  assumes "growth_reachable guard row d" and "AcquireWrite None p now fault guard row = (None, guard', row')"
  shows "\<exists>s. guard_sample p now guard = Inr s \<and>
      UsedLogicalBytes s < guard_mainPageLimitBytes guard \<and> PhysicalFamilyBytes s < guard_maxBytes guard \<and>
      (growth_State (loaded guard) = DatabaseGrowthHard \<longrightarrow>
        UsedLogicalBytes s * 100 < guard_mainPageLimitBytes guard * 95 \<and> PhysicalFamilyBytes s * 100 < guard_maxBytes guard * 95) \<and>
      mu_locked guard' \<and> growth_Ready guard' = None"
proof -
  from growth_reachable_ok [OF assms(1)] have ok: "guard_ok guard" by simp
  obtain r g1 r1 where run: "sampleLocked p now fault False guard row = (r, g1, r1)" using prod_cases3 by blast
  from ok run show ?thesis
  proof (cases rule: sampleLocked_cases)
    case (sampled s)
    from ok have v: "limits_ok (guard_maxBytes guard) (guard_mainPageLimitBytes guard) (guard_warning guard)"
      "growth_Valid (growth_State (loaded guard))" by (auto simp: guard_ok_def growth_check_def)
    have g: "sample_State s \<noteq> DatabaseGrowthHard" "mu_locked guard'" "growth_Ready guard' = None"
      using assms(2) run sampled
      by (auto simp: AcquireWrite_def Let_def signalNotification_def growth_Ready_def sampled_guard_def split: if_splits)
    with sample_state_spec [OF sampled(2) v] sampled(2) show ?thesis
      by (auto simp: growth_spec_def over_percent_def not_le split: if_splits)
  qed (use assms(2) run in \<open>auto simp: AcquireWrite_def\<close>)
qed

subsection \<open>Alerts\<close>

text \<open>Failed attempts, each made as soon as the alert is due.\<close>

fun failed_attempts :: "nat \<Rightarrow> DatabaseGrowthGuard \<Rightarrow> growthPersistentState \<Rightarrow> DatabaseGrowthGuard \<times> growthPersistentState" where
  "failed_attempts 0 guard row = (guard, row)"
| "failed_attempts (Suc n) guard row =
     (case failed_attempts n guard row of (g, r) \<Rightarrow>
        let t = null_int (RetryAfterUnix (loaded g)) in processPending False t t False False g r)"

definition retry_schedule :: "nat \<Rightarrow> int" where
  "retry_schedule n = (if n = 0 then 0 else if n = 1 then 300 else if n = 2 then 1200 else 4800 + 86400 * (int n - 3))"

definition alert_due :: "DatabaseGrowthGuard \<Rightarrow> DatabaseGrowthAlertKind \<Rightarrow> int \<Rightarrow> int \<Rightarrow> nat \<Rightarrow> bool" where
  "alert_due g kind since t n \<longleftrightarrow>
     PendingKind (loaded g) = Some kind \<and> PendingSinceUnix (loaded g) = Some since \<and>
     RetryAfterUnix (loaded g) = Some t \<and> RetryAttempt (loaded g) = min 3 (int n)"

lemma processPending_sent:
  assumes "guard_ok guard" "emailEnabled guard" "alert_due guard kind since t n" "0 \<le> t" "t \<le> now"
  shows "loaded (fst (processPending False now now True fault guard row)) = delivery_sent kind now (loaded guard)"
  using assms
  by (auto simp: processPending_def begin_delivery_def finish_delivery_def guard_ok_def alert_due_def null_int_def
      Let_def split: prod.splits option.splits)

lemma processPending_early:
  assumes "alert_due guard kind since t n" "now < t"
  shows "processPending cancelled now later sent fault guard row = (guard, row)"
  using assms by (simp add: processPending_def begin_delivery_def alert_due_def)

lemma processPending_failed:
  assumes "guard_ok guard" "emailEnabled guard" "alert_due guard kind since t n" "0 \<le> t" "t < clock_bound"
    and "processPending False t t False fault guard row = (guard', row')"
  shows "alert_due guard' kind since (t + (retry_schedule (Suc n) - retry_schedule n)) (Suc n) \<and>
    emailEnabled guard' = emailEnabled guard"
proof -
  have "retryDelayAfterFailure (min 3 (int n)) sdiv second = retry_schedule (Suc n) - retry_schedule n"
  proof (cases "n < 3")
    case True
    then have "n = 0 \<or> n = 1 \<or> n = 2" by auto
    then show ?thesis by (auto simp: retryDelayAfterFailure_def retry_schedule_def second_def sdiv_nonneg)
  qed (simp add: retryDelayAfterFailure_def retry_schedule_def second_def sdiv_nonneg min_def)
  moreover have "int64 (t + d) = t + d" if "0 \<le> d" "d \<le> 86400" for d
    using that assms(4,5) by (simp add: clock_bound_def)
  moreover note retry_delay_bounds [of "min 3 (int n)"]
  ultimately have *: "loaded guard' = (loaded guard)\<lparr>RetryAttempt := min 3 (int (Suc n)),
      RetryAfterUnix := Some (t + (retry_schedule (Suc n) - retry_schedule n))\<rparr> \<and> emailEnabled guard' = emailEnabled guard"
    using assms
    by (auto simp: processPending_def begin_delivery_def finish_delivery_def guard_ok_def alert_due_def null_int_def
        delivery_failed_def Let_def min_def split: prod.splits option.splits if_splits)
  with assms(3) show ?thesis by (simp add: alert_due_def)
qed

lemma failed_attempts_due:
  assumes "guard_ok guard" "growth_check row" "emailEnabled guard" "alert_due guard kind since t 0" "0 \<le> t"
    and "t + retry_schedule n < clock_bound" "failed_attempts n guard row = (guard', row')"
  shows "guard_ok guard' \<and> growth_check row' \<and> emailEnabled guard' \<and> alert_due guard' kind since (t + retry_schedule n) n"
  using assms(6,7)
proof (induction n arbitrary: guard' row')
  case 0
  with assms show ?case by (simp add: retry_schedule_def)
next
  case (Suc n)
  obtain g r where run: "failed_attempts n guard row = (g, r)" by fastforce
  have mono: "0 \<le> retry_schedule n" "retry_schedule n \<le> retry_schedule (Suc n)" by (auto simp: retry_schedule_def)
  with Suc.prems(1) have b: "t + retry_schedule n < clock_bound" by simp
  from Suc.IH [OF b run] have IH: "guard_ok g" "growth_check r" "emailEnabled g" "alert_due g kind since (t + retry_schedule n) n"
    by simp_all
  then have due: "null_int (RetryAfterUnix (loaded g)) = t + retry_schedule n" by (simp add: alert_due_def null_int_def)
  have step: "processPending False (t + retry_schedule n) (t + retry_schedule n) False False g r = (guard', row')"
    using Suc.prems(2) run due by (simp add: Let_def)
  have t0: "0 \<le> t + retry_schedule n" using mono assms(5) by simp
  from processPending_failed [OF IH(1,3,4) t0 b step] have 1: "alert_due guard' kind since (t + retry_schedule (Suc n)) (Suc n)" "emailEnabled guard'"
    using IH(3) by (simp_all add: algebra_simps)
  have "guard_ok guard' \<and> growth_check row'"
  proof (cases "begin_delivery False (t + retry_schedule n) g")
    case None
    with step IH show ?thesis by (simp add: processPending_def)
  next
    case (Some d)
    with step finish_delivery_ok [OF IH(1,2) b] show ?thesis by (simp add: processPending_def)
  qed
  with 1 show ?case by simp
qed

text \<open>C27: an alert that a sample schedules is delivered: attempts are made at the moment it is
  scheduled and, after each failure, 5, 15 and 60 minutes and then a day later, never
  earlier; whatever number of them fails, the alert stays pending, and the first successful
  one records it as mailed and clears it.\<close>

theorem scheduled_alert_delivered:
  assumes "growth_reachable guard row None" "emailEnabled guard" "alert_due guard kind since t 0" "0 \<le> t"
    and "t + retry_schedule n < clock_bound" "failed_attempts n guard row = (guard', row')"
  shows "(\<forall>now < t + retry_schedule n. \<forall>later sent fault. processPending False now later sent fault guard' row' = (guard', row')) \<and>
    (\<forall>now \<ge> t + retry_schedule n. \<forall>fault.
       let l = loaded (fst (processPending False now now True fault guard' row'))
       in LastEmailKind l = Some kind \<and> LastEmailUnix l = Some now \<and> PendingKind l = None)"
proof -
  from growth_reachable_ok [OF assms(1)] failed_attempts_due [OF _ _ assms(2-6)]
  have ok: "guard_ok guard'" "emailEnabled guard'" and due: "alert_due guard' kind since (t + retry_schedule n) n" by simp_all
  have "0 \<le> t + retry_schedule n" using assms(4) by (simp add: retry_schedule_def)
  then show ?thesis
    using processPending_early [OF due] processPending_sent [OF ok due]
    by (simp add: Let_def delivery_sent_def clearPending_def)
qed

lemma alert_update_pending:
  "emailEnabled guard \<Longrightarrow> PendingKind s \<noteq> None \<Longrightarrow> PendingKind (fst (alert_update guard st now s)) \<noteq> None"
  by (auto simp: alert_update_def Let_def transition_alert_def schedule_alert_def)

lemma sampleLocked_pending:
  assumes "guard_ok guard" "emailEnabled guard" "PendingKind (loaded guard) \<noteq> None"
    and "sampleLocked p now fault periodic guard row = (r, guard', row')"
  shows "PendingKind (loaded guard') \<noteq> None"
  using assms(1,4)
  by (cases rule: sampleLocked_cases)
    (use assms(2,3) alert_update_pending [of guard "loaded guard"] in \<open>auto simp: sampled_guard_def\<close>)


subsection \<open>A concrete guard\<close>

text \<open>A one-gibibyte budget, and a database whose main file has reached 80 percent of it.\<close>

definition sample_probe :: "int \<Rightarrow> probe" where
  "sample_probe mainBytes =
     \<lparr>pragma = map_of [(''page_size'', 4096), (''page_count'', 1000), (''freelist_count'', 10),
                       (''max_page_count'', 229376), (''cache_spill'', 0)],
      lstat = (\<lambda>path. if path = ''d.db'' then Stat False True mainBytes else StatMissing)\<rparr>"

definition sample_growth_options :: DatabaseGrowthOptions where
  "sample_growth_options = \<lparr>opt_Path = ''d.db'', opt_MaxBytes = 2 ^ 30, opt_WarningPercent = 75, opt_RetentionDays = 0,
     opt_EmailEnabled = True, opt_Mailer = True, opt_SampleInterval = 0, opt_ReminderInterval = 0\<rparr>"

definition sample_guard :: DatabaseGrowthGuard where
  "sample_guard = \<lparr>guard_path = ''d.db'', guard_maxBytes = 2 ^ 30, guard_warning = 75, guard_retentionDays = 0,
     emailEnabled = True, mailer = True, reminder = 86400000000000, mu_locked = False, wake = True,
     last_sample = \<lparr>sample_ObservedUnix = 1000, sample_State = DatabaseGrowthWarning, PressurePercent = 80, PageSize = 4096,
       PageCount = 1000, UsedPages = 990, ReusablePages = 10, MaxPageCount = 229376, UsedLogicalBytes = 4055040,
       AllocatedLogicalBytes = 4096000, MainPageLimitBytes = 939524096, PhysicalMainBytes = 858993460, WALBytes = 0,
       SHMBytes = 0, PhysicalFamilyBytes = 858993460, GrowthBytes = 0, GrowthKnown = False, sample_MaxBytes = 2 ^ 30,
       sample_WarningPercent = 75, sample_RetentionDays = 0, WriteAllowed = True\<rparr>,
     loaded = \<lparr>growth_State = DatabaseGrowthWarning, SampledUnix = 1000, PhysicalBytes = 858993460, TransitionUnix = 1000,
       LastEmailKind = None, LastEmailUnix = None, PendingKind = Some DatabaseGrowthAlertWarning,
       PendingSinceUnix = Some 1000, RetryAfterUnix = Some 1000, RetryAttempt = 0\<rparr>,
     guard_mainPageLimitBytes = 939524096, desiredMaxPageCount = 229376, sampleHealthy = True\<rparr>"

lemma sample_limits: "databaseGrowthPageLimits (sample_probe n) (2 ^ 30) = Inr (229376, 229376, 939524096)"
  by (simp add: databaseGrowthPageLimits_def sample_probe_def pragmaInt64_def growth_constants roundUp_def
      sdiv_nonneg smod_nonneg Let_def)

lemma sample_policy: "verifyDatabaseGrowthConnectionPolicy (sample_probe n) (2 ^ 30) 229376 939524096 False = None"
  unfolding verifyDatabaseGrowthConnectionPolicy_def sample_limits
  by (simp add: sample_probe_def pragmaInt64_def)

lemma sample_measured:
  assumes "0 \<le> n" "n < 2 ^ 40"
  shows "sampleDatabaseGrowth (sample_probe n) ''d.db'' (2 ^ 30) 75 0 229376 939524096 previous prevState = Inr
    \<lparr>sample_ObservedUnix = 0,
     sample_State = applyGrowthHysteresis (classifyGrowthState 4055040 939524096 n (2 ^ 30) 75) (max 0 (boundedPercent n (2 ^ 30))) prevState 75,
     PressurePercent = max 0 (boundedPercent n (2 ^ 30)), PageSize = 4096,
     PageCount = 1000, UsedPages = 990, ReusablePages = 10, MaxPageCount = 229376, UsedLogicalBytes = 4055040,
     AllocatedLogicalBytes = 4096000, MainPageLimitBytes = 939524096, PhysicalMainBytes = n, WALBytes = 0,
     SHMBytes = 0, PhysicalFamilyBytes = n, GrowthBytes = (case previous of None \<Rightarrow> 0 | Some s \<Rightarrow> int64 (n - PhysicalFamilyBytes s)),
     GrowthKnown = (previous \<noteq> None), sample_MaxBytes = 2 ^ 30,
     sample_WarningPercent = 75, sample_RetentionDays = 0,
     WriteAllowed = (applyGrowthHysteresis (classifyGrowthState 4055040 939524096 n (2 ^ 30) 75) (max 0 (boundedPercent n (2 ^ 30))) prevState 75 \<noteq> DatabaseGrowthHard)\<rparr>"
proof -
  have pages: "sample_pages (sample_probe n) = Inr (4096, 1000, 10, 229376)"
    by (simp add: sample_pages_def sample_probe_def pragmaInt64_def)
  have files: "sample_files (sample_probe n) ''d.db'' = Inr (n, 0, 0)"
    using assms by (simp add: sample_files_def sample_probe_def secureSidecarSize_def)
  have m: "checkedMultiply 990 4096 = Some 4055040" "checkedMultiply 1000 4096 = Some 4096000" "checkedAdd [n, 0, 0] = Some n"
    using assms by (simp_all add: checkedMultiply_def sdiv_nonneg checkedAdd_def)
  have p: "boundedPercent 4055040 939524096 = 0"
    by (simp add: boundedPercent_def sdiv_nonneg growth_constants)
  show ?thesis
    unfolding sampleDatabaseGrowth_def pages files
    by (simp add: m p DatabaseCriticalPercent_def Let_def max_def)
qed

lemma sample_started:
  "NewDatabaseGrowthGuard (sample_probe 858993460) (sample_probe 858993460) (sample_probe 858993460) False False 1000
     sample_growth_options migrated_growth_row = (Inr sample_guard, loaded sample_guard)"
proof -
  have st: "classifyGrowthState 4055040 939524096 858993460 (2 ^ 30) 75 = DatabaseGrowthWarning"
    "boundedPercent 858993460 (2 ^ 30) = 80"
    by (simp_all add: classifyGrowthState_def atLeastPercent_def boundedPercent_def sdiv_nonneg growth_constants)
  show ?thesis
    unfolding NewDatabaseGrowthGuard_def
    by (simp add: sample_limits [simplified] sample_policy [simplified] sample_growth_options_def guard_options_ok_def growth_constants
        readGrowthPersistentState_def migrated_growth_row_def sampleLocked_def sample_measured [simplified] previous_sample_def
        empty_sample_def st [simplified] applyGrowthHysteresis_def alert_update_def Let_def transition_alert_def schedule_alert_def
        alertKindForTransition_def needs_first_alert_def needs_reminder_def writeGrowthPersistentState_def growth_check_def
        opt_nonneg_def signalNotification_def reminder_of_def sample_guard_def)
qed

lemma sample_guard_reachable: "growth_reachable sample_guard (loaded sample_guard) None"
  by (rule growth_reachable.started [OF _ _ sample_started]) (simp_all add: migrated_growth_row_def growth_check_def opt_nonneg_def clock_bound_def)

lemma sample_resampled:
  assumes "classifyGrowthState 4055040 939524096 n (2 ^ 30) 75 = st" "growthRank st \<ge> 1" "0 \<le> n" "n < 2 ^ 40"
  shows "\<exists>s g r. sampleLocked (sample_probe n) 2000 False False sample_guard (loaded sample_guard) =
    (Inr (s, st \<noteq> DatabaseGrowthWarning), g, r) \<and> sample_State s = st"
proof -
  let ?row = "loaded sample_guard"
  obtain r g row' where run: "sampleLocked (sample_probe n) 2000 False False sample_guard ?row = (r, g, row')"
    using prod_cases3 by blast
  from sample_guard_reachable growth_reachable_ok have ok: "guard_ok sample_guard" by blast
  have cfg: "guard_path sample_guard = ''d.db''" "guard_maxBytes sample_guard = 2 ^ 30" "guard_warning sample_guard = 75"
    "guard_retentionDays sample_guard = 0" "desiredMaxPageCount sample_guard = 229376"
    "guard_mainPageLimitBytes sample_guard = 939524096" "growth_State (loaded sample_guard) = DatabaseGrowthWarning"
    by (simp_all add: sample_guard_def)
  note m = sample_measured [OF assms(3,4)]
  have up: "applyGrowthHysteresis st pr DatabaseGrowthWarning 75 = st" for pr
    using assms(2) by (simp add: applyGrowthHysteresis_def)
  from ok run show ?thesis
  proof (cases rule: sampleLocked_cases)
    case (failed e)
    then show ?thesis using m [simplified] by (simp add: cfg)
  next
    case (sampled s)
    from sampled(2) have "sample_State s = st" unfolding cfg m by (auto simp: assms(1) [simplified] up)
    with run sampled(3) show ?thesis by (simp add: cfg)
  qed simp
qed

theorem growth_state_exact_witness:
  "\<exists>s g r. sampleLocked (sample_probe (2 ^ 30)) 2000 False False sample_guard (loaded sample_guard) = (Inr (s, True), g, r) \<and>
     growth_State (loaded g) = DatabaseGrowthHard"
proof -
  have "classifyGrowthState 4055040 939524096 (2 ^ 30) (2 ^ 30) 75 = DatabaseGrowthHard"
    by (simp add: classifyGrowthState_def atLeastPercent_def growth_constants)
  from sample_resampled [OF this] obtain s g r where
    run: "sampleLocked (sample_probe (2 ^ 30)) 2000 False False sample_guard (loaded sample_guard) = (Inr (s, True), g, r)"
    and st: "sample_State s = DatabaseGrowthHard" by auto
  from growth_state_exact [OF sample_guard_reachable run] run st show ?thesis by auto
qed

theorem admitted_write_below_limits_witness:
  "\<exists>g r. AcquireWrite None (sample_probe 858993460) 2000 False sample_guard (loaded sample_guard) = (None, g, r) \<and>
     mu_locked g \<and> growth_Ready g = None"
proof -
  have "classifyGrowthState 4055040 939524096 858993460 (2 ^ 30) 75 = DatabaseGrowthWarning"
    by (simp add: classifyGrowthState_def atLeastPercent_def sdiv_nonneg growth_constants)
  from sample_resampled [OF this] obtain g r where
    "AcquireWrite None (sample_probe 858993460) 2000 False sample_guard (loaded sample_guard) = (None, g, r)"
    by (auto simp: AcquireWrite_def)
  with admitted_write_below_limits [OF sample_guard_reachable this] show ?thesis by blast
qed

lemma sample_alert_due: "alert_due sample_guard DatabaseGrowthAlertWarning 1000 1000 0"
  by (simp add: alert_due_def sample_guard_def)

theorem scheduled_alert_delivered_witness:
  "\<exists>g r. failed_attempts 2 sample_guard (loaded sample_guard) = (g, r) \<and>
     LastEmailKind (loaded (fst (processPending False 5000 5000 True False g r))) = Some DatabaseGrowthAlertWarning"
proof -
  obtain g r where run: "failed_attempts 2 sample_guard (loaded sample_guard) = (g, r)" by fastforce
  have "1000 + retry_schedule 2 < clock_bound" "emailEnabled sample_guard"
    by (simp_all add: retry_schedule_def clock_bound_def sample_guard_def)
  from scheduled_alert_delivered [OF sample_guard_reachable this(2) sample_alert_due _ this(1) run] run show ?thesis
    by (simp add: retry_schedule_def Let_def)
qed


text \<open>
  A warning percentage of at most five is accepted by the configuration, and then the warning
  state has no way down: five points below it is zero, which every database reaches.
\<close>

lemma low_warning_never_recovers:
  assumes "warning \<le> 5" "0 \<le> used" "0 \<le> family" "limits_ok maxBytes mainLimit warning"
  shows "growth_spec DatabaseGrowthWarning warning (\<lambda>k. over_percent k used mainLimit family maxBytes) \<noteq> DatabaseGrowthNormal"
proof -
  have "mainLimit * (warning - 5) \<le> 0" using assms by (intro mult_nonneg_nonpos) (auto simp: limits_ok_def)
  then have "over_percent (warning - 5) used mainLimit family maxBytes" using assms(2) by (simp add: over_percent_def)
  then show ?thesis by (simp add: growth_spec_def)
qed

end
