(* ===== verification/Json.thy ===== *)
theory Json
  imports GoStd
begin

section \<open>JSON texts of strings and string lists: \<open>encoding/json\<close>\<close>

text \<open>
  \<open>json.Marshal\<close> of a \<open>string\<close> and of a \<open>[]string\<close>, with the HTML-safe escaping Go applies
  by default, and \<open>json.Unmarshal\<close> into the same types. Unmarshalling answers \<open>None\<close> for every
  text for which Go returns an error: a syntax error, or a value of another JSON type.
  \<open>null\<close> is accepted and leaves the zero value. The last lemmas are the round trip.
\<close>

subsection \<open>Marshal\<close>

definition html_safe :: "char \<Rightarrow> bool" where
  "html_safe c \<longleftrightarrow> 32 \<le> code c \<and> code c < 128 \<and> c \<notin> {CHR 0x22, CHR 0x5C, CHR 0x3C, CHR 0x3E, CHR 0x26}"

definition escape_ascii :: "char \<Rightarrow> string" where
  "escape_ascii c =
     (if c = CHR 0x5C \<or> c = CHR 0x22 then [CHR 0x5C, c]
      else if code c = 8 then [CHR 0x5C, CHR ''b'']
      else if code c = 12 then [CHR 0x5C, CHR ''f'']
      else if code c = 10 then [CHR 0x5C, CHR ''n'']
      else if code c = 13 then [CHR 0x5C, CHR ''r'']
      else if code c = 9 then [CHR 0x5C, CHR ''t'']
      else [CHR 0x5C, CHR ''u'', CHR ''0'', CHR ''0'', hex_char (code c div 16), hex_char (code c mod 16)])"

function json_escape :: "string \<Rightarrow> string" where
  "json_escape s =
     (case s of
        [] \<Rightarrow> []
      | c # cs \<Rightarrow>
          if code c < 128 then (if html_safe c then [c] else escape_ascii c) @ json_escape cs
          else case decode_rune s of
                 None \<Rightarrow> CHR 0x5C # ''ufffd'' @ json_escape cs
               | Some (r, w) \<Rightarrow>
                   (if r = 0x2028 then CHR 0x5C # ''u2028'' else if r = 0x2029 then CHR 0x5C # ''u2029'' else take w s)
                   @ json_escape (drop w s))"
  by pat_completeness auto
termination
  by (relation "measure length") (auto dest!: decode_rune_width simp del: decode_rune.simps)

declare json_escape.simps [simp del]

definition marshal_string :: "string \<Rightarrow> string" where
  "marshal_string s = CHR 0x22 # json_escape s @ [CHR 0x22]"

definition marshal_list :: "string list \<Rightarrow> string" where
  "marshal_list vs = CHR ''['' # join_with '','' (map marshal_string vs) @ '']''"

subsection \<open>Unmarshal\<close>

definition json_space :: "char \<Rightarrow> bool" where
  "json_space c \<longleftrightarrow> code c \<in> {32, 9, 13, 10}"

definition skip_space :: "string \<Rightarrow> string" where
  "skip_space s = dropWhile json_space s"

fun getu4 :: "string \<Rightarrow> nat option" where
  "getu4 (a # b # c # d # _) =
     (if is_hex a \<and> is_hex b \<and> is_hex c \<and> is_hex d then Some (hex_value [a, b, c, d]) else None)"
| "getu4 _ = None"

definition EncodeRune :: "nat \<Rightarrow> string" where
  "EncodeRune r =
     (if r < 128 then bytes [r]
      else if r < 2048 then bytes [192 + r div 64, 128 + r mod 64]
      else if r < 65536 then bytes [224 + r div 4096, 128 + r div 64 mod 64, 128 + r mod 64]
      else bytes [240 + r div 262144, 128 + r div 4096 mod 64, 128 + r div 64 mod 64, 128 + r mod 64])"

definition replacement :: string where
  "replacement = bytes [239, 191, 189]"

definition simple_escape :: "char \<Rightarrow> char option" where
  "simple_escape e =
     (if e \<in> {CHR 0x22, CHR 0x5C, CHR ''/''} then Some e
      else if e = CHR ''b'' then Some (char_of (8::nat))
      else if e = CHR ''f'' then Some (char_of (12::nat))
      else if e = CHR ''n'' then Some (char_of (10::nat))
      else if e = CHR ''r'' then Some (char_of (13::nat))
      else if e = CHR ''t'' then Some (char_of (9::nat))
      else None)"

text \<open>
  One \<open>\u\<close> escape, given what follows its four digits: a surrogate pair takes the following
  escape too, an unpaired surrogate becomes U+FFFD. The result is the text and how many
  bytes after the four digits it takes.
\<close>

definition unicode_escape :: "nat \<Rightarrow> string \<Rightarrow> string \<times> nat" where
  "unicode_escape r following =
     (if between 0xD800 0xDFFF r then
        case following of
          b # u # digits \<Rightarrow>
            if b = CHR 0x5C \<and> u = CHR ''u'' \<and> r < 0xDC00 then
              case getu4 digits of
                Some r2 \<Rightarrow> if between 0xDC00 0xDFFF r2
                           then (EncodeRune ((r - 0xD800) * 1024 + (r2 - 0xDC00) + 65536), 6) else (replacement, 0)
              | None \<Rightarrow> (replacement, 0)
            else (replacement, 0)
        | _ \<Rightarrow> (replacement, 0)
      else (EncodeRune r, 0))"

text \<open>One element of a string literal: its decoded text and the input after it.\<close>

definition unquote_step :: "string \<Rightarrow> (string \<times> string) option" where
  "unquote_step s =
     (case s of
        [] \<Rightarrow> None
      | c # cs \<Rightarrow>
          if c = CHR 0x5C then
            case cs of
              [] \<Rightarrow> None
            | e # es \<Rightarrow>
                if e = CHR ''u'' then
                  case getu4 es of
                    None \<Rightarrow> None
                  | Some r \<Rightarrow> (case unicode_escape r (drop 4 es) of (text, n) \<Rightarrow> Some (text, drop (4 + n) es))
                else map_option (\<lambda>x. ([x], es)) (simple_escape e)
          else if code c < 32 then None
          else if code c < 128 then Some ([c], cs)
          else case decode_rune s of
                 None \<Rightarrow> Some (replacement, cs)
               | Some (_, w) \<Rightarrow> Some (take w s, drop w s))"

lemma unquote_step_shorter: "unquote_step s = Some (v, rest) \<Longrightarrow> length rest < length s"
  using decode_rune_width [of s]
  by (auto simp: unquote_step_def simp del: decode_rune.simps split: if_splits list.splits option.splits prod.splits)

text \<open>The rest of a string literal after its opening quote: its value and what follows the closing quote.\<close>

function unquote :: "string \<Rightarrow> (string \<times> string) option" where
  "unquote s =
     (if s \<noteq> [] \<and> hd s = CHR 0x22 then Some ([], tl s)
      else case unquote_step s of
        None \<Rightarrow> None
      | Some (v, rest) \<Rightarrow> map_option (\<lambda>(w, rest'). (v @ w, rest')) (unquote rest))"
  by pat_completeness auto
termination
  by (relation "measure length") (auto dest!: unquote_step_shorter)

declare unquote.simps [simp del]

lemma unquote_shorter: "unquote s = Some (v, rest) \<Longrightarrow> length rest < length s"
proof (induction s arbitrary: v rest rule: unquote.induct)
  case (1 s)
  show ?case
  proof (cases "s \<noteq> [] \<and> hd s = CHR 0x22")
    case True
    with "1.prems" show ?thesis by (subst (asm) unquote.simps) (cases s; simp)
  next
    case False
    with "1.prems" obtain v1 r1 v2 where step: "unquote_step s = Some (v1, r1)" "unquote r1 = Some (v2, rest)"
      by (subst (asm) unquote.simps) (auto split: option.splits prod.splits if_splits)
    from "1.IH" [OF False step(1) refl step(2)] unquote_step_shorter [OF step(1)] show ?thesis by simp
  qed
qed

definition json_null :: "string \<Rightarrow> string option" where
  "json_null s = (if take 4 s = ''null'' then Some (drop 4 s) else None)"

text \<open>A string value or \<open>null\<close> at the head of the input.\<close>

definition json_text :: "string \<Rightarrow> (string \<times> string) option" where
  "json_text s =
     (if s \<noteq> [] \<and> hd s = CHR 0x22 then unquote (tl s)
      else map_option (\<lambda>rest. ([], rest)) (json_null s))"

lemma json_text_shorter: "json_text s = Some (v, rest) \<Longrightarrow> length rest < length s"
  by (cases s) (auto simp: json_text_def json_null_def dest: unquote_shorter split: if_splits)

definition unmarshal_string :: "string \<Rightarrow> string option" where
  "unmarshal_string s =
     (case json_text (skip_space s) of
        Some (v, rest) \<Rightarrow> if skip_space rest = [] then Some v else None
      | None \<Rightarrow> None)"

text \<open>The elements of an array after its opening bracket and up to its closing one.\<close>

function json_elements :: "string \<Rightarrow> (string list \<times> string) option" where
  "json_elements s =
     (case json_text (skip_space s) of
        None \<Rightarrow> None
      | Some (v, rest) \<Rightarrow>
          (case skip_space rest of
             [] \<Rightarrow> None
           | c # cs \<Rightarrow>
               if c = CHR '']'' then Some ([v], cs)
               else if c = CHR '','' then map_option (\<lambda>(vs, rest'). (v # vs, rest')) (json_elements cs)
               else None))"
  by pat_completeness auto
termination
proof (relation "measure length", goal_cases)
  case (2 s p v rest c cs)
  have "length (skip_space t) \<le> length t" for t by (simp add: skip_space_def length_dropWhile_le)
  with 2 json_text_shorter [of "skip_space s" v rest] show ?case
    by (metis (no_types, lifting) in_measure length_Cons less_Suc_eq_le less_or_eq_imp_le order.strict_trans1 order.strict_trans2 less_imp_le_nat not_less_eq_eq)
qed simp

declare json_elements.simps [simp del]

definition unmarshal_list :: "string \<Rightarrow> string list option" where
  "unmarshal_list s =
     (case skip_space s of
        [] \<Rightarrow> None
      | c # cs \<Rightarrow>
          if c = CHR ''['' then
            (case skip_space cs of
               [] \<Rightarrow> None
             | d # ds \<Rightarrow>
                 if d = CHR '']'' then (if skip_space ds = [] then Some [] else None)
                 else case json_elements cs of
                        Some (vs, rest) \<Rightarrow> if skip_space rest = [] then Some vs else None
                      | None \<Rightarrow> None)
          else case json_null (c # cs) of
                 Some rest \<Rightarrow> if skip_space rest = [] then Some [] else None
               | None \<Rightarrow> None)"

subsection \<open>Round trip\<close>

lemma decode_rune_prefix:
  "decode_rune s = Some (r, w) \<Longrightarrow> w \<le> length s \<and> decode_rune (take w s @ t) = Some (r, w)"
  by (cases s) (auto simp: Let_def split: if_splits list.splits)

lemma three_byte_separator:
  assumes "224 \<le> a" "128 \<le> b" "b \<le> 191" "128 \<le> c" "c \<le> (191::nat)"
    "(a - 224) * 4096 + (b - 128) * 64 + (c - 128) = 8232 + k" "k \<le> 1"
  shows "a = 226 \<and> b = 128 \<and> c = 168 + k"
proof -
  obtain x y z where d: "a = 224 + x" "b = 128 + y" "c = 128 + z" using assms(1,2,4) by (metis le_iff_add)
  with assms have e: "x * 4096 + y * 64 + z = 8232 + k" "y \<le> 63" "z \<le> 63" by simp_all
  with assms(7) have "x = 2" by linarith
  with e assms(7) have "y = 0" by linarith
  with e \<open>x = 2\<close> d show ?thesis by simp
qed

lemma two_byte_small: "x \<le> 223 \<Longrightarrow> b \<le> 191 \<Longrightarrow> (x - 192) * 64 + (b - 128) < (2048::nat)"
  by presburger

lemma four_byte_large:
  "240 \<le> x \<Longrightarrow> (if x = 240 then 144 else 128) \<le> b \<Longrightarrow> (65536::nat) \<le> (x - 240) * 262144 + (b - 128) * 4096 + c + d"
proof -
  assume x: "240 \<le> x" and b: "(if x = 240 then 144 else 128) \<le> b"
  show ?thesis
  proof (cases "x = 240")
    case True
    with b have "16 \<le> b - 128" by simp
    then show ?thesis by linarith
  next
    case False
    with x have "1 \<le> x - 240" by simp
    then show ?thesis by linarith
  qed
qed

lemma decode_rune_three:
  assumes "decode_rune s = Some (r, w)" "2048 \<le> r" "r < 65536"
  obtains a b c t where "s = a # b # c # t" "w = 3" "224 \<le> code a" "128 \<le> code b" "code b \<le> 191" "128 \<le> code c" "code c \<le> 191"
    "r = (code a - 224) * 4096 + (code b - 128) * 64 + (code c - 128)"
proof (cases s)
  case Nil
  with assms show ?thesis by simp
next
  case (Cons a s')
  let ?x = "code a"
  from assms(1,2) Cons have "\<not> ?x < 128" by (auto simp: Let_def split: if_splits)
  moreover from assms(1,2) Cons have "\<not> between 194 223 ?x"
    using two_byte_small [of ?x] calculation
    by (auto simp: Let_def between_def cont_byte_def not_less [symmetric] simp del: not_less split: if_splits list.splits)
  moreover have "\<not> between 240 244 ?x"
  proof
    assume x: "between 240 244 ?x"
    then have "\<not> between 194 223 ?x" "\<not> between 224 239 ?x" "\<not> ?x < 128" by (auto simp: between_def)
    with x assms(1) Cons obtain b c d where "between (if ?x = 240 then 144 else 128) (if ?x = 244 then 143 else 191) (code b)"
      "r = (?x - 240) * 262144 + (code b - 128) * 4096 + (code c - 128) * 64 + (code d - 128)"
      by (auto simp: Let_def split: if_splits list.splits)
    with four_byte_large [of ?x "code b" "(code c - 128) * 64" "code d - 128"] x assms(3) show False
      by (simp add: between_def)
  qed
  ultimately have "between 224 239 ?x" using assms(1) Cons by (auto simp: Let_def split: if_splits)
  with \<open>\<not> between 194 223 ?x\<close> assms(1) Cons that show ?thesis
    by (auto simp: Let_def between_def cont_byte_def split: if_splits list.splits)
qed

lemma decode_rune_separator:
  assumes "decode_rune s = Some (r, w)" "r = 0x2028 \<or> r = 0x2029"
  shows "take w s = EncodeRune r"
proof -
  have e: "EncodeRune 0x2028 = [char_of (226::nat), char_of (128::nat), char_of (168::nat)]"
    "EncodeRune 0x2029 = [char_of (226::nat), char_of (128::nat), char_of (169::nat)]"
    by (simp_all add: EncodeRune_def bytes_def)
  obtain a b c t where s: "s = a # b # c # t" "w = 3" and n: "224 \<le> code a" "128 \<le> code b" "code b \<le> 191" "128 \<le> code c" "code c \<le> 191"
    "r = (code a - 224) * 4096 + (code b - 128) * 64 + (code c - 128)"
    by (rule decode_rune_three [OF assms(1)]) (use assms(2) in auto)
  from assms(2) obtain k where k: "r = 8232 + k" "k \<le> 1" by (auto intro: that [of 0] that [of 1])
  from three_byte_separator [OF n(1-5) n(6) [unfolded k(1), symmetric] k(2)] k(1)
  have "code c = r - 0x2000 + 128" "code a = 226" "code b = 128" by auto
  then have "a = char_of (226::nat)" "b = char_of (128::nat)" "c = char_of (r - 0x2000 + 128)"
    by (metis char_of_code)+
  with s assms(2) e show ?thesis by auto
qed

lemma hex_char_digit: "n < 16 \<Longrightarrow> hex_digit (hex_char n) = Some n"
  by (auto simp: hex_digit_def hex_char_def is_digit_def)

lemma step_safe: "html_safe c \<Longrightarrow> unquote_step (c # t) = Some ([c], t) \<and> c \<noteq> CHR 0x22"
  by (auto simp: unquote_step_def html_safe_def)

lemma step_escaped:
  assumes "code c < 128" "\<not> html_safe c"
  shows "unquote_step (escape_ascii c @ t) = Some ([c], t) \<and> hd (escape_ascii c @ t) \<noteq> CHR 0x22 \<and> escape_ascii c \<noteq> []"
proof -
  have z: "is_hex (CHR ''0'')" "hex_digit (CHR ''0'') = Some 0"
    by (simp_all add: is_hex_def hex_digit_def is_digit_def code_def)
  have g: "getu4 (CHR ''0'' # CHR ''0'' # hex_char (code c div 16) # hex_char (code c mod 16) # t) = Some (code c)"
    using assms(1) z by (simp add: is_hex_def hex_char_digit hex_value_def from_digits_def)
  have e: "EncodeRune (code c) = [c]" using assms(1) by (simp add: EncodeRune_def bytes_def)
  have small: "\<not> between 0xD800 0xDFFF (code c)" using assms(1) by (simp add: between_def)
  have chars: "code c = 8 \<Longrightarrow> char_of (8::nat) = c" "code c = 12 \<Longrightarrow> char_of (12::nat) = c" "code c = 10 \<Longrightarrow> char_of (10::nat) = c"
    "code c = 13 \<Longrightarrow> char_of (13::nat) = c" "code c = 9 \<Longrightarrow> char_of (9::nat) = c"
    by (metis char_of_code)+
  show ?thesis
    using g e small chars
    by (auto simp: escape_ascii_def unquote_step_def simple_escape_def unicode_escape_def simp del: getu4.simps)
qed

lemma step_rune:
  assumes "decode_rune s = Some (r, w)" "s \<noteq> []" "128 \<le> code (hd s)"
  shows "unquote_step (take w s @ t) = Some (take w s, t) \<and> hd (take w s @ t) \<noteq> CHR 0x22 \<and> take w s \<noteq> []"
proof -
  from decode_rune_width [OF assms(1)] have w: "0 < w" by simp
  then have h: "take w s = hd s # take (w - 1) (tl s)" using assms(2) by (cases s; cases w) auto
  have q: "hd s \<noteq> CHR 0x22" "hd s \<noteq> CHR 0x5C" using assms(3) by (auto simp: code_def)
  from decode_rune_prefix [OF assms(1), of t] have d: "decode_rune (take w s @ t) = Some (r, w)" "w \<le> length s" by simp_all
  have td: "take w (take w s @ t) = take w s" "drop w (take w s @ t) = t" using d(2) by simp_all
  obtain x where x: "take w s @ t = hd s # x" using h by simp
  show ?thesis using d(1) td q assms(3) h unfolding x
    by (simp add: unquote_step_def del: decode_rune.simps)
qed

lemma step_separator:
  "unquote_step (CHR 0x5C # ''u2028'' @ t) = Some (EncodeRune 0x2028, t)"
  "unquote_step (CHR 0x5C # ''u2029'' @ t) = Some (EncodeRune 0x2029, t)"
  by (simp_all add: unquote_step_def unicode_escape_def between_def is_hex_def hex_digit_def is_digit_def hex_value_def
      from_digits_def code_def)

lemma unquote_next:
  assumes "unquote_step s = Some (v, rest)" "s \<noteq> []" "hd s \<noteq> CHR 0x22"
  shows "unquote s = map_option (\<lambda>(w, rest'). (v @ w, rest')) (unquote rest)"
  using assms by (subst unquote.simps) simp

lemma ValidString_rune: "ValidString s \<Longrightarrow> s \<noteq> [] \<Longrightarrow> \<exists>r w. decode_rune s = Some (r, w) \<and> ValidString (drop w s)"
  unfolding ValidString_def by (subst (asm) runes.simps) (auto simp del: decode_rune.simps split: option.splits)

lemma json_escape_ascii:
  "code c < 128 \<Longrightarrow> json_escape (c # cs) = (if html_safe c then [c] else escape_ascii c) @ json_escape cs"
  by (subst json_escape.simps) simp

lemma json_escape_rune:
  "\<not> code c < 128 \<Longrightarrow> decode_rune (c # cs) = Some (r, w) \<Longrightarrow> json_escape (c # cs) =
     (if r = 0x2028 then CHR 0x5C # ''u2028'' else if r = 0x2029 then CHR 0x5C # ''u2029'' else take w (c # cs))
     @ json_escape (drop w (c # cs))"
  by (subst json_escape.simps) (simp del: decode_rune.simps)

lemma unquote_escape: "ValidString s \<Longrightarrow> unquote (json_escape s @ CHR 0x22 # t) = Some (s, t)"
proof (induction s rule: json_escape.induct)
  case (1 s)
  show ?case
  proof (cases s)
    case Nil
    then show ?thesis by (simp add: json_escape.simps unquote.simps)
  next
    case (Cons c cs)
    with ValidString_rune [OF "1.prems"] obtain r w where d: "decode_rune s = Some (r, w)" "ValidString (drop w s)" by auto
    show ?thesis
    proof (cases "code c < 128")
      case True
      with d Cons have "w = 1" by (simp add: Let_def)
      with d Cons have v: "ValidString cs" by simp
      note IH = "1.IH"(1) [OF Cons True v]
      have e: "json_escape s = (if html_safe c then [c] else escape_ascii c) @ json_escape cs"
        using Cons json_escape_ascii [OF True] by simp
      show ?thesis
      proof (cases "html_safe c")
        case safe: True
        from step_safe [OF safe] have "unquote_step (c # json_escape cs @ CHR 0x22 # t) = Some ([c], json_escape cs @ CHR 0x22 # t)"
          "c \<noteq> CHR 0x22" by simp_all
        with unquote_next [OF this(1)] IH e safe Cons show ?thesis by simp
      next
        case False
        from step_escaped [OF True False, of "json_escape cs @ CHR 0x22 # t"] unquote_next IH e False Cons show ?thesis
          by fastforce
      qed
    next
      case False
      note IH = "1.IH"(3) [OF Cons False d(1) refl d(2)]
      have ex: "s = take w s @ drop w s" by simp
      show ?thesis
      proof (cases "r = 0x2028 \<or> r = 0x2029")
        case True
        let ?esc = "CHR 0x5C # (if r = 0x2028 then ''u2028'' else ''u2029'')"
        have e: "json_escape s = ?esc @ json_escape (drop w s)"
          using json_escape_rune [OF False d(1) [unfolded Cons]] True unfolding Cons by auto
        have "unquote_step (?esc @ json_escape (drop w s) @ CHR 0x22 # t) = Some (take w s, json_escape (drop w s) @ CHR 0x22 # t)"
          using True step_separator [of "json_escape (drop w s) @ CHR 0x22 # t"] decode_rune_separator [OF d(1) True] by auto
        from unquote_next [OF this] IH e ex show ?thesis by (simp split: if_splits)
      next
        case sep: False
        have e: "json_escape s = take w s @ json_escape (drop w s)"
          using json_escape_rune [OF False d(1) [unfolded Cons]] sep unfolding Cons by simp
        have "s \<noteq> []" "128 \<le> code (hd s)" using Cons False by simp_all
        from step_rune [OF d(1) this, of "json_escape (drop w s) @ CHR 0x22 # t"]
        have "unquote_step (take w s @ json_escape (drop w s) @ CHR 0x22 # t) = Some (take w s, json_escape (drop w s) @ CHR 0x22 # t)"
          "hd (take w s @ json_escape (drop w s) @ CHR 0x22 # t) \<noteq> CHR 0x22" "take w s \<noteq> []" by blast+
        from unquote_next [OF this(1) _ this(2)] this(3) IH e show ?thesis by simp
      qed
    qed
  qed
qed

lemma json_text_marshal: "ValidString s \<Longrightarrow> json_text (marshal_string s @ t) = Some (s, t)"
  by (simp add: json_text_def marshal_string_def unquote_escape)

theorem unmarshal_marshal_string: "ValidString s \<Longrightarrow> unmarshal_string (marshal_string s) = Some s"
  using json_text_marshal [of s "[]"]
  by (simp add: unmarshal_string_def marshal_string_def skip_space_def json_space_def code_def)

lemma skip_space_punctuation:
  "skip_space (CHR '']'' # t) = CHR '']'' # t" "skip_space (CHR '','' # t) = CHR '','' # t"
  "skip_space (CHR ''['' # t) = CHR ''['' # t" "skip_space (CHR 0x22 # t) = CHR 0x22 # t" "skip_space [] = []"
  by (simp_all add: skip_space_def json_space_def code_def)

lemma marshal_string_space: "skip_space (marshal_string s @ t) = marshal_string s @ t"
  by (simp add: marshal_string_def skip_space_punctuation)

lemma json_elements_marshal:
  assumes "ValidString v" "\<And>x. x \<in> set vs \<Longrightarrow> ValidString x"
  shows "json_elements (marshal_string v @ concat (map (\<lambda>x. '','' @ marshal_string x) vs) @ '']'' @ t) = Some (v # vs, t)"
  using assms
proof (induction vs arbitrary: v)
  case Nil
  then show ?case
    by (subst json_elements.simps) (simp add: marshal_string_space json_text_marshal skip_space_punctuation)
next
  case (Cons x vs)
  then show ?case
    by (subst json_elements.simps) (simp add: marshal_string_space json_text_marshal skip_space_punctuation)
qed

theorem unmarshal_marshal_list:
  "(\<And>x. x \<in> set vs \<Longrightarrow> ValidString x) \<Longrightarrow> unmarshal_list (marshal_list vs) = Some vs"
proof (cases vs)
  case Nil
  then show ?thesis by (simp add: unmarshal_list_def marshal_list_def join_with_def skip_space_def json_space_def code_def)
next
  case (Cons v ws)
  assume "\<And>x. x \<in> set vs \<Longrightarrow> ValidString x"
  with Cons json_elements_marshal [of v ws "[]"] have e:
    "json_elements (join_with '','' (map marshal_string vs) @ '']'') = Some (vs, [])"
    by (simp add: join_with_def comp_def)
  have h: "join_with '','' (map marshal_string vs) @ '']'' = CHR 0x22 # tl (join_with '','' (map marshal_string vs) @ '']'')"
    by (simp add: Cons join_with_def marshal_string_def)
  have sp: "skip_space (join_with '','' (map marshal_string vs) @ '']'') = CHR 0x22 # tl (join_with '','' (map marshal_string vs) @ '']'')"
    using skip_space_punctuation(4) h by metis
  show ?thesis
    unfolding unmarshal_list_def marshal_list_def using e
    by (simp add: skip_space_punctuation sp)
qed

end
