(* ===== verification/Profile.thy ===== *)
theory Profile
  imports DiscoveryStore Json
begin

section \<open>Relay profiles and telemetry\<close>

text \<open>
  \<open>internal/storage/profile.go\<close>, \<open>internal/storage/telemetry.go\<close> and their SQLite
  implementations: normalisation of descriptive profiles, the source-scoped assertions
  with their append-only history, the effective profile by source precedence, and the two
  telemetry counters. \<open>net/mail.ParseAddress\<close> is the parameter \<open>parseAddress\<close>: the address of a
  successful parse.
\<close>

subsection \<open>Vocabulary\<close>

datatype ProfileSourceKind = ProfileSourceCSV | ProfileSourceRelay | ProfileSourceOverride | ProfileSourceText string

fun kind_Valid :: "ProfileSourceKind \<Rightarrow> bool" where
  "kind_Valid (ProfileSourceText _) = False"
| "kind_Valid _ = True"

fun ProfileSourcePriority :: "ProfileSourceKind \<Rightarrow> int" where
  "ProfileSourcePriority ProfileSourceOverride = 3"
| "ProfileSourcePriority ProfileSourceRelay = 2"
| "ProfileSourcePriority ProfileSourceCSV = 1"
| "ProfileSourcePriority (ProfileSourceText _) = 0"

datatype ProfileField =
    ProfileFieldParticipationMode | ProfileFieldAvailability | ProfileFieldRelayType | ProfileFieldLanguages
  | ProfileFieldCountries | ProfileFieldRegions | ProfileFieldTopics | ProfileFieldContactFediverse
  | ProfileFieldContactEmail | ProfileFieldContactURL | ProfileFieldParticipationURL | ProfileFieldNotes

fun field_name :: "ProfileField \<Rightarrow> string" where
  "field_name ProfileFieldParticipationMode = ''participation_mode''"
| "field_name ProfileFieldAvailability = ''availability''"
| "field_name ProfileFieldRelayType = ''relay_type''"
| "field_name ProfileFieldLanguages = ''languages''"
| "field_name ProfileFieldCountries = ''countries''"
| "field_name ProfileFieldRegions = ''regions''"
| "field_name ProfileFieldTopics = ''topics''"
| "field_name ProfileFieldContactFediverse = ''contact_fediverse''"
| "field_name ProfileFieldContactEmail = ''contact_email''"
| "field_name ProfileFieldContactURL = ''contact_url''"
| "field_name ProfileFieldParticipationURL = ''participation_url''"
| "field_name ProfileFieldNotes = ''notes''"

definition ProfileFields :: "ProfileField list" where
  "ProfileFields = [ProfileFieldParticipationMode, ProfileFieldAvailability, ProfileFieldRelayType,
     ProfileFieldLanguages, ProfileFieldCountries, ProfileFieldRegions, ProfileFieldTopics,
     ProfileFieldContactFediverse, ProfileFieldContactEmail, ProfileFieldContactURL,
     ProfileFieldParticipationURL, ProfileFieldNotes]"

definition MultiValue :: "ProfileField \<Rightarrow> bool" where
  "MultiValue f \<longleftrightarrow> f \<in> {ProfileFieldLanguages, ProfileFieldCountries, ProfileFieldRegions, ProfileFieldTopics}"

record RelayProfile =
  ParticipationMode :: string
  Availability :: string
  RelayType :: string
  Languages :: "string list"
  Countries :: "string list"
  Regions :: "string list"
  Topics :: "string list"
  ContactFediverse :: string
  ContactEmail :: string
  ContactURL :: string
  ParticipationURL :: string
  Notes :: string

definition empty_profile :: RelayProfile where
  "empty_profile = \<lparr>ParticipationMode = [], Availability = [], RelayType = [], Languages = [], Countries = [],
     Regions = [], Topics = [], ContactFediverse = [], ContactEmail = [], ContactURL = [], ParticipationURL = [],
     Notes = []\<rparr>"

record ProfileSource =
  Kind :: ProfileSourceKind
  SourceLabel :: string
  SourceURL :: string

record ProfileSourceIntent =
  profile_actor :: string
  profile_source :: ProfileSource
  profile_claim :: RelayProfile

record ProfileMutationSummary =
  summary_Created :: nat
  summary_Updated :: nat
  summary_Cleared :: nat
  summary_Unchanged :: nat

definition MaximumProfileScalarBytes :: nat where "MaximumProfileScalarBytes = 256"
definition MaximumProfileNoteBytes :: nat where "MaximumProfileNoteBytes = 1024"
definition MaximumProfileListItems :: nat where "MaximumProfileListItems = 16"
definition MaximumProfileListItemBytes :: nat where "MaximumProfileListItemBytes = 128"
definition MaximumProfileURLBytes :: nat where "MaximumProfileURLBytes = 2048"
definition MaximumProfileEmailBytes :: nat where "MaximumProfileEmailBytes = 320"
definition MaximumProfileFediverseIDBytes :: nat where "MaximumProfileFediverseIDBytes = 256"
definition MaximumProfileSourceURLBytes :: nat where "MaximumProfileSourceURLBytes = 2048"
definition MaximumProfileStoredValueBytes :: nat where "MaximumProfileStoredValueBytes = 4096"

subsection \<open>Normalisation\<close>

definition containsProfileControl :: "string \<Rightarrow> bool" where
  "containsProfileControl s \<longleftrightarrow>
     list_ex (\<lambda>r. case r of None \<Rightarrow> False | Some n \<Rightarrow> n < 32 \<or> n = 127) (runes s)"

definition normalizeProfileText :: "string \<Rightarrow> nat \<Rightarrow> string result" where
  "normalizeProfileText s maximum =
     (let v = TrimSpace s in
      if v = [] then Inr []
      else if \<not> ValidString v \<or> length v > maximum \<or> containsProfileControl v then Inl (Err ErrProfileInput)
      else Inr v)"

text \<open>The loop of \<open>normalizeProfileList\<close>: the keys of the map \<open>unique\<close> in order of first insertion.\<close>

fun collect_unique :: "string list \<Rightarrow> string list \<Rightarrow> string list result" where
  "collect_unique acc [] = Inr acc"
| "collect_unique acc (v # vs) =
     (case normalizeProfileText v MaximumProfileListItemBytes of
        Inl _ \<Rightarrow> Inl (Err ErrProfileInput)
      | Inr n \<Rightarrow> if n = [] then Inl (Err ErrProfileInput) else collect_unique (List.insert n acc) vs)"

definition normalizeProfileList :: "string list \<Rightarrow> string list result" where
  "normalizeProfileList values =
     (if length values = 0 then Inr []
      else if length values > MaximumProfileListItems then Inl (Err ErrProfileInput)
      else case collect_unique [] values of
             Inl e \<Rightarrow> Inl e
           | Inr unique \<Rightarrow> if length unique > MaximumProfileListItems then Inl (Err ErrProfileInput) else Inr (sort unique))"

definition normalizeProfileEmail :: "(string \<Rightarrow> string option) \<Rightarrow> string \<Rightarrow> string result" where
  "normalizeProfileEmail parseAddress s =
     (let v = TrimSpace s in
      if v = [] then Inr []
      else if \<not> ValidString v \<or> length v > MaximumProfileEmailBytes \<or> containsProfileControl v then Inl (Err ErrProfileInput)
      else if parseAddress v \<noteq> Some v \<or> list_ex (chars_in [CHR ''<'', CHR ''>'', CHR 0x22]) v then Inl (Err ErrProfileInput)
      else Inr v)"

definition normalizeProfileHTTPSURL :: "string \<Rightarrow> nat \<Rightarrow> string result" where
  "normalizeProfileHTTPSURL s maximum =
     (let v = TrimSpace s in
      if v = [] \<or> \<not> ValidString v \<or> length v > maximum \<or> containsProfileControl v then Inl (Err ErrProfileInput)
      else case NormalizeRelayActorURL v of
             Inl _ \<Rightarrow> Inl (Err ErrProfileInput)
           | Inr canonical \<Rightarrow> if length canonical > maximum then Inl (Err ErrProfileInput) else Inr canonical)"

definition NormalizeProfileSource :: "ProfileSource \<Rightarrow> ProfileSource result" where
  "NormalizeProfileSource source =
     (if \<not> kind_Valid (Kind source) then Inl (Err ErrProfileInput)
      else let label = TrimSpace (SourceLabel source); url = TrimSpace (SourceURL source);
               trimmed = source\<lparr>SourceLabel := label, SourceURL := url\<rparr>
      in case Kind source of
           ProfileSourceRelay \<Rightarrow> if label \<noteq> [] \<or> url \<noteq> [] then Inl (Err ErrProfileInput) else Inr trimmed
         | ProfileSourceCSV \<Rightarrow>
             if \<not> ValidDiscoverySourceLabel label \<or> label = [] then Inl (Err ErrProfileInput)
             else if url \<noteq> [] then
               (case normalizeProfileHTTPSURL url MaximumProfileSourceURLBytes of
                  Inl e \<Rightarrow> Inl e
                | Inr canonical \<Rightarrow> Inr (trimmed\<lparr>SourceURL := canonical\<rparr>))
             else Inr trimmed
         | ProfileSourceOverride \<Rightarrow>
             if \<not> ValidOperatorID label \<or> url \<noteq> [] then Inl (Err ErrProfileInput) else Inr trimmed
         | ProfileSourceText _ \<Rightarrow> Inr trimmed)"

definition andthen :: "'a result \<Rightarrow> ('a \<Rightarrow> 'b result) \<Rightarrow> 'b result" where
  "andthen r f = (case r of Inl e \<Rightarrow> Inl e | Inr x \<Rightarrow> f x)"

definition optional_url :: "string \<Rightarrow> string result" where
  "optional_url u = (if u \<noteq> [] then normalizeProfileHTTPSURL u MaximumProfileURLBytes else Inr [])"

definition NormalizeRelayProfile :: "(string \<Rightarrow> string option) \<Rightarrow> RelayProfile \<Rightarrow> RelayProfile result" where
  "NormalizeRelayProfile parseAddress p =
     andthen (normalizeProfileText (ParticipationMode p) MaximumProfileScalarBytes) (\<lambda>mode.
     andthen (normalizeProfileText (Availability p) MaximumProfileScalarBytes) (\<lambda>availability.
     andthen (normalizeProfileText (RelayType p) MaximumProfileScalarBytes) (\<lambda>relayType.
     andthen (normalizeProfileList (Languages p)) (\<lambda>languages.
     andthen (normalizeProfileList (Countries p)) (\<lambda>countries.
     andthen (normalizeProfileList (Regions p)) (\<lambda>regions.
     andthen (normalizeProfileList (Topics p)) (\<lambda>topics.
     andthen (normalizeProfileText (ContactFediverse p) MaximumProfileFediverseIDBytes) (\<lambda>fediverse.
     andthen (normalizeProfileEmail parseAddress (ContactEmail p)) (\<lambda>email.
     andthen (optional_url (ContactURL p)) (\<lambda>contact.
     andthen (optional_url (ParticipationURL p)) (\<lambda>participation.
     andthen (normalizeProfileText (Notes p) MaximumProfileNoteBytes) (\<lambda>notes.
     Inr \<lparr>ParticipationMode = mode, Availability = availability, RelayType = relayType, Languages = languages,
          Countries = countries, Regions = regions, Topics = topics, ContactFediverse = fediverse,
          ContactEmail = email, ContactURL = contact, ParticipationURL = participation, Notes = notes\<rparr>))))))))))))"

definition ValidProfileRelayActor :: "string \<Rightarrow> bool" where
  "ValidProfileRelayActor actor \<longleftrightarrow> actor \<noteq> [] \<and> NormalizeRelayActorURL actor = Inr actor"

subsection \<open>Field values\<close>

fun scalar_of :: "RelayProfile \<Rightarrow> ProfileField \<Rightarrow> string" where
  "scalar_of p ProfileFieldParticipationMode = ParticipationMode p"
| "scalar_of p ProfileFieldAvailability = Availability p"
| "scalar_of p ProfileFieldRelayType = RelayType p"
| "scalar_of p ProfileFieldContactFediverse = ContactFediverse p"
| "scalar_of p ProfileFieldContactEmail = ContactEmail p"
| "scalar_of p ProfileFieldContactURL = ContactURL p"
| "scalar_of p ProfileFieldParticipationURL = ParticipationURL p"
| "scalar_of p ProfileFieldNotes = Notes p"
| "scalar_of p _ = []"

fun list_of_field :: "RelayProfile \<Rightarrow> ProfileField \<Rightarrow> string list" where
  "list_of_field p ProfileFieldLanguages = Languages p"
| "list_of_field p ProfileFieldCountries = Countries p"
| "list_of_field p ProfileFieldRegions = Regions p"
| "list_of_field p ProfileFieldTopics = Topics p"
| "list_of_field p _ = []"

definition encodeProfileField :: "RelayProfile \<Rightarrow> ProfileField \<Rightarrow> string option" where
  "encodeProfileField p f =
     (if MultiValue f then if list_of_field p f = [] then None else Some (marshal_list (list_of_field p f))
      else if scalar_of p f = [] then None else Some (marshal_string (scalar_of p f)))"

fun set_scalar :: "RelayProfile \<Rightarrow> ProfileField \<Rightarrow> string \<Rightarrow> RelayProfile" where
  "set_scalar p ProfileFieldParticipationMode v = p\<lparr>ParticipationMode := v\<rparr>"
| "set_scalar p ProfileFieldAvailability v = p\<lparr>Availability := v\<rparr>"
| "set_scalar p ProfileFieldRelayType v = p\<lparr>RelayType := v\<rparr>"
| "set_scalar p ProfileFieldContactFediverse v = p\<lparr>ContactFediverse := v\<rparr>"
| "set_scalar p ProfileFieldContactEmail v = p\<lparr>ContactEmail := v\<rparr>"
| "set_scalar p ProfileFieldContactURL v = p\<lparr>ContactURL := v\<rparr>"
| "set_scalar p ProfileFieldParticipationURL v = p\<lparr>ParticipationURL := v\<rparr>"
| "set_scalar p ProfileFieldNotes v = p\<lparr>Notes := v\<rparr>"
| "set_scalar p _ v = p"

fun set_list :: "RelayProfile \<Rightarrow> ProfileField \<Rightarrow> string list \<Rightarrow> RelayProfile" where
  "set_list p ProfileFieldLanguages vs = p\<lparr>Languages := vs\<rparr>"
| "set_list p ProfileFieldCountries vs = p\<lparr>Countries := vs\<rparr>"
| "set_list p ProfileFieldRegions vs = p\<lparr>Regions := vs\<rparr>"
| "set_list p ProfileFieldTopics vs = p\<lparr>Topics := vs\<rparr>"
| "set_list p _ vs = p"

definition decodeProfileField :: "RelayProfile \<Rightarrow> ProfileField \<Rightarrow> string \<Rightarrow> RelayProfile result" where
  "decodeProfileField p f valueJSON =
     (if valueJSON = [] \<or> length valueJSON > MaximumProfileStoredValueBytes then Inl (Opaque ''invalid profile value'')
      else if MultiValue f then
        (case unmarshal_list valueJSON of
           None \<Rightarrow> Inl (Opaque ''invalid profile list'')
         | Some vs \<Rightarrow> if length vs = 0 then Inl (Opaque ''invalid profile list'') else Inr (set_list p f vs))
      else
        (case unmarshal_string valueJSON of
           None \<Rightarrow> Inl (Opaque ''invalid profile scalar'')
         | Some v \<Rightarrow> if v = [] then Inl (Opaque ''invalid profile scalar'') else Inr (set_scalar p f v)))"

subsection \<open>Tables\<close>

text \<open>
  \<open>relay_profile_values\<close>, \<open>relay_profile_events\<close> and \<open>relay_telemetry\<close> beside the tables of the
  relay repository. The source and field columns hold the closed vocabularies of their
  \<open>CHECK\<close> constraints. \<open>json_text_value\<close> and \<open>json_array_value\<close> are the \<open>json_type\<close> constraints, for the
  strings and the arrays of strings that are ever written.
\<close>

record profile_value =
  value_json :: string
  value_label :: "string option"
  value_url :: "string option"
  accepted_at :: int
  value_revision :: int

datatype profile_action = ProfileSet | ProfileClear

record profile_event =
  pe_actor :: string
  pe_kind :: ProfileSourceKind
  pe_field :: ProfileField
  pe_action :: profile_action
  pe_value :: "string option"
  pe_label :: "string option"
  pe_url :: "string option"
  pe_revision :: int
  pe_recorded :: int

record telemetry_row =
  receiving_count :: int
  reported_at :: int
  participating_count :: "int option"
  participating_reported_at :: "int option"

record profile_db =
  core :: db
  profile_values :: "(string \<times> ProfileSourceKind \<times> ProfileField, profile_value) table"
  profile_events :: "profile_event list"
  telemetry :: "(string, telemetry_row) table"

definition json_text_value :: "string \<Rightarrow> bool" where
  "json_text_value v \<longleftrightarrow> unmarshal_string v \<noteq> None \<and> take 1 v = [CHR 0x22]"

definition json_array_value :: "string \<Rightarrow> bool" where
  "json_array_value v \<longleftrightarrow> unmarshal_list v \<noteq> None \<and> take 1 v = ''[''"

definition value_check :: "ProfileField \<Rightarrow> string \<Rightarrow> bool" where
  "value_check f v \<longleftrightarrow> 2 \<le> length v \<and> length v \<le> 4096 \<and> (if MultiValue f then json_array_value v else json_text_value v)"

definition source_url_check :: "string \<Rightarrow> bool" where
  "source_url_check u \<longleftrightarrow> 1 \<le> length u \<and> length u \<le> 2048 \<and> take 8 u = ''https://''"

definition provenance_check :: "ProfileSourceKind \<Rightarrow> string option \<Rightarrow> string option \<Rightarrow> bool" where
  "provenance_check kind label url \<longleftrightarrow>
     (case label of None \<Rightarrow> True | Some l \<Rightarrow> operator_check l) \<and>
     (case url of None \<Rightarrow> True | Some u \<Rightarrow> source_url_check u) \<and>
     (case kind of
        ProfileSourceRelay \<Rightarrow> label = None \<and> url = None
      | ProfileSourceOverride \<Rightarrow> label \<noteq> None \<and> url = None
      | ProfileSourceCSV \<Rightarrow> label \<noteq> None
      | ProfileSourceText _ \<Rightarrow> False)"

definition nullif_empty :: "string \<Rightarrow> string option" where
  "nullif_empty s = (if s = [] then None else Some s)"

definition coalesce_empty :: "string option \<Rightarrow> string" where
  "coalesce_empty v = (case v of None \<Rightarrow> [] | Some s \<Rightarrow> s)"

definition put_profile_value :: "string \<Rightarrow> ProfileSourceKind \<Rightarrow> ProfileField \<Rightarrow> profile_value \<Rightarrow> profile_db \<Rightarrow> profile_db option" where
  "put_profile_value actor kind f row d =
     (if actor_length_ok actor \<and> value_check f (value_json row) \<and> provenance_check kind (value_label row) (value_url row) \<and>
         0 \<le> accepted_at row \<and> 1 \<le> value_revision row \<and> retained (core d) actor
      then Some (d\<lparr>profile_values := AList.update (actor, kind, f) row (profile_values d)\<rparr>) else None)"

definition delete_profile_value :: "string \<Rightarrow> ProfileSourceKind \<Rightarrow> ProfileField \<Rightarrow> profile_db \<Rightarrow> profile_db option" where
  "delete_profile_value actor kind f d = Some (d\<lparr>profile_values := AList.delete (actor, kind, f) (profile_values d)\<rparr>)"

definition event_key :: "profile_event \<Rightarrow> string \<times> ProfileSourceKind \<times> ProfileField \<times> int" where
  "event_key e = (pe_actor e, pe_kind e, pe_field e, pe_revision e)"

definition append_profile_event :: "profile_event \<Rightarrow> profile_db \<Rightarrow> profile_db option" where
  "append_profile_event e d =
     (if actor_length_ok (pe_actor e) \<and> (case pe_value e of None \<Rightarrow> True | Some v \<Rightarrow> value_check (pe_field e) v) \<and>
         provenance_check (pe_kind e) (pe_label e) (pe_url e) \<and> 1 \<le> pe_revision e \<and> 0 \<le> pe_recorded e \<and>
         (pe_action e = ProfileSet \<longleftrightarrow> pe_value e \<noteq> None) \<and> event_key e \<notin> set (map event_key (profile_events d))
      then Some (d\<lparr>profile_events := profile_events d @ [e]\<rparr>) else None)"

subsection \<open>Replacing one source\<close>

definition profileIdentityRetained :: "string \<Rightarrow> (profile_db, bool) tx" where
  "profileIdentityRetained actor = query ''read profile identity'' (\<lambda>d. retained (core d) actor)"

definition source_events :: "profile_db \<Rightarrow> string \<Rightarrow> ProfileSourceKind \<Rightarrow> profile_event list" where
  "source_events d actor kind = filter (\<lambda>e. pe_actor e = actor \<and> pe_kind e = kind) (profile_events d)"

definition requireProfileMonotonicTime :: "string \<Rightarrow> ProfileSourceKind \<Rightarrow> int \<Rightarrow> (profile_db, unit) tx" where
  "requireProfileMonotonicTime actor kind acceptedUnix =
     bindt (query ''read profile event time'' (\<lambda>d. sql_max (map pe_recorded (source_events d actor kind)))) (\<lambda>latest.
     case latest of
       Some t \<Rightarrow> if acceptedUnix < t then fail (Err ErrProfileTime) else ret ()
     | None \<Rightarrow> ret ())"

text \<open>The current assertions of one source, as the map from fields to their rows.\<close>

definition source_values :: "profile_db \<Rightarrow> string \<Rightarrow> ProfileSourceKind \<Rightarrow> ProfileField \<Rightarrow> profile_value option" where
  "source_values d actor kind f = map_of (profile_values d) (actor, kind, f)"

definition readProfileSourceValues :: "string \<Rightarrow> ProfileSourceKind \<Rightarrow> (profile_db, ProfileField \<Rightarrow> profile_value option) tx" where
  "readProfileSourceValues actor kind =
     bindt (query ''read profile source'' (\<lambda>d. source_values d actor kind)) (\<lambda>current.
     bindt (query ''iterate profile source'' (\<lambda>_. ())) (\<lambda>_.
     if list_ex (\<lambda>f. case current f of None \<Rightarrow> False | Some v \<Rightarrow> value_revision v < 1) ProfileFields
     then fail (storageFailure ''validate profile source'' (Opaque ''invalid stored profile value''))
     else ret current))"

definition history_revision :: "profile_db \<Rightarrow> string \<Rightarrow> ProfileSourceKind \<Rightarrow> ProfileField \<Rightarrow> int option" where
  "history_revision d actor kind f =
     sql_max (map pe_revision (filter (\<lambda>e. pe_field e = f) (source_events d actor kind)))"

definition readProfileSourceRevisions :: "string \<Rightarrow> ProfileSourceKind \<Rightarrow> (profile_db, ProfileField \<Rightarrow> int option) tx" where
  "readProfileSourceRevisions actor kind =
     bindt (query ''read profile revisions'' (\<lambda>d. history_revision d actor kind)) (\<lambda>revisions.
     bindt (query ''iterate profile revisions'' (\<lambda>_. ())) (\<lambda>_.
     if list_ex (\<lambda>f. case revisions f of None \<Rightarrow> False | Some r \<Rightarrow> r < 1) ProfileFields
     then fail (storageFailure ''validate profile revision'' (Opaque ''invalid stored profile revision''))
     else ret revisions))"

definition insertProfileEvent :: "string \<Rightarrow> ProfileSource \<Rightarrow> ProfileField \<Rightarrow> profile_action \<Rightarrow> string \<Rightarrow> int \<Rightarrow> int
    \<Rightarrow> (profile_db, unit) tx" where
  "insertProfileEvent actor source f act valueJSON revn recordedUnix =
     exec ''record profile event'' (append_profile_event
       \<lparr>pe_actor = actor, pe_kind = Kind source, pe_field = f, pe_action = act,
        pe_value = (if act = ProfileSet then Some valueJSON else None),
        pe_label = nullif_empty (SourceLabel source), pe_url = nullif_empty (SourceURL source),
        pe_revision = revn, pe_recorded = recordedUnix\<rparr>)"

text \<open>One iteration of the loop over the fields.\<close>

definition replace_field :: "string \<Rightarrow> ProfileSource \<Rightarrow> RelayProfile \<Rightarrow> int \<Rightarrow> (ProfileField \<Rightarrow> profile_value option)
    \<Rightarrow> (ProfileField \<Rightarrow> int) \<Rightarrow> ProfileField \<Rightarrow> ProfileMutationSummary \<Rightarrow> (profile_db, ProfileMutationSummary) tx" where
  "replace_field actor source profile acceptedUnix current revisions f summary =
     (case encodeProfileField profile f of
        None \<Rightarrow>
          if current f = None then ret (summary\<lparr>summary_Unchanged := summary_Unchanged summary + 1\<rparr>)
          else bindt (exec ''clear profile value'' (delete_profile_value actor (Kind source) f)) (\<lambda>_.
               bindt (insertProfileEvent actor source f ProfileClear [] (revisions f + 1) acceptedUnix) (\<lambda>_.
               ret (summary\<lparr>summary_Cleared := summary_Cleared summary + 1\<rparr>)))
      | Some valueJSON \<Rightarrow>
          if length valueJSON > MaximumProfileStoredValueBytes then fail (Err ErrProfileInput)
          else if (case current f of None \<Rightarrow> False | Some existing \<Rightarrow>
                 value_json existing = valueJSON \<and> coalesce_empty (value_label existing) = SourceLabel source \<and>
                 coalesce_empty (value_url existing) = SourceURL source)
          then ret (summary\<lparr>summary_Unchanged := summary_Unchanged summary + 1\<rparr>)
          else bindt (exec ''write profile value'' (put_profile_value actor (Kind source) f
                 \<lparr>value_json = valueJSON, value_label = nullif_empty (SourceLabel source),
                  value_url = nullif_empty (SourceURL source), accepted_at = acceptedUnix,
                  value_revision = revisions f + 1\<rparr>)) (\<lambda>_.
               bindt (insertProfileEvent actor source f ProfileSet valueJSON (revisions f + 1) acceptedUnix) (\<lambda>_.
               ret (if current f \<noteq> None then summary\<lparr>summary_Updated := summary_Updated summary + 1\<rparr>
                    else summary\<lparr>summary_Created := summary_Created summary + 1\<rparr>))))"

fun replace_fields :: "string \<Rightarrow> ProfileSource \<Rightarrow> RelayProfile \<Rightarrow> int \<Rightarrow> (ProfileField \<Rightarrow> profile_value option)
    \<Rightarrow> (ProfileField \<Rightarrow> int) \<Rightarrow> ProfileField list \<Rightarrow> ProfileMutationSummary \<Rightarrow> (profile_db, ProfileMutationSummary) tx" where
  "replace_fields actor source profile t current revisions [] summary = ret summary"
| "replace_fields actor source profile t current revisions (f # fs) summary =
     bindt (replace_field actor source profile t current revisions f summary)
       (replace_fields actor source profile t current revisions fs)"

definition zero_summary :: ProfileMutationSummary where
  "zero_summary = \<lparr>summary_Created = 0, summary_Updated = 0, summary_Cleared = 0, summary_Unchanged = 0\<rparr>"

definition replace_profile_tx :: "string \<Rightarrow> ProfileSource \<Rightarrow> RelayProfile \<Rightarrow> int \<Rightarrow> (profile_db, ProfileMutationSummary completion) tx" where
  "replace_profile_tx actor source profile t =
     bindt (profileIdentityRetained actor) (\<lambda>present.
     if \<not> present then fail (Err ErrProfileAbsent)
     else bindt (requireProfileMonotonicTime actor (Kind source) t) (\<lambda>_.
     bindt (readProfileSourceValues actor (Kind source)) (\<lambda>current.
     bindt (readProfileSourceRevisions actor (Kind source)) (\<lambda>history.
     let revisions = (\<lambda>f. case history f of None \<Rightarrow> 0 | Some r \<Rightarrow> r) in
     if list_ex (\<lambda>f. case current f of None \<Rightarrow> False | Some v \<Rightarrow> revisions f \<noteq> value_revision v) ProfileFields
     then fail (storageFailure ''validate profile revision''
            (Opaque ''current profile revision does not match append-only history''))
     else bindt (replace_fields actor source profile t current revisions ProfileFields zero_summary) (\<lambda>summary.
     ret (Commit ''commit profile source'' summary))))))"

definition ReplaceProfileSource :: "environment \<Rightarrow> (string \<Rightarrow> string option) \<Rightarrow> ProfileSourceIntent \<Rightarrow> int \<Rightarrow> profile_db
    \<Rightarrow> ProfileMutationSummary result \<times> profile_db" where
  "ReplaceProfileSource env parseAddress intent acceptedUnix d =
     (if \<not> ValidProfileRelayActor (profile_actor intent) then (Inl (Err ErrProfileInput), d)
      else case NormalizeProfileSource (profile_source intent) of
        Inl e \<Rightarrow> (Inl e, d)
      | Inr source \<Rightarrow>
      case NormalizeRelayProfile parseAddress (profile_claim intent) of
        Inl e \<Rightarrow> (Inl e, d)
      | Inr profile \<Rightarrow>
      if acceptedUnix < 0 then (Inl (Err ErrProfileTime), d)
      else run_tx env (replace_profile_tx (profile_actor intent) source profile acceptedUnix) d)"

subsection \<open>Reading profiles\<close>

type_synonym profile_row = "(string \<times> ProfileSourceKind \<times> ProfileField) \<times> profile_value"

definition effective_order :: "profile_row \<Rightarrow> string \<times> string \<times> int" where
  "effective_order r = (case r of ((actor, kind, f), _) \<Rightarrow> (actor, field_name f, - ProfileSourcePriority kind))"

definition effective_rows :: "profile_db \<Rightarrow> string list \<Rightarrow> profile_row list" where
  "effective_rows d actors = sort_key effective_order (filter (\<lambda>((actor, _, _), _). actor \<in> set actors) (profile_values d))"

text \<open>The row loop: the profiles so far, and the fields already taken from a source of higher priority.\<close>

fun resolve_rows :: "profile_row list \<Rightarrow> (string \<Rightarrow> RelayProfile) \<Rightarrow> (string \<times> ProfileField) list
    \<Rightarrow> (string \<Rightarrow> RelayProfile) result" where
  "resolve_rows [] result seen = Inr result"
| "resolve_rows (((actor, kind, f), row) # rest) result seen =
     (if \<not> kind_Valid kind \<or> ProfileSourcePriority kind = 0
      then Inl (storageFailure ''validate effective profile'' (Opaque ''invalid stored profile vocabulary''))
      else if (actor, f) \<in> set seen then resolve_rows rest result seen
      else case decodeProfileField (result actor) f (value_json row) of
             Inl e \<Rightarrow> Inl (storageFailure ''decode effective profile value'' e)
           | Inr p \<Rightarrow> resolve_rows rest (result(actor := p)) ((actor, f) # seen))"

fun normalize_profiles :: "(string \<Rightarrow> string option) \<Rightarrow> (string \<Rightarrow> RelayProfile) \<Rightarrow> string list \<Rightarrow> (string \<Rightarrow> RelayProfile) result" where
  "normalize_profiles parseAddress result [] = Inr result"
| "normalize_profiles parseAddress result (a # actors) =
     (case NormalizeRelayProfile parseAddress (result a) of
        Inl e \<Rightarrow> Inl (storageFailure ''normalize effective profile'' e)
      | Inr p \<Rightarrow> normalize_profiles parseAddress (result(a := p)) actors)"

definition faulty_rows :: "read_faults \<Rightarrow> string \<Rightarrow> string \<Rightarrow> 'r list \<Rightarrow> ('r list \<Rightarrow> 'a result) \<Rightarrow> 'a result" where
  "faulty_rows rf readAction iterateAction rows loop =
     (if query_fault rf then Inl (storageFailure readAction driver_error)
      else case iterate_fault rf of
        None \<Rightarrow> loop rows
      | Some k \<Rightarrow>
          if length rows \<le> k then loop rows
          else (case loop (take k rows) of
                  Inl e \<Rightarrow> Inl e
                | Inr _ \<Rightarrow> Inl (storageFailure iterateAction driver_error)))"

definition readEffectiveProfiles :: "read_faults \<Rightarrow> (string \<Rightarrow> string option) \<Rightarrow> profile_db \<Rightarrow> string list
    \<Rightarrow> (string \<Rightarrow> RelayProfile) result" where
  "readEffectiveProfiles rf parseAddress d actors =
     (if actors = [] then Inr (\<lambda>_. empty_profile)
      else if list_ex (\<lambda>a. \<not> ValidProfileRelayActor a) actors then Inl (Err ErrProfileInput)
      else andthen (faulty_rows rf ''read effective profile'' ''iterate effective profile'' (effective_rows d actors)
                      (\<lambda>rows. resolve_rows rows (\<lambda>_. empty_profile) []))
             (\<lambda>result. normalize_profiles parseAddress result actors))"

definition EffectiveProfile :: "bool \<Rightarrow> read_faults \<Rightarrow> (string \<Rightarrow> string option) \<Rightarrow> string \<Rightarrow> profile_db \<Rightarrow> RelayProfile result" where
  "EffectiveProfile identityFault rf parseAddress actor d =
     (if \<not> ValidProfileRelayActor actor then Inl (Err ErrProfileInput)
      else if identityFault then Inl (storageFailure ''read profile identity'' driver_error)
      else if \<not> retained (core d) actor then Inl (Err ErrProfileAbsent)
      else andthen (readEffectiveProfiles rf parseAddress d [actor]) (\<lambda>profiles. Inr (profiles actor)))"

fun decode_rows :: "profile_row list \<Rightarrow> RelayProfile \<Rightarrow> RelayProfile result" where
  "decode_rows [] profile = Inr profile"
| "decode_rows (((_, _, f), row) # rest) profile =
     (case decodeProfileField profile f (value_json row) of
        Inl e \<Rightarrow> Inl (storageFailure ''decode profile source preview value'' e)
      | Inr p \<Rightarrow> decode_rows rest p)"

definition source_rows :: "profile_db \<Rightarrow> string \<Rightarrow> ProfileSourceKind \<Rightarrow> profile_row list" where
  "source_rows d actor kind =
     sort_key (\<lambda>((_, _, f), _). field_name f) (filter (\<lambda>((a, k, _), _). a = actor \<and> k = kind) (profile_values d))"

definition ProfileSourceProfile :: "read_faults \<Rightarrow> (string \<Rightarrow> string option) \<Rightarrow> string \<Rightarrow> ProfileSourceKind \<Rightarrow> profile_db
    \<Rightarrow> RelayProfile result" where
  "ProfileSourceProfile rf parseAddress actor kind d =
     (if \<not> ValidProfileRelayActor actor \<or> \<not> kind_Valid kind then Inl (Err ErrProfileInput)
      else andthen (faulty_rows rf ''read profile source preview'' ''iterate profile source preview'' (source_rows d actor kind)
                      (\<lambda>rows. decode_rows rows empty_profile))
             (NormalizeRelayProfile parseAddress))"

subsection \<open>Telemetry\<close>

definition MaximumReceivingInstanceCount :: int where "MaximumReceivingInstanceCount = 10000000"
definition MaximumParticipatingInstanceCount :: int where "MaximumParticipatingInstanceCount = 10000000"

record TelemetryIntent =
  telemetry_actor :: string
  instance_count :: int

definition ValidateTelemetryIntent :: "TelemetryIntent \<Rightarrow> int \<Rightarrow> goerror option" where
  "ValidateTelemetryIntent intent reportedUnix =
     (if \<not> ValidProfileRelayActor (telemetry_actor intent) \<or> instance_count intent < 0 \<or>
         instance_count intent > MaximumReceivingInstanceCount \<or> reportedUnix < 0
      then Some (Err ErrTelemetryInput) else None)"

definition ValidateParticipatingTelemetryIntent :: "TelemetryIntent \<Rightarrow> int \<Rightarrow> goerror option" where
  "ValidateParticipatingTelemetryIntent intent reportedUnix =
     (if \<not> ValidProfileRelayActor (telemetry_actor intent) \<or> instance_count intent < 0 \<or>
         instance_count intent > MaximumParticipatingInstanceCount \<or> reportedUnix < 0
      then Some (Err ErrTelemetryInput) else None)"

definition telemetry_check :: "string \<Rightarrow> telemetry_row \<Rightarrow> bool" where
  "telemetry_check actor r \<longleftrightarrow>
     actor_length_ok actor \<and> 0 \<le> receiving_count r \<and> receiving_count r \<le> 10000000 \<and> 0 \<le> reported_at r \<and>
     opt_ge (participating_count r) 0 \<and> opt_le (participating_count r) 10000000 \<and> opt_ge (participating_reported_at r) 0"

text \<open>
  The upsert of the two writes: the insert trigger demands a lifecycle identity, a conflict
  is an update of the row when its guard holds. These writes go straight to the database,
  without the write admission of the other operations; \<open>fault\<close> is the driver's.
\<close>

definition upsert_telemetry :: "string \<Rightarrow> telemetry_row \<Rightarrow> (telemetry_row \<Rightarrow> telemetry_row option) \<Rightarrow> profile_db \<Rightarrow> profile_db option" where
  "upsert_telemetry actor fresh conflict d =
     (if map_of (relays (core d)) actor = None then None
      else case map_of (telemetry d) actor of
        None \<Rightarrow> if telemetry_check actor fresh then Some (d\<lparr>telemetry := AList.update actor fresh (telemetry d)\<rparr>) else None
      | Some old \<Rightarrow>
          (case conflict old of
             None \<Rightarrow> Some d
           | Some new \<Rightarrow> if telemetry_check actor new then Some (d\<lparr>telemetry := AList.update actor new (telemetry d)\<rparr>) else None))"

definition telemetry_write :: "bool \<Rightarrow> string \<Rightarrow> (profile_db \<Rightarrow> profile_db option) \<Rightarrow> profile_db \<Rightarrow> goerror option \<times> profile_db" where
  "telemetry_write fault action stmt d =
     (if fault then (Some (storageFailure action driver_error), d)
      else case stmt d of None \<Rightarrow> (Some (storageFailure action constraint_error), d) | Some d' \<Rightarrow> (None, d'))"

definition ReplaceRelayTelemetry :: "bool \<Rightarrow> TelemetryIntent \<Rightarrow> int \<Rightarrow> profile_db \<Rightarrow> goerror option \<times> profile_db" where
  "ReplaceRelayTelemetry fault intent reportedUnix d =
     (case ValidateTelemetryIntent intent reportedUnix of
        Some e \<Rightarrow> (Some e, d)
      | None \<Rightarrow>
          telemetry_write fault ''replace relay telemetry''
            (upsert_telemetry (telemetry_actor intent)
               \<lparr>receiving_count = instance_count intent, reported_at = reportedUnix,
                participating_count = None, participating_reported_at = None\<rparr>
               (\<lambda>old. if reportedUnix \<ge> reported_at old
                      then Some (old\<lparr>receiving_count := instance_count intent, reported_at := reportedUnix\<rparr>) else None)) d)"

definition ReplaceRelayParticipatingTelemetry :: "bool \<Rightarrow> TelemetryIntent \<Rightarrow> int \<Rightarrow> profile_db \<Rightarrow> goerror option \<times> profile_db" where
  "ReplaceRelayParticipatingTelemetry fault intent reportedUnix d =
     (case ValidateParticipatingTelemetryIntent intent reportedUnix of
        Some e \<Rightarrow> (Some e, d)
      | None \<Rightarrow>
          telemetry_write fault ''replace relay participating telemetry''
            (upsert_telemetry (telemetry_actor intent)
               \<lparr>receiving_count = 0, reported_at = 0,
                participating_count = Some (instance_count intent), participating_reported_at = Some reportedUnix\<rparr>
               (\<lambda>old. if (case participating_reported_at old of None \<Rightarrow> True | Some t \<Rightarrow> reportedUnix \<ge> t)
                      then Some (old\<lparr>participating_count := Some (instance_count intent),
                                     participating_reported_at := Some reportedUnix\<rparr>) else None)) d)"

end
