(* ===== verification/ProfileRun.thy ===== *)
theory ProfileRun
  imports Profile StoreMachine
begin

section \<open>What profile writes and reads guarantee\<close>

text \<open>
  Normalisation is idempotent, an assertion reads back as it was written, a write touches
  only its own source and records every change, and the effective profile follows the
  source precedence.
\<close>

subsection \<open>Normalisation is idempotent\<close>

lemma leading_space_append: "leading_space (s @ t) = None \<Longrightarrow> leading_space s = None"
  by (auto simp: leading_space_def find_None_iff prefix_def)

lemma trim_left_spaceless: "leading_space (trim_left s) = None"
  by (induction s rule: trim_left.induct) (subst trim_left.simps, auto split: option.splits)

lemma trim_right_spaceless: "trailing_space (trim_right s) = None"
  by (induction s rule: trim_right.induct) (subst trim_right.simps, auto split: option.splits)

lemma trim_right_prefix: "\<exists>t. s = trim_right s @ t"
proof (induction s rule: trim_right.induct)
  case (1 s)
  show ?case
  proof (cases "trailing_space s")
    case None
    then show ?thesis by (subst trim_right.simps) simp
  next
    case (Some n)
    from "1.IH" [OF this] obtain t where "take (length s - n) s = trim_right (take (length s - n) s) @ t" by blast
    with Some have "s = trim_right s @ t @ drop (length s - n) s"
      by (subst trim_right.simps) (metis append.assoc append_take_drop_id option.simps(5))
    then show ?thesis by blast
  qed
qed

lemma TrimSpace_idem [simp]: "TrimSpace (TrimSpace s) = TrimSpace s"
proof -
  let ?t = "trim_right (trim_left s)"
  have "leading_space ?t = None"
    using trim_left_spaceless [of s] trim_right_prefix [of "trim_left s"] leading_space_append by metis
  then have "trim_left ?t = ?t" by (subst trim_left.simps) simp
  moreover have "trim_right ?t = ?t" using trim_right_spaceless by (subst trim_right.simps) simp
  ultimately show ?thesis by (simp add: TrimSpace_def)
qed

lemma TrimSpace_Nil [simp]: "TrimSpace [] = []"
proof -
  have "leading_space [] = None" "trailing_space [] = None"
    using leading_space_bound [of "[]"] trailing_space_bound [of "[]"] by (auto intro: ccontr)
  then show ?thesis by (simp add: TrimSpace_def trim_left.simps trim_right.simps)
qed

lemma normalizeProfileText_Inr:
  assumes "normalizeProfileText s m = Inr v"
  shows "normalizeProfileText v m = Inr v \<and> (v = [] \<or> ValidString v) \<and> length v \<le> m"
  using assms by (auto simp: normalizeProfileText_def Let_def split: if_splits)

lemma normalizeProfileEmail_Inr:
  assumes "normalizeProfileEmail parseAddress s = Inr v"
  shows "normalizeProfileEmail parseAddress v = Inr v \<and> (v = [] \<or> ValidString v)"
  using assms by (auto simp: normalizeProfileEmail_def Let_def split: if_splits)

definition list_item_ok :: "string \<Rightarrow> bool" where
  "list_item_ok v \<longleftrightarrow> v \<noteq> [] \<and> normalizeProfileText v MaximumProfileListItemBytes = Inr v"

lemma collect_unique_Inr:
  "collect_unique acc vs = Inr us \<Longrightarrow> distinct acc \<Longrightarrow> list_all list_item_ok acc \<Longrightarrow>
     distinct us \<and> list_all list_item_ok us \<and> length us \<le> length acc + length vs"
proof (induction vs arbitrary: acc)
  case (Cons v vs)
  then obtain n where n: "normalizeProfileText v MaximumProfileListItemBytes = Inr n" "n \<noteq> []"
    and rest: "collect_unique (List.insert n acc) vs = Inr us"
    by (auto split: sum.splits if_splits)
  from normalizeProfileText_Inr [OF n(1)] n(2) have "list_item_ok n" by (simp add: list_item_ok_def)
  with Cons.prems(2,3) have "distinct (List.insert n acc)" "list_all list_item_ok (List.insert n acc)"
    "length (List.insert n acc) \<le> Suc (length acc)"
    by (auto simp: List.insert_def)
  with Cons.IH [OF rest] show ?case by simp
qed simp

lemma collect_unique_distinct:
  "distinct (acc @ vs) \<Longrightarrow> list_all list_item_ok vs \<Longrightarrow> collect_unique acc vs = Inr (rev vs @ acc)"
  by (induction vs arbitrary: acc) (auto simp: list_item_ok_def List.insert_def)

lemma normalizeProfileList_Inr:
  assumes "normalizeProfileList vs = Inr us"
  shows "normalizeProfileList us = Inr us \<and> list_all list_item_ok us \<and> length us \<le> MaximumProfileListItems"
proof (cases "vs = []")
  case True
  with assms show ?thesis by (simp add: normalizeProfileList_def)
next
  case False
  with assms obtain unique where u: "collect_unique [] vs = Inr unique" "us = sort unique" "length unique \<le> MaximumProfileListItems"
    by (auto simp: normalizeProfileList_def split: if_splits sum.splits)
  from collect_unique_Inr [OF u(1)] have d: "distinct unique" "list_all list_item_ok unique" by simp_all
  then have us: "distinct us" "list_all list_item_ok us" "sorted us" "length us \<le> MaximumProfileListItems"
    using u by (auto simp: list_all_iff)
  have "collect_unique [] us = Inr (rev us)" using collect_unique_distinct [of "[]" us] us by simp
  moreover have "sort (rev us) = us"
    using us(1,3) by (intro sorted_distinct_set_unique) simp_all
  ultimately show ?thesis using us by (auto simp: normalizeProfileList_def)
qed

text \<open>The values of one field of a profile.\<close>

definition field_value :: "RelayProfile \<Rightarrow> ProfileField \<Rightarrow> string \<times> string list" where
  "field_value p f = (scalar_of p f, list_of_field p f)"

lemma profile_eqI: "(\<And>f. field_value p f = field_value q f) \<Longrightarrow> p = q"
proof -
  assume *: "\<And>f. field_value p f = field_value q f"
  show ?thesis
    using * [of ProfileFieldParticipationMode] * [of ProfileFieldAvailability] * [of ProfileFieldRelayType]
      * [of ProfileFieldLanguages] * [of ProfileFieldCountries] * [of ProfileFieldRegions] * [of ProfileFieldTopics]
      * [of ProfileFieldContactFediverse] * [of ProfileFieldContactEmail] * [of ProfileFieldContactURL]
      * [of ProfileFieldParticipationURL] * [of ProfileFieldNotes]
    by (cases p; cases q) (simp add: field_value_def)
qed

lemma field_value_empty [simp]: "field_value empty_profile f = ([], [])"
  by (cases f) (simp_all add: field_value_def empty_profile_def)

lemma set_scalar_value:
  "\<not> MultiValue f \<Longrightarrow> field_value (set_scalar p f v) g = (if f = g then (v, []) else field_value p g)"
  by (cases f; cases g) (simp_all add: field_value_def MultiValue_def)

lemma set_list_value:
  "MultiValue f \<Longrightarrow> field_value (set_list p f vs) g = (if f = g then ([], vs) else field_value p g)"
  by (cases f; cases g) (simp_all add: field_value_def MultiValue_def)

lemma scalar_multi: "MultiValue f \<Longrightarrow> scalar_of p f = []"
  by (cases f) (simp_all add: MultiValue_def)

lemma list_scalar: "\<not> MultiValue f \<Longrightarrow> list_of_field p f = []"
  by (cases f) (simp_all add: MultiValue_def)

definition stored_form :: "RelayProfile \<Rightarrow> bool" where
  "stored_form p \<longleftrightarrow> (\<forall>f. (scalar_of p f = [] \<or> ValidString (scalar_of p f)) \<and> list_all ValidString (list_of_field p f))"

lemma decode_encode:
  assumes "stored_form p" "encodeProfileField p f = Some v" "length v \<le> MaximumProfileStoredValueBytes"
  shows "\<exists>q'. decodeProfileField q f v = Inr q' \<and> (\<forall>g. field_value q' g = (if f = g then field_value p f else field_value q g))"
proof (cases "MultiValue f")
  case True
  with assms have v: "v = marshal_list (list_of_field p f)" "list_of_field p f \<noteq> []" by (auto simp: encodeProfileField_def split: if_splits)
  have "unmarshal_list v = Some (list_of_field p f)"
    unfolding v(1) using assms(1) by (intro unmarshal_marshal_list) (auto simp: stored_form_def list_all_iff)
  with True v assms(3) have "decodeProfileField q f v = Inr (set_list q f (list_of_field p f))"
    by (simp add: decodeProfileField_def marshal_list_def)
  with True show ?thesis by (simp add: set_list_value) (simp add: field_value_def scalar_multi)
next
  case False
  with assms have v: "v = marshal_string (scalar_of p f)" "scalar_of p f \<noteq> []" by (auto simp: encodeProfileField_def split: if_splits)
  have "unmarshal_string v = Some (scalar_of p f)"
    unfolding v(1) using assms(1) v(2) by (intro unmarshal_marshal_string) (auto simp: stored_form_def)
  with False v assms(3) have "decodeProfileField q f v = Inr (set_scalar q f (scalar_of p f))"
    by (simp add: decodeProfileField_def marshal_string_def)
  with False show ?thesis by (simp add: set_scalar_value) (simp add: field_value_def list_scalar)
qed

lemma encode_None: "encodeProfileField p f = None \<longleftrightarrow> field_value p f = ([], [])"
  by (auto simp: encodeProfileField_def field_value_def scalar_multi list_scalar)

text \<open>
  The two URLs of a normalised profile are stable when normalising them again changes
  nothing, which is how canonical relay URLs behave everywhere in the program.
\<close>

definition urls_stable :: "RelayProfile \<Rightarrow> bool" where
  "urls_stable p \<longleftrightarrow> optional_url (ContactURL p) = Inr (ContactURL p) \<and> optional_url (ParticipationURL p) = Inr (ParticipationURL p) \<and>
     ValidString (ContactURL p) \<and> ValidString (ParticipationURL p)"

lemma andthen_Inr: "andthen r f = Inr y \<longleftrightarrow> (\<exists>x. r = Inr x \<and> f x = Inr y)"
  by (auto simp: andthen_def split: sum.splits)

lemma andthenE: "andthen r f = Inr y \<Longrightarrow> (\<And>x. r = Inr x \<Longrightarrow> f x = Inr y \<Longrightarrow> P) \<Longrightarrow> P"
  by (auto simp: andthen_Inr)

lemma ValidString_Nil: "ValidString []"
  by (simp add: ValidString_def runes.simps)

lemma NormalizeRelayProfile_Inr:
  assumes "NormalizeRelayProfile parseAddress claim = Inr p" "urls_stable p"
  shows "NormalizeRelayProfile parseAddress p = Inr p \<and> stored_form p"
  using assms(1) [unfolded NormalizeRelayProfile_def]
proof (elim andthenE, goal_cases)
  case (1 mode availability relayType languages countries regions topics fediverse email contact participation note_text)
  note T = 1(1,2,3,8,12) [THEN normalizeProfileText_Inr] and E = 1(9) [THEN normalizeProfileEmail_Inr]
    and L = 1(4-7) [THEN normalizeProfileList_Inr]
  from 1(13) have p: "p = \<lparr>ParticipationMode = mode, Availability = availability, RelayType = relayType, Languages = languages,
          Countries = countries, Regions = regions, Topics = topics, ContactFediverse = fediverse,
          ContactEmail = email, ContactURL = contact, ParticipationURL = participation, Notes = note_text\<rparr>" by simp
  have items: "list_all list_item_ok vs \<Longrightarrow> list_all ValidString vs" for vs
    using normalizeProfileText_Inr by (auto simp: list_all_iff list_item_ok_def)
  have "NormalizeRelayProfile parseAddress p = Inr p"
    unfolding p NormalizeRelayProfile_def RelayProfile.select_convs
      T [THEN conjunct1] E [THEN conjunct1] L [THEN conjunct1] andthen_def sum.case
    using assms(2) by (simp add: p urls_stable_def)
  moreover have "stored_form p"
  proof -
    have v: "ValidString mode" "ValidString availability" "ValidString relayType" "ValidString fediverse" "ValidString note_text" "ValidString email"
      using T [THEN conjunct2, THEN conjunct1] E [THEN conjunct2] by (auto simp: ValidString_Nil)
    note i = L [THEN conjunct2, THEN conjunct1, THEN items]
    have "ValidString (scalar_of p f) \<and> list_all ValidString (list_of_field p f)" for f
      unfolding p using v i assms(2) by (cases f) (simp_all add: p urls_stable_def ValidString_Nil)
    then show ?thesis by (simp add: stored_form_def)
  qed
  ultimately show ?case by simp
qed

subsection \<open>The effect of replacing a source\<close>

lemma replace_field_tolerant: "fault_tolerant (replace_field actor source profile t current revisions f summary)"
  unfolding replace_field_def insertProfileEvent_def by (intro tolerant allI)

lemma replace_fields_tolerant: "fault_tolerant (replace_fields actor source profile t current revisions fs summary)"
  by (induction fs arbitrary: summary) (auto intro!: tolerant replace_field_tolerant)

lemma replace_profile_tolerant: "fault_tolerant (replace_profile_tx actor source profile t)"
  unfolding replace_profile_tx_def profileIdentityRetained_def requireProfileMonotonicTime_def readProfileSourceValues_def
    readProfileSourceRevisions_def Let_def
  by (intro tolerant replace_fields_tolerant)

lemma ReplaceProfileSource_success:
  assumes "ReplaceProfileSource env parseAddress intent t d = (Inr summary, d')"
  obtains source profile where "ValidProfileRelayActor (profile_actor intent)"
    "NormalizeProfileSource (profile_source intent) = Inr source"
    "NormalizeRelayProfile parseAddress (profile_claim intent) = Inr profile" "0 \<le> t"
    "run_tx calm (replace_profile_tx (profile_actor intent) source profile t) d = (Inr summary, d')"
proof -
  from assms obtain source profile where s: "ValidProfileRelayActor (profile_actor intent)"
    "NormalizeProfileSource (profile_source intent) = Inr source"
    "NormalizeRelayProfile parseAddress (profile_claim intent) = Inr profile" "0 \<le> t"
    "run_tx env (replace_profile_tx (profile_actor intent) source profile t) d = (Inr summary, d')"
    by (auto simp: ReplaceProfileSource_def split: if_splits sum.splits)
  with run_tx_tolerant [OF replace_profile_tolerant, of d env] have
    "run_tx calm (replace_profile_tx (profile_actor intent) source profile t) d = (Inr summary, d')"
    by (metis (no_types, lifting) Inl_Inr_False fst_conv interrupted_def)
  with that s show ?thesis by blast
qed

text \<open>What one field contributes.\<close>

definition field_kept :: "ProfileSource \<Rightarrow> string \<Rightarrow> profile_value option \<Rightarrow> bool" where
  "field_kept source v existing = (case existing of None \<Rightarrow> False | Some e \<Rightarrow>
     value_json e = v \<and> coalesce_empty (value_label e) = SourceLabel source \<and> coalesce_empty (value_url e) = SourceURL source)"

definition field_event :: "string \<Rightarrow> ProfileSource \<Rightarrow> ProfileField \<Rightarrow> string option \<Rightarrow> int \<Rightarrow> int \<Rightarrow> profile_event" where
  "field_event actor source f v r t =
     \<lparr>pe_actor = actor, pe_kind = Kind source, pe_field = f, pe_action = (if v = None then ProfileClear else ProfileSet),
      pe_value = v, pe_label = nullif_empty (SourceLabel source), pe_url = nullif_empty (SourceURL source),
      pe_revision = r, pe_recorded = t\<rparr>"

definition new_value :: "ProfileSource \<Rightarrow> string \<Rightarrow> int \<Rightarrow> int \<Rightarrow> profile_value" where
  "new_value source v r t = \<lparr>value_json = v, value_label = nullif_empty (SourceLabel source),
     value_url = nullif_empty (SourceURL source), accepted_at = t, value_revision = r\<rparr>"

definition field_changed :: "ProfileSource \<Rightarrow> RelayProfile \<Rightarrow> (ProfileField \<Rightarrow> profile_value option) \<Rightarrow> ProfileField \<Rightarrow> bool" where
  "field_changed source profile current f =
     (case encodeProfileField profile f of None \<Rightarrow> current f \<noteq> None | Some v \<Rightarrow> \<not> field_kept source v (current f))"

definition field_applied :: "string \<Rightarrow> ProfileSource \<Rightarrow> RelayProfile \<Rightarrow> int \<Rightarrow> (ProfileField \<Rightarrow> profile_value option)
    \<Rightarrow> (ProfileField \<Rightarrow> int) \<Rightarrow> ProfileField \<Rightarrow> profile_db \<Rightarrow> profile_db" where
  "field_applied actor source profile t current revisions f d =
     (if field_changed source profile current f then
        d\<lparr>profile_values := (case encodeProfileField profile f of
             None \<Rightarrow> AList.delete (actor, Kind source, f) (profile_values d)
           | Some v \<Rightarrow> AList.update (actor, Kind source, f) (new_value source v (revisions f + 1) t) (profile_values d)),
          profile_events := profile_events d @ [field_event actor source f (encodeProfileField profile f) (revisions f + 1) t]\<rparr>
      else d)"

lemma replace_field_effect:
  assumes "replace_field actor source profile t current revisions f summary (d, []) = (Inr s', (d', fs'))"
  shows "d' = field_applied actor source profile t current revisions f d \<and> fs' = [] \<and>
    (case encodeProfileField profile f of None \<Rightarrow> True | Some v \<Rightarrow> length v \<le> MaximumProfileStoredValueBytes)"
  using assms
  by (auto simp: replace_field_def field_applied_def field_changed_def field_kept_def field_event_def new_value_def
      insertProfileEvent_def put_profile_value_def delete_profile_value_def append_profile_event_def tx_simps
      split: option.splits if_splits)

lemma replace_fields_effect:
  assumes "replace_fields actor source profile t current revisions fs summary (d, []) = (Inr s', (d', fs'))"
  shows "d' = fold (field_applied actor source profile t current revisions) fs d \<and> fs' = [] \<and>
    (\<forall>f \<in> set fs. case encodeProfileField profile f of None \<Rightarrow> True | Some v \<Rightarrow> length v \<le> MaximumProfileStoredValueBytes)"
  using assms
proof (induction fs arbitrary: summary d)
  case Nil
  then show ?case by (simp add: tx_simps)
next
  case (Cons f fs)
  then obtain s1 d1 fl where step: "replace_field actor source profile t current revisions f summary (d, []) = (Inr s1, (d1, fl))"
    and rest: "replace_fields actor source profile t current revisions fs s1 (d1, fl) = (Inr s', (d', fs'))"
    by (auto simp: tx_simps split: prod.splits sum.splits)
  from replace_field_effect [OF step] Cons.IH [of s1 d1] rest show ?case by auto
qed

lemma field_applied_core [simp]: "core (field_applied actor source profile t current revisions f d) = core d"
  by (simp add: field_applied_def)

lemma fold_applied_core: "core (fold (field_applied actor source profile t current revisions) fs d) = core d"
  by (induction fs arbitrary: d) simp_all

lemma field_applied_telemetry [simp]: "telemetry (field_applied actor source profile t current revisions f d) = telemetry d"
  by (simp add: field_applied_def)

lemma fold_applied_telemetry: "telemetry (fold (field_applied actor source profile t current revisions) fs d) = telemetry d"
  by (induction fs arbitrary: d) simp_all

definition field_target :: "ProfileSource \<Rightarrow> RelayProfile \<Rightarrow> int \<Rightarrow> (ProfileField \<Rightarrow> profile_value option)
    \<Rightarrow> (ProfileField \<Rightarrow> int) \<Rightarrow> ProfileField \<Rightarrow> profile_value option" where
  "field_target source profile t current revisions f =
     (if field_changed source profile current f
      then map_option (\<lambda>v. new_value source v (revisions f + 1) t) (encodeProfileField profile f)
      else current f)"

lemma field_applied_values:
  assumes "current f = map_of (profile_values d) (actor, Kind source, f)"
  shows "map_of (profile_values (field_applied actor source profile t current revisions f d)) =
    (map_of (profile_values d))((actor, Kind source, f) := field_target source profile t current revisions f)"
  using assms by (auto simp: field_applied_def field_target_def split: option.splits)

lemma fold_applied_values:
  assumes "distinct fs" "\<And>f. f \<in> set fs \<Longrightarrow> current f = map_of (profile_values d) (actor, Kind source, f)"
  shows "map_of (profile_values (fold (field_applied actor source profile t current revisions) fs d)) key =
    (case key of (a, k, f) \<Rightarrow> if a = actor \<and> k = Kind source \<and> f \<in> set fs
      then field_target source profile t current revisions f else map_of (profile_values d) key)"
  using assms
proof (induction fs arbitrary: d)
  case (Cons f fs)
  let ?d = "field_applied actor source profile t current revisions f d"
  have v: "map_of (profile_values ?d) = (map_of (profile_values d))((actor, Kind source, f) := field_target source profile t current revisions f)"
    using Cons.prems(2) by (intro field_applied_values) simp
  have "current g = map_of (profile_values ?d) (actor, Kind source, g)" if "g \<in> set fs" for g
    using that Cons.prems v by auto
  with Cons.IH [of ?d] Cons.prems(1) v show ?case by (auto split: prod.splits)
qed (simp split: prod.splits)

lemma table_ok_applied: "table_ok (profile_values d) \<Longrightarrow> table_ok (profile_values (field_applied actor source profile t current revisions f d))"
  by (auto simp: field_applied_def split: option.splits)

lemma table_ok_fold_applied: "table_ok (profile_values d) \<Longrightarrow>
    table_ok (profile_values (fold (field_applied actor source profile t current revisions) fs d))"
  by (induction fs arbitrary: d) (simp_all add: table_ok_applied)

lemma ProfileFields_all [simp]: "f \<in> set ProfileFields" "distinct ProfileFields"
  by (cases f) (simp_all add: ProfileFields_def)

text \<open>The committed state of a successful replacement, whatever faults the environment could have injected.\<close>

lemma ReplaceProfileSource_effect:
  assumes "ReplaceProfileSource env parseAddress intent t d = (Inr summary, d')"
  obtains source profile revisions where
    "NormalizeProfileSource (profile_source intent) = Inr source"
    "NormalizeRelayProfile parseAddress (profile_claim intent) = Inr profile" "0 \<le> t"
    "ValidProfileRelayActor (profile_actor intent)" "retained (core d) (profile_actor intent)"
    "\<forall>f v. encodeProfileField profile f = Some v \<longrightarrow> length v \<le> MaximumProfileStoredValueBytes"
    "d' = fold (field_applied (profile_actor intent) source profile t (source_values d (profile_actor intent) (Kind source)) revisions) ProfileFields d"
proof -
  obtain source profile where s: "ValidProfileRelayActor (profile_actor intent)"
    "NormalizeProfileSource (profile_source intent) = Inr source"
    "NormalizeRelayProfile parseAddress (profile_claim intent) = Inr profile" "0 \<le> t"
    and run: "run_tx calm (replace_profile_tx (profile_actor intent) source profile t) d = (Inr summary, d')"
    by (rule ReplaceProfileSource_success [OF assms])
  let ?cur = "source_values d (profile_actor intent) (Kind source)"
  let ?rev = "\<lambda>f. case history_revision d (profile_actor intent) (Kind source) f of None \<Rightarrow> 0 | Some r \<Rightarrow> r"
  from run obtain fl where r: "retained (core d) (profile_actor intent)"
    "replace_fields (profile_actor intent) source profile t ?cur ?rev ProfileFields zero_summary (d, []) = (Inr summary, (d', fl))"
    by (auto simp: tx_simps replace_profile_tx_def profileIdentityRetained_def requireProfileMonotonicTime_def
        readProfileSourceValues_def readProfileSourceRevisions_def Let_def split: if_splits option.splits prod.splits sum.splits)
  note E = replace_fields_effect [OF r(2)]
  have enc: "length v \<le> MaximumProfileStoredValueBytes" if "encodeProfileField profile f = Some v" for f v
    using that E ProfileFields_all(1) [of f] by (auto dest!: bspec [of _ _ f])
  then have "\<forall>f v. encodeProfileField profile f = Some v \<longrightarrow> length v \<le> MaximumProfileStoredValueBytes" by blast
  from that [OF s(2-4,1) r(1) this] E show ?thesis by blast
qed

subsection \<open>Round trip\<close>

lemma decode_rows_fields:
  assumes "stored_form p"
    and "\<forall>r \<in> set rows. case r of ((a, k, f), row) \<Rightarrow>
      encodeProfileField p f = Some (value_json row) \<and> length (value_json row) \<le> MaximumProfileStoredValueBytes"
  shows "\<exists>q'. decode_rows rows q = Inr q' \<and>
    (\<forall>g. field_value q' g = (if g \<in> (\<lambda>((a, k, f), row). f) ` set rows then field_value p g else field_value q g))"
  using assms(2)
proof (induction rows arbitrary: q)
  case Nil
  then show ?case by simp
next
  case (Cons r rows)
  obtain a k f row where r: "r = ((a, k, f), row)" by (metis prod.exhaust)
  from Cons.prems have e: "encodeProfileField p f = Some (value_json row)" "length (value_json row) \<le> MaximumProfileStoredValueBytes"
    by (simp_all add: r)
  from decode_encode [OF assms(1) e, of q] obtain q1 where q1: "decodeProfileField q f (value_json row) = Inr q1"
    "\<And>g. field_value q1 g = (if f = g then field_value p f else field_value q g)" by blast
  have "\<exists>q'. decode_rows rows q1 = Inr q' \<and>
    (\<forall>g. field_value q' g = (if g \<in> (\<lambda>((a, k, f), row). f) ` set rows then field_value p g else field_value q1 g))"
    using Cons.prems by (intro Cons.IH) simp
  with q1 show ?case by (auto simp: r)
qed

lemma NormalizeProfileSource_Kind: "NormalizeProfileSource s = Inr s' \<Longrightarrow> Kind s' = Kind s \<and> kind_Valid (Kind s)"
  by (auto simp: NormalizeProfileSource_def Let_def split: if_splits ProfileSourceKind.splits sum.splits)

lemma field_target_json:
  "map_option value_json (field_target source profile t current revisions f) = encodeProfileField profile f"
  by (auto simp: field_target_def field_changed_def field_kept_def new_value_def option.map_comp comp_def split: option.splits if_splits)

lemma profile_values_after:
  assumes "ReplaceProfileSource env parseAddress intent t d = (Inr summary, d')"
    and "NormalizeRelayProfile parseAddress (profile_claim intent) = Inr p"
  shows "map_option value_json (map_of (profile_values d') (profile_actor intent, Kind (profile_source intent), f)) = encodeProfileField p f"
    and "encodeProfileField p f = Some v \<Longrightarrow> length v \<le> MaximumProfileStoredValueBytes"
    and "table_ok (profile_values d) \<Longrightarrow> table_ok (profile_values d')"
proof -
  obtain source profile revisions where s: "NormalizeProfileSource (profile_source intent) = Inr source"
    "NormalizeRelayProfile parseAddress (profile_claim intent) = Inr profile"
    and len: "\<forall>f v. encodeProfileField profile f = Some v \<longrightarrow> length v \<le> MaximumProfileStoredValueBytes"
    and d': "d' = fold (field_applied (profile_actor intent) source profile t (source_values d (profile_actor intent) (Kind source)) revisions) ProfileFields d"
    by (rule ReplaceProfileSource_effect [OF assms(1)])
  from s(2) assms(2) have p: "profile = p" by simp
  note k = NormalizeProfileSource_Kind [OF s(1)]
  show "map_option value_json (map_of (profile_values d') (profile_actor intent, Kind (profile_source intent), f)) = encodeProfileField p f"
    unfolding d' by (subst fold_applied_values) (simp_all add: source_values_def k field_target_json p)
  show "encodeProfileField p f = Some v \<Longrightarrow> length v \<le> MaximumProfileStoredValueBytes" using len p by simp
  show "table_ok (profile_values d) \<Longrightarrow> table_ok (profile_values d')" unfolding d' by (rule table_ok_fold_applied)
qed


lemma fold_applied_events:
  "profile_events (fold (field_applied actor source profile t current revisions) fs d) =
    profile_events d @ map (\<lambda>f. field_event actor source f (encodeProfileField profile f) (revisions f + 1) t)
      (filter (field_changed source profile current) fs)"
  by (induction fs arbitrary: d) (simp_all add: field_applied_def)

lemma run_tx_failed: "run_tx env t d = (Inl e, d') \<Longrightarrow> d' = d"
  using run_tx_error_unchanged [of env t d e] by simp

text \<open>C30: a profile write stays in its lane: under any faults it changes no lifecycle, discovery or
  telemetry data and no assertion of another relay or source; the history only grows, by at
  most one event per field, and every assertion that changed has its event with the value
  it changed to; a refused or failed write changes nothing.\<close>

theorem profile_replacement_scoped:
  assumes "ReplaceProfileSource env parseAddress intent t d = (r, d')"
  shows "core d' = core d \<and> telemetry d' = telemetry d \<and> (\<not> isOk r \<longrightarrow> d' = d) \<and>
    (\<exists>es. profile_events d' = profile_events d @ es \<and> distinct (map pe_field es) \<and>
       (\<forall>e \<in> set es. pe_actor e = profile_actor intent \<and> pe_kind e = Kind (profile_source intent) \<and> pe_recorded e = t) \<and>
       (\<forall>key. map_of (profile_values d') key \<noteq> map_of (profile_values d) key \<longrightarrow>
          (\<exists>e \<in> set es. key = (pe_actor e, pe_kind e, pe_field e) \<and> pe_value e = map_option value_json (map_of (profile_values d') key))))"
proof (cases r)
  case (Inl e)
  from assms Inl have "d' = d"
    by (auto simp: ReplaceProfileSource_def split: if_splits sum.splits dest: run_tx_failed)
  with Inl show ?thesis by auto
next
  case (Inr summary)
  let ?a = "profile_actor intent" and ?k = "Kind (profile_source intent)"
  obtain source profile revisions where s: "NormalizeProfileSource (profile_source intent) = Inr source"
    and d': "d' = fold (field_applied ?a source profile t (source_values d ?a (Kind source)) revisions) ProfileFields d"
    by (rule ReplaceProfileSource_effect [OF assms [unfolded Inr]])
  note k = NormalizeProfileSource_Kind [OF s, THEN conjunct1]
  let ?cur = "source_values d ?a ?k"
  let ?changed = "filter (field_changed source profile ?cur) ProfileFields"
  let ?es = "map (\<lambda>f. field_event ?a source f (encodeProfileField profile f) (revisions f + 1) t) ?changed"
  have ev: "profile_events d' = profile_events d @ ?es" unfolding d' k by (rule fold_applied_events)
  have fields: "map pe_field ?es = ?changed" by (simp add: field_event_def comp_def)
  have val: "map_of (profile_values d') (a, kk, f) =
      (if a = ?a \<and> kk = ?k then field_target source profile t ?cur revisions f else map_of (profile_values d) (a, kk, f))" for a kk f
    unfolding d' k by (subst fold_applied_values) (simp_all add: source_values_def k)
  have "\<exists>e \<in> set ?es. key = (pe_actor e, pe_kind e, pe_field e) \<and> pe_value e = map_option value_json (map_of (profile_values d') key)"
    if changed: "map_of (profile_values d') key \<noteq> map_of (profile_values d) key" for key
  proof -
    obtain a kk f where key: "key = (a, kk, f)" by (metis prod.exhaust)
    from changed val [of a kk f] have ak: "a = ?a" "kk = ?k" by (auto simp: key split: if_splits)
    with changed val [of a kk f] have "field_changed source profile ?cur f"
      by (auto simp: key field_target_def source_values_def split: if_splits)
    then have "field_event ?a source f (encodeProfileField profile f) (revisions f + 1) t \<in> set ?es" by simp
    moreover have "map_option value_json (map_of (profile_values d') key) = encodeProfileField profile f"
      using val [of a kk f] ak by (simp add: key field_target_json)
    ultimately show ?thesis using ak k by (intro bexI [of _ "field_event ?a source f (encodeProfileField profile f) (revisions f + 1) t"])
      (simp_all add: key field_event_def)
  qed
  then have chg: "\<forall>key. map_of (profile_values d') key \<noteq> map_of (profile_values d) key \<longrightarrow>
      (\<exists>e \<in> set ?es. key = (pe_actor e, pe_kind e, pe_field e) \<and> pe_value e = map_option value_json (map_of (profile_values d') key))"
    by blast
  have dist: "distinct (map pe_field ?es)" unfolding fields by simp
  have scope: "\<forall>e \<in> set ?es. pe_actor e = ?a \<and> pe_kind e = ?k \<and> pe_recorded e = t" by (auto simp: field_event_def k)
  have same: "core d' = core d" "telemetry d' = telemetry d" unfolding d' by (rule fold_applied_core, rule fold_applied_telemetry)
  have "\<not> isOk r \<longrightarrow> d' = d" by (simp add: Inr)
  with same ev dist scope chg show ?thesis by (intro conjI exI [of _ ?es])
qed

subsection \<open>Source precedence\<close>

definition winning_value :: "profile_db \<Rightarrow> string \<Rightarrow> ProfileField \<Rightarrow> profile_value option" where
  "winning_value d actor f =
     (case source_values d actor ProfileSourceOverride f of
        Some v \<Rightarrow> Some v
      | None \<Rightarrow>
          (case source_values d actor ProfileSourceRelay f of
             Some v \<Rightarrow> Some v
           | None \<Rightarrow> source_values d actor ProfileSourceCSV f))"

abbreviation row_field :: "profile_row \<Rightarrow> ProfileField" where
  "row_field r \<equiv> snd (snd (fst r))"

definition decoded_value :: "ProfileField \<Rightarrow> string \<Rightarrow> string \<times> string list" where
  "decoded_value f v = (case decodeProfileField empty_profile f v of Inr q \<Rightarrow> field_value q f | Inl _ \<Rightarrow> ([], []))"

lemma decode_field_value:
  assumes "decodeProfileField p f v = Inr q"
  shows "field_value q g = (if f = g then decoded_value f v else field_value p g)"
  using assms
  by (cases "MultiValue f")
    (auto simp: decodeProfileField_def decoded_value_def set_list_value set_scalar_value split: if_splits option.splits)

definition first_value :: "ProfileField \<Rightarrow> profile_row list \<Rightarrow> (string \<times> string list) option" where
  "first_value f rows = map_option (\<lambda>r. decoded_value f (value_json (snd r))) (find (\<lambda>r. row_field r = f) rows)"

lemma resolve_rows_first:
  assumes "resolve_rows rows result seen = Inr result'" "\<forall>r \<in> set rows. fst (fst r) = actor"
  shows "field_value (result' actor) f =
    (if (actor, f) \<in> set seen then field_value (result actor) f
     else case first_value f rows of None \<Rightarrow> field_value (result actor) f | Some v \<Rightarrow> v)"
  using assms
proof (induction rows arbitrary: result seen)
  case Nil
  then show ?case by (simp add: first_value_def)
next
  case (Cons r rest)
  obtain k g row where r: "r = ((actor, k, g), row)" using Cons.prems(2) by (cases r) auto
  show ?case
  proof (cases "(actor, g) \<in> set seen")
    case True
    with Cons.prems(1) have "resolve_rows rest result seen = Inr result'" by (simp add: r split: if_splits)
    from Cons.IH [OF this] Cons.prems(2) True show ?thesis by (auto simp: r first_value_def)
  next
    case False
    with Cons.prems(1) obtain q where q: "decodeProfileField (result actor) g (value_json row) = Inr q"
      and rest: "resolve_rows rest (result(actor := q)) ((actor, g) # seen) = Inr result'"
      by (auto simp: r split: if_splits sum.splits)
    from Cons.IH [OF rest] Cons.prems(2) have IH: "field_value (result' actor) f =
      (if f = g \<or> (actor, f) \<in> set seen then field_value q f else case first_value f rest of None \<Rightarrow> field_value q f | Some v \<Rightarrow> v)"
      by (simp split: option.splits)
    show ?thesis
    proof (cases "f = g")
      case True
      with IH False decode_field_value [OF q, of g] show ?thesis by (simp add: r first_value_def)
    next
      case other: False
      with IH decode_field_value [OF q, of f] show ?thesis by (simp add: r first_value_def split: option.splits)
    qed
  qed
qed

lemma find_sorted_best:
  assumes "sorted (map key rows)" "find P rows = Some r" "r' \<in> set rows" "P r'"
  shows "key r \<le> key r'"
  using assms by (induction rows) (auto split: if_splits)

lemma find_winning:
  assumes ok: "table_ok (profile_values d)" and kinds: "\<forall>r \<in> set (profile_values d). kind_Valid (fst (snd (fst r)))"
  shows "map_option snd (find (\<lambda>r. row_field r = f) (effective_rows d [actor])) = winning_value d actor f"
proof -
  let ?rows = "effective_rows d [actor]"
  have mem: "((a, k, g), row) \<in> set ?rows \<longleftrightarrow> a = actor \<and> source_values d actor k g = Some row" for a k g row
    using table_mem_iff [OF ok] by (auto simp: effective_rows_def source_values_def simp del: map_of_eq_Some_iff)
  have sorted: "sorted (map effective_order ?rows)" by (simp add: effective_rows_def)
  have valid: "source_values d actor (ProfileSourceText x) f = None" for x
    using kinds table_mem_iff [OF ok] by (cases "source_values d actor (ProfileSourceText x) f") (force simp: source_values_def)+
  show ?thesis
  proof (cases "find (\<lambda>r. row_field r = f) ?rows")
    case None
    then have "source_values d actor k f = None" for k
      using mem [of actor k f] by (cases "source_values d actor k f") (auto simp: find_None_iff)
    with None show ?thesis by (simp add: winning_value_def)
  next
    case (Some r)
    obtain a k g row where r: "r = ((a, k, g), row)" by (metis prod.exhaust)
    from Some have "r \<in> set ?rows" "row_field r = f" by (auto simp: find_Some_iff)
    with mem r have rr: "g = f" "a = actor" "source_values d actor k f = Some row" by auto
    have best: "ProfileSourcePriority k' \<le> ProfileSourcePriority k" if "source_values d actor k' f = Some row'" for k' row'
    proof -
      from that mem have "((actor, k', f), row') \<in> set ?rows" by simp
      from find_sorted_best [OF sorted Some this] show ?thesis by (simp add: r rr effective_order_def)
    qed
    have "winning_value d actor f = Some row"
      using rr(3) best valid by (cases k) (fastforce simp: winning_value_def split: option.splits)+
    with Some show ?thesis by (simp add: r)
  qed
qed

text \<open>C31: the effective profile follows the source precedence field by field: every field is what
  the operator override asserts, else what the relay asserts, else what the imported list
  asserts, else empty; a lower source never shows through a higher one, and fields are
  resolved independently of each other.\<close>

theorem effective_profile_precedence:
  assumes "table_ok (profile_values d)" "\<forall>r \<in> set (profile_values d). kind_Valid (fst (snd (fst r)))"
    and "EffectiveProfile fault rf parseAddress actor d = Inr p"
  shows "\<exists>q. NormalizeRelayProfile parseAddress q = Inr p \<and>
    (\<forall>f. field_value q f = (case winning_value d actor f of None \<Rightarrow> ([], []) | Some row \<Rightarrow> decoded_value f (value_json row)))"
proof -
  from assms(3) obtain result where
    res: "resolve_rows (effective_rows d [actor]) (\<lambda>_. empty_profile) [] = Inr result"
    and n: "NormalizeRelayProfile parseAddress (result actor) = Inr p"
    by (auto simp: EffectiveProfile_def readEffectiveProfiles_def andthen_def faulty_rows_def
        split: if_splits sum.splits option.splits)
  have "\<forall>r \<in> set (effective_rows d [actor]). fst (fst r) = actor" by (auto simp: effective_rows_def)
  note first = resolve_rows_first [OF res this]
  have "field_value (result actor) f = (case winning_value d actor f of None \<Rightarrow> ([], []) | Some row \<Rightarrow> decoded_value f (value_json row))" for f
    unfolding find_winning [OF assms(1,2), symmetric] first
    by (cases "find (\<lambda>r. row_field r = f) (effective_rows d [actor])") (simp_all add: first_value_def)
  with n show ?thesis by blast
qed

subsection \<open>A concrete profile\<close>

definition sample_profile :: RelayProfile where
  "sample_profile = empty_profile\<lparr>Notes := ''hi''\<rparr>"

definition sample_profile_intent :: ProfileSourceIntent where
  "sample_profile_intent = \<lparr>profile_actor = sample_actor,
     profile_source = \<lparr>Kind = ProfileSourceRelay, SourceLabel = [], SourceURL = []\<rparr>, profile_claim = sample_profile\<rparr>"

definition sample_profile_db :: profile_db where
  "sample_profile_db = \<lparr>core = registered_db, profile_values = [], profile_events = [], telemetry = []\<rparr>"

lemma sample_text: "TrimSpace ''hi'' = ''hi''" "ValidString ''hi''" "\<not> containsProfileControl ''hi''"
  by (simp_all add: url_eval containsProfileControl_def)

lemma sample_op_text: "TrimSpace ''op'' = ''op''" "ValidString ''op''" "\<not> containsProfileControl ''op''"
  by (simp_all add: url_eval containsProfileControl_def)

lemma sample_profile_normal: "NormalizeRelayProfile pa sample_profile = Inr sample_profile"
  by (simp add: NormalizeRelayProfile_def sample_profile_def empty_profile_def andthen_def normalizeProfileText_def
      normalizeProfileList_def normalizeProfileEmail_def optional_url_def sample_text MaximumProfileNoteBytes_def)

lemma sample_urls_stable: "urls_stable sample_profile"
  by (simp add: urls_stable_def sample_profile_def empty_profile_def optional_url_def ValidString_Nil)

lemma sample_encode: "encodeProfileField sample_profile f = (if f = ProfileFieldNotes then Some (marshal_string ''hi'') else None)"
  by (cases f) (simp_all add: encodeProfileField_def MultiValue_def sample_profile_def empty_profile_def)

lemma sample_json: "json_escape ''hi'' = ''hi''" "json_escape ''op'' = ''op''"
  by (simp_all add: json_escape.simps html_safe_def code_def)

lemma sample_value: "value_check ProfileFieldNotes (marshal_string ''hi'')"
  using unmarshal_marshal_string [OF sample_text(2)]
  by (simp add: value_check_def MultiValue_def json_text_value_def) (simp add: marshal_string_def sample_json)

lemma sample_valid_actor: "ValidProfileRelayActor sample_actor" "actor_length_ok sample_actor"
  using sample_actor_canonical by (simp_all add: ValidProfileRelayActor_def sample_actor_def actor_length_ok_def maximumRelayActorBytes_def)

lemma sample_replaced:
  "\<exists>summary d'. ReplaceProfileSource calm pa sample_profile_intent 5000 sample_profile_db = (Inr summary, d')"
proof -
  have ret: "retained registered_db sample_actor" using registered_db_row by (simp add: retained_def)
  have src: "NormalizeProfileSource \<lparr>Kind = ProfileSourceRelay, SourceLabel = [], SourceURL = []\<rparr> =
    Inr \<lparr>Kind = ProfileSourceRelay, SourceLabel = [], SourceURL = []\<rparr>" by (simp add: NormalizeProfileSource_def)
  have len: "\<not> 4096 < length (marshal_string ''hi'')" by (simp add: marshal_string_def sample_json)
  show ?thesis
    by (simp add: ReplaceProfileSource_def sample_profile_intent_def sample_valid_actor src sample_profile_normal
        replace_profile_tx_def profileIdentityRetained_def requireProfileMonotonicTime_def readProfileSourceValues_def
        readProfileSourceRevisions_def tx_simps sample_profile_db_def ret source_events_def sql_max_def source_values_def
        history_revision_def ProfileFields_def replace_field_def sample_encode MaximumProfileStoredValueBytes_def
        put_profile_value_def sample_value provenance_check_def nullif_empty_def insertProfileEvent_def append_profile_event_def
        len Let_def)
qed


theorem profile_replacement_scoped_witness:
  "\<exists>summary d'. ReplaceProfileSource calm Some sample_profile_intent 5000 sample_profile_db = (Inr summary, d') \<and>
     core d' = registered_db \<and> (\<exists>es. profile_events d' = es \<and> distinct (map pe_field es))"
proof -
  obtain summary d' where run: "ReplaceProfileSource calm Some sample_profile_intent 5000 sample_profile_db = (Inr summary, d')"
    using sample_replaced by blast
  from profile_replacement_scoped [OF run] run show ?thesis
    by (auto simp: sample_profile_db_def)
qed

definition sample_sources_db :: profile_db where
  "sample_sources_db = sample_profile_db\<lparr>profile_values :=
     [((sample_actor, ProfileSourceRelay, ProfileFieldNotes), new_value \<lparr>Kind = ProfileSourceRelay, SourceLabel = [], SourceURL = []\<rparr> (marshal_string ''hi'') 1 10),
      ((sample_actor, ProfileSourceOverride, ProfileFieldNotes), new_value \<lparr>Kind = ProfileSourceOverride, SourceLabel = ''op'', SourceURL = []\<rparr> (marshal_string ''op'') 1 10)]\<rparr>"

lemma sample_effective:
  "EffectiveProfile False quiet Some sample_actor sample_sources_db = Inr (empty_profile\<lparr>Notes := ''op''\<rparr>)"
proof -
  have ret: "retained registered_db sample_actor" using registered_db_row by (simp add: retained_def)
  have len: "length (marshal_string ''op'') \<le> 4096" "marshal_string ''op'' \<noteq> []" by (simp_all add: marshal_string_def sample_json)
  have dec: "decodeProfileField p ProfileFieldNotes (marshal_string ''op'') = Inr (p\<lparr>Notes := ''op''\<rparr>)" for p
    using unmarshal_marshal_string [OF sample_op_text(2)] len
    by (simp add: decodeProfileField_def MaximumProfileStoredValueBytes_def MultiValue_def)
  have norm: "NormalizeRelayProfile Some (empty_profile\<lparr>Notes := ''op''\<rparr>) = Inr (empty_profile\<lparr>Notes := ''op''\<rparr>)"
    by (simp add: NormalizeRelayProfile_def empty_profile_def andthen_def normalizeProfileText_def
      normalizeProfileList_def normalizeProfileEmail_def optional_url_def sample_op_text MaximumProfileNoteBytes_def)
  show ?thesis
    by (simp add: EffectiveProfile_def sample_valid_actor ret sample_sources_db_def sample_profile_db_def readEffectiveProfiles_def
        faulty_rows_def quiet_def effective_rows_def effective_order_def dec norm andthen_def new_value_def)
qed

theorem effective_profile_precedence_witness:
  "\<exists>q. NormalizeRelayProfile Some q = Inr (empty_profile\<lparr>Notes := ''op''\<rparr>) \<and>
     field_value q ProfileFieldNotes = decoded_value ProfileFieldNotes (marshal_string ''op'')"
proof -
  have "table_ok (profile_values sample_sources_db)" "\<forall>r \<in> set (profile_values sample_sources_db). kind_Valid (fst (snd (fst r)))"
    by (simp_all add: sample_sources_db_def)
  from effective_profile_precedence [OF this sample_effective] obtain q where
    "NormalizeRelayProfile Some q = Inr (empty_profile\<lparr>Notes := ''op''\<rparr>)"
    "field_value q ProfileFieldNotes = (case winning_value sample_sources_db sample_actor ProfileFieldNotes of
       None \<Rightarrow> ([], []) | Some row \<Rightarrow> decoded_value ProfileFieldNotes (value_json row))" by blast
  moreover have "map_option value_json (winning_value sample_sources_db sample_actor ProfileFieldNotes) = Some (marshal_string ''op'')"
    by (simp add: winning_value_def source_values_def sample_sources_db_def new_value_def)
  ultimately show ?thesis by (auto split: option.splits)
qed

subsection \<open>Escaping can exceed the stored size\<close>

text \<open>
  \<open>json.Marshal\<close> writes \<open><\<close> as six bytes. A note of 700 such characters is within the limit of the
  protocol and of the normalisation, but its stored form is longer than 4096 bytes, so the
  profile write is refused after the registration it came with has been committed.
\<close>

lemma json_escape_angle: "json_escape (replicate n (CHR ''<'')) = concat (replicate n (CHR 0x5C # ''u003c''))"
proof (induction n)
  case 0
  then show ?case by (simp add: json_escape.simps)
next
  case (Suc n)
  have c: "code (CHR ''<'') = 60" by (simp add: code_def)
  have "escape_ascii (CHR ''<'') = CHR 0x5C # ''u003c''"
    by (simp add: escape_ascii_def c hex_char_def char_of_def bit_0)
  moreover have "\<not> html_safe (CHR ''<'')" by (simp add: html_safe_def)
  ultimately show ?case using Suc by (simp add: json_escape_ascii c)
qed

lemma escaped_note_too_long:
  assumes "encodeProfileField (empty_profile\<lparr>Notes := replicate n (CHR ''<'')\<rparr>) ProfileFieldNotes = Some v"
  shows "length v = 6 * n + 2"
  using assms by (auto simp: encodeProfileField_def MultiValue_def marshal_string_def json_escape_angle length_concat sum_list_replicate split: if_splits)

end
