(* ===== verification/Document.thy ===== *)
theory Document
  imports Json
begin

section \<open>JSON documents: the strict decoder of lifecycle bodies\<close>

text \<open>
  \<open>encoding/json\<close>'s \<open>Decoder\<close> on a whole document, as \<open>protocol/v1/request.go\<close> and
  \<open>protocol/v2/request.go\<close> use it: the grammar of RFC 8259, the rejection of repeated names
  (only of the outermost object in version 1, of every object in versions 2 and 3), of
  unknown fields and of trailing data, and the assignment of members to struct fields.
  Numbers keep their literal. The parser takes fuel; \<open>parse_value_fuel\<close> shows that the fuel
  of \<open>parse_document\<close> is enough, whatever the document.
\<close>

datatype json = JNull | JBool bool | JNum string | JStr string | JArr "json list" | JObj "(string \<times> json) list"

definition digits_of :: "string \<Rightarrow> (string \<times> string) option" where
  "digits_of s = (if takeWhile is_digit s = [] then None else Some (takeWhile is_digit s, dropWhile is_digit s))"

definition number_integer :: "string \<Rightarrow> (string \<times> string) option" where
  "number_integer s =
     (case s of
        [] \<Rightarrow> None
      | c # cs \<Rightarrow> if c = CHR ''0'' then Some ([c], cs) else digits_of s)"

definition number_fraction :: "string \<Rightarrow> (string \<times> string) option" where
  "number_fraction s =
     (if s \<noteq> [] \<and> hd s = CHR ''.'' then map_option (\<lambda>(ds, rest). (CHR ''.'' # ds, rest)) (digits_of (tl s))
      else Some ([], s))"

definition number_exponent :: "string \<Rightarrow> (string \<times> string) option" where
  "number_exponent s =
     (if s \<noteq> [] \<and> (hd s = CHR ''e'' \<or> hd s = CHR ''E'') then
        (let t = tl s; sgn = (if t \<noteq> [] \<and> (hd t = CHR ''+'' \<or> hd t = CHR ''-'') then [hd t] else []) in
         map_option (\<lambda>(ds, rest). (hd s # sgn @ ds, rest)) (digits_of (drop (length sgn) t)))
      else Some ([], s))"

definition json_number :: "string \<Rightarrow> (string \<times> string) option" where
  "json_number s =
     (let sgn = (if s \<noteq> [] \<and> hd s = CHR ''-'' then ''-'' else []) in
      case number_integer (drop (length sgn) s) of
        None \<Rightarrow> None
      | Some (i, s1) \<Rightarrow>
          (case number_fraction s1 of
             None \<Rightarrow> None
           | Some (f, s2) \<Rightarrow>
               (case number_exponent s2 of
                  None \<Rightarrow> None
                | Some (x, s3) \<Rightarrow> Some (sgn @ i @ f @ x, s3))))"

definition json_literal :: "string \<Rightarrow> (json \<times> string) option" where
  "json_literal s =
     (if take 4 s = ''null'' then Some (JNull, drop 4 s)
      else if take 4 s = ''true'' then Some (JBool True, drop 4 s)
      else if take 5 s = ''false'' then Some (JBool False, drop 5 s)
      else map_option (\<lambda>(n, rest). (JNum n, rest)) (json_number s))"

text \<open>
  Elements and members are parsed after the opening bracket or a comma; an empty array or
  object is recognised before. Each call costs one unit of fuel.
\<close>

fun parse_value :: "nat \<Rightarrow> string \<Rightarrow> (json \<times> string) option"
  and parse_array :: "nat \<Rightarrow> string \<Rightarrow> (json list \<times> string) option"
  and parse_members :: "nat \<Rightarrow> string \<Rightarrow> ((string \<times> json) list \<times> string) option" where
  "parse_value 0 s = None"
| "parse_value (Suc n) s =
     (case skip_space s of
        [] \<Rightarrow> None
      | c # cs \<Rightarrow>
          if c = CHR 0x22 then map_option (\<lambda>(v, rest). (JStr v, rest)) (unquote cs)
          else if c = CHR ''['' then
            (if skip_space cs \<noteq> [] \<and> hd (skip_space cs) = CHR '']'' then Some (JArr [], tl (skip_space cs))
             else map_option (\<lambda>(vs, rest). (JArr vs, rest)) (parse_array n cs))
          else if c = CHR ''{'' then
            (if skip_space cs \<noteq> [] \<and> hd (skip_space cs) = CHR ''}'' then Some (JObj [], tl (skip_space cs))
             else map_option (\<lambda>(ms, rest). (JObj ms, rest)) (parse_members n cs))
          else json_literal (c # cs))"
| "parse_array 0 s = None"
| "parse_array (Suc n) s =
     (case parse_value n s of
        None \<Rightarrow> None
      | Some (v, rest) \<Rightarrow>
          (case skip_space rest of
             [] \<Rightarrow> None
           | c # cs \<Rightarrow>
               if c = CHR '']'' then Some ([v], cs)
               else if c = CHR '','' then map_option (\<lambda>(vs, rest'). (v # vs, rest')) (parse_array n cs)
               else None))"
| "parse_members 0 s = None"
| "parse_members (Suc n) s =
     (case skip_space s of
        [] \<Rightarrow> None
      | q # qs \<Rightarrow>
          if q \<noteq> CHR 0x22 then None
          else case unquote qs of
            None \<Rightarrow> None
          | Some (name, after) \<Rightarrow>
              (case skip_space after of
                 [] \<Rightarrow> None
               | d # ds \<Rightarrow>
                   if d \<noteq> CHR '':'' then None
                   else case parse_value n ds of
                     None \<Rightarrow> None
                   | Some (v, rest) \<Rightarrow>
                       (case skip_space rest of
                          [] \<Rightarrow> None
                        | c # cs \<Rightarrow>
                            if c = CHR ''}'' then Some ([(name, v)], cs)
                            else if c = CHR '','' then map_option (\<lambda>(ms, rest'). ((name, v) # ms, rest')) (parse_members n cs)
                            else None)))"

definition parse_document :: "string \<Rightarrow> json option" where
  "parse_document s =
     (case parse_value (2 * length s + 1) s of
        None \<Rightarrow> None
      | Some (v, rest) \<Rightarrow> if skip_space rest = [] then Some v else None)"

subsection \<open>The fuel is enough\<close>

lemma skip_space_length: "length (skip_space s) \<le> length s"
  by (simp add: skip_space_def length_dropWhile_le)

lemma skip_space_Cons: "skip_space s = c # cs \<Longrightarrow> length cs < length s"
  using skip_space_length [of s] by simp

lemma digits_of_shorter: "digits_of s = Some (ds, rest) \<Longrightarrow> length rest < length s"
  by (cases s) (auto simp: digits_of_def le_imp_less_Suc length_dropWhile_le split: if_splits)

lemma json_number_shorter:
  assumes "json_number s = Some (n, rest)"
  shows "length rest < length s"
proof -
  obtain k i s1 f s2 x where parts: "number_integer (drop k s) = Some (i, s1)" "number_fraction s1 = Some (f, s2)"
    "number_exponent s2 = Some (x, rest)"
    using assms by (auto simp: json_number_def Let_def split: option.splits)
  have "number_integer t = Some (i, s1) \<Longrightarrow> length s1 < length t" for t
    by (auto simp: number_integer_def dest: digits_of_shorter split: list.splits if_splits)
  from this [OF parts(1)] have "length s1 < length (drop k s)" .
  moreover have "length s2 \<le> length s1"
    using parts(2) by (cases s1) (auto simp: number_fraction_def dest: digits_of_shorter split: if_splits)
  moreover have "length rest \<le> length s2"
    using parts(3) by (cases s2) (auto simp: number_exponent_def Let_def dest: digits_of_shorter split: if_splits)
  ultimately show ?thesis by simp
qed

lemma json_literal_shorter:
  assumes "json_literal s = Some (v, rest)"
  shows "length rest < length s"
proof -
  have "take k s = w \<Longrightarrow> 0 < k \<Longrightarrow> w \<noteq> [] \<Longrightarrow> length (drop k s) < length s" for k and w :: string
    by (cases s) auto
  from this [of 4 "''null''"] this [of 4 "''true''"] this [of 5 "''false''"] assms show ?thesis
    by (auto simp: json_literal_def dest: json_number_shorter split: if_splits)
qed

lemma parse_shorter:
  "parse_value n s = Some (v, rest) \<Longrightarrow> length rest < length s"
  "parse_array n s = Some (vs, rest) \<Longrightarrow> length rest < length s"
  "parse_members n s = Some (ms, rest) \<Longrightarrow> length rest < length s"
proof (induction n arbitrary: s v vs ms rest)
  case (Suc n)
  {
    case 1
    then obtain c cs where s: "skip_space s = c # cs" by (cases "skip_space s") auto
    note l = skip_space_Cons [OF s]
    have e: "t \<noteq> [] \<Longrightarrow> length (tl t) < length t" for t :: string by (cases t) auto
    show ?case using 1 s l Suc.IH(2) [of cs] Suc.IH(3) [of cs] unquote_shorter [of cs] json_literal_shorter [of "c # cs"]
        skip_space_length [of s] skip_space_length [of cs] e [of "skip_space cs"]
      by (fastforce split: if_splits)
  next
    case 2
    then obtain v1 r1 c cs where p: "parse_value n s = Some (v1, r1)" "skip_space r1 = c # cs"
      by (auto split: option.splits list.splits)
    from Suc.IH(1) [OF p(1)] skip_space_Cons [OF p(2)] 2 p Suc.IH(2) [of cs] show ?case
      by (fastforce split: if_splits)
  next
    case 3
    then obtain q qs name after d ds v1 r1 c cs where p: "skip_space s = q # qs" "unquote qs = Some (name, after)"
      "skip_space after = d # ds" "parse_value n ds = Some (v1, r1)" "skip_space r1 = c # cs"
      by (auto split: option.splits list.splits if_splits)
    from Suc.IH(1) [OF p(4)] skip_space_Cons [OF p(1)] unquote_shorter [OF p(2)] skip_space_Cons [OF p(3)]
      skip_space_Cons [OF p(5)] 3 p Suc.IH(3) [of cs] show ?case
      by (fastforce split: if_splits)
  }
qed auto

lemma parse_value_fuel:
  "2 * length s + 1 \<le> n \<Longrightarrow> parse_value (Suc n) s = parse_value n s"
  "2 * length s + 2 \<le> n \<Longrightarrow> parse_array (Suc n) s = parse_array n s"
  "2 * length s + 2 \<le> n \<Longrightarrow> parse_members (Suc n) s = parse_members n s"
proof (induction n arbitrary: s)
  case (Suc n)
  {
    case 1
    show ?case
    proof (cases "skip_space s")
      case (Cons c cs)
      with skip_space_Cons [OF this] 1 have "parse_array (Suc n) cs = parse_array n cs"
        "parse_members (Suc n) cs = parse_members n cs" by (intro Suc.IH; simp)+
      with Cons show ?thesis by (simp only: parse_value.simps list.case)
    qed simp
  next
    case 2
    have v: "parse_value (Suc n) s = parse_value n s" using 2 by (intro Suc.IH) simp
    have a: "parse_array (Suc n) cs = parse_array n cs"
      if "parse_value n s = Some (v, rest)" "skip_space rest = c # cs" for v rest c cs
      using 2 parse_shorter(1) [OF that(1)] skip_space_Cons [OF that(2)] by (intro Suc.IH) simp
    show ?case
      by (subst (1 2) parse_array.simps) (auto simp: v a simp del: parse_value.simps parse_array.simps
          split: option.splits list.splits)
  next
    case 3
    have v: "parse_value (Suc n) ds = parse_value n ds"
      if "skip_space s = q # qs" "unquote qs = Some (name, after)" "skip_space after = d # ds" for q qs name after d ds
      using 3 skip_space_Cons [OF that(1)] unquote_shorter [OF that(2)] skip_space_Cons [OF that(3)]
      by (intro Suc.IH) simp
    have a: "parse_members (Suc n) cs = parse_members n cs"
      if "skip_space s = q # qs" "unquote qs = Some (name, after)" "skip_space after = d # ds"
        "parse_value n ds = Some (v, rest)" "skip_space rest = c # cs" for q qs name after d ds v rest c cs
      using 3 skip_space_Cons [OF that(1)] unquote_shorter [OF that(2)] skip_space_Cons [OF that(3)]
        parse_shorter(1) [OF that(4)] skip_space_Cons [OF that(5)]
      by (intro Suc.IH) simp
    show ?case
      by (subst (1 2) parse_members.simps) (auto simp: v a simp del: parse_value.simps parse_members.simps
          split: option.splits list.splits)
  }
qed auto

subsection \<open>Repeated names\<close>

definition top_level_names_ok :: "json \<Rightarrow> bool" where
  "top_level_names_ok v = (case v of JObj ms \<Rightarrow> distinct (map fst ms) | _ \<Rightarrow> False)"

fun all_names_ok :: "json \<Rightarrow> bool" where
  "all_names_ok (JArr vs) = list_all all_names_ok vs"
| "all_names_ok (JObj ms) = (distinct (map fst ms) \<and> list_all (\<lambda>m. all_names_ok (snd m)) ms)"
| "all_names_ok _ = True"

subsection \<open>Assigning members to fields\<close>

text \<open>
  \<open>foldName\<close>: field names match without regard to case. Over the names of the wire structs,
  which are lower-case ASCII, the folding maps A to Z, U+017F (long s) and U+212A (Kelvin
  sign) to the letters they fold to; every other rune stays different from ASCII.
\<close>

fun foldName :: "string \<Rightarrow> string" where
  "foldName (a # b # c # s) =
     (if [a, b, c] = bytes [0xE2, 0x84, 0xAA] then CHR ''k'' # foldName s
      else if [a, b] = bytes [0xC5, 0xBF] then CHR ''s'' # foldName (c # s)
      else to_lower a # foldName (b # c # s))"
| "foldName [a, b] = (if [a, b] = bytes [0xC5, 0xBF] then ''s'' else [to_lower a, to_lower b])"
| "foldName [a] = [to_lower a]"
| "foldName [] = []"

text \<open>Scalars: \<open>null\<close> leaves a value as it is and sets a pointer to nil.\<close>

definition into_string :: "json \<Rightarrow> string \<Rightarrow> string option" where
  "into_string v old = (case v of JStr s \<Rightarrow> Some s | JNull \<Rightarrow> Some old | _ \<Rightarrow> None)"

definition ParseInt :: "string \<Rightarrow> int option" where
  "ParseInt s =
     (let neg = (s \<noteq> [] \<and> hd s = CHR ''-''); ds = (if neg then tl s else s) in
      if ds = [] \<or> \<not> list_all is_digit ds then None
      else let n = (if neg then - int (decimal_value ds) else int (decimal_value ds)) in
           if - (2 ^ 63) \<le> n \<and> n < 2 ^ 63 then Some n else None)"

definition into_int :: "json \<Rightarrow> int \<Rightarrow> int option" where
  "into_int v old = (case v of JNum n \<Rightarrow> ParseInt n | JNull \<Rightarrow> Some old | _ \<Rightarrow> None)"

definition into_string_ptr :: "json \<Rightarrow> string option option" where
  "into_string_ptr v = (case v of JStr s \<Rightarrow> Some (Some s) | JNull \<Rightarrow> Some None | _ \<Rightarrow> None)"

definition into_int_ptr :: "json \<Rightarrow> int option option" where
  "into_int_ptr v = (case v of JNum n \<Rightarrow> map_option Some (ParseInt n) | JNull \<Rightarrow> Some None | _ \<Rightarrow> None)"

text \<open>
  A slice is its backing memory and its length: decoding a second array into it (a member
  whose name differs in case only) reuses the memory, and a \<open>null\<close> element keeps what is
  there. An empty array makes a new slice.
\<close>

type_synonym slice = "string list \<times> nat"

definition slice_value :: "slice \<Rightarrow> string list" where
  "slice_value s = take (snd s) (fst s)"

fun into_elements :: "json list \<Rightarrow> string list \<Rightarrow> string list option" where
  "into_elements [] mem = Some mem"
| "into_elements (v # vs) mem =
     (case into_string v (case mem of [] \<Rightarrow> [] | m # _ \<Rightarrow> m) of
        None \<Rightarrow> None
      | Some s \<Rightarrow> map_option ((#) s) (into_elements vs (drop 1 mem)))"

definition into_slice_ptr :: "json \<Rightarrow> slice option \<Rightarrow> slice option option" where
  "into_slice_ptr v old =
     (case v of
        JNull \<Rightarrow> Some None
      | JArr [] \<Rightarrow> Some (Some ([], 0))
      | JArr vs \<Rightarrow> map_option (\<lambda>mem. Some (mem, length vs)) (into_elements vs (case old of None \<Rightarrow> [] | Some s \<Rightarrow> fst s))
      | _ \<Rightarrow> None)"

text \<open>
  A struct takes the members in order; \<open>assign\<close> is its field table by folded name, and a name
  it does not know is an error (\<open>DisallowUnknownFields\<close>).
\<close>

fun assign_members :: "(string \<Rightarrow> json \<Rightarrow> 'r \<Rightarrow> 'r option) \<Rightarrow> (string \<times> json) list \<Rightarrow> 'r \<Rightarrow> 'r option" where
  "assign_members assign [] r = Some r"
| "assign_members assign ((name, v) # ms) r =
     (case assign (foldName name) v r of None \<Rightarrow> None | Some r' \<Rightarrow> assign_members assign ms r')"

definition into_struct :: "(string \<Rightarrow> json \<Rightarrow> 'r \<Rightarrow> 'r option) \<Rightarrow> json \<Rightarrow> 'r \<Rightarrow> 'r option" where
  "into_struct assign v r =
     (case v of JObj ms \<Rightarrow> assign_members assign ms r | JNull \<Rightarrow> Some r | _ \<Rightarrow> None)"

definition into_struct_ptr :: "(string \<Rightarrow> json \<Rightarrow> 'r \<Rightarrow> 'r option) \<Rightarrow> 'r \<Rightarrow> json \<Rightarrow> 'r option \<Rightarrow> 'r option option" where
  "into_struct_ptr assign fresh v old =
     (case v of
        JObj ms \<Rightarrow> map_option Some (assign_members assign ms (case old of None \<Rightarrow> fresh | Some r \<Rightarrow> r))
      | JNull \<Rightarrow> Some None
      | _ \<Rightarrow> None)"

text \<open>The two strict decoders: \<open>decodeStrictJSONObject\<close> of version 1 and \<open>decodeStrictJSON\<close> of versions 2 and 3.\<close>

definition decodeStrictJSONObject :: "(string \<Rightarrow> json \<Rightarrow> 'r \<Rightarrow> 'r option) \<Rightarrow> 'r \<Rightarrow> string \<Rightarrow> 'r option" where
  "decodeStrictJSONObject assign zero body =
     (case parse_document body of
        None \<Rightarrow> None
      | Some v \<Rightarrow> if \<not> top_level_names_ok v then None else into_struct assign v zero)"

definition decodeStrictJSON :: "(string \<Rightarrow> json \<Rightarrow> 'r \<Rightarrow> 'r option) \<Rightarrow> 'r \<Rightarrow> string \<Rightarrow> 'r option" where
  "decodeStrictJSON assign zero body =
     (case parse_document body of
        None \<Rightarrow> None
      | Some v \<Rightarrow> if \<not> all_names_ok v then None else into_struct assign v zero)"

subsection \<open>Printing\<close>

text \<open>
  The text \<open>json.Marshal\<close> gives a document of strings, integers, arrays and objects; the
  parser reads it back.
\<close>

fun print_json :: "json \<Rightarrow> string" where
  "print_json JNull = ''null''"
| "print_json (JBool b) = (if b then ''true'' else ''false'')"
| "print_json (JNum n) = n"
| "print_json (JStr s) = marshal_string s"
| "print_json (JArr vs) = ''['' @ join_with '','' (map print_json vs) @ '']''"
| "print_json (JObj ms) = ''{'' @ join_with '','' (map (\<lambda>m. marshal_string (fst m) @ '':'' @ print_json (snd m)) ms) @ ''}''"

fun json_ok :: "json \<Rightarrow> bool" where
  "json_ok (JNum n) \<longleftrightarrow> n \<in> range itoa"
| "json_ok (JStr s) \<longleftrightarrow> ValidString s"
| "json_ok (JArr vs) \<longleftrightarrow> list_all json_ok vs"
| "json_ok (JObj ms) \<longleftrightarrow> list_all (\<lambda>m. ValidString (fst m) \<and> json_ok (snd m)) ms"
| "json_ok _ \<longleftrightarrow> True"

definition after_value :: "string \<Rightarrow> bool" where
  "after_value rest \<longleftrightarrow> rest = [] \<or> hd rest \<in> {CHR '','', CHR '']'', CHR ''}''}"

lemma itoa_head: "itoa n = ''0'' \<or> is_digit (hd (itoa n)) \<and> hd (itoa n) \<noteq> CHR ''0''"
proof (induction n rule: itoa.induct)
  case (1 n)
  show ?case
  proof (cases "n < 10")
    case True
    then have "n \<in> {0,1,2,3,4,5,6,7,8,9}" by auto
    with True show ?thesis by (subst (1 2 3) itoa.simps) (auto simp: is_digit_def code_def char_of_def bit_0)
  next
    case False
    then have e: "itoa n = itoa (n div 10) @ [char_of (48 + n mod 10)]" by (subst itoa.simps) simp
    have "itoa (n div 10) \<noteq> ''0''"
    proof
      assume "itoa (n div 10) = ''0''"
      then have "decimal_value (itoa (n div 10)) = 0" by (simp add: decimal_value_def from_digits_def code_def)
      with False show False by simp
    qed
    with 1 [OF False] show ?thesis by (simp add: e)
  qed
qed

lemma digits_append:
  "list_all is_digit ds \<Longrightarrow> rest = [] \<or> \<not> is_digit (hd rest) \<Longrightarrow>
   takeWhile is_digit (ds @ rest) = ds \<and> dropWhile is_digit (ds @ rest) = rest"
  by (induction ds) (auto split: list.splits, (cases rest; simp)+)

lemma after_value_number:
  assumes "after_value rest"
  shows "rest = [] \<or> \<not> is_digit (hd rest)" "number_fraction rest = Some ([], rest)" "number_exponent rest = Some ([], rest)"
  using assms by (auto simp: after_value_def is_digit_def code_def number_fraction_def number_exponent_def)

lemma json_number_itoa: "after_value rest \<Longrightarrow> json_number (itoa n @ rest) = Some (itoa n, rest)"
proof -
  assume rest: "after_value rest"
  have d: "is_digit (hd (itoa n))" using itoa_digits [of n] by (cases "itoa n") auto
  then have sgn: "hd (itoa n) \<noteq> CHR ''-''" by (auto simp: is_digit_def code_def)
  have int: "number_integer (itoa n @ rest) = Some (itoa n, rest)"
    using itoa_head [of n] digits_append [OF itoa_digits after_value_number(1) [OF rest], of n]
    by (cases "itoa n") (auto simp: number_integer_def digits_of_def simp del: takeWhile.simps dropWhile.simps)
  with sgn after_value_number(2,3) [OF rest] show ?thesis by (simp add: json_number_def)
qed

lemma literal_digit: "is_digit c \<Longrightarrow> take 4 (c # s) \<noteq> ''null'' \<and> take 4 (c # s) \<noteq> ''true'' \<and> take 5 (c # s) \<noteq> ''false''"
  by (auto simp: is_digit_def code_def)

lemma parse_itoa:
  assumes "after_value rest"
  shows "parse_value (Suc n) (itoa k @ rest) = Some (JNum (itoa k), rest)"
proof -
  obtain c cs where c: "itoa k = c # cs" "is_digit c" using itoa_digits [of k] by (cases "itoa k") auto
  from c(2) have "skip_space (c # cs @ rest) = c # cs @ rest" "c \<noteq> CHR 0x22" "c \<noteq> CHR ''[''" "c \<noteq> CHR ''{''"
    by (auto simp: skip_space_def json_space_def is_digit_def code_def)
  with json_number_itoa [OF assms, of k] literal_digit [OF c(2), of "cs @ rest"] c(1) show ?thesis
    by (simp add: json_literal_def)
qed

lemma parse_marshal: "ValidString s \<Longrightarrow> parse_value (Suc n) (marshal_string s @ rest) = Some (JStr s, rest)"
  by (simp add: marshal_string_def skip_space_punctuation unquote_escape)

lemma print_json_nonempty: "json_ok v \<Longrightarrow> print_json v \<noteq> [] \<and> \<not> json_space (hd (print_json v)) \<and>
    hd (print_json v) \<noteq> CHR '']'' \<and> hd (print_json v) \<noteq> CHR ''}''"
proof (induction v rule: json_ok.induct)
  case (1 n)
  then obtain k where k: "n = itoa k" by auto
  obtain c cs where "itoa k = c # cs" "is_digit c" using itoa_digits [of k] by (cases "itoa k") auto
  with k show ?case by (auto simp: json_space_def is_digit_def code_def)
qed (auto simp: marshal_string_def json_space_def code_def)

lemma skip_print: "json_ok v \<Longrightarrow> skip_space (print_json v @ rest) = print_json v @ rest"
  using print_json_nonempty [of v] by (cases "print_json v") (auto simp: skip_space_def)

lemma skip_close: "skip_space (CHR ''}'' # t) = CHR ''}'' # t" "skip_space (CHR '':'' # t) = CHR '':'' # t"
  "skip_space (CHR ''{'' # t) = CHR ''{'' # t"
  by (simp_all add: skip_space_def json_space_def code_def)

lemma join_with_Cons: "join_with sep (w # ws) = (if ws = [] then w else w @ sep @ join_with sep ws)"
  by (cases ws) (auto simp: join_with_def)

text \<open>The induction hypothesis of the round trip, and how it passes through arrays and objects.\<close>

definition reads_back :: "json \<Rightarrow> bool" where
  "reads_back v \<longleftrightarrow> (\<forall>n rest. 2 * length (print_json v @ rest) + 1 \<le> n \<longrightarrow> after_value rest \<longrightarrow>
     parse_value n (print_json v @ rest) = Some (v, rest))"

lemma reads_backD:
  "reads_back v \<Longrightarrow> 2 * length (print_json v @ rest) + 1 \<le> n \<Longrightarrow> after_value rest \<Longrightarrow>
   parse_value n (print_json v @ rest) = Some (v, rest)"
  by (simp add: reads_back_def)

lemma array_reads_back:
  assumes "vs \<noteq> []" "\<forall>v \<in> set vs. reads_back v"
    "2 * length (join_with '','' (map print_json vs) @ '']'' @ rest) + 2 \<le> n"
  shows "parse_array n (join_with '','' (map print_json vs) @ '']'' @ rest) = Some (vs, rest)"
  using assms
proof (induction vs arbitrary: n)
  case (Cons v vs)
  obtain m where m: "n = Suc m" using Cons.prems(3) by (cases n) auto
  show ?case
  proof (cases "vs = []")
    case True
    with Cons.prems reads_backD [of v "CHR '']'' # rest" m] m show ?thesis
      by (simp add: join_with_Cons after_value_def skip_space_punctuation)
  next
    case False
    let ?t = "join_with '','' (map print_json vs) @ '']'' @ rest"
    have "parse_value m (print_json v @ CHR '','' # ?t) = Some (v, CHR '','' # ?t)"
      using Cons.prems False m by (intro reads_backD) (simp_all add: join_with_Cons after_value_def)
    moreover have "parse_array m ?t = Some (vs, rest)"
      using Cons.prems False m by (intro Cons.IH) (simp_all add: join_with_Cons)
    ultimately show ?thesis using False m by (simp add: join_with_Cons skip_space_punctuation)
  qed
qed simp

abbreviation print_member :: "string \<times> json \<Rightarrow> string" where
  "print_member m \<equiv> marshal_string (fst m) @ '':'' @ print_json (snd m)"

lemma members_read_back:
  assumes "ms \<noteq> []" "\<forall>m \<in> set ms. ValidString (fst m) \<and> reads_back (snd m)"
    "2 * length (join_with '','' (map print_member ms) @ ''}'' @ rest) + 2 \<le> n"
  shows "parse_members n (join_with '','' (map print_member ms) @ ''}'' @ rest) = Some (ms, rest)"
  using assms
proof (induction ms arbitrary: n)
  case (Cons p ms)
  obtain name v where p: "p = (name, v)" by fastforce
  obtain m where m: "n = Suc m" using Cons.prems(3) by (cases n) auto
  have name: "unquote (json_escape name @ CHR 0x22 # t) = Some (name, t)" for t
    using Cons.prems(2) p by (simp add: unquote_escape)
  show ?case
  proof (cases "ms = []")
    case True
    have "parse_value m (print_json v @ CHR ''}'' # rest) = Some (v, CHR ''}'' # rest)"
      using Cons.prems True m p by (intro reads_backD) (simp_all add: join_with_Cons after_value_def marshal_string_def)
    with True m p name show ?thesis
      by (simp add: join_with_Cons marshal_string_def skip_space_punctuation skip_close)
  next
    case False
    let ?t = "join_with '','' (map print_member ms) @ ''}'' @ rest"
    have "parse_value m (print_json v @ CHR '','' # ?t) = Some (v, CHR '','' # ?t)"
      using Cons.prems False m p by (intro reads_backD) (simp_all add: join_with_Cons after_value_def marshal_string_def)
    moreover have "parse_members m ?t = Some (ms, rest)"
      using Cons.prems False m p by (intro Cons.IH) (simp_all add: join_with_Cons marshal_string_def)
    ultimately show ?thesis using False m p name
      by (simp add: join_with_Cons marshal_string_def skip_space_punctuation skip_close)
  qed
qed simp

lemma print_reads_back: "json_ok v \<Longrightarrow> reads_back v"
proof (induction v)
  case (JArr vs)
  then have vs: "\<forall>v \<in> set vs. reads_back v" by (auto simp: list_all_iff)
  show ?case
    unfolding reads_back_def
  proof (intro allI impI)
    fix n rest
    assume n: "2 * length (print_json (JArr vs) @ rest) + 1 \<le> n" and "after_value rest"
    then obtain m where m: "n = Suc m" by (cases n) auto
    show "parse_value n (print_json (JArr vs) @ rest) = Some (JArr vs, rest)"
    proof (cases vs)
      case Nil
      with m show ?thesis by (simp add: join_with_def skip_space_punctuation)
    next
      case (Cons v ws)
      let ?s = "join_with '','' (map print_json vs) @ '']'' @ rest"
      have ok: "json_ok v" using JArr.prems Cons by simp
      have "skip_space ?s = ?s" "hd ?s \<noteq> CHR '']''"
        using skip_print [OF ok] print_json_nonempty [OF ok] Cons by (auto simp: join_with_Cons)
      moreover have "parse_array m ?s = Some (vs, rest)" using Cons vs n m by (intro array_reads_back) simp_all
      ultimately show ?thesis using m by (simp add: skip_space_punctuation)
    qed
  qed
next
  case (JObj ms)
  then have ms: "\<forall>m \<in> set ms. ValidString (fst m) \<and> reads_back (snd m)" by (fastforce simp: list_all_iff)
  show ?case
    unfolding reads_back_def
  proof (intro allI impI)
    fix n rest
    assume n: "2 * length (print_json (JObj ms) @ rest) + 1 \<le> n" and "after_value rest"
    then obtain m where m: "n = Suc m" by (cases n) auto
    show "parse_value n (print_json (JObj ms) @ rest) = Some (JObj ms, rest)"
    proof (cases ms)
      case Nil
      with m show ?thesis by (simp add: join_with_def skip_close)
    next
      case (Cons p ws)
      let ?s = "join_with '','' (map print_member ms) @ ''}'' @ rest"
      have "skip_space ?s = ?s" "hd ?s \<noteq> CHR ''}''"
        using Cons by (simp_all add: join_with_Cons marshal_string_def skip_space_punctuation)
      moreover have "parse_members m ?s = Some (ms, rest)" using Cons ms n m by (intro members_read_back) simp_all
      ultimately show ?thesis using m by (simp add: skip_close)
    qed
  qed
next
  case (JNum n)
  then obtain k where "n = itoa k" by auto
  then show ?case unfolding reads_back_def using parse_itoa by (metis Suc_eq_plus1 Suc_le_D print_json.simps(3) add_is_1)
next
  case (JStr s)
  then show ?case unfolding reads_back_def using parse_marshal by (metis Suc_eq_plus1 Suc_le_D json_ok.simps(2) print_json.simps(4))
next
  case JNull
  show ?case unfolding reads_back_def
    by (intro allI impI) (case_tac n; simp add: skip_space_def json_space_def code_def json_literal_def)
next
  case (JBool b)
  show ?case unfolding reads_back_def
    by (intro allI impI) (case_tac n; simp add: skip_space_def json_space_def code_def json_literal_def)
qed

lemma parse_print: "json_ok v \<Longrightarrow> parse_document (print_json v) = Some v"
  using reads_backD [OF print_reads_back, of v "[]"]
  by (simp add: parse_document_def after_value_def skip_space_def del: parse_value.simps)

end
