(* ===== verification/Protocol.thy ===== *)
theory Protocol
  imports Document Rfc9421 Profile
begin

section \<open>Lifecycle requests of protocol versions 1, 2 and 3\<close>

text \<open>
  \<open>internal/protocol/v1/{register,heartbeat,unregister,request}.go\<close> and the request and
  verifier files of \<open>internal/protocol/v2\<close> and \<open>internal/protocol/v3\<close>: decoding of the bodies,
  the exact operation targets and the authenticated requests. Versions 2 and 3 are the same
  text up to the version number in paths, tags and errors and the name of the telemetry
  counter, so their operations share definitions over the version number \<open>n\<close>.
  \<open>parseAddress\<close> is \<open>net/mail.ParseAddress\<close>.
\<close>

subsection \<open>Messages\<close>

record IdentityRequest =
  req_ProtocolVersion :: int
  req_Operation :: operation
  req_RelayActor :: string

record RegisterRequest = IdentityRequest +
  req_PublicBaseURL :: string

record profileWire =
  wire_ParticipationMode :: "string option"
  wire_Availability :: "string option"
  wire_RelayType :: "string option"
  wire_Languages :: "slice option"
  wire_Countries :: "slice option"
  wire_Regions :: "slice option"
  wire_Topics :: "slice option"
  wire_ContactFediverse :: "string option"
  wire_ContactEmail :: "string option"
  wire_ContactURL :: "string option"
  wire_ParticipationURL :: "string option"
  wire_Notes :: "string option"

record telemetryWire =
  wire_InstanceCount :: "int option"

record registerWire = RegisterRequest +
  wire_Profile :: profileWire
  wire_Telemetry :: "telemetryWire option"

record heartbeatWire = IdentityRequest +
  heartbeat_Telemetry :: "telemetryWire option"

record VersionedRegisterRequest = RegisterRequest +
  req_Profile :: RelayProfile
  req_Telemetry :: "TelemetryIntent option"

record HeartbeatRequest = IdentityRequest +
  heartbeat_Intent :: "TelemetryIntent option"

subsection \<open>Field tables\<close>

text \<open>The JSON tags of the structs. The zero value of a request is where decoding starts.\<close>

definition zero_identity :: IdentityRequest where
  "zero_identity = \<lparr>req_ProtocolVersion = 0, req_Operation = [], req_RelayActor = []\<rparr>"

definition zero_register :: RegisterRequest where
  "zero_register = \<lparr>req_ProtocolVersion = 0, req_Operation = [], req_RelayActor = [], req_PublicBaseURL = []\<rparr>"

definition zero_profile :: profileWire where
  "zero_profile = \<lparr>wire_ParticipationMode = None, wire_Availability = None, wire_RelayType = None, wire_Languages = None,
     wire_Countries = None, wire_Regions = None, wire_Topics = None, wire_ContactFediverse = None,
     wire_ContactEmail = None, wire_ContactURL = None, wire_ParticipationURL = None, wire_Notes = None\<rparr>"

definition identity_fields :: "string \<Rightarrow> json \<Rightarrow> 'r IdentityRequest_scheme \<Rightarrow> 'r IdentityRequest_scheme option" where
  "identity_fields name v r =
     (if name = ''protocol_version''
      then map_option (\<lambda>n. r\<lparr>req_ProtocolVersion := n\<rparr>) (into_int v (req_ProtocolVersion r))
      else if name = ''operation'' then map_option (\<lambda>s. r\<lparr>req_Operation := s\<rparr>) (into_string v (req_Operation r))
      else if name = ''relay_actor'' then map_option (\<lambda>s. r\<lparr>req_RelayActor := s\<rparr>) (into_string v (req_RelayActor r))
      else None)"

definition register_fields :: "string \<Rightarrow> json \<Rightarrow> 'r RegisterRequest_scheme \<Rightarrow> 'r RegisterRequest_scheme option" where
  "register_fields name v r =
     (if name = ''public_base_url''
      then map_option (\<lambda>s. r\<lparr>req_PublicBaseURL := s\<rparr>) (into_string v (req_PublicBaseURL r))
      else identity_fields name v r)"

definition profile_fields :: "string \<Rightarrow> json \<Rightarrow> profileWire \<Rightarrow> profileWire option" where
  "profile_fields name v p =
     (if name = ''participation_mode'' then map_option (\<lambda>x. p\<lparr>wire_ParticipationMode := x\<rparr>) (into_string_ptr v)
      else if name = ''availability'' then map_option (\<lambda>x. p\<lparr>wire_Availability := x\<rparr>) (into_string_ptr v)
      else if name = ''relay_type'' then map_option (\<lambda>x. p\<lparr>wire_RelayType := x\<rparr>) (into_string_ptr v)
      else if name = ''languages'' then map_option (\<lambda>x. p\<lparr>wire_Languages := x\<rparr>) (into_slice_ptr v (wire_Languages p))
      else if name = ''countries'' then map_option (\<lambda>x. p\<lparr>wire_Countries := x\<rparr>) (into_slice_ptr v (wire_Countries p))
      else if name = ''regions'' then map_option (\<lambda>x. p\<lparr>wire_Regions := x\<rparr>) (into_slice_ptr v (wire_Regions p))
      else if name = ''topics'' then map_option (\<lambda>x. p\<lparr>wire_Topics := x\<rparr>) (into_slice_ptr v (wire_Topics p))
      else if name = ''contact_fediverse'' then map_option (\<lambda>x. p\<lparr>wire_ContactFediverse := x\<rparr>) (into_string_ptr v)
      else if name = ''contact_email'' then map_option (\<lambda>x. p\<lparr>wire_ContactEmail := x\<rparr>) (into_string_ptr v)
      else if name = ''contact_url'' then map_option (\<lambda>x. p\<lparr>wire_ContactURL := x\<rparr>) (into_string_ptr v)
      else if name = ''participation_url'' then map_option (\<lambda>x. p\<lparr>wire_ParticipationURL := x\<rparr>) (into_string_ptr v)
      else if name = ''notes'' then map_option (\<lambda>x. p\<lparr>wire_Notes := x\<rparr>) (into_string_ptr v)
      else None)"

definition telemetry_name :: "nat \<Rightarrow> string" where
  "telemetry_name n = (if n = 2 then ''receiving_instance_count'' else ''participating_instance_count'')"

definition telemetry_fields :: "nat \<Rightarrow> string \<Rightarrow> json \<Rightarrow> telemetryWire \<Rightarrow> telemetryWire option" where
  "telemetry_fields n name v t =
     (if name = telemetry_name n then map_option (\<lambda>x. t\<lparr>wire_InstanceCount := x\<rparr>) (into_int_ptr v) else None)"

definition telemetry_ptr :: "nat \<Rightarrow> json \<Rightarrow> telemetryWire option \<Rightarrow> telemetryWire option option" where
  "telemetry_ptr n = into_struct_ptr (telemetry_fields n) \<lparr>wire_InstanceCount = None\<rparr>"

definition register_wire_fields :: "nat \<Rightarrow> string \<Rightarrow> json \<Rightarrow> registerWire \<Rightarrow> registerWire option" where
  "register_wire_fields n name v r =
     (if name = ''profile'' then map_option (\<lambda>p. r\<lparr>wire_Profile := p\<rparr>) (into_struct profile_fields v (wire_Profile r))
      else if name = ''telemetry''
      then map_option (\<lambda>t. r\<lparr>wire_Telemetry := t\<rparr>) (telemetry_ptr n v (wire_Telemetry r))
      else register_fields name v r)"

definition heartbeat_wire_fields :: "nat \<Rightarrow> string \<Rightarrow> json \<Rightarrow> heartbeatWire \<Rightarrow> heartbeatWire option" where
  "heartbeat_wire_fields n name v r =
     (if name = ''telemetry''
      then map_option (\<lambda>t. r\<lparr>heartbeat_Telemetry := t\<rparr>) (telemetry_ptr n v (heartbeat_Telemetry r))
      else identity_fields name v r)"

subsection \<open>Version 1\<close>

definition RegisterEndpointPath :: "nat \<Rightarrow> string" where "RegisterEndpointPath n = ''/v'' @ itoa n @ ''/relays/register''"
definition HeartbeatEndpointPath :: "nat \<Rightarrow> string" where "HeartbeatEndpointPath n = ''/v'' @ itoa n @ ''/relays/heartbeat''"
definition UnregisterEndpointPath :: "nat \<Rightarrow> string" where "UnregisterEndpointPath n = ''/v'' @ itoa n @ ''/relays/unregister''"

definition MaximumRegisterBodyBytes :: int where "MaximumRegisterBodyBytes = 1024 * 1024"
definition MaximumHeartbeatBodyBytes :: int where "MaximumHeartbeatBodyBytes = MaximumRegisterBodyBytes"
definition MaximumUnregisterBodyBytes :: int where "MaximumUnregisterBodyBytes = MaximumRegisterBodyBytes"

definition validOperationTarget :: "http_request \<Rightarrow> string \<Rightarrow> bool" where
  "validOperationTarget request endpointPath \<longleftrightarrow>
     (case URL request of
        None \<Rightarrow> False
      | Some u \<Rightarrow>
          Method request = ''POST'' \<and> EscapedPath u = endpointPath \<and> RawQuery u = [] \<and> \<not> ForceQuery u \<and>
          Fragment request = [] \<and> RawFragment request = [] \<and>
          (RequestURI request = [] \<or> RequestURI request = endpointPath))"

definition DecodeRegisterRequest :: "string \<Rightarrow> int \<Rightarrow> RegisterRequest result" where
  "DecodeRegisterRequest body maximumBytes =
     (if maximumBytes \<le> 0 \<or> maximumBytes > MaximumRegisterBodyBytes then Inl (Err ErrRegisterConfiguration)
      else if int (length body) > maximumBytes then Inl (Err ErrRegisterBodyTooLarge)
      else case decodeStrictJSONObject register_fields zero_register body of
        None \<Rightarrow> Inl (Err ErrRegisterRequest)
      | Some request \<Rightarrow>
          if req_ProtocolVersion request \<noteq> 1 then Inl (Err ErrRegisterProtocolVersion)
          else if req_Operation request \<noteq> OperationRegister then Inl (Err ErrRegisterRequest)
          else case NormalizeRelayIdentity (req_RelayActor request) (req_PublicBaseURL request) of
            Inl _ \<Rightarrow> Inl (Err ErrRegisterRequest)
          | Inr identity \<Rightarrow>
              if RelayActor identity \<noteq> req_RelayActor request \<or> PublicBaseURL identity \<noteq> req_PublicBaseURL request
              then Inl (Err ErrRegisterRequest) else Inr request)"

text \<open>The identity bodies of heartbeat and unregister; the bare decoder and the errors are arguments.\<close>

definition decodeIdentityRequest :: "((string \<Rightarrow> json \<Rightarrow> IdentityRequest \<Rightarrow> IdentityRequest option) \<Rightarrow> IdentityRequest \<Rightarrow> string
      \<Rightarrow> IdentityRequest option) \<Rightarrow> nat \<Rightarrow> string \<Rightarrow> int \<Rightarrow> int \<Rightarrow> operation
    \<Rightarrow> goerror \<Rightarrow> goerror \<Rightarrow> goerror \<Rightarrow> goerror \<Rightarrow> IdentityRequest result" where
  "decodeIdentityRequest strict n body maximumBytes protocolMaximum op configurationErr bodyTooLargeErr versionErr requestErr =
     (if maximumBytes \<le> 0 \<or> maximumBytes > protocolMaximum then Inl configurationErr
      else if int (length body) > maximumBytes then Inl bodyTooLargeErr
      else case strict identity_fields zero_identity body of
        None \<Rightarrow> Inl requestErr
      | Some request \<Rightarrow>
          if req_ProtocolVersion request \<noteq> int n then Inl versionErr
          else if req_Operation request \<noteq> op then Inl requestErr
          else if NormalizeRelayActorURL (req_RelayActor request) \<noteq> Inr (req_RelayActor request) then Inl requestErr
          else Inr request)"

definition DecodeHeartbeatRequest :: "string \<Rightarrow> int \<Rightarrow> IdentityRequest result" where
  "DecodeHeartbeatRequest body maximumBytes =
     decodeIdentityRequest decodeStrictJSONObject 1 body maximumBytes MaximumHeartbeatBodyBytes OperationHeartbeat
       (Err ErrHeartbeatConfiguration) (Err ErrHeartbeatBodyTooLarge) (Err ErrHeartbeatProtocolVersion) (Err ErrHeartbeatRequest)"

definition DecodeUnregisterRequest :: "string \<Rightarrow> int \<Rightarrow> IdentityRequest result" where
  "DecodeUnregisterRequest body maximumBytes =
     decodeIdentityRequest decodeStrictJSONObject 1 body maximumBytes MaximumUnregisterBodyBytes OperationUnregister
       (Err ErrUnregisterConfiguration) (Err ErrUnregisterBodyTooLarge) (Err ErrUnregisterProtocolVersion) (Err ErrUnregisterRequest)"

text \<open>
  What the verifier's core works with in one call: the external code, the verifier, its two
  clock readings and the reservation call of the replay store.
\<close>

record 's verifier_core =
  core_externals :: externals
  core_verifier :: RFC9421Verifier
  core_now :: int
  core_later :: int
  core_reserve :: "string \<Rightarrow> int \<Rightarrow> 's \<Rightarrow> bool result \<times> 's"

definition verifyAndReserve :: "'s verifier_core \<Rightarrow> http_request \<Rightarrow> string \<Rightarrow> string \<Rightarrow> string \<Rightarrow> 's
    \<Rightarrow> RFC9421Verification result \<times> 's" where
  "verifyAndReserve k request body relayActor tag =
     VerifyPOSTAndReserveWithTag (core_externals k) (core_verifier k) (core_now k) (core_later k) (core_reserve k)
       request body relayActor tag"

text \<open>The common shape of the \<open>Verify\<open>...\<close>AndReserve\<close> methods: decode, target, authentication for the decoded actor.\<close>

definition verify_decoded :: "'s verifier_core \<Rightarrow> string \<Rightarrow> 'q IdentityRequest_scheme result \<Rightarrow> string \<Rightarrow> goerror
    \<Rightarrow> http_request \<Rightarrow> string \<Rightarrow> 's \<Rightarrow> ('q IdentityRequest_scheme \<times> RFC9421Verification) result \<times> 's" where
  "verify_decoded k tag decoded endpointPath targetErr request body s =
     (case decoded of
        Inl e \<Rightarrow> (Inl e, s)
      | Inr message \<Rightarrow>
          if \<not> validOperationTarget request endpointPath then (Inl targetErr, s)
          else case verifyAndReserve k request body (req_RelayActor message) tag s of
            (Inl e, s') \<Rightarrow> (Inl e, s')
          | (Inr authentication, s') \<Rightarrow> (Inr (message, authentication), s'))"

definition VerifyRegisterAndReserve :: "'s verifier_core \<Rightarrow> http_request \<Rightarrow> string \<Rightarrow> int \<Rightarrow> 's
    \<Rightarrow> (RegisterRequest \<times> RFC9421Verification) result \<times> 's" where
  "VerifyRegisterAndReserve k request body maximumBytes =
     verify_decoded k RFC9421SignatureTag (DecodeRegisterRequest body maximumBytes) (RegisterEndpointPath 1)
       (Err ErrRegisterTarget) request body"

definition VerifyHeartbeatAndReserve :: "'s verifier_core \<Rightarrow> http_request \<Rightarrow> string \<Rightarrow> int \<Rightarrow> 's
    \<Rightarrow> (IdentityRequest \<times> RFC9421Verification) result \<times> 's" where
  "VerifyHeartbeatAndReserve k request body maximumBytes =
     verify_decoded k RFC9421SignatureTag (DecodeHeartbeatRequest body maximumBytes) (HeartbeatEndpointPath 1)
       (Err ErrHeartbeatTarget) request body"

definition VerifyUnregisterAndReserve :: "'s verifier_core \<Rightarrow> http_request \<Rightarrow> string \<Rightarrow> int \<Rightarrow> 's
    \<Rightarrow> (IdentityRequest \<times> RFC9421Verification) result \<times> 's" where
  "VerifyUnregisterAndReserve k request body maximumBytes =
     verify_decoded k RFC9421SignatureTag (DecodeUnregisterRequest body maximumBytes) (UnregisterEndpointPath 1)
       (Err ErrUnregisterTarget) request body"

subsection \<open>Versions 2 and 3\<close>

definition signature_tag :: "nat \<Rightarrow> string" where
  "signature_tag n = ''activity-relay-directory-v'' @ itoa n"

abbreviation verr :: "nat \<Rightarrow> sentinel \<Rightarrow> goerror" where
  "verr n s \<equiv> Err (Versioned n s)"

definition profile_normalized :: "(string \<Rightarrow> string option) \<Rightarrow> profileWire \<Rightarrow> RelayProfile result" where
  "profile_normalized parseAddress p =
     (case (wire_ParticipationMode p, wire_Availability p, wire_RelayType p, wire_Languages p, wire_Countries p,
            wire_Regions p, wire_Topics p, wire_ContactFediverse p, wire_ContactEmail p, wire_ContactURL p,
            wire_ParticipationURL p, wire_Notes p) of
        (Some mode, Some avail, Some kind, Some langs, Some countries, Some regions, Some topics, Some fedi, Some email,
         Some curl, Some purl, Some note) \<Rightarrow>
          (case NormalizeRelayProfile parseAddress
                  \<lparr>ParticipationMode = mode, Availability = avail, RelayType = kind, Languages = slice_value langs,
                   Countries = slice_value countries, Regions = slice_value regions, Topics = slice_value topics,
                   ContactFediverse = fedi, ContactEmail = email, ContactURL = curl, ParticipationURL = purl,
                   Notes = note\<rparr> of
             Inl e \<Rightarrow> Inl e
           | Inr normalized \<Rightarrow>
               if ParticipationMode normalized \<in> {[], ''open'', ''restricted'', ''closed''} then Inr normalized
               else Inl (Err ErrProfileInput))
      | _ \<Rightarrow> Inl (Err ErrProfileInput))"

definition telemetry_maximum :: "nat \<Rightarrow> int" where
  "telemetry_maximum n = (if n = 2 then MaximumReceivingInstanceCount else MaximumParticipatingInstanceCount)"

definition telemetry_normalized :: "nat \<Rightarrow> telemetryWire option \<Rightarrow> string \<Rightarrow> TelemetryIntent option result" where
  "telemetry_normalized n t relayActor =
     (case t of
        None \<Rightarrow> Inr None
      | Some w \<Rightarrow>
          (case wire_InstanceCount w of
             None \<Rightarrow> Inl (Err ErrTelemetryInput)
           | Some count \<Rightarrow>
               if count < 0 \<or> count > telemetry_maximum n then Inl (Err ErrTelemetryInput)
               else Inr (Some \<lparr>telemetry_actor = relayActor, instance_count = count\<rparr>)))"

definition zero_register_wire :: registerWire where
  "zero_register_wire = \<lparr>req_ProtocolVersion = 0, req_Operation = [], req_RelayActor = [], req_PublicBaseURL = [],
     wire_Profile = zero_profile, wire_Telemetry = None\<rparr>"

definition zero_heartbeat_wire :: heartbeatWire where
  "zero_heartbeat_wire = \<lparr>req_ProtocolVersion = 0, req_Operation = [], req_RelayActor = [], heartbeat_Telemetry = None\<rparr>"

definition DecodeVersionedRegister :: "nat \<Rightarrow> (string \<Rightarrow> string option) \<Rightarrow> string \<Rightarrow> int \<Rightarrow> VersionedRegisterRequest result" where
  "DecodeVersionedRegister n parseAddress body maximumBytes =
     (if maximumBytes \<le> 0 \<or> maximumBytes > MaximumRegisterBodyBytes then Inl (verr n ErrRegisterConfiguration)
      else if int (length body) > maximumBytes then Inl (verr n ErrRegisterBodyTooLarge)
      else case decodeStrictJSON (register_wire_fields n) zero_register_wire body of
        None \<Rightarrow> Inl (verr n ErrRegisterRequest)
      | Some wire \<Rightarrow>
          if req_ProtocolVersion wire \<noteq> int n then Inl (verr n ErrRegisterProtocolVersion)
          else if req_Operation wire \<noteq> OperationRegister then Inl (verr n ErrRegisterRequest)
          else case NormalizeRelayIdentity (req_RelayActor wire) (req_PublicBaseURL wire) of
            Inl _ \<Rightarrow> Inl (verr n ErrRegisterRequest)
          | Inr identity \<Rightarrow>
              if RelayActor identity \<noteq> req_RelayActor wire \<or> PublicBaseURL identity \<noteq> req_PublicBaseURL wire
              then Inl (verr n ErrRegisterRequest)
              else case profile_normalized parseAddress (wire_Profile wire) of
                Inl _ \<Rightarrow> Inl (verr n ErrRegisterRequest)
              | Inr profile \<Rightarrow>
                  (case telemetry_normalized n (wire_Telemetry wire) (req_RelayActor wire) of
                     Inl _ \<Rightarrow> Inl (verr n ErrRegisterRequest)
                   | Inr intent \<Rightarrow>
                       Inr \<lparr>req_ProtocolVersion = req_ProtocolVersion wire, req_Operation = req_Operation wire,
                            req_RelayActor = req_RelayActor wire, req_PublicBaseURL = req_PublicBaseURL wire,
                            req_Profile = profile, req_Telemetry = intent\<rparr>))"

definition DecodeVersionedHeartbeat :: "nat \<Rightarrow> string \<Rightarrow> int \<Rightarrow> HeartbeatRequest result" where
  "DecodeVersionedHeartbeat n body maximumBytes =
     (if maximumBytes \<le> 0 \<or> maximumBytes > MaximumHeartbeatBodyBytes then Inl (verr n ErrHeartbeatConfiguration)
      else if int (length body) > maximumBytes then Inl (verr n ErrHeartbeatBodyTooLarge)
      else case decodeStrictJSON (heartbeat_wire_fields n) zero_heartbeat_wire body of
        None \<Rightarrow> Inl (verr n ErrHeartbeatRequest)
      | Some wire \<Rightarrow>
          if req_ProtocolVersion wire \<noteq> int n then Inl (verr n ErrHeartbeatProtocolVersion)
          else if req_Operation wire \<noteq> OperationHeartbeat then Inl (verr n ErrHeartbeatRequest)
          else if NormalizeRelayActorURL (req_RelayActor wire) \<noteq> Inr (req_RelayActor wire)
          then Inl (verr n ErrHeartbeatRequest)
          else case telemetry_normalized n (heartbeat_Telemetry wire) (req_RelayActor wire) of
            Inl _ \<Rightarrow> Inl (verr n ErrHeartbeatRequest)
          | Inr intent \<Rightarrow>
              Inr \<lparr>req_ProtocolVersion = req_ProtocolVersion wire, req_Operation = req_Operation wire,
                   req_RelayActor = req_RelayActor wire, heartbeat_Intent = intent\<rparr>)"

definition DecodeVersionedUnregister :: "nat \<Rightarrow> string \<Rightarrow> int \<Rightarrow> IdentityRequest result" where
  "DecodeVersionedUnregister n body maximumBytes =
     decodeIdentityRequest decodeStrictJSON n body maximumBytes MaximumUnregisterBodyBytes OperationUnregister
       (verr n ErrUnregisterConfiguration) (verr n ErrUnregisterBodyTooLarge) (verr n ErrUnregisterProtocolVersion)
       (verr n ErrUnregisterRequest)"

definition DecodeRegisterRequestV2 :: "(string \<Rightarrow> string option) \<Rightarrow> string \<Rightarrow> int \<Rightarrow> VersionedRegisterRequest result" where
  "DecodeRegisterRequestV2 = DecodeVersionedRegister 2"

definition DecodeHeartbeatRequestV2 :: "string \<Rightarrow> int \<Rightarrow> HeartbeatRequest result" where
  "DecodeHeartbeatRequestV2 = DecodeVersionedHeartbeat 2"

definition DecodeUnregisterRequestV2 :: "string \<Rightarrow> int \<Rightarrow> IdentityRequest result" where
  "DecodeUnregisterRequestV2 = DecodeVersionedUnregister 2"

definition VerifyRegisterAndReserveV2 :: "(string \<Rightarrow> string option) \<Rightarrow> 's verifier_core \<Rightarrow> http_request \<Rightarrow> string \<Rightarrow> int \<Rightarrow> 's
    \<Rightarrow> (VersionedRegisterRequest \<times> RFC9421Verification) result \<times> 's" where
  "VerifyRegisterAndReserveV2 parseAddress k request body maximumBytes =
     verify_decoded k (signature_tag 2) (DecodeRegisterRequestV2 parseAddress body maximumBytes) (RegisterEndpointPath 2)
       (verr 2 ErrRegisterTarget) request body"

definition VerifyHeartbeatAndReserveV2 :: "'s verifier_core \<Rightarrow> http_request \<Rightarrow> string \<Rightarrow> int \<Rightarrow> 's
    \<Rightarrow> (HeartbeatRequest \<times> RFC9421Verification) result \<times> 's" where
  "VerifyHeartbeatAndReserveV2 k request body maximumBytes =
     verify_decoded k (signature_tag 2) (DecodeHeartbeatRequestV2 body maximumBytes) (HeartbeatEndpointPath 2)
       (verr 2 ErrHeartbeatTarget) request body"

definition VerifyUnregisterAndReserveV2 :: "'s verifier_core \<Rightarrow> http_request \<Rightarrow> string \<Rightarrow> int \<Rightarrow> 's
    \<Rightarrow> (IdentityRequest \<times> RFC9421Verification) result \<times> 's" where
  "VerifyUnregisterAndReserveV2 k request body maximumBytes =
     verify_decoded k (signature_tag 2) (DecodeUnregisterRequestV2 body maximumBytes) (UnregisterEndpointPath 2)
       (verr 2 ErrUnregisterTarget) request body"

definition DecodeRegisterRequestV3 :: "(string \<Rightarrow> string option) \<Rightarrow> string \<Rightarrow> int \<Rightarrow> VersionedRegisterRequest result" where
  "DecodeRegisterRequestV3 = DecodeVersionedRegister 3"

definition DecodeHeartbeatRequestV3 :: "string \<Rightarrow> int \<Rightarrow> HeartbeatRequest result" where
  "DecodeHeartbeatRequestV3 = DecodeVersionedHeartbeat 3"

definition DecodeUnregisterRequestV3 :: "string \<Rightarrow> int \<Rightarrow> IdentityRequest result" where
  "DecodeUnregisterRequestV3 = DecodeVersionedUnregister 3"

definition VerifyRegisterAndReserveV3 :: "(string \<Rightarrow> string option) \<Rightarrow> 's verifier_core \<Rightarrow> http_request \<Rightarrow> string \<Rightarrow> int \<Rightarrow> 's
    \<Rightarrow> (VersionedRegisterRequest \<times> RFC9421Verification) result \<times> 's" where
  "VerifyRegisterAndReserveV3 parseAddress k request body maximumBytes =
     verify_decoded k (signature_tag 3) (DecodeRegisterRequestV3 parseAddress body maximumBytes) (RegisterEndpointPath 3)
       (verr 3 ErrRegisterTarget) request body"

definition VerifyHeartbeatAndReserveV3 :: "'s verifier_core \<Rightarrow> http_request \<Rightarrow> string \<Rightarrow> int \<Rightarrow> 's
    \<Rightarrow> (HeartbeatRequest \<times> RFC9421Verification) result \<times> 's" where
  "VerifyHeartbeatAndReserveV3 k request body maximumBytes =
     verify_decoded k (signature_tag 3) (DecodeHeartbeatRequestV3 body maximumBytes) (HeartbeatEndpointPath 3)
       (verr 3 ErrHeartbeatTarget) request body"

definition VerifyUnregisterAndReserveV3 :: "'s verifier_core \<Rightarrow> http_request \<Rightarrow> string \<Rightarrow> int \<Rightarrow> 's
    \<Rightarrow> (IdentityRequest \<times> RFC9421Verification) result \<times> 's" where
  "VerifyUnregisterAndReserveV3 k request body maximumBytes =
     verify_decoded k (signature_tag 3) (DecodeUnregisterRequestV3 body maximumBytes) (UnregisterEndpointPath 3)
       (verr 3 ErrUnregisterTarget) request body"

end
