(* ===== verification/Lifecycle.thy ===== *)
theory Lifecycle
  imports Protocol Limiter Replay
begin

section \<open>The lifecycle handlers\<close>

text \<open>
  \<open>internal/httpapi/lifecycle.go\<close> and the route table of \<open>internal/httpapi/server.go\<close>: the three
  signed operations over protocol versions 1, 2 and 3. The state is the limiter, the replay
  reservations and the store; one call of a handler threads it through source admission,
  the bounded body, verification with reservation, actor admission and the writes, and
  releases the permit on every path. What the runtime contributes to a call (contexts,
  clock readings, faults of each write) is one record.
\<close>

subsection \<open>Responses\<close>

datatype ErrorCode =
    ErrorInvalidRequest | ErrorUnsupportedProtocolVersion | ErrorAuthenticationFailed | ErrorReplayDetected
  | ErrorLifecycleUnavailable | ErrorEnrollmentClosed | ErrorRelayNotRegistered | ErrorRelaySuspended
  | ErrorRateLimited | ErrorInternal

fun protocolErrorMessage :: "ErrorCode \<Rightarrow> string" where
  "protocolErrorMessage ErrorInvalidRequest = ''request is invalid''"
| "protocolErrorMessage ErrorUnsupportedProtocolVersion = ''protocol version is unsupported''"
| "protocolErrorMessage ErrorAuthenticationFailed = ''authentication failed''"
| "protocolErrorMessage ErrorReplayDetected = ''request has already been received''"
| "protocolErrorMessage ErrorLifecycleUnavailable = ''lifecycle service is unavailable''"
| "protocolErrorMessage ErrorEnrollmentClosed = ''directory enrollment is closed''"
| "protocolErrorMessage ErrorRelayNotRegistered = ''relay is not registered''"
| "protocolErrorMessage ErrorRelaySuspended = ''relay is suspended''"
| "protocolErrorMessage ErrorRateLimited = ''request rate limit exceeded''"
| "protocolErrorMessage ErrorInternal = ''internal server error''"

datatype document =
    ErrorResponse int ErrorCode string
  | OperationResponse int operation outcome string

record http_response =
  resp_status :: int
  resp_header :: "(string \<times> string) list"
  resp_body :: "document option"

definition writeJSON :: "http_request \<Rightarrow> (string \<times> string) list \<Rightarrow> int \<Rightarrow> document \<Rightarrow> http_response" where
  "writeJSON request header status value =
     \<lparr>resp_status = status,
      resp_header = header @ [(''Content-Type'', ''application/json''), (''Cache-Control'', ''no-store'')],
      resp_body = (if Method request = ''HEAD'' then None else Some value)\<rparr>"

definition writeProtocolErrorVersion :: "http_request \<Rightarrow> (string \<times> string) list \<Rightarrow> int \<Rightarrow> nat \<Rightarrow> ErrorCode \<Rightarrow> http_response" where
  "writeProtocolErrorVersion request header status protocolVersion errorCode =
     writeJSON request header status (ErrorResponse (int protocolVersion) errorCode (protocolErrorMessage errorCode))"

definition retryAfterSeconds :: "int \<Rightarrow> int" where
  "retryAfterSeconds duration =
     (if duration \<le> 0 then 0
      else let seconds = duration div 1000000000 + (if duration mod 1000000000 \<noteq> 0 then 1 else 0) in
           if seconds < 1 then 1 else seconds)"

definition writeAdmissionErrorVersion :: "http_request \<Rightarrow> admission_result \<Rightarrow> nat \<Rightarrow> http_response" where
  "writeAdmissionErrorVersion request res protocolVersion =
     (if Decision res \<in> {DecisionSourceRateLimited, DecisionActorRateLimited, DecisionConcurrencyLimited,
                         DecisionCapacityLimited}
      then let seconds = retryAfterSeconds (RetryAfter res) in
           writeProtocolErrorVersion request
             (if seconds > 0 then [(''Retry-After'', itoa (nat seconds))] else []) 429 protocolVersion ErrorRateLimited
      else writeProtocolErrorVersion request [] 500 protocolVersion ErrorInternal)"

text \<open>
  The error switches of the three versions: \<open>own\<close> names the sentinels of the version and
  \<open>extra\<close> the storage errors that versions 2 and 3 also report as an invalid request.
\<close>

definition lifecycle_status :: "(sentinel \<Rightarrow> sentinel) \<Rightarrow> sentinel list \<Rightarrow> goerror \<Rightarrow> int \<times> ErrorCode" where
  "lifecycle_status own extra err =
     (if list_ex (errors_is err) (map own [ErrRegisterProtocolVersion, ErrHeartbeatProtocolVersion, ErrUnregisterProtocolVersion])
      then (400, ErrorUnsupportedProtocolVersion)
      else if errors_is err ErrRFC9421Replay then (409, ErrorReplayDetected)
      else if list_ex (errors_is err) [ErrRFC9421Malformed, ErrRFC9421Policy, ErrRFC9421Time, ErrRFC9421Digest,
                                       ErrRFC9421Key, ErrRFC9421Crypto, ErrRFC9421ActorBinding]
      then (401, ErrorAuthenticationFailed)
      else if errors_is err ErrRelaySuspended then (403, ErrorRelaySuspended)
      else if errors_is err ErrEnrollmentClosed then (403, ErrorEnrollmentClosed)
      else if errors_is err ErrRelayAbsent then (409, ErrorRelayNotRegistered)
      else if errors_is err ErrWriteAdmissionHard then (503, ErrorLifecycleUnavailable)
      else if list_ex (errors_is err)
                (map own [ErrRegisterRequest, ErrHeartbeatRequest, ErrUnregisterRequest, ErrRegisterTarget,
                          ErrHeartbeatTarget, ErrUnregisterTarget, ErrRegisterBodyTooLarge, ErrHeartbeatBodyTooLarge,
                          ErrUnregisterBodyTooLarge] @ extra)
      then (400, ErrorInvalidRequest)
      else (500, ErrorInternal))"

definition writeLifecycleError :: "http_request \<Rightarrow> goerror \<Rightarrow> http_response" where
  "writeLifecycleError request err =
     (case lifecycle_status id [] err of (status, c) \<Rightarrow> writeProtocolErrorVersion request [] status 1 c)"

definition writeLifecycleV2Error :: "http_request \<Rightarrow> goerror \<Rightarrow> http_response" where
  "writeLifecycleV2Error request err =
     (case lifecycle_status (Versioned 2) [ErrProfileInput, ErrTelemetryInput] err of
        (status, c) \<Rightarrow> writeProtocolErrorVersion request [] status 2 c)"

definition writeLifecycleV3Error :: "http_request \<Rightarrow> goerror \<Rightarrow> http_response" where
  "writeLifecycleV3Error request err =
     (case lifecycle_status (Versioned 3) [ErrProfileInput, ErrTelemetryInput] err of
        (status, c) \<Rightarrow> writeProtocolErrorVersion request [] status 3 c)"

subsection \<open>Requests and the handler\<close>

text \<open>
  A request as the server hands it over: the parsed request, the peer, the announced length
  and the body (\<open>None\<close> for nil): the bytes it yields and whether reading then fails.
\<close>

record lifecycle_request =
  lr_http :: http_request
  lr_RemoteAddr :: string
  lr_ContentLength :: int
  lr_Body :: "(string \<times> bool) option"

definition readBoundedBody :: "lifecycle_request \<Rightarrow> int \<Rightarrow> string result" where
  "readBoundedBody request bound =
     (case lr_Body request of
        None \<Rightarrow>
          if lr_ContentLength request > bound then Inl (Err ErrLifecycleBodyTooLarge)
          else Inl (Opaque ''lifecycle request body is invalid'')
      | Some (content, readFails) \<Rightarrow>
          if bound \<le> 0 \<or> lr_ContentLength request > bound then
            (if lr_ContentLength request > bound then Inl (Err ErrLifecycleBodyTooLarge)
             else Inl (Opaque ''lifecycle request body is invalid''))
          else
            let body = take (nat (bound + 1)) content in
            if int (length content) < bound + 1 \<and> readFails then Inl (Opaque ''lifecycle request body is invalid'')
            else if int (length body) > bound then Inl (Err ErrLifecycleBodyTooLarge)
            else Inr body)"

text \<open>
  The dependencies: \<open>None\<close> and \<open>False\<close> are nil interfaces. A verifier of version 2 or 3 is its
  core; the replay store is its cleanup batch.
\<close>

record LifecycleDependencies =
  dep_Verifier :: "RFC9421Verifier option"
  dep_V2Verifier :: "RFC9421Verifier option"
  dep_V3Verifier :: "RFC9421Verifier option"
  dep_ReplayStore :: "int option"
  dep_Repository :: bool
  dep_ProfileRepository :: bool
  dep_TelemetryRepository :: bool
  dep_SourceResolver :: "SourceResolver option"
  dep_Limiter :: bool
  dep_MaximumBodyBytes :: int
  dep_Now :: bool

record LifecycleHandler =
  lh_verifier :: RFC9421Verifier
  v2Verifier :: "RFC9421Verifier option"
  v3Verifier :: "RFC9421Verifier option"
  replayStore :: int
  profileRepository :: bool
  telemetryRepository :: bool
  sourceResolver :: SourceResolver
  maximumBodyBytes :: int

definition NewLifecycleHandler :: "LifecycleDependencies \<Rightarrow> LifecycleHandler result" where
  "NewLifecycleHandler d =
     (case (dep_Verifier d, dep_ReplayStore d, dep_SourceResolver d) of
        (Some v, Some batch, Some resolver) \<Rightarrow>
          if \<not> dep_Repository d \<or> \<not> dep_Limiter d \<or> \<not> dep_Now d \<or> dep_MaximumBodyBytes d \<le> 0 \<or>
             dep_MaximumBodyBytes d > MaximumRegisterBodyBytes \<or>
             (dep_V2Verifier d = None) \<noteq> (\<not> dep_ProfileRepository d) \<or>
             (dep_V3Verifier d \<noteq> None \<and> (\<not> dep_ProfileRepository d \<or> \<not> dep_TelemetryRepository d))
          then Inl (Err ErrLifecycleConfiguration)
          else Inr \<lparr>lh_verifier = v, v2Verifier = dep_V2Verifier d, v3Verifier = dep_V3Verifier d, replayStore = batch,
                    profileRepository = dep_ProfileRepository d, telemetryRepository = dep_TelemetryRepository d,
                    sourceResolver = resolver, maximumBodyBytes = dep_MaximumBodyBytes d\<rparr>
      | _ \<Rightarrow> Inl (Err ErrLifecycleConfiguration))"

definition supportsV2 :: "LifecycleHandler option \<Rightarrow> bool" where
  "supportsV2 handler \<longleftrightarrow> (case handler of None \<Rightarrow> False | Some h \<Rightarrow> v2Verifier h \<noteq> None \<and> profileRepository h)"

definition supportsV3 :: "LifecycleHandler option \<Rightarrow> bool" where
  "supportsV3 handler \<longleftrightarrow>
     (case handler of None \<Rightarrow> False | Some h \<Rightarrow> v3Verifier h \<noteq> None \<and> profileRepository h \<and> telemetryRepository h)"

subsection \<open>State and runtime of one call\<close>

record service =
  svc_limiter :: limiter
  svc_replay :: replay_table
  svc_store :: profile_db

record runtime =
  rt_externals :: externals
  rt_parseAddress :: "string \<Rightarrow> string option"
  rt_source_ctx :: "bool \<times> bool"
  rt_source_now :: int
  rt_verify_now :: int
  rt_verify_later :: int
  rt_store_now :: int
  rt_store_ctx :: "goerror option"
  rt_store_env :: environment
  rt_actor_ctx :: "bool \<times> bool"
  rt_actor_now :: int
  rt_accepted :: int
  rt_persist_env :: environment
  rt_profile_env :: environment
  rt_telemetry_fault :: bool

definition core_of :: "LifecycleHandler \<Rightarrow> runtime \<Rightarrow> RFC9421Verifier \<Rightarrow> replay_table verifier_core" where
  "core_of h rt v =
     \<lparr>core_externals = rt_externals rt, core_verifier = v, core_now = rt_verify_now rt, core_later = rt_verify_later rt,
      core_reserve = (\<lambda>key expiry. ReserveRFC9421Replay (replayStore h) (rt_store_ctx rt) (rt_store_env rt) key expiry (rt_store_now rt))\<rparr>"

definition persist :: "environment \<Rightarrow> operation \<Rightarrow> string \<Rightarrow> string \<Rightarrow> int \<Rightarrow> db \<Rightarrow> outcome result \<times> db" where
  "persist env op actor publicBaseURL acceptedAt d =
     (if op = OperationRegister
      then Register env \<lparr>reg_actor = actor, reg_base = publicBaseURL\<rparr> acceptedAt d
      else if op = OperationHeartbeat then Heartbeat env actor acceptedAt d
      else if op = OperationUnregister then Unregister env actor acceptedAt d
      else (Inl (Err ErrLifecycleConfiguration), d))"

text \<open>What verification hands on: actor, base URL, profile and telemetry.\<close>

record verified =
  vf_actor :: string
  vf_base :: string
  vf_profile :: RelayProfile
  vf_telemetry :: "TelemetryIntent option"

definition verify_v1 :: "LifecycleHandler \<Rightarrow> runtime \<Rightarrow> http_request \<Rightarrow> string \<Rightarrow> operation \<Rightarrow> replay_table
    \<Rightarrow> verified result \<times> replay_table" where
  "verify_v1 h rt request body op t =
     (let k = core_of h rt (lh_verifier h);
          plain = (\<lambda>(m, _). \<lparr>vf_actor = req_RelayActor m, vf_base = [], vf_profile = empty_profile, vf_telemetry = None\<rparr>) in
      if op = OperationRegister then
        apfst (map_sum id (\<lambda>(m, _). \<lparr>vf_actor = req_RelayActor m, vf_base = req_PublicBaseURL m,
                 vf_profile = empty_profile, vf_telemetry = None\<rparr>))
          (VerifyRegisterAndReserve k request body (maximumBodyBytes h) t)
      else if op = OperationHeartbeat then apfst (map_sum id plain) (VerifyHeartbeatAndReserve k request body (maximumBodyBytes h) t)
      else if op = OperationUnregister then apfst (map_sum id plain) (VerifyUnregisterAndReserve k request body (maximumBodyBytes h) t)
      else (Inl (Err ErrLifecycleConfiguration), t))"

definition verify_v2 :: "LifecycleHandler \<Rightarrow> runtime \<Rightarrow> RFC9421Verifier \<Rightarrow> http_request \<Rightarrow> string \<Rightarrow> operation \<Rightarrow> replay_table
    \<Rightarrow> verified result \<times> replay_table" where
  "verify_v2 h rt v request body op t =
     (let k = core_of h rt v in
      if op = OperationRegister then
        apfst (map_sum id (\<lambda>(m, _). \<lparr>vf_actor = req_RelayActor m, vf_base = req_PublicBaseURL m,
                 vf_profile = req_Profile m, vf_telemetry = req_Telemetry m\<rparr>))
          (VerifyRegisterAndReserveV2 (rt_parseAddress rt) k request body (maximumBodyBytes h) t)
      else if op = OperationHeartbeat then
        apfst (map_sum id (\<lambda>(m, _). \<lparr>vf_actor = req_RelayActor m, vf_base = [], vf_profile = empty_profile,
                 vf_telemetry = heartbeat_Intent m\<rparr>))
          (VerifyHeartbeatAndReserveV2 k request body (maximumBodyBytes h) t)
      else if op = OperationUnregister then
        apfst (map_sum id (\<lambda>(m, _). \<lparr>vf_actor = req_RelayActor m, vf_base = [], vf_profile = empty_profile,
                 vf_telemetry = None\<rparr>))
          (VerifyUnregisterAndReserveV2 k request body (maximumBodyBytes h) t)
      else (Inl (Err ErrLifecycleConfiguration), t))"

definition verify_v3 :: "LifecycleHandler \<Rightarrow> runtime \<Rightarrow> RFC9421Verifier \<Rightarrow> http_request \<Rightarrow> string \<Rightarrow> operation \<Rightarrow> replay_table
    \<Rightarrow> verified result \<times> replay_table" where
  "verify_v3 h rt v request body op t =
     (let k = core_of h rt v in
      if op = OperationRegister then
        apfst (map_sum id (\<lambda>(m, _). \<lparr>vf_actor = req_RelayActor m, vf_base = req_PublicBaseURL m,
                 vf_profile = req_Profile m, vf_telemetry = req_Telemetry m\<rparr>))
          (VerifyRegisterAndReserveV3 (rt_parseAddress rt) k request body (maximumBodyBytes h) t)
      else if op = OperationHeartbeat then
        apfst (map_sum id (\<lambda>(m, _). \<lparr>vf_actor = req_RelayActor m, vf_base = [], vf_profile = empty_profile,
                 vf_telemetry = heartbeat_Intent m\<rparr>))
          (VerifyHeartbeatAndReserveV3 k request body (maximumBodyBytes h) t)
      else if op = OperationUnregister then
        apfst (map_sum id (\<lambda>(m, _). \<lparr>vf_actor = req_RelayActor m, vf_base = [], vf_profile = empty_profile,
                 vf_telemetry = None\<rparr>))
          (VerifyUnregisterAndReserveV3 k request body (maximumBodyBytes h) t)
      else (Inl (Err ErrLifecycleConfiguration), t))"

subsection \<open>The writes of an authenticated operation\<close>

type_synonym writes = "runtime \<Rightarrow> operation \<Rightarrow> verified \<Rightarrow> profile_db \<Rightarrow> outcome result \<times> profile_db"

definition persist_core :: writes where
  "persist_core rt op v d =
     (case persist (rt_persist_env rt) op (vf_actor v) (vf_base v) (rt_accepted rt) (core d) of
        (r, c) \<Rightarrow> (r, d\<lparr>core := c\<rparr>))"

definition persist_profile :: writes where
  "persist_profile rt op v d =
     (case persist_core rt op v d of
        (Inl e, d1) \<Rightarrow> (Inl e, d1)
      | (Inr oc, d1) \<Rightarrow>
          if op = OperationRegister then
            (case ReplaceProfileSource (rt_profile_env rt) (rt_parseAddress rt)
                    \<lparr>profile_actor = vf_actor v,
                     profile_source = \<lparr>Kind = ProfileSourceRelay, SourceLabel = [], SourceURL = []\<rparr>,
                     profile_claim = vf_profile v\<rparr> (rt_accepted rt) d1 of
               (Inl e, d2) \<Rightarrow> (Inl e, d2)
             | (Inr _, d2) \<Rightarrow> (Inr oc, d2))
          else (Inr oc, d1))"

definition persist_telemetry :: "bool \<Rightarrow> (bool \<Rightarrow> TelemetryIntent \<Rightarrow> int \<Rightarrow> profile_db \<Rightarrow> goerror option \<times> profile_db) \<Rightarrow> writes" where
  "persist_telemetry available replace rt op v d =
     (case persist_profile rt op v d of
        (Inl e, d1) \<Rightarrow> (Inl e, d1)
      | (Inr oc, d1) \<Rightarrow>
          (case vf_telemetry v of
             None \<Rightarrow> (Inr oc, d1)
           | Some intent \<Rightarrow>
               if \<not> available then (Inl (Err ErrLifecycleConfiguration), d1)
               else (case replace (rt_telemetry_fault rt) (intent\<lparr>telemetry_actor := vf_actor v\<rparr>) (rt_accepted rt) d1 of
                       (Some e, d2) \<Rightarrow> (Inl e, d2)
                     | (None, d2) \<Rightarrow> (Inr oc, d2))))"

subsection \<open>The handlers\<close>

text \<open>
  The part of a handler that runs under a permit, which is returned for its deferred
  release: the bounded body, verification, actor admission, the writes, the response. The
  versions differ in their verification, their writes and their error switch.
\<close>

record version_parts =
  part_version :: nat
  part_verify :: "runtime \<Rightarrow> http_request \<Rightarrow> string \<Rightarrow> operation \<Rightarrow> replay_table \<Rightarrow> verified result \<times> replay_table"
  part_write :: writes
  part_error :: "http_request \<Rightarrow> goerror \<Rightarrow> http_response"

definition v1_parts :: "LifecycleHandler \<Rightarrow> version_parts" where
  "v1_parts h = \<lparr>part_version = 1, part_verify = verify_v1 h, part_write = persist_core, part_error = writeLifecycleError\<rparr>"

definition v2_parts :: "LifecycleHandler \<Rightarrow> version_parts" where
  "v2_parts h = \<lparr>part_version = 2, part_verify = (\<lambda>rt. verify_v2 h rt (the (v2Verifier h))),
     part_write = persist_telemetry (telemetryRepository h) ReplaceRelayTelemetry, part_error = writeLifecycleV2Error\<rparr>"

definition v3_parts :: "LifecycleHandler \<Rightarrow> version_parts" where
  "v3_parts h = \<lparr>part_version = 3, part_verify = (\<lambda>rt. verify_v3 h rt (the (v3Verifier h))),
     part_write = persist_telemetry (telemetryRepository h) ReplaceRelayParticipatingTelemetry,
     part_error = writeLifecycleV3Error\<rparr>"

definition respond :: "nat \<Rightarrow> http_request \<Rightarrow> operation \<Rightarrow> string \<Rightarrow> outcome \<Rightarrow> http_response" where
  "respond n request op actor oc =
     (if \<not> Outcome_ValidFor oc op then writeProtocolErrorVersion request [] 500 n ErrorInternal
      else writeJSON request [] (if oc = OutcomeCreated then 201 else 200) (OperationResponse (int n) op oc actor))"

definition serve_admitted :: "version_parts \<Rightarrow> LifecycleHandler \<Rightarrow> runtime \<Rightarrow> lifecycle_request \<Rightarrow> operation \<Rightarrow> permit \<Rightarrow> service
    \<Rightarrow> http_response \<times> permit \<times> service" where
  "serve_admitted parts h rt request op p s =
     (let req = lr_http request; n = part_version parts in
      case readBoundedBody request (maximumBodyBytes h) of
        Inl err \<Rightarrow>
          (writeProtocolErrorVersion req [] (if errors_is err ErrLifecycleBodyTooLarge then 413 else 400) n ErrorInvalidRequest, p, s)
      | Inr body \<Rightarrow>
          (case part_verify parts rt req body op (svc_replay s) of
             (Inl err, t) \<Rightarrow> (part_error parts req err, p, s\<lparr>svc_replay := t\<rparr>)
           | (Inr v, t) \<Rightarrow>
               (case AdmitActor (svc_limiter s) p (rt_actor_ctx rt) op (vf_actor v) (rt_actor_now rt) of
                  (l, p', res) \<Rightarrow>
                    if \<not> result_Allowed res
                    then (writeAdmissionErrorVersion req res n, p', s\<lparr>svc_replay := t, svc_limiter := l\<rparr>)
                    else (case part_write parts rt op v (svc_store s) of
                            (Inl err, d) \<Rightarrow>
                              (part_error parts req err, p', s\<lparr>svc_replay := t, svc_limiter := l, svc_store := d\<rparr>)
                          | (Inr oc, d) \<Rightarrow>
                              (respond n req op (vf_actor v) oc, p',
                               s\<lparr>svc_replay := t, svc_limiter := l, svc_store := d\<rparr>)))))"

definition serve_available :: "version_parts \<Rightarrow> LifecycleHandler \<Rightarrow> runtime \<Rightarrow> lifecycle_request \<Rightarrow> operation \<Rightarrow> service
    \<Rightarrow> http_response \<times> service" where
  "serve_available parts h rt request op s =
     (let req = lr_http request; n = part_version parts in
      case resolve_source (sourceResolver h) (lr_RemoteAddr request) (Values req ''X-Real-IP'') of
        Inl _ \<Rightarrow> (writeProtocolErrorVersion req [] 400 n ErrorInvalidRequest, s)
      | Inr source \<Rightarrow>
          (case AdmitSource (svc_limiter s) (rt_source_ctx rt) op source (rt_source_now rt) of
             (l, Some p, res) \<Rightarrow>
               if \<not> result_Allowed res then (writeAdmissionErrorVersion req res n, s\<lparr>svc_limiter := l\<rparr>)
               else (case serve_admitted parts h rt request op p (s\<lparr>svc_limiter := l\<rparr>) of
                       (response, p', s') \<Rightarrow> (response, s'\<lparr>svc_limiter := fst (Release (svc_limiter s') p')\<rparr>))
           | (l, None, res) \<Rightarrow> (writeAdmissionErrorVersion req res n, s\<lparr>svc_limiter := l\<rparr>)))"

definition method_not_allowed :: "http_request \<Rightarrow> nat \<Rightarrow> http_response" where
  "method_not_allowed req n = writeProtocolErrorVersion req [(''Allow'', ''POST'')] 405 n ErrorInvalidRequest"

definition serveV1 :: "LifecycleHandler option \<Rightarrow> runtime \<Rightarrow> lifecycle_request \<Rightarrow> operation \<Rightarrow> service \<Rightarrow> http_response \<times> service" where
  "serveV1 handler rt request op s =
     (if Method (lr_http request) \<noteq> ''POST'' then (method_not_allowed (lr_http request) 1, s)
      else case handler of
        None \<Rightarrow> (writeProtocolErrorVersion (lr_http request) [] 503 1 ErrorLifecycleUnavailable, s)
      | Some h \<Rightarrow> serve_available (v1_parts h) h rt request op s)"

definition serveV2 :: "LifecycleHandler option \<Rightarrow> runtime \<Rightarrow> lifecycle_request \<Rightarrow> operation \<Rightarrow> service \<Rightarrow> http_response \<times> service" where
  "serveV2 handler rt request op s =
     (if Method (lr_http request) \<noteq> ''POST'' then (method_not_allowed (lr_http request) 2, s)
      else if \<not> supportsV2 handler
      then (writeProtocolErrorVersion (lr_http request) [] 503 2 ErrorLifecycleUnavailable, s)
      else serve_available (v2_parts (the handler)) (the handler) rt request op s)"

definition serveV3 :: "LifecycleHandler option \<Rightarrow> runtime \<Rightarrow> lifecycle_request \<Rightarrow> operation \<Rightarrow> service \<Rightarrow> http_response \<times> service" where
  "serveV3 handler rt request op s =
     (if Method (lr_http request) \<noteq> ''POST'' then (method_not_allowed (lr_http request) 3, s)
      else if \<not> supportsV3 handler
      then (writeProtocolErrorVersion (lr_http request) [] 503 3 ErrorLifecycleUnavailable, s)
      else serve_available (v3_parts (the handler)) (the handler) rt request op s)"

text \<open>The nine routes; a handler that is not enabled is nil.\<close>

definition lifecycle_routes :: "(string \<times> nat \<times> operation) list" where
  "lifecycle_routes =
     [(RegisterEndpointPath 1, 1, OperationRegister), (HeartbeatEndpointPath 1, 1, OperationHeartbeat),
      (UnregisterEndpointPath 1, 1, OperationUnregister),
      (RegisterEndpointPath 2, 2, OperationRegister), (HeartbeatEndpointPath 2, 2, OperationHeartbeat),
      (UnregisterEndpointPath 2, 2, OperationUnregister),
      (RegisterEndpointPath 3, 3, OperationRegister), (HeartbeatEndpointPath 3, 3, OperationHeartbeat),
      (UnregisterEndpointPath 3, 3, OperationUnregister)]"

definition serve_lifecycle :: "bool \<Rightarrow> LifecycleHandler option \<Rightarrow> runtime \<Rightarrow> lifecycle_request \<Rightarrow> string \<Rightarrow> service
    \<Rightarrow> (http_response \<times> service) option" where
  "serve_lifecycle lifecycleEnabled lifecycle rt request path s =
     (let enabled = (if lifecycleEnabled then lifecycle else None) in
      case map_of lifecycle_routes path of
        None \<Rightarrow> None
      | Some (n, op) \<Rightarrow>
          Some (if n = 1 then serveV1 enabled rt request op s
                else if n = 2 then serveV2 enabled rt request op s
                else serveV3 enabled rt request op s))"

end
