(* ===== verification/LifecycleRun.thy ===== *)
theory LifecycleRun
  imports Lifecycle StoreMachine AuthRun ProfileRun
begin

section \<open>What a lifecycle call can do\<close>

text \<open>
  Case analysis of the handlers: the replies of each path, what a verified request
  establishes, and what the writes of an operation can change in the store.
\<close>

subsection \<open>The error replies\<close>

definition error_table :: "(int \<times> ErrorCode) list" where
  "error_table =
     [(400, ErrorInvalidRequest), (400, ErrorUnsupportedProtocolVersion), (401, ErrorAuthenticationFailed),
      (403, ErrorRelaySuspended), (403, ErrorEnrollmentClosed), (405, ErrorInvalidRequest), (409, ErrorReplayDetected),
      (409, ErrorRelayNotRegistered), (413, ErrorInvalidRequest), (429, ErrorRateLimited), (500, ErrorInternal),
      (503, ErrorLifecycleUnavailable)]"

definition error_reply :: "(string \<times> string) list \<Rightarrow> int \<Rightarrow> ErrorCode \<Rightarrow> bool" where
  "error_reply header status c \<longleftrightarrow> (status, c) \<in> set error_table \<and>
     (header = [] \<or> status = 405 \<and> header = [(''Allow'', ''POST'')] \<or>
      status = 429 \<and> (\<exists>k > 0. header = [(''Retry-After'', itoa k)]))"

lemma error_reply_status: "error_reply header status c \<Longrightarrow> 400 \<le> status"
  by (auto simp: error_reply_def error_table_def)

lemma error_reply_plain: "(status, c) \<in> set error_table \<Longrightarrow> error_reply [] status c"
  by (simp add: error_reply_def)

lemma admission_reply:
  "\<exists>header status c. writeAdmissionErrorVersion req res n = writeProtocolErrorVersion req header status n c \<and>
     error_reply header status c"
proof (cases "Decision res \<in> {DecisionSourceRateLimited, DecisionActorRateLimited, DecisionConcurrencyLimited, DecisionCapacityLimited}")
  case True
  let ?k = "retryAfterSeconds (RetryAfter res)"
  have "error_reply (if ?k > 0 then [(''Retry-After'', itoa (nat ?k))] else []) 429 ErrorRateLimited"
    by (auto simp: error_reply_def error_table_def)
  with True show ?thesis unfolding writeAdmissionErrorVersion_def Let_def if_P [OF True] by blast
next
  case False
  have "error_reply [] 500 ErrorInternal" by (simp add: error_reply_def error_table_def)
  then show ?thesis unfolding writeAdmissionErrorVersion_def if_not_P [OF False] by blast
qed

lemma lifecycle_status_table: "lifecycle_status own extra e \<in> set error_table"
  by (simp add: lifecycle_status_def error_table_def)

lemma serve_available_cases:
  assumes "serve_available parts h rt request op s = (response, s')"
  obtains (refused) "svc_store s' = svc_store s"
      "(\<exists>header status c. response = writeProtocolErrorVersion (lr_http request) header status (part_version parts) c \<and> error_reply header status c) \<or>
       (\<exists>body e t. readBoundedBody request (maximumBodyBytes h) = Inr body \<and>
          part_verify parts rt (lr_http request) body op (svc_replay s) = (Inl e, t) \<and> svc_replay s' = t \<and>
          response = part_error parts (lr_http request) e)"
    | (performed) body v t r where "readBoundedBody request (maximumBodyBytes h) = Inr body"
      "part_verify parts rt (lr_http request) body op (svc_replay s) = (Inr v, t)" "svc_replay s' = t"
      "part_write parts rt op v (svc_store s) = (r, svc_store s')"
      "response = (case r of Inl e \<Rightarrow> part_error parts (lr_http request) e
                   | Inr oc \<Rightarrow> respond (part_version parts) (lr_http request) op (vf_actor v) oc)"
proof -
  note adm = admission_reply [of "lr_http request"]
  have invalid: "error_reply [] 400 ErrorInvalidRequest" "error_reply [] 413 ErrorInvalidRequest"
    by (simp_all add: error_reply_def error_table_def)
  show ?thesis
  proof (cases "resolve_source (sourceResolver h) (lr_RemoteAddr request) (Values (lr_http request) ''X-Real-IP'')")
    case (Inl e)
    with assms refused invalid(1) show ?thesis by (force simp: serve_available_def)
  next
    case (Inr source)
    obtain l p res where a: "AdmitSource (svc_limiter s) (rt_source_ctx rt) op source (rt_source_now rt) = (l, p, res)"
      by (metis prod.exhaust)
    show ?thesis
    proof (cases "p = None \<or> \<not> result_Allowed res")
      case True
      then have "response = writeAdmissionErrorVersion (lr_http request) res (part_version parts)" "svc_store s' = svc_store s"
        using assms Inr a by (auto simp: serve_available_def Let_def split: option.splits if_splits)
      with refused adm show ?thesis by metis
    next
      case False
      then obtain q where q: "p = Some q" by auto
      obtain rs q' s1 where adm1: "serve_admitted parts h rt request op q (s\<lparr>svc_limiter := l\<rparr>) = (rs, q', s1)"
        by (metis prod.exhaust)
      have out: "response = rs" "svc_store s' = svc_store s1" "svc_replay s' = svc_replay s1"
        using assms Inr a q False adm1 by (auto simp: serve_available_def Let_def)
      show ?thesis
      proof (cases "readBoundedBody request (maximumBodyBytes h)")
        case (Inl e)
        with adm1 out refused invalid show ?thesis by (cases "errors_is e ErrLifecycleBodyTooLarge") (force simp: serve_admitted_def Let_def)+
      next
        case (Inr body)
        obtain vr t where v: "part_verify parts rt (lr_http request) body op (svc_replay s) = (vr, t)" by fastforce
        show ?thesis
        proof (cases vr)
          case (Inl e)
          with adm1 out Inr v refused show ?thesis by (auto simp: serve_admitted_def Let_def)
        next
          case vf: (Inr w)
          obtain l2 q2 res2 where ac: "AdmitActor l q (rt_actor_ctx rt) op (vf_actor w) (rt_actor_now rt) = (l2, q2, res2)"
            by (metis prod.exhaust)
          show ?thesis
          proof (cases "result_Allowed res2")
            case False
            with adm1 out Inr v vf ac have "response = writeAdmissionErrorVersion (lr_http request) res2 (part_version parts)"
              "svc_store s' = svc_store s" by (auto simp: serve_admitted_def Let_def)
            with refused adm show ?thesis by metis
          next
            case True
            obtain r d where w: "part_write parts rt op w (svc_store s) = (r, d)" by fastforce
            with adm1 out Inr v vf ac True performed [of body w t r] show ?thesis
              by (cases r) (auto simp: serve_admitted_def Let_def)
          qed
        qed
      qed
    qed
  qed
qed


subsection \<open>Routes\<close>

definition lifecycle_parts :: "nat \<Rightarrow> LifecycleHandler \<Rightarrow> version_parts" where
  "lifecycle_parts n h = (if n = 1 then v1_parts h else if n = 2 then v2_parts h else v3_parts h)"

definition verifier_of :: "nat \<Rightarrow> LifecycleHandler \<Rightarrow> RFC9421Verifier" where
  "verifier_of n h = (if n = 1 then lh_verifier h else if n = 2 then the (v2Verifier h) else the (v3Verifier h))"

definition endpoint :: "nat \<Rightarrow> operation \<Rightarrow> string" where
  "endpoint n op = ''/v'' @ itoa n @ ''/relays/'' @ op"

lemma digit_strings: "itoa 1 = ''1''" "itoa (Suc 0) = ''1''" "itoa 2 = ''2''" "itoa 3 = ''3''"
  by (simp_all add: itoa.simps char_of_def bit_0)

lemma routes_endpoint:
  assumes "map_of lifecycle_routes path = Some (n, op)"
  shows "path = endpoint n op" "n \<in> {1, 2, 3}" "Operation_Valid op"
proof -
  have "(path, n, op) \<in> set lifecycle_routes" using assms by (rule map_of_SomeD)
  then show "path = endpoint n op" "n \<in> {1, 2, 3}" "Operation_Valid op"
    by (auto simp: lifecycle_routes_def endpoint_def RegisterEndpointPath_def HeartbeatEndpointPath_def
        UnregisterEndpointPath_def operation_defs Operation_Valid_def)
qed

lemma serve_lifecycle_cases:
  assumes "serve_lifecycle lifecycleEnabled lifecycle rt request path s = Some (response, s')"
  obtains (closed) n op status header c where "map_of lifecycle_routes path = Some (n, op)" "s' = s" "error_reply header status c"
      "response = writeProtocolErrorVersion (lr_http request) header status n c"
    | (available) n op h where "map_of lifecycle_routes path = Some (n, op)" "lifecycleEnabled" "lifecycle = Some h"
      "n = 2 \<longrightarrow> v2Verifier h \<noteq> None" "n = 3 \<longrightarrow> v3Verifier h \<noteq> None" "Method (lr_http request) = ''POST''" "serve_available (lifecycle_parts n h) h rt request op s = (response, s')"
proof -
  obtain n op where r: "map_of lifecycle_routes path = Some (n, op)"
    using assms by (auto simp: serve_lifecycle_def Let_def split: option.splits)
  have "error_reply [(''Allow'', ''POST'')] 405 ErrorInvalidRequest" "error_reply [] 503 ErrorLifecycleUnavailable"
    by (simp_all add: error_reply_def error_table_def)
  note closed' = closed [OF r _ this(1)] closed [OF r _ this(2)] and available' = available [OF r]
  from routes_endpoint(2) [OF r] consider "n = 1" | "n = 2" | "n = 3" by auto
  then show ?thesis
  proof cases
    case 1
    with assms r show ?thesis
      by (auto simp: serve_lifecycle_def serveV1_def method_not_allowed_def lifecycle_parts_def
          split: if_splits option.splits intro: closed' available')
  next
    case 2
    with assms r show ?thesis
      by (auto simp: serve_lifecycle_def serveV2_def method_not_allowed_def lifecycle_parts_def supportsV2_def
          split: if_splits option.splits intro: closed' available')
  next
    case 3
    with assms r show ?thesis
      by (auto simp: serve_lifecycle_def serveV3_def method_not_allowed_def lifecycle_parts_def supportsV3_def
          split: if_splits option.splits intro: closed' available')
  qed
qed


subsection \<open>Authenticated operations\<close>

text \<open>
  The request is addressed to the route of the operation and carries a signature, made for
  this protocol version with a key of the actor, over this body.
\<close>

definition operation_authenticated :: "externals \<Rightarrow> RFC9421Verifier \<Rightarrow> int \<Rightarrow> nat \<Rightarrow> operation \<Rightarrow> http_request \<Rightarrow> string \<Rightarrow> string \<Rightarrow> bool" where
  "operation_authenticated X verifier now n op request body actor \<longleftrightarrow>
     validOperationTarget request (endpoint n op) \<and>
     (\<exists>message. parseRFC9421Message X request = Inr message \<and> profile_ok X verifier now (signature_tag n) request message \<and>
        digest_ok X request body \<and> signature_ok X verifier request message actor)"

text \<open>The body is a document of the version and operation that names the actor.\<close>

definition body_names :: "nat \<Rightarrow> operation \<Rightarrow> (string \<Rightarrow> string option) \<Rightarrow> int \<Rightarrow> string \<Rightarrow> verified \<Rightarrow> bool" where
  "body_names n op parseAddress bound body v \<longleftrightarrow>
     (if op = OperationRegister then
        (if n = 1 then \<exists>m. DecodeRegisterRequest body bound = Inr m \<and> vf_actor v = req_RelayActor m \<and>
                         vf_base v = req_PublicBaseURL m \<and> vf_telemetry v = None
         else \<exists>m. DecodeVersionedRegister n parseAddress body bound = Inr m \<and> vf_actor v = req_RelayActor m \<and>
                vf_base v = req_PublicBaseURL m \<and> vf_profile v = req_Profile m \<and> vf_telemetry v = req_Telemetry m)
      else if op = OperationHeartbeat then
        (if n = 1 then \<exists>m. DecodeHeartbeatRequest body bound = Inr m \<and> vf_actor v = req_RelayActor m \<and> vf_telemetry v = None
         else \<exists>m. DecodeVersionedHeartbeat n body bound = Inr m \<and> vf_actor v = req_RelayActor m \<and>
                vf_telemetry v = heartbeat_Intent m)
      else
        (if n = 1 then \<exists>m. DecodeUnregisterRequest body bound = Inr m \<and> vf_actor v = req_RelayActor m \<and> vf_telemetry v = None
         else \<exists>m. DecodeVersionedUnregister n body bound = Inr m \<and> vf_actor v = req_RelayActor m \<and> vf_telemetry v = None))"

lemma verify_decoded_Inr:
  assumes "verify_decoded k tag decoded path targetErr request body t = (Inr (m, ver), t')"
  shows "decoded = Inr m \<and> validOperationTarget request path \<and>
    verifyAndReserve k request body (req_RelayActor m) tag t = (Inr ver, t')"
  using assms by (auto simp: verify_decoded_def split: sum.splits if_splits prod.splits)

lemma signature_tag_1: "signature_tag 1 = RFC9421SignatureTag" "signature_tag (Suc 0) = RFC9421SignatureTag"
  by (simp_all add: signature_tag_def RFC9421SignatureTag_def digit_strings)

lemma verifyAndReserve_Inr:
  assumes "verifyAndReserve (core_of h rt verifier) request body actor tag t = (Inr ver, t')" and "authority verifier \<noteq> []"
  obtains message where "parseRFC9421Message (rt_externals rt) request = Inr message"
    "profile_ok (rt_externals rt) verifier (rt_verify_now rt) tag request message"
    "digest_ok (rt_externals rt) request body" "signature_ok (rt_externals rt) verifier request message actor"
    "ver_KeyID ver = KeyID (params message)" "ver_Nonce ver = Nonce (params message)"
    "ReserveRFC9421Replay (replayStore h) (rt_store_ctx rt) (rt_store_env rt)
       (DeriveRFC9421ReplayKey (sha256 (rt_externals rt)) (ver_KeyID ver) (ver_Nonce ver))
       (rt_verify_later rt + RFC9421ReplayTTL) (rt_store_now rt) t = (Inr True, t')"
proof -
  let ?X = "rt_externals rt"
  from assms(1) have ver: "VerifyPOSTWithTag ?X verifier (rt_verify_now rt) request body tag = Inr ver"
    and bind: "BindRelayActor ver actor = None"
    and res: "ReserveRFC9421Replay (replayStore h) (rt_store_ctx rt) (rt_store_env rt)
       (DeriveRFC9421ReplayKey (sha256 ?X) (ver_KeyID ver) (ver_Nonce ver))
       (rt_verify_later rt + RFC9421ReplayTTL) (rt_store_now rt) t = (Inr True, t')"
    by (auto simp: verifyAndReserve_def core_of_def VerifyPOSTAndReserveWithTag_def
        split: sum.splits option.splits prod.splits if_splits)
  obtain message where m: "parseRFC9421Message ?X request = Inr message"
    "profile_ok ?X verifier (rt_verify_now rt) tag request message"
    "digest_ok ?X request body" "verify_key ?X verifier request message = Inr ver"
    by (rule VerifyPOSTWithTag_Inr [OF ver assms(2)])
  note K = verify_key_Inr [OF m(4)]
  from bind have "KeyOwner ver = actor" by (auto simp: BindRelayActor_def split: if_splits)
  with m K res that show ?thesis by auto
qed

lemma operation_authenticatedI:
  assumes "verifyAndReserve (core_of h rt verifier) request body actor (signature_tag n) t = (Inr ver, t')"
    and "authority verifier \<noteq> []" "validOperationTarget request (endpoint n op)"
  shows "operation_authenticated (rt_externals rt) verifier (rt_verify_now rt) n op request body actor"
proof -
  obtain message where "parseRFC9421Message (rt_externals rt) request = Inr message"
    "profile_ok (rt_externals rt) verifier (rt_verify_now rt) (signature_tag n) request message"
    "digest_ok (rt_externals rt) request body" "signature_ok (rt_externals rt) verifier request message actor"
    by (rule verifyAndReserve_Inr [OF assms(1,2)])
  with assms(3) show ?thesis by (auto simp: operation_authenticated_def)
qed

lemma apfst_map_sum_Inr:
  "apfst (map_sum id f) out = (Inr v, t) \<Longrightarrow> \<exists>x. out = (Inr x, t) \<and> v = f x"
  by (cases out; cases "fst out") auto

lemmas paths = endpoint_def RegisterEndpointPath_def HeartbeatEndpointPath_def UnregisterEndpointPath_def

lemma part_verify_Inr:
  assumes "part_verify (lifecycle_parts n h) rt request body op t = (Inr v, t')"
    and n: "n \<in> {1, 2, 3}" and op: "Operation_Valid op" and auth: "authority (verifier_of n h) \<noteq> []"
  shows "body_names n op (rt_parseAddress rt) (maximumBodyBytes h) body v"
    and "operation_authenticated (rt_externals rt) (verifier_of n h) (rt_verify_now rt) n op request body (vf_actor v)"
proof -
  note D = verify_v1_def verify_v2_def verify_v3_def lifecycle_parts_def v1_parts_def v2_parts_def v3_parts_def verifier_of_def
    VerifyRegisterAndReserve_def VerifyHeartbeatAndReserve_def VerifyUnregisterAndReserve_def
    VerifyRegisterAndReserveV2_def VerifyHeartbeatAndReserveV2_def VerifyUnregisterAndReserveV2_def
    VerifyRegisterAndReserveV3_def VerifyHeartbeatAndReserveV3_def VerifyUnregisterAndReserveV3_def Let_def
  from n op consider "n = 1" "op = OperationRegister" | "n = 1" "op = OperationHeartbeat" | "n = 1" "op = OperationUnregister"
    | "n = 2" "op = OperationRegister" | "n = 2" "op = OperationHeartbeat" | "n = 2" "op = OperationUnregister"
    | "n = 3" "op = OperationRegister" | "n = 3" "op = OperationHeartbeat" | "n = 3" "op = OperationUnregister"
    by (auto simp: Operation_Valid_def)
  then have "body_names n op (rt_parseAddress rt) (maximumBodyBytes h) body v \<and>
    operation_authenticated (rt_externals rt) (verifier_of n h) (rt_verify_now rt) n op request body (vf_actor v)"
    using assms(1) auth
    by cases
      (auto simp: D body_names_def operation_defs paths signature_tag_1 [symmetric]
        DecodeRegisterRequestV2_def DecodeHeartbeatRequestV2_def DecodeUnregisterRequestV2_def
        DecodeRegisterRequestV3_def DecodeHeartbeatRequestV3_def DecodeUnregisterRequestV3_def
        dest!: apfst_map_sum_Inr verify_decoded_Inr intro!: operation_authenticatedI)
  then show "body_names n op (rt_parseAddress rt) (maximumBodyBytes h) body v"
    "operation_authenticated (rt_externals rt) (verifier_of n h) (rt_verify_now rt) n op request body (vf_actor v)" by auto
qed

subsection \<open>What the writes of an operation can change\<close>

text \<open>A history that grew by entries of one kind only.\<close>

definition grown :: "('e \<Rightarrow> bool) \<Rightarrow> 'e list \<Rightarrow> 'e list \<Rightarrow> bool" where
  "grown P xs ys \<longleftrightarrow> (\<exists>es. ys = xs @ es \<and> list_all P es)"

lemma grown_refl [simp]: "grown P xs xs"
  by (simp add: grown_def)

lemma grown_append [simp]: "grown P xs (xs @ es) \<longleftrightarrow> list_all P es"
  by (simp add: grown_def)

lemma grown_trans: "grown P xs ys \<Longrightarrow> grown P ys zs \<Longrightarrow> grown P xs zs"
  by (auto simp: grown_def)

definition only_core :: "string \<Rightarrow> db \<Rightarrow> db \<Rightarrow> bool" where
  "only_core a d d' \<longleftrightarrow>
     (\<forall>b. b \<noteq> a \<longrightarrow> map_of (relays d') b = map_of (relays d) b \<and>
        map_of (relay_observations d') b = map_of (relay_observations d) b) \<and>
     grown (\<lambda>e. event_actor e = a) (relay_events d) (relay_events d') \<and>
     moderation_events d' = moderation_events d \<and> directory_policy d' = directory_policy d \<and>
     enrollment_events d' = enrollment_events d \<and> relay_discoveries d' = relay_discoveries d \<and>
     discovery_events d' = discovery_events d"

definition only_actor :: "string \<Rightarrow> profile_db \<Rightarrow> profile_db \<Rightarrow> bool" where
  "only_actor a d d' \<longleftrightarrow> only_core a (core d) (core d') \<and>
     (\<forall>b. b \<noteq> a \<longrightarrow> map_of (telemetry d') b = map_of (telemetry d) b \<and>
        (\<forall>k f. map_of (profile_values d') (b, k, f) = map_of (profile_values d) (b, k, f))) \<and>
     grown (\<lambda>e. pe_actor e = a) (profile_events d) (profile_events d')"

lemma only_core_refl: "only_core a d d" by (simp add: only_core_def)

lemma only_actor_refl: "only_actor a d d" by (simp add: only_actor_def only_core_refl)

lemma only_core_trans: "only_core a d d1 \<Longrightarrow> only_core a d1 d2 \<Longrightarrow> only_core a d d2"
  unfolding only_core_def by (metis grown_trans)

lemma only_actor_trans: "only_actor a d d1 \<Longrightarrow> only_actor a d1 d2 \<Longrightarrow> only_actor a d d2"
  unfolding only_actor_def by (metis grown_trans only_core_trans)

lemma accept_relay_only: "only_core a d (accept_relay a r k t d)"
  by (simp add: only_core_def accept_relay_def log_relay_def put_verified_def put_relay_def)

lemma log_relay_only: "only_core a d (log_relay a k t d)" "only_core a d (log_relay a k t (put_verified a t d))"
  by (simp_all add: only_core_def log_relay_def put_verified_def)

lemma effect_only:
  assumes "effect sop d d'"
    and "sop = OpRegister i t \<and> reg_actor i = a \<or> sop = OpHeartbeat a t \<or> sop = OpUnregister a t"
  shows "only_core a d d'"
  using assms by cases (auto simp: only_core_refl accept_relay_only log_relay_only split: if_splits)

lemma outcome_error_eq: "snd (outcome_error out) = snd out" "fst (outcome_error out) = None \<longleftrightarrow> isOk (fst out)"
  by (auto simp: outcome_error_def split: sum.splits)

lemma persist_only:
  assumes "persist env op a base t d = (r, d')" and ok: "db_ok d"
  shows "only_core a d d' \<and> db_ok d' \<and> (\<not> isOk r \<longrightarrow> d' = d)"
proof -
  have store: "only_core a d (snd (apply_op env sop d)) \<and> db_ok (snd (apply_op env sop d)) \<and>
      (fst (apply_op env sop d) \<noteq> None \<longrightarrow> snd (apply_op env sop d) = d)"
    if "sop = OpRegister i t \<and> reg_actor i = a \<or> sop = OpHeartbeat a t \<or> sop = OpUnregister a t" for sop i
    using effect_only [OF apply_op_effect [OF ok] that] effect_ok [OF apply_op_effect [OF ok] ok] apply_op_error_unchanged by blast
  show ?thesis
    using assms(1) store [of "OpRegister \<lparr>reg_actor = a, reg_base = base\<rparr> t"] store [of "OpHeartbeat a t"]
      store [of "OpUnregister a t"] ok
    by (auto simp: persist_def outcome_error_def only_core_refl split: if_splits sum.splits)
qed

lemma ReplaceProfileSource_only:
  assumes "ReplaceProfileSource env parseAddress intent t d = (r, d')"
  shows "only_actor (profile_actor intent) d d' \<and> core d' = core d \<and> (\<not> isOk r \<longrightarrow> d' = d)"
proof (cases r)
  case (Inl e)
  from assms Inl have "d' = d"
    by (auto simp: ReplaceProfileSource_def split: if_splits sum.splits dest: run_tx_failed)
  then show ?thesis by (simp add: only_actor_refl)
next
  case (Inr summary)
  obtain source profile revisions where d': "d' = fold (field_applied (profile_actor intent) source profile t
      (source_values d (profile_actor intent) (Kind source)) revisions) ProfileFields d"
    by (rule ReplaceProfileSource_effect [OF assms [unfolded Inr]])
  let ?cur = "source_values d (profile_actor intent) (Kind source)"
  have "map_of (profile_values d') (b, k, f) = map_of (profile_values d) (b, k, f)" if "b \<noteq> profile_actor intent" for b k f
    unfolding d' using that by (subst fold_applied_values) (simp_all add: source_values_def)
  moreover have "profile_events d' = profile_events d @ map (\<lambda>f. field_event (profile_actor intent) source f
      (encodeProfileField profile f) (revisions f + 1) t) (filter (field_changed source profile ?cur) ProfileFields)"
    unfolding d' by (rule fold_applied_events)
  moreover have "core d' = core d" "telemetry d' = telemetry d"
    unfolding d' by (rule fold_applied_core, rule fold_applied_telemetry)
  ultimately show ?thesis by (auto simp: only_actor_def only_core_refl field_event_def list_all_iff Inr)
qed

lemma upsert_telemetry_only:
  "upsert_telemetry a fresh conflict d = Some d' \<Longrightarrow> only_actor a d d' \<and> core d' = core d"
  by (auto simp: upsert_telemetry_def only_actor_def only_core_refl split: if_splits option.splits)

definition telemetry_replacer :: "(bool \<Rightarrow> TelemetryIntent \<Rightarrow> int \<Rightarrow> profile_db \<Rightarrow> goerror option \<times> profile_db) \<Rightarrow> bool" where
  "telemetry_replacer f \<longleftrightarrow> f = ReplaceRelayTelemetry \<or> f = ReplaceRelayParticipatingTelemetry"

lemma telemetry_only:
  assumes "telemetry_replacer f" "f fault intent t d = (r, d')"
  shows "only_actor (telemetry_actor intent) d d' \<and> core d' = core d \<and> (r \<noteq> None \<longrightarrow> d' = d)"
  using assms
  by (auto simp: telemetry_replacer_def ReplaceRelayTelemetry_def ReplaceRelayParticipatingTelemetry_def telemetry_write_def
      only_actor_refl dest: upsert_telemetry_only split: option.splits if_splits)

lemma persist_core_only:
  assumes "persist_core rt op v d = (r, d')" "db_ok (core d)"
  shows "only_actor (vf_actor v) d d' \<and> db_ok (core d') \<and> (\<not> isOk r \<longrightarrow> d' = d)"
  using assms persist_only [of "rt_persist_env rt" op "vf_actor v" "vf_base v" "rt_accepted rt" "core d"]
  by (auto simp: persist_core_def only_actor_def split: prod.splits)

lemma persist_profile_only:
  assumes "persist_profile rt op v d = (r, d')" "db_ok (core d)"
  shows "only_actor (vf_actor v) d d' \<and> (\<not> isOk (fst (persist_core rt op v d)) \<longrightarrow> d' = d) \<and>
    core d' = core (snd (persist_core rt op v d))"
proof -
  obtain r1 d1 where p: "persist_core rt op v d = (r1, d1)" by fastforce
  note P = persist_core_only [OF p assms(2)]
  obtain r2 d2 where q: "ReplaceProfileSource (rt_profile_env rt) (rt_parseAddress rt)
      \<lparr>profile_actor = vf_actor v, profile_source = \<lparr>Kind = ProfileSourceRelay, SourceLabel = [], SourceURL = []\<rparr>,
       profile_claim = vf_profile v\<rparr> (rt_accepted rt) d1 = (r2, d2)" by fastforce
  note Q = ReplaceProfileSource_only [OF q]
  show ?thesis
    using assms(1) P Q p q by (cases r1; cases r2) (auto simp: persist_profile_def intro: only_actor_trans split: if_splits)
qed

lemma persist_telemetry_only:
  assumes "persist_telemetry available f rt op v d = (r, d')" "db_ok (core d)" "telemetry_replacer f"
  shows "only_actor (vf_actor v) d d' \<and> (\<not> isOk (fst (persist_core rt op v d)) \<longrightarrow> d' = d) \<and>
    core d' = core (snd (persist_core rt op v d))"
proof -
  obtain r1 d1 where p: "persist_profile rt op v d = (r1, d1)" by fastforce
  note P = persist_profile_only [OF p assms(2)]
  have E: "\<exists>e. r1 = Inl e" if "\<not> isOk (fst (persist_core rt op v d))"
    using p that by (cases "persist_core rt op v d"; cases "fst (persist_core rt op v d)") (auto simp: persist_profile_def)
  have T: "only_actor (vf_actor v) d1 d2 \<and> core d2 = core d1"
    if "f fault (i\<lparr>telemetry_actor := vf_actor v\<rparr>) t d1 = (x, d2)" for fault i t x d2
    using telemetry_only [OF assms(3) that] by simp
  show ?thesis
  proof (cases r1)
    case (Inl e)
    with assms(1) p P show ?thesis by (auto simp: persist_telemetry_def)
  next
    case (Inr oc)
    with E have ok: "isOk (fst (persist_core rt op v d))" by auto
    from assms(1) p Inr have "d' = d1 \<or> (\<exists>fault i t x. f fault (i\<lparr>telemetry_actor := vf_actor v\<rparr>) t d1 = (x, d'))"
      by (auto simp: persist_telemetry_def split: option.splits if_splits prod.splits)
    with T P ok show ?thesis by (metis only_actor_trans)
  qed
qed

subsection \<open>Outcomes\<close>

lemma run_tx_Inr:
  assumes "run_tx env t d = (Inr x, d')" "fault_tolerant t"
  shows "run_tx calm t d = (Inr x, d')"
  using run_tx_tolerant [OF assms(2), of d env] assms(1) by (auto simp: interrupted_def)

lemma persist_Inr:
  assumes "persist env op a base t d = (Inr oc, d')" and ok: "db_ok d"
  shows "0 \<le> t \<and>
    (op = OperationRegister \<and> register_spec \<lparr>reg_actor = a, reg_base = base\<rparr> t d = (Inr oc, d') \<or>
     op = OperationHeartbeat \<and> heartbeat_spec a t d = (Inr oc, d') \<or>
     op = OperationUnregister \<and> unregister_spec a t d = (Inr oc, d'))"
  using assms(1) register_calm [OF ok] heartbeat_calm [OF ok] unregister_calm [OF ok]
  by (auto simp: persist_def Register_def Heartbeat_def Unregister_def transitionUnix_def
      dest: run_tx_Inr [OF _ register_tolerant] run_tx_Inr [OF _ heartbeat_tolerant] run_tx_Inr [OF _ unregister_tolerant]
      split: if_splits option.splits sum.splits)

text \<open>What a client may conclude from the answer to its operation.\<close>

definition operation_effect :: "operation \<Rightarrow> outcome \<Rightarrow> string \<Rightarrow> string \<Rightarrow> int \<Rightarrow> db \<Rightarrow> bool" where
  "operation_effect op oc actor base t d \<longleftrightarrow>
     (if op = OperationUnregister then \<not> is_registered (map_of (relays d) actor)
      else \<exists>r. map_of (relays d) actor = Some r \<and> lifecycle_state r = Registered \<and> administrative_state r = Active \<and>
             last_seen_at r = t \<and> (oc = OutcomeCreated \<or> oc = OutcomeUpdated \<longrightarrow> public_base_url r = base))"

lemma persist_effect:
  assumes "persist env op a base t d = (Inr oc, d')" and ok: "db_ok d"
  shows "Outcome_ValidFor oc op \<and> operation_effect op oc a base t d'"
  using persist_Inr [OF assms]
proof (elim conjE disjE)
  assume op: "op = OperationRegister" and spec: "register_spec \<lparr>reg_actor = a, reg_base = base\<rparr> t d = (Inr oc, d')"
  have active: "administrative_state r \<noteq> Suspended \<Longrightarrow> administrative_state r = Active" for r :: relay_row
    by (cases "administrative_state r") auto
  from spec op active show ?thesis
    by (auto simp: register_spec_def Outcome_ValidFor_def operation_effect_def operation_defs outcome_defs register_new_row_def
        seen_row_def reregister_row_def split: option.splits if_splits)
next
  assume op: "op = OperationHeartbeat" and spec: "heartbeat_spec a t d = (Inr oc, d')"
  have active: "administrative_state r \<noteq> Suspended \<Longrightarrow> administrative_state r = Active" for r :: relay_row
    by (cases "administrative_state r") auto
  from spec op active show ?thesis
    by (auto simp: heartbeat_spec_def Outcome_ValidFor_def operation_effect_def operation_defs outcome_defs
        seen_row_def split: option.splits if_splits)
next
  assume op: "op = OperationUnregister" and spec: "unregister_spec a t d = (Inr oc, d')"
  from spec op show ?thesis
    by (auto simp: unregister_spec_def Outcome_ValidFor_def operation_effect_def operation_defs outcome_defs
        unregistered_row_def is_registered_def split: option.splits if_splits)
qed

lemma persist_telemetry_Inr:
  assumes "persist_telemetry available f rt op v d = (Inr oc, d')" "telemetry_replacer f" "db_ok (core d)"
  shows "fst (persist_core rt op v d) = Inr oc"
    and "op = OperationRegister \<Longrightarrow> \<exists>profile. NormalizeRelayProfile (rt_parseAddress rt) (vf_profile v) = Inr profile \<and>
      (\<forall>g. map_option value_json (map_of (profile_values d') (vf_actor v, ProfileSourceRelay, g)) = encodeProfileField profile g)"
proof -
  obtain r1 d1 where p: "persist_profile rt op v d = (r1, d1)" by fastforce
  with assms(1) have r1: "r1 = Inr oc"
    by (cases r1) (auto simp: persist_telemetry_def split: option.splits if_splits prod.splits)
  with p show "fst (persist_core rt op v d) = Inr oc"
    by (auto simp: persist_profile_def split: prod.splits sum.splits if_splits)
  assume op: "op = OperationRegister"
  let ?intent = "\<lparr>profile_actor = vf_actor v, profile_source = \<lparr>Kind = ProfileSourceRelay, SourceLabel = [], SourceURL = []\<rparr>,
       profile_claim = vf_profile v\<rparr>"
  obtain d0 summary where q: "ReplaceProfileSource (rt_profile_env rt) (rt_parseAddress rt) ?intent (rt_accepted rt) d0 = (Inr summary, d1)"
    using p r1 op by (auto simp: persist_profile_def split: prod.splits sum.splits)
  obtain source profile revisions where s: "NormalizeProfileSource (profile_source ?intent) = Inr source"
    "NormalizeRelayProfile (rt_parseAddress rt) (profile_claim ?intent) = Inr profile"
    and d1: "d1 = fold (field_applied (profile_actor ?intent) source profile (rt_accepted rt)
      (source_values d0 (profile_actor ?intent) (Kind source)) revisions) ProfileFields d0"
    by (rule ReplaceProfileSource_effect [OF q])
  have k: "Kind source = ProfileSourceRelay" using NormalizeProfileSource_Kind [OF s(1)] by simp
  have vals: "map_of (profile_values d1) (vf_actor v, ProfileSourceRelay, g) =
      field_target source profile (rt_accepted rt) (source_values d0 (vf_actor v) ProfileSourceRelay) revisions g" for g
    unfolding d1 by (subst fold_applied_values) (simp_all add: k source_values_def)
  have tele: "profile_values d2 = profile_values d1" if "f fault i t d1 = (x, d2)" for fault i t x d2
    using that assms(2)
    by (auto simp: telemetry_replacer_def ReplaceRelayTelemetry_def ReplaceRelayParticipatingTelemetry_def telemetry_write_def
        upsert_telemetry_def split: option.splits if_splits)
  have "profile_values d' = profile_values d1"
    using assms(1) p r1 by (auto simp: persist_telemetry_def dest: tele split: option.splits if_splits prod.splits)
  with vals s(2) show "\<exists>profile. NormalizeRelayProfile (rt_parseAddress rt) (vf_profile v) = Inr profile \<and>
      (\<forall>g. map_option value_json (map_of (profile_values d') (vf_actor v, ProfileSourceRelay, g)) = encodeProfileField profile g)"
    by (auto simp: field_target_json)
qed

end
