(* ===== verification/ProtocolRun.thy ===== *)
theory ProtocolRun
  imports Protocol
begin

section \<open>Requests on the wire\<close>

text \<open>
  The round trip of version 1 requests through their JSON documents.
\<close>

subsection \<open>Round trip\<close>

text \<open>The document a client marshals for a request: the JSON tags of the structs in their order.\<close>

definition identity_members :: "'r IdentityRequest_scheme \<Rightarrow> (string \<times> json) list" where
  "identity_members r = [(''protocol_version'', JNum (itoa (nat (req_ProtocolVersion r)))), (''operation'', JStr (req_Operation r)),
     (''relay_actor'', JStr (req_RelayActor r))]"

definition marshal_identity :: "IdentityRequest \<Rightarrow> string" where
  "marshal_identity r = print_json (JObj (identity_members r))"

definition marshal_register :: "RegisterRequest \<Rightarrow> string" where
  "marshal_register r = print_json (JObj (identity_members r @ [(''public_base_url'', JStr (req_PublicBaseURL r))]))"

lemma ParseInt_itoa: "int n < 2 ^ 63 \<Longrightarrow> ParseInt (itoa n) = Some (int n)"
proof -
  assume n: "int n < 2 ^ 63"
  obtain c cs where c: "itoa n = c # cs" "is_digit c" using itoa_digits [of n] by (cases "itoa n") auto
  then have "c \<noteq> CHR ''-''" by (auto simp: is_digit_def code_def)
  with c n itoa_digits [of n] decimal_value_itoa [of n] show ?thesis
    by (simp add: ParseInt_def Let_def del: decimal_value_itoa)
qed

lemma foldName_ascii: "list_all (\<lambda>c. code c < 128 \<and> \<not> is_upper c) s \<Longrightarrow> foldName s = s"
  by (induction s rule: foldName.induct) (auto simp: bytes_def to_lower_def code_def)

lemma fold_names:
  "foldName ''protocol_version'' = ''protocol_version''" "foldName ''operation'' = ''operation''"
  "foldName ''relay_actor'' = ''relay_actor''" "foldName ''public_base_url'' = ''public_base_url''"
  by (rule foldName_ascii, simp add: is_upper_def code_def)+

lemma valid_names:
  "ValidString ''protocol_version''" "ValidString ''operation''" "ValidString ''relay_actor''" "ValidString ''public_base_url''"
  by (simp_all add: ValidString_def runes.simps code_def)

lemma assign_identity:
  assumes "req_ProtocolVersion m = int n" "n < 10"
  shows "assign_members identity_fields (identity_members m) r =
    Some (r\<lparr>req_ProtocolVersion := req_ProtocolVersion m, req_Operation := req_Operation m, req_RelayActor := req_RelayActor m\<rparr>)"
  using assms ParseInt_itoa [of n]
  by (simp add: identity_members_def fold_names identity_fields_def into_int_def into_string_def del: foldName.simps)

lemma assign_register:
  assumes "req_ProtocolVersion m = int n" "n < 10"
  shows "assign_members register_fields (identity_members m @ [(''public_base_url'', JStr b)]) r =
    Some (r\<lparr>req_ProtocolVersion := req_ProtocolVersion m, req_Operation := req_Operation m, req_RelayActor := req_RelayActor m,
             req_PublicBaseURL := b\<rparr>)"
  using assms ParseInt_itoa [of n]
  by (simp add: identity_members_def fold_names register_fields_def identity_fields_def into_int_def into_string_def del: foldName.simps)

lemma identity_document_ok:
  "ValidString (req_Operation m) \<Longrightarrow> ValidString (req_RelayActor m) \<Longrightarrow> list_all (\<lambda>m. ValidString (fst m) \<and> json_ok (snd m)) (identity_members m)"
  by (simp add: identity_members_def valid_names)

lemma operation_valid_strings: "ValidString OperationRegister" "ValidString OperationHeartbeat" "ValidString OperationUnregister"
  by (simp_all add: operation_defs ValidString_def runes.simps code_def)

lemma decode_register_marshal:
  assumes "0 < bound" "bound \<le> MaximumRegisterBodyBytes" "ValidString actor" "ValidString base" "canonical_identity actor base"
    and r: "r = \<lparr>req_ProtocolVersion = 1, req_Operation = OperationRegister, req_RelayActor = actor, req_PublicBaseURL = base\<rparr>"
    and "int (length (marshal_register r)) \<le> bound"
  shows "DecodeRegisterRequest (marshal_register r) bound = Inr r"
proof -
  let ?ms = "identity_members r @ [(''public_base_url'', JStr base)]"
  have "json_ok (JObj ?ms)" using identity_document_ok [of r] assms(3,4) r operation_valid_strings by (simp add: valid_names)
  from parse_print [OF this] have parsed: "parse_document (marshal_register r) = Some (JObj ?ms)"
    by (simp add: marshal_register_def r del: print_json.simps)
  have "assign_members register_fields ?ms zero_register = Some r"
    using assign_register [of r 1 base zero_register] by (simp add: r zero_register_def del: assign_members.simps)
  moreover have "top_level_names_ok (JObj ?ms)" by (simp add: top_level_names_ok_def identity_members_def)
  ultimately have "decodeStrictJSONObject register_fields zero_register (marshal_register r) = Some r"
    using parsed by (simp add: decodeStrictJSONObject_def into_struct_def del: assign_members.simps)
  with assms(1,2,5,7) show ?thesis by (simp add: DecodeRegisterRequest_def r canonical_identity_def)
qed

lemma decode_identity_marshal:
  assumes "0 < bound" "bound \<le> protocolMaximum" "ValidString actor" "ValidString op" "NormalizeRelayActorURL actor = Inr actor"
    and i: "i = \<lparr>req_ProtocolVersion = 1, req_Operation = op, req_RelayActor = actor\<rparr>"
    and "int (length (marshal_identity i)) \<le> bound"
  shows "decodeIdentityRequest decodeStrictJSONObject 1 (marshal_identity i) bound protocolMaximum op e1 e2 e3 e4 = Inr i"
proof -
  let ?ms = "identity_members i"
  have "json_ok (JObj ?ms)" using identity_document_ok [of i] assms(3,4) i by simp
  from parse_print [OF this] have parsed: "parse_document (marshal_identity i) = Some (JObj ?ms)"
    by (simp add: marshal_identity_def del: print_json.simps)
  have "assign_members identity_fields ?ms zero_identity = Some i"
    using assign_identity [of i 1 zero_identity] by (simp add: i zero_identity_def del: assign_members.simps)
  moreover have "top_level_names_ok (JObj ?ms)" by (simp add: top_level_names_ok_def identity_members_def)
  ultimately have "decodeStrictJSONObject identity_fields zero_identity (marshal_identity i) = Some i"
    using parsed by (simp add: decodeStrictJSONObject_def into_struct_def del: assign_members.simps)
  with assms(1,2,5,7) show ?thesis by (simp add: decodeIdentityRequest_def i)
qed

text \<open>C35: what a client says is what the directory hears: every version 1 register, heartbeat and unregister
  request for a canonical identity, marshalled as its JSON document within the configured
  limit, is decoded to exactly that request.\<close>

theorem request_roundtrip:
  assumes "0 < bound" "bound \<le> MaximumRegisterBodyBytes" "ValidString actor" "ValidString base" "canonical_identity actor base"
    and "r = \<lparr>req_ProtocolVersion = 1, req_Operation = OperationRegister, req_RelayActor = actor, req_PublicBaseURL = base\<rparr>"
    and "i = (\<lambda>op. \<lparr>req_ProtocolVersion = 1, req_Operation = op, req_RelayActor = actor\<rparr>)"
    and "int (length (marshal_register r)) \<le> bound" "int (length (marshal_identity (i OperationHeartbeat))) \<le> bound"
      "int (length (marshal_identity (i OperationUnregister))) \<le> bound"
  shows "DecodeRegisterRequest (marshal_register r) bound = Inr r \<and>
    DecodeHeartbeatRequest (marshal_identity (i OperationHeartbeat)) bound = Inr (i OperationHeartbeat) \<and>
    DecodeUnregisterRequest (marshal_identity (i OperationUnregister)) bound = Inr (i OperationUnregister)"
  using decode_register_marshal [OF assms(1-6,8)]
    decode_identity_marshal [OF assms(1) _ assms(3) operation_valid_strings(2) canonical_identity_actor [OF assms(5)] _ assms(9)]
    decode_identity_marshal [OF assms(1) _ assms(3) operation_valid_strings(3) canonical_identity_actor [OF assms(5)] _ assms(10)]
    assms(2)
  by (simp add: DecodeHeartbeatRequest_def DecodeUnregisterRequest_def MaximumHeartbeatBodyBytes_def
      MaximumUnregisterBodyBytes_def assms(7))

lemma json_escape_safe: "list_all html_safe s \<Longrightarrow> json_escape s = s"
proof (induction s)
  case (Cons c s)
  then show ?case by (simp add: json_escape_ascii html_safe_def)
qed (simp add: json_escape.simps)

definition sample_register :: RegisterRequest where
  "sample_register = \<lparr>req_ProtocolVersion = 1, req_Operation = OperationRegister, req_RelayActor = sample_actor,
     req_PublicBaseURL = sample_base\<rparr>"

lemma sample_valid_strings: "ValidString sample_actor" "ValidString sample_base"
  by (simp_all add: sample_actor_def sample_base_def ValidString_def runes.simps code_def)

lemma sample_lengths:
  "length (marshal_register sample_register) \<le> 1000"
  "op \<in> {OperationHeartbeat, OperationUnregister} \<Longrightarrow>
   length (marshal_identity \<lparr>req_ProtocolVersion = 1, req_Operation = op, req_RelayActor = sample_actor\<rparr>) \<le> 1000"
  by (auto simp: marshal_register_def marshal_identity_def identity_members_def sample_register_def join_with_def marshal_string_def
      json_escape_safe html_safe_def code_def operation_defs sample_actor_def sample_base_def itoa.simps)

theorem request_roundtrip_witness:
  "DecodeRegisterRequest (marshal_register sample_register) 65536 = Inr sample_register \<and>
   DecodeHeartbeatRequest (marshal_identity \<lparr>req_ProtocolVersion = 1, req_Operation = OperationHeartbeat, req_RelayActor = sample_actor\<rparr>) 65536 =
     Inr \<lparr>req_ProtocolVersion = 1, req_Operation = OperationHeartbeat, req_RelayActor = sample_actor\<rparr>"
  using request_roundtrip [of 65536 sample_actor sample_base sample_register
      "\<lambda>op. \<lparr>req_ProtocolVersion = 1, req_Operation = op, req_RelayActor = sample_actor\<rparr>"]
    sample_valid_strings sample_identity sample_lengths(1) sample_lengths(2) [of OperationHeartbeat]
    sample_lengths(2) [of OperationUnregister]
  by (simp add: MaximumRegisterBodyBytes_def sample_register_def)

end
