(* ===== verification/LifecycleProps.thy ===== *)
theory LifecycleProps
  imports LifecycleRun ProtocolRun
begin

section \<open>Properties of the lifecycle service\<close>

text \<open>
  The end-to-end guarantees of the nine lifecycle routes: authentication of every write, the
  meaning of success and error replies, the use of the limiter, and the closed vocabulary of
  replies.
\<close>

subsection \<open>Properties\<close>

text \<open>The verifiers of the handler have an authority, as \<open>NewRFC9421Verifier\<close> guarantees.\<close>

definition handler_ok :: "LifecycleHandler \<Rightarrow> bool" where
  "handler_ok h \<longleftrightarrow> authority (lh_verifier h) \<noteq> [] \<and> pred_option (\<lambda>v. authority v \<noteq> []) (v2Verifier h) \<and>
     pred_option (\<lambda>v. authority v \<noteq> []) (v3Verifier h)"

lemma NewRFC9421Verifier_authority: "NewRFC9421Verifier a resolver = Inr v \<Longrightarrow> authority v \<noteq> []"
  by (auto simp: NewRFC9421Verifier_def split: if_splits sum.splits option.splits)

lemma handler_ok_verifier:
  "handler_ok h \<Longrightarrow> n \<in> {1, 2, 3} \<Longrightarrow> (n = 2 \<longrightarrow> v2Verifier h \<noteq> None) \<Longrightarrow> (n = 3 \<longrightarrow> v3Verifier h \<noteq> None) \<Longrightarrow>
   authority (verifier_of n h) \<noteq> []"
  by (auto simp: handler_ok_def verifier_of_def)

text \<open>The performed operations of the three versions.\<close>

lemma part_write_only:
  assumes "part_write (lifecycle_parts n h) rt op v d = (r, d')" "db_ok (core d)"
  shows "only_actor (vf_actor v) d d' \<and> (\<not> isOk (fst (persist_core rt op v d)) \<longrightarrow> d' = d) \<and>
    core d' = core (snd (persist_core rt op v d)) \<and> (n = 1 \<longrightarrow> (r, d') = persist_core rt op v d)"
proof (cases "n = 1")
  case True
  with assms persist_core_only [OF _ assms(2), of rt op v r d'] show ?thesis
    by (auto simp: lifecycle_parts_def v1_parts_def)
next
  case False
  with assms(1) obtain available f where "persist_telemetry available f rt op v d = (r, d')" "telemetry_replacer f"
    by (auto simp: lifecycle_parts_def v2_parts_def v3_parts_def telemetry_replacer_def split: if_splits)
  with False persist_telemetry_only [OF this(1) assms(2) this(2)] show ?thesis by simp
qed

lemma part_write_Inr:
  assumes "part_write (lifecycle_parts n h) rt op v d = (Inr oc, d')" "db_ok (core d)"
  shows "Outcome_ValidFor oc op" "operation_effect op oc (vf_actor v) (vf_base v) (rt_accepted rt) (core d')"
    "fst (persist_core rt op v d) = Inr oc"
    "n \<noteq> 1 \<Longrightarrow> op = OperationRegister \<Longrightarrow> \<exists>profile. NormalizeRelayProfile (rt_parseAddress rt) (vf_profile v) = Inr profile \<and>
      (\<forall>g. map_option value_json (map_of (profile_values d') (vf_actor v, ProfileSourceRelay, g)) = encodeProfileField profile g)"
proof -
  have parts: "n \<noteq> 1 \<Longrightarrow> \<exists>available f. persist_telemetry available f rt op v d = (Inr oc, d') \<and> telemetry_replacer f"
    using assms(1) by (auto simp: lifecycle_parts_def v2_parts_def v3_parts_def telemetry_replacer_def split: if_splits)
  show core: "fst (persist_core rt op v d) = Inr oc"
  proof (cases "n = 1")
    case True
    with assms(1) show ?thesis by (simp add: lifecycle_parts_def v1_parts_def)
  next
    case False
    with parts persist_telemetry_Inr(1) [OF _ _ assms(2)] show ?thesis by blast
  qed
  have "persist (rt_persist_env rt) op (vf_actor v) (vf_base v) (rt_accepted rt) (core d) = (Inr oc, core d')"
    using core part_write_only [OF assms] by (auto simp: persist_core_def split: prod.splits)
  from persist_effect [OF this assms(2)]
  show "Outcome_ValidFor oc op" "operation_effect op oc (vf_actor v) (vf_base v) (rt_accepted rt) (core d')" by auto
  assume "n \<noteq> 1" "op = OperationRegister"
  with parts persist_telemetry_Inr(2) [OF _ _ assms(2)]
  show "\<exists>profile. NormalizeRelayProfile (rt_parseAddress rt) (vf_profile v) = Inr profile \<and>
      (\<forall>g. map_option value_json (map_of (profile_values d') (vf_actor v, ProfileSourceRelay, g)) = encodeProfileField profile g)"
    by blast
qed

lemma part_error_reply:
  assumes "n \<in> {1, 2, 3}"
  obtains status c where "part_error (lifecycle_parts n h) req e = writeProtocolErrorVersion req [] status n c" "error_reply [] status c"
proof -
  have "\<exists>own extra. part_error (lifecycle_parts n h) req e =
      (case lifecycle_status own extra e of (status, c) \<Rightarrow> writeProtocolErrorVersion req [] status n c)"
    using assms by (auto simp: lifecycle_parts_def v1_parts_def v2_parts_def v3_parts_def writeLifecycleError_def
        writeLifecycleV2Error_def writeLifecycleV3Error_def)
  then obtain own extra where o: "part_error (lifecycle_parts n h) req e =
      (case lifecycle_status own extra e of (status, c) \<Rightarrow> writeProtocolErrorVersion req [] status n c)" by blast
  show ?thesis
    using that o error_reply_plain lifecycle_status_table [of own extra e] by (cases "lifecycle_status own extra e") auto
qed

lemma part_error_status: "n \<in> {1, 2, 3} \<Longrightarrow> 400 \<le> resp_status (part_error (lifecycle_parts n h) req e)"
  by (rule part_error_reply [of n h req e]) (auto dest: error_reply_status simp: writeProtocolErrorVersion_def writeJSON_def)

lemma lifecycle_parts_version: "n \<in> {1, 2, 3} \<Longrightarrow> part_version (lifecycle_parts n h) = n"
  by (auto simp: lifecycle_parts_def v1_parts_def v2_parts_def v3_parts_def)

text \<open>An operation that reached the store, with everything that was checked before.\<close>

definition operation_performed :: "LifecycleHandler \<Rightarrow> runtime \<Rightarrow> lifecycle_request \<Rightarrow> nat \<Rightarrow> operation \<Rightarrow> verified \<Rightarrow> bool" where
  "operation_performed h rt request n op v \<longleftrightarrow> (\<exists>body. readBoundedBody request (maximumBodyBytes h) = Inr body \<and>
     int (length body) \<le> maximumBodyBytes h \<and> body_names n op (rt_parseAddress rt) (maximumBodyBytes h) body v \<and>
     operation_authenticated (rt_externals rt) (verifier_of n h) (rt_verify_now rt) n op (lr_http request) body (vf_actor v))"

lemma readBoundedBody_length: "readBoundedBody request bound = Inr body \<Longrightarrow> int (length body) \<le> bound"
  by (auto simp: readBoundedBody_def Let_def split: option.splits if_splits)

lemma serve_lifecycle_outcome:
  assumes "serve_lifecycle lifecycleEnabled lifecycle rt request path s = Some (response, s')"
    and "pred_option handler_ok lifecycle"
  obtains (refused) "svc_store s' = svc_store s" "400 \<le> resp_status response"
    | (performed) n op h v r where "map_of lifecycle_routes path = Some (n, op)" "lifecycleEnabled" "lifecycle = Some h"
      "operation_performed h rt request n op v" "part_write (lifecycle_parts n h) rt op v (svc_store s) = (r, svc_store s')"
      "response = (case r of Inl e \<Rightarrow> part_error (lifecycle_parts n h) (lr_http request) e
                   | Inr oc \<Rightarrow> respond n (lr_http request) op (vf_actor v) oc)"
  using assms(1)
proof (cases rule: serve_lifecycle_cases)
  case (closed n op status header c)
  then show ?thesis using refused error_reply_status by (auto simp: writeProtocolErrorVersion_def writeJSON_def)
next
  case (available n op h)
  note N = routes_endpoint(2,3) [OF available(1)]
  note auth = handler_ok_verifier [OF assms(2) [unfolded available(3) option.pred_inject] N(1) available(4,5)]
  from available(7) show ?thesis
  proof (cases rule: serve_available_cases)
    case refused
    then show ?thesis using that(1) part_error_status [OF N(1)] error_reply_status by (auto simp: writeProtocolErrorVersion_def writeJSON_def)
  next
    case (performed body v t r)
    have "operation_performed h rt request n op v"
      unfolding operation_performed_def
      using performed(1) readBoundedBody_length [OF performed(1)] part_verify_Inr [OF performed(2) N auth] by blast
    with that(2) [OF available(1-3)] performed(4,5) lifecycle_parts_version [OF N(1)] show ?thesis by metis
  qed
qed


text \<open>C4: only the holder of a relay's key writes about the relay: whatever the request, the clocks, the
  contexts and the faults, a lifecycle call either leaves the whole store as it was, or the
  service is enabled, the request is a bounded document of the route's version and operation
  that names one actor and is signed, for that version and over that body, with a key of that
  actor, and then every lifecycle, observation, profile and telemetry row of every other actor,
  the moderation, enrollment and discovery data are untouched and the histories grow by
  entries of that actor only.\<close>

theorem lifecycle_writes_authenticated:
  assumes "serve_lifecycle lifecycleEnabled lifecycle rt request path s = Some (response, s')"
    and "pred_option handler_ok lifecycle" and "db_ok (core (svc_store s))"
  shows "svc_store s' = svc_store s \<or>
    (\<exists>n op h v. map_of lifecycle_routes path = Some (n, op) \<and> lifecycleEnabled \<and> lifecycle = Some h \<and>
       operation_performed h rt request n op v \<and> only_actor (vf_actor v) (svc_store s) (svc_store s'))"
  using assms(1,2)
proof (cases rule: serve_lifecycle_outcome)
  case (performed n op h v r)
  with part_write_only [OF performed(5) assms(3)] show ?thesis by blast
qed simp

text \<open>C5: what the answer promises: a status below 400 is 200 or 201, carries the outcome of an
  authenticated operation of the route on the actor the request names, and the effect is
  stored: after a register or heartbeat the relay is registered, active and seen at the
  accepted time (with the submitted base URL when it was created or updated), after an
  unregister it is not registered, and after a register of version 2 or 3 the relay's own
  profile assertions are exactly the normalised profile of the request.\<close>

theorem accepted_response_effect:
  assumes "serve_lifecycle lifecycleEnabled lifecycle rt request path s = Some (response, s')"
    and "pred_option handler_ok lifecycle" and "db_ok (core (svc_store s))" and "resp_status response < 400"
  shows "\<exists>n op h v oc. map_of lifecycle_routes path = Some (n, op) \<and> lifecycle = Some h \<and>
    operation_performed h rt request n op v \<and> Outcome_ValidFor oc op \<and>
    resp_status response = (if oc = OutcomeCreated then 201 else 200) \<and>
    resp_body response = (if Method (lr_http request) = ''HEAD'' then None else Some (OperationResponse (int n) op oc (vf_actor v))) \<and>
    operation_effect op oc (vf_actor v) (vf_base v) (rt_accepted rt) (core (svc_store s')) \<and>
    (n \<noteq> 1 \<and> op = OperationRegister \<longrightarrow> (\<exists>profile. NormalizeRelayProfile (rt_parseAddress rt) (vf_profile v) = Inr profile \<and>
       (\<forall>g. map_option value_json (map_of (profile_values (svc_store s')) (vf_actor v, ProfileSourceRelay, g)) =
            encodeProfileField profile g)))"
  using assms(1,2)
proof (cases rule: serve_lifecycle_outcome)
  case (performed n op h v r)
  show ?thesis
  proof (cases r)
    case (Inl e)
    with performed(6) assms(4) part_error_status [OF routes_endpoint(2) [OF performed(1)], of h "lr_http request" e] show ?thesis by simp
  next
    case (Inr oc)
    note W = part_write_Inr [OF performed(5) [unfolded Inr] assms(3)]
    have resp: "response = writeJSON (lr_http request) [] (if oc = OutcomeCreated then 201 else 200) (OperationResponse (int n) op oc (vf_actor v))"
      using performed(6) W(1) by (simp add: Inr respond_def)
    with performed(1,3,4) W show ?thesis
      by (intro exI [of _ n] exI [of _ op] exI [of _ h] exI [of _ v] exI [of _ oc]) (simp add: writeJSON_def)
  qed
qed (use assms(4) in simp)


subsection \<open>The handler and its limiter\<close>

lemma AdmitSource_permit:
  "AdmitSource l ctx op source now = (l', Some p, res) \<Longrightarrow> result_Allowed res \<and> active p"
  by (auto simp: AdmitSource_def Let_def split: if_splits prod.splits)

lemma AdmitActor_active: "AdmitActor l p ctx op actor now = (l', p', res) \<Longrightarrow> active p' = active p"
  by (auto simp: AdmitActor_def Let_def split: if_splits prod.splits)

lemma serve_admitted_limiter:
  assumes "serve_admitted parts h rt request op p s = (response, p', s')"
  shows "svc_limiter s' = svc_limiter s \<and> p' = p \<or>
    (\<exists>actor res. AdmitActor (svc_limiter s) p (rt_actor_ctx rt) op actor (rt_actor_now rt) = (svc_limiter s', p', res))"
  using assms
  by (auto simp: serve_admitted_def Let_def split: sum.splits prod.splits if_splits)

text \<open>The limiter calls of one handler call, on the permits handed out so far.\<close>

definition handler_calls :: "nat \<Rightarrow> operation \<Rightarrow> call list \<Rightarrow> bool" where
  "handler_calls i op cs \<longleftrightarrow> cs = [] \<or> (\<exists>ctx source now. cs = [CallSource ctx op source now] \<or>
     cs = [CallSource ctx op source now, CallRelease i] \<or>
     (\<exists>ctx' actor now'. cs = [CallSource ctx op source now, CallActor i ctx' op actor now', CallRelease i]))"

lemma serve_available_limiter:
  assumes "serve_available parts h rt request op s = (response, s')" "lim \<sigma> = svc_limiter s"
  shows "\<exists>cs. handler_calls (length (permits \<sigma>)) op cs \<and> lim (foldl run_step \<sigma> cs) = svc_limiter s' \<and>
    active_permits (foldl run_step \<sigma> cs) = active_permits \<sigma>"
proof (cases "resolve_source (sourceResolver h) (lr_RemoteAddr request) (Values (lr_http request) ''X-Real-IP'')")
  case (Inl e)
  with assms have "svc_limiter s' = svc_limiter s" by (auto simp: serve_available_def Let_def)
  with assms(2) show ?thesis by (intro exI [of _ "[]"]) (simp add: handler_calls_def)
next
  case (Inr source)
  let ?i = "length (permits \<sigma>)"
  let ?src = "CallSource (rt_source_ctx rt) op source (rt_source_now rt)"
  obtain l p res where a: "AdmitSource (svc_limiter s) (rt_source_ctx rt) op source (rt_source_now rt) = (l, p, res)"
    by (metis prod.exhaust)
  show ?thesis
  proof (cases p)
    case None
    with assms Inr a have "svc_limiter s' = l" by (auto simp: serve_available_def Let_def)
    with a None assms(2) show ?thesis
      by (intro exI [of _ "[?src]"]) (auto simp: handler_calls_def run_step_def active_permits_def)
  next
    case (Some q)
    note ok = AdmitSource_permit [OF a [unfolded Some]]
    obtain rs q' s1 where adm: "serve_admitted parts h rt request op q (s\<lparr>svc_limiter := l\<rparr>) = (rs, q', s1)"
      by (metis prod.exhaust)
    have lim: "svc_limiter s' = fst (Release (svc_limiter s1) q')"
      using assms Inr a Some ok adm by (auto simp: serve_available_def Let_def)
    have first: "run_step \<sigma> ?src = \<sigma>\<lparr>lim := l, permits := permits \<sigma> @ [q]\<rparr>"
      using a Some assms(2) by (simp add: run_step_def)
    from serve_admitted_limiter [OF adm] show ?thesis
    proof
      assume "svc_limiter s1 = svc_limiter (s\<lparr>svc_limiter := l\<rparr>) \<and> q' = q"
      with lim first ok show ?thesis
        by (intro exI [of _ "[?src, CallRelease ?i]"])
          (auto simp: handler_calls_def run_step_def active_permits_def Release_def nth_append list_update_append)
    next
      assume "\<exists>actor res. AdmitActor (svc_limiter (s\<lparr>svc_limiter := l\<rparr>)) q (rt_actor_ctx rt) op actor (rt_actor_now rt) = (svc_limiter s1, q', res)"
      then obtain actor res2 where act: "AdmitActor l q (rt_actor_ctx rt) op actor (rt_actor_now rt) = (svc_limiter s1, q', res2)" by auto
      from AdmitActor_active [OF act] ok have "active q'" by simp
      with lim first act show ?thesis
        by (intro exI [of _ "[?src, CallActor ?i (rt_actor_ctx rt) op actor (rt_actor_now rt), CallRelease ?i]"])
          (auto simp: handler_calls_def run_step_def active_permits_def Release_def nth_append list_update_append)
    qed
  qed
qed

text \<open>C33: every handler call is a run of the admission limiter of at most one source admission, one actor
  admission and the release of the permit: the limiter's runs, and with them its rate and
  concurrency bounds, are those of the requests served, and after the call no permit of it is
  held, whatever path it took.\<close>

theorem handler_is_limiter_run:
  assumes "serve_lifecycle lifecycleEnabled lifecycle rt request path s = Some (response, s')"
    and "lim \<sigma> = svc_limiter s" and "limiter_ok \<sigma>"
  shows "\<exists>op cs. handler_calls (length (permits \<sigma>)) op cs \<and> lim (foldl run_step \<sigma> cs) = svc_limiter s' \<and>
    limiter_ok (foldl run_step \<sigma> cs) \<and> inFlight (svc_limiter s') = inFlight (svc_limiter s)"
  using assms(1)
proof (cases rule: serve_lifecycle_cases)
  case (closed n op status header c)
  with assms show ?thesis by (intro exI [of _ op] exI [of _ "[]"]) (simp add: handler_calls_def)
next
  case (available n op h)
  obtain cs where cs: "handler_calls (length (permits \<sigma>)) op cs" "lim (foldl run_step \<sigma> cs) = svc_limiter s'"
    "active_permits (foldl run_step \<sigma> cs) = active_permits \<sigma>"
    using serve_available_limiter [OF available(7) assms(2)] by blast
  have ok: "limiter_ok (foldl run_step \<sigma> cs)"
    by (rule src.run_ok [OF assms(3)])
  have "inFlight (svc_limiter s') = inFlight (svc_limiter s)"
    using ok assms(2,3) cs(2,3) unfolding limiter_ok_def by simp
  with cs ok show ?thesis by blast
qed


text \<open>C34: every answer of the lifecycle routes is of one of two shapes: an operation response of the
  route's version and operation with an outcome valid for the operation and status 201 exactly
  for a creation, or an error response of that version whose status and code are one of the
  twelve pairs of the protocol, with an \<open>Allow\<close> header only on 405 and a positive
  \<open>Retry-After\<close> only on 429.\<close>

theorem lifecycle_response_vocabulary:
  assumes "serve_lifecycle lifecycleEnabled lifecycle rt request path s = Some (response, s')"
  shows "\<exists>n op. map_of lifecycle_routes path = Some (n, op) \<and>
    ((\<exists>oc actor. Outcome_ValidFor oc op \<and> response =
        writeJSON (lr_http request) [] (if oc = OutcomeCreated then 201 else 200) (OperationResponse (int n) op oc actor)) \<or>
     (\<exists>header status c. error_reply header status c \<and> response = writeProtocolErrorVersion (lr_http request) header status n c))"
  using assms
proof (cases rule: serve_lifecycle_cases)
  case (closed n op status header c)
  then show ?thesis by blast
next
  case (available n op h)
  note N = routes_endpoint(2) [OF available(1)]
  let ?req = "lr_http request"
  have err: "\<exists>header status c. error_reply header status c \<and>
      part_error (lifecycle_parts n h) ?req e = writeProtocolErrorVersion ?req header status n c" for e
    by (rule part_error_reply [OF N, of h ?req e]) blast
  have internal: "error_reply [] 500 ErrorInternal" by (rule error_reply_plain) (simp add: error_table_def)
  have "(\<exists>oc actor. Outcome_ValidFor oc op \<and> response =
        writeJSON ?req [] (if oc = OutcomeCreated then 201 else 200) (OperationResponse (int n) op oc actor)) \<or>
     (\<exists>header status c. error_reply header status c \<and> response = writeProtocolErrorVersion ?req header status n c)"
    using available(7)
  proof (cases rule: serve_available_cases)
    case refused
    from refused(2) show ?thesis unfolding lifecycle_parts_version [OF N] using err by blast
  next
    case (performed body v t r)
    show ?thesis
    proof (cases r)
      case (Inl e)
      with performed(5) have "response = part_error (lifecycle_parts n h) ?req e" by simp
      with err [of e] show ?thesis by simp
    next
      case (Inr oc)
      with performed(5) have resp: "response = respond n ?req op (vf_actor v) oc"
        by (simp add: lifecycle_parts_version [OF N])
      show ?thesis
      proof (cases "Outcome_ValidFor oc op")
        case True
        with resp show ?thesis unfolding respond_def by (intro disjI1 exI conjI) simp_all
      next
        case False
        with resp internal show ?thesis unfolding respond_def by (intro disjI2 exI conjI) simp_all
      qed
    qed
  qed
  with available(1) show ?thesis by blast
qed

subsection \<open>A refused write admission\<close>

lemma check_components_Err: "check_components required seen cs = Some e \<Longrightarrow> e = Err ErrRFC9421Policy"
  by (induction required seen cs rule: check_components.induct) (auto split: if_splits)

lemma parameters_Err: "validateRFC9421Parameters p now tag = Some e \<Longrightarrow> e \<in> {Err ErrRFC9421Policy, Err ErrRFC9421Time}"
  by (auto simp: validateRFC9421Parameters_def dest: check_components_Err split: if_splits)

lemma request_Err: "validateRFC9421Request X r a now = Some e \<Longrightarrow> e \<in> {Err ErrRFC9421Policy, Err ErrRFC9421Time}"
  by (cases "Values r ''Date''" rule: remdups_adj.cases)
    (auto simp: validateRFC9421Request_def Let_def split: option.splits if_splits)

lemma parse_Err: "parseRFC9421Message X r = Inl e \<Longrightarrow> e \<in> {Err ErrRFC9421Malformed, Err ErrRFC9421Policy}"
  by (auto simp: parseRFC9421Message_def parse_input_def parse_signature_def
      split: option.splits if_splits list.splits prod.splits sfv_member.splits sfv_value.splits sum.splits)

lemma key_Err: "verify_key X v r m = Inl e \<Longrightarrow> e \<in> {Err ErrRFC9421Key, Err ErrRFC9421Policy, Err ErrRFC9421Crypto}"
  by (auto simp: verify_key_def validateRFC9421ResolvedKey_def split: option.splits if_splits prod.splits sum.splits)

lemma verify_Err:
  assumes "VerifyPOSTAndReserveWithTag X v now later reserve r body actor tag s = (Inl e, s')"
  shows "\<not> errors_is e ErrWriteAdmissionHard"
  using assms request_Err [of X r "authority v" now] parse_Err [of X r] key_Err [of X v r] parameters_Err [of _ now tag]
  by (fastforce simp: VerifyPOSTAndReserveWithTag_def VerifyPOSTWithTag_def BindRelayActor_def
      split: option.splits if_splits prod.splits sum.splits)


lemma reserve_denied:
  assumes "admission env = Some e"
  shows "\<exists>e'. ReserveRFC9421Replay batch ctx env key expiry now t = (Inl e', t)"
  using assms by (auto simp: ReserveRFC9421Replay_def run_replay_def split: sum.splits)

text \<open>The errors the request decoders produce.\<close>

definition decode_error :: "goerror \<Rightarrow> bool" where
  "decode_error e \<longleftrightarrow> (\<exists>s. e = Err s \<and> s \<noteq> ErrWriteAdmissionHard)"

lemma decode_error_Err [simp]: "decode_error (Err s) \<longleftrightarrow> s \<noteq> ErrWriteAdmissionHard"
  by (simp add: decode_error_def)

lemma decode_errors_v1:
  "DecodeRegisterRequest b m = Inl e \<Longrightarrow> decode_error e" "DecodeHeartbeatRequest b m = Inl e \<Longrightarrow> decode_error e"
  "DecodeUnregisterRequest b m = Inl e \<Longrightarrow> decode_error e"
  by (auto simp: DecodeRegisterRequest_def DecodeHeartbeatRequest_def DecodeUnregisterRequest_def
      decodeIdentityRequest_def split: if_splits option.splits sum.splits)

lemma decode_errors_versioned:
  "DecodeVersionedRegister n pa b m = Inl e \<Longrightarrow> decode_error e"
  "DecodeVersionedHeartbeat n b m = Inl e \<Longrightarrow> decode_error e" "DecodeVersionedUnregister n b m = Inl e \<Longrightarrow> decode_error e"
  by (auto simp: DecodeVersionedRegister_def DecodeVersionedHeartbeat_def DecodeVersionedUnregister_def
      decodeIdentityRequest_def split: if_splits option.splits sum.splits)

lemmas decode_errors = decode_errors_v1 decode_errors_versioned

lemma verify_decoded_denied:
  assumes "admission (rt_store_env rt) = Some x" "decode_error targetErr" "\<And>e. decoded = Inl e \<Longrightarrow> decode_error e"
  shows "\<exists>e. verify_decoded (core_of h rt v) tag decoded path targetErr request body t = (Inl e, t) \<and>
    \<not> errors_is e ErrWriteAdmissionHard"
proof (cases decoded)
  case (Inl e)
  with assms(3) [OF Inl] show ?thesis by (auto simp: verify_decoded_def decode_error_def)
next
  case (Inr m)
  let ?run = "verifyAndReserve (core_of h rt v) request body (req_RelayActor m) tag t"
  have "\<exists>e. ?run = (Inl e, t)"
  proof (cases "VerifyPOSTWithTag (rt_externals rt) v (rt_verify_now rt) request body tag")
    case (Inr ver)
    obtain e where "ReserveRFC9421Replay (replayStore h) (rt_store_ctx rt) (rt_store_env rt)
        (DeriveRFC9421ReplayKey (sha256 (rt_externals rt)) (ver_KeyID ver) (ver_Nonce ver))
        (rt_verify_later rt + RFC9421ReplayTTL) (rt_store_now rt) t = (Inl e, t)"
      using reserve_denied [OF assms(1)] by blast
    with Inr show ?thesis
      by (cases "BindRelayActor ver (req_RelayActor m)")
        (simp_all add: verifyAndReserve_def core_of_def VerifyPOSTAndReserveWithTag_def)
  qed (simp add: verifyAndReserve_def core_of_def VerifyPOSTAndReserveWithTag_def)
  then obtain e where e: "?run = (Inl e, t)" ..
  from verify_Err [OF e [unfolded verifyAndReserve_def]] e Inr assms(2) show ?thesis
    by (auto simp: verify_decoded_def decode_error_def)
qed

lemma part_verify_denied:
  assumes "admission (rt_store_env rt) = Some x" "n \<in> {1, 2, 3}" "Operation_Valid op"
  shows "\<exists>e. part_verify (lifecycle_parts n h) rt request body op t = (Inl e, t) \<and> \<not> errors_is e ErrWriteAdmissionHard"
proof -
  note D = verify_v1_def verify_v2_def verify_v3_def lifecycle_parts_def v1_parts_def v2_parts_def v3_parts_def
    VerifyRegisterAndReserve_def VerifyHeartbeatAndReserve_def VerifyUnregisterAndReserve_def
    VerifyRegisterAndReserveV2_def VerifyHeartbeatAndReserveV2_def VerifyUnregisterAndReserveV2_def
    VerifyRegisterAndReserveV3_def VerifyHeartbeatAndReserveV3_def VerifyUnregisterAndReserveV3_def Let_def
    DecodeRegisterRequestV2_def DecodeHeartbeatRequestV2_def DecodeUnregisterRequestV2_def
    DecodeRegisterRequestV3_def DecodeHeartbeatRequestV3_def DecodeUnregisterRequestV3_def
  have M: "\<exists>e. apfst (map_sum id f) (verify_decoded (core_of h rt v) tag decoded path targetErr request body t) = (Inl e, t) \<and>
      \<not> errors_is e ErrWriteAdmissionHard"
    if "decode_error targetErr" "\<And>e. decoded = Inl e \<Longrightarrow> decode_error e" for f v tag decoded path targetErr
    using verify_decoded_denied [OF assms(1) that(1), where h = h and v = v and tag = tag and path = path and
        request = request and body = body and t = t and decoded = decoded] that(2) by fastforce
  have T: "decode_error (Err ErrRegisterTarget)" "decode_error (Err ErrHeartbeatTarget)" "decode_error (Err ErrUnregisterTarget)"
    "decode_error (verr m x)" for m x
    by (simp_all add: decode_error_def)
  note M1 = M [OF T(1)] M [OF T(2)] M [OF T(3)] M [OF T(4)]
  from assms(2,3) consider "n = 1" "op = OperationRegister" | "n = 1" "op = OperationHeartbeat" | "n = 1" "op = OperationUnregister"
    | "n = 2" "op = OperationRegister" | "n = 2" "op = OperationHeartbeat" | "n = 2" "op = OperationUnregister"
    | "n = 3" "op = OperationRegister" | "n = 3" "op = OperationHeartbeat" | "n = 3" "op = OperationUnregister"
    by (auto simp: Operation_Valid_def)
  then show ?thesis
    by cases (simp_all add: D operation_defs M1 decode_errors)
qed

lemma lifecycle_status_503: "\<not> errors_is e ErrWriteAdmissionHard \<Longrightarrow> fst (lifecycle_status own extra e) \<noteq> 503"
  unfolding lifecycle_status_def by (simp only: if_False fst_conv if_distrib [of fst]) simp

lemma part_error_503:
  "\<not> errors_is e ErrWriteAdmissionHard \<Longrightarrow> resp_status (part_error (lifecycle_parts n h) req e) \<noteq> 503"
  using lifecycle_status_503 [of e]
  by (simp add: lifecycle_parts_def v1_parts_def v2_parts_def v3_parts_def writeLifecycleError_def writeLifecycleV2Error_def
      writeLifecycleV3Error_def writeProtocolErrorVersion_def writeJSON_def case_prod_beta)


subsection \<open>A concrete call\<close>

definition sample_handler :: LifecycleHandler where
  "sample_handler = \<lparr>lh_verifier = sample_verifier, v2Verifier = Some sample_verifier, v3Verifier = Some sample_verifier,
     replayStore = 256, profileRepository = True, telemetryRepository = True, sourceResolver = \<lparr>trustedProxies = []\<rparr>,
     maximumBodyBytes = 65536\<rparr>"

definition sample_runtime :: "environment \<Rightarrow> environment \<Rightarrow> runtime" where
  "sample_runtime storeEnv persistEnv =
     \<lparr>rt_externals = sample_externals, rt_parseAddress = Some, rt_source_ctx = (False, False), rt_source_now = 100,
      rt_verify_now = 1000, rt_verify_later = 1000, rt_store_now = 1000, rt_store_ctx = None, rt_store_env = storeEnv,
      rt_actor_ctx = (False, False), rt_actor_now = 110, rt_accepted = 5, rt_persist_env = persistEnv, rt_profile_env = calm,
      rt_telemetry_fault = False\<rparr>"

definition sample_lifecycle_request :: lifecycle_request where
  "sample_lifecycle_request = \<lparr>lr_http = sample_request, lr_RemoteAddr = ''1.2.3.4:80'', lr_ContentLength = -1,
     lr_Body = Some (marshal_register sample_register, False)\<rparr>"

definition sample_service :: service where
  "sample_service = \<lparr>svc_limiter = sample_limiter, svc_replay = [],
     svc_store = \<lparr>core = opened_db, profile_values = [], profile_events = [], telemetry = []\<rparr>\<rparr>"

lemma sample_call_selectors [simp]:
  "lh_verifier sample_handler = sample_verifier" "maximumBodyBytes sample_handler = 65536" "replayStore sample_handler = 256"
  "sourceResolver sample_handler = \<lparr>trustedProxies = []\<rparr>"
  "rt_source_ctx (sample_runtime e1 e2) = (False, False)" "rt_source_now (sample_runtime e1 e2) = 100"
  "rt_actor_ctx (sample_runtime e1 e2) = (False, False)" "rt_actor_now (sample_runtime e1 e2) = 110"
  "rt_accepted (sample_runtime e1 e2) = 5" "rt_persist_env (sample_runtime e1 e2) = e2" "rt_store_env (sample_runtime e1 e2) = e1"
  "lr_http sample_lifecycle_request = sample_request" "lr_RemoteAddr sample_lifecycle_request = ''1.2.3.4:80''"
  "svc_limiter sample_service = sample_limiter" "svc_replay sample_service = []" "core (svc_store sample_service) = opened_db"
  "req_RelayActor sample_register = sample_actor" "req_PublicBaseURL sample_register = sample_base"
  by (simp_all add: sample_handler_def sample_runtime_def sample_lifecycle_request_def sample_service_def sample_register_def)

lemma sample_resolved: "resolve_source \<lparr>trustedProxies = []\<rparr> ''1.2.3.4:80'' vs = Inr (IPv4 16909060)"
  by (simp add: resolve_source_def trusts_def parseRemoteAddress_def SplitHostPort_def ParseAddr_def parse_fields4_def
      parse_octet_def is_digit_def code_def decimal_value_def from_digits_def validSourceAddress_def IsMulticast_def)

lemma sample_source_admitted:
  obtains l where "AdmitSource sample_limiter (False, False) OperationRegister (IPv4 16909060) 100 =
      (l, Some \<lparr>poperation = OperationRegister, active = True, actorChecked = False\<rparr>, \<lparr>Decision = DecisionAllowed, RetryAfter = 0\<rparr>)"
    "actors l = newBucketPool 2" "lconfig l = sample_config" "lastNow l = 100"
  by (simp add: sample_run)

lemma sample_actor_admitted:
  assumes "actors l = newBucketPool 2" "lconfig l = sample_config" "lastNow l = 100"
  obtains l' p' where "AdmitActor l \<lparr>poperation = OperationRegister, active = True, actorChecked = False\<rparr> (False, False)
      OperationRegister sample_actor 110 = (l', p', \<lparr>Decision = DecisionAllowed, RetryAfter = 0\<rparr>)"
  using assms by (simp add: AdmitActor_def sample_run sample_actor_canonical)

lemma sample_body: "readBoundedBody sample_lifecycle_request 65536 = Inr (marshal_register sample_register)"
  using sample_lengths(1) by (simp add: readBoundedBody_def sample_lifecycle_request_def Let_def)

lemma sample_target: "validOperationTarget sample_request (RegisterEndpointPath 1)"
  by (simp add: validOperationTarget_def sample_url_def sample_request_def EscapedPath_def RegisterEndpointPath_def itoa.simps url_eval
      validEncoded_char_def)


lemma sample_verify:
  obtains t where "verify_v1 sample_handler (sample_runtime calm persistEnv) sample_request (marshal_register sample_register)
      OperationRegister [] = (Inr \<lparr>vf_actor = sample_actor, vf_base = sample_base, vf_profile = empty_profile, vf_telemetry = None\<rparr>, t)"
proof -
  let ?body = "marshal_register sample_register"
  have dec: "DecodeRegisterRequest ?body 65536 = Inr sample_register"
    using decode_register_marshal [of 65536 sample_actor sample_base sample_register] sample_valid_strings sample_identity
      sample_lengths(1) by (simp add: MaximumRegisterBodyBytes_def sample_register_def)
  obtain t where "ReserveRFC9421Replay 256 None calm (replay_key sample_externals sample_verification) 1600 1000 [] = (Inr True, t)"
    using reserve_calm [of "[]" 256 1000 1600 sample_digest]
    by (cases "ReserveRFC9421Replay 256 None calm sample_digest 1600 1000 []")
      (auto simp: replay_ok_def replay_held_def maximumRFC9421ReplayCleanupBatch_def RFC9421ReplayTTL_def sample_digest_def
        replay_key_def DeriveRFC9421ReplayKey_def sample_externals_def)
  then have "verifyAndReserve (core_of sample_handler (sample_runtime calm persistEnv) sample_verifier) sample_request ?body sample_actor
      RFC9421SignatureTag [] = (Inr sample_verification, t)"
    by (simp add: verifyAndReserve_def core_of_def sample_runtime_def sample_handler_def VerifyPOSTAndReserveWithTag_def sample_verified
        BindRelayActor_def sample_actor_canonical replay_key_def RFC9421ReplayTTL_def) (simp add: sample_verification_def)
  then show ?thesis
    by (intro that) (use sample_target in \<open>simp add: verify_v1_def VerifyRegisterAndReserve_def verify_decoded_def dec Let_def\<close>)
qed

lemma sample_served:
  obtains s' where "serve_lifecycle True (Some sample_handler) (sample_runtime calm calm) sample_lifecycle_request
      ''/v1/relays/register'' sample_service =
    Some (writeJSON sample_request [] 201 (OperationResponse 1 OperationRegister OutcomeCreated sample_actor), s')"
proof -
  obtain l where l: "AdmitSource sample_limiter (False, False) OperationRegister (IPv4 16909060) 100 =
      (l, Some \<lparr>poperation = OperationRegister, active = True, actorChecked = False\<rparr>, \<lparr>Decision = DecisionAllowed, RetryAfter = 0\<rparr>)"
    "actors l = newBucketPool 2" "lconfig l = sample_config" "lastNow l = 100"
    by (rule sample_source_admitted)
  obtain l' p' where l': "AdmitActor l \<lparr>poperation = OperationRegister, active = True, actorChecked = False\<rparr> (False, False)
      OperationRegister sample_actor 110 = (l', p', \<lparr>Decision = DecisionAllowed, RetryAfter = 0\<rparr>)"
    by (rule sample_actor_admitted [OF l(2-4)])
  obtain t where t: "verify_v1 sample_handler (sample_runtime calm calm) sample_request (marshal_register sample_register)
      OperationRegister [] = (Inr \<lparr>vf_actor = sample_actor, vf_base = sample_base, vf_profile = empty_profile, vf_telemetry = None\<rparr>, t)"
    by (rule sample_verify)
  obtain d where d: "Register calm \<lparr>reg_actor = sample_actor, reg_base = sample_base\<rparr> 5 opened_db = (Inr OutcomeCreated, d)"
    using Register_eval [OF opened_db_ok sample_intents_valid(1), of 5] opened_db_facts
    by (simp add: register_spec_def sample_intent_def)
  have route: "map_of lifecycle_routes ''/v1/relays/register'' = Some (1, OperationRegister)"
    by (simp add: lifecycle_routes_def RegisterEndpointPath_def itoa.simps char_of_def bit_0)
  have w: "persist_core (sample_runtime calm calm) OperationRegister
      \<lparr>vf_actor = sample_actor, vf_base = sample_base, vf_profile = empty_profile, vf_telemetry = None\<rparr> (svc_store sample_service) =
      (Inr OutcomeCreated, (svc_store sample_service)\<lparr>core := d\<rparr>)"
    by (simp add: persist_core_def persist_def sample_runtime_def sample_service_def d)
  have r: "respond 1 sample_request OperationRegister sample_actor OutcomeCreated =
      writeJSON sample_request [] 201 (OperationResponse 1 OperationRegister OutcomeCreated sample_actor)"
    by (simp add: respond_def Outcome_ValidFor_def)
  define s1 where "s1 = sample_service\<lparr>svc_limiter := l\<rparr>"
  have adm: "serve_admitted (v1_parts sample_handler) sample_handler (sample_runtime calm calm) sample_lifecycle_request OperationRegister
      \<lparr>poperation = OperationRegister, active = True, actorChecked = False\<rparr> s1 =
      (writeJSON sample_request [] 201 (OperationResponse 1 OperationRegister OutcomeCreated sample_actor), p',
       s1\<lparr>svc_replay := t, svc_limiter := l', svc_store := (svc_store sample_service)\<lparr>core := d\<rparr>\<rparr>)"
    using sample_body t l' w r unfolding serve_admitted_def Let_def
    by (simp add: v1_parts_def result_Allowed_def s1_def)
  show ?thesis
    using route l(1) adm sample_resolved
    by (intro that) (simp add: serve_lifecycle_def serveV1_def serve_available_def s1_def [symmetric] result_Allowed_def Let_def)
qed

lemma sample_handler_ok: "pred_option handler_ok (Some sample_handler)"
  by (simp add: handler_ok_def sample_handler_def sample_verifier_def)

lemma sample_route: "map_of lifecycle_routes ''/v1/relays/register'' = Some (1, OperationRegister)"
  by (simp add: lifecycle_routes_def RegisterEndpointPath_def itoa.simps char_of_def bit_0)

theorem lifecycle_writes_authenticated_witness:
  "\<exists>response s'. serve_lifecycle True (Some sample_handler) (sample_runtime calm calm) sample_lifecycle_request
       ''/v1/relays/register'' sample_service = Some (response, s') \<and> resp_status response = 201 \<and>
     (svc_store s' = svc_store sample_service \<or>
      (\<exists>op v. operation_performed sample_handler (sample_runtime calm calm) sample_lifecycle_request 1 op v \<and>
         only_actor (vf_actor v) (svc_store sample_service) (svc_store s')))"
proof -
  obtain s' where s': "serve_lifecycle True (Some sample_handler) (sample_runtime calm calm) sample_lifecycle_request
      ''/v1/relays/register'' sample_service =
    Some (writeJSON sample_request [] 201 (OperationResponse 1 OperationRegister OutcomeCreated sample_actor), s')"
    by (rule sample_served)
  have st: "resp_status (writeJSON sample_request [] 201 (OperationResponse 1 OperationRegister OutcomeCreated sample_actor)) = 201"
    by (simp add: writeJSON_def)
  from lifecycle_writes_authenticated [OF s' sample_handler_ok] opened_db_ok sample_route
  have "svc_store s' = svc_store sample_service \<or>
      (\<exists>op v. operation_performed sample_handler (sample_runtime calm calm) sample_lifecycle_request 1 op v \<and>
         only_actor (vf_actor v) (svc_store sample_service) (svc_store s'))"
    by auto
  with s' st show ?thesis by blast
qed

theorem accepted_response_effect_witness:
  "\<exists>response s' base. serve_lifecycle True (Some sample_handler) (sample_runtime calm calm) sample_lifecycle_request
       ''/v1/relays/register'' sample_service = Some (response, s') \<and>
     operation_effect OperationRegister OutcomeCreated sample_actor base 5 (core (svc_store s'))"
proof -
  obtain s' where s': "serve_lifecycle True (Some sample_handler) (sample_runtime calm calm) sample_lifecycle_request
      ''/v1/relays/register'' sample_service =
    Some (writeJSON sample_request [] 201 (OperationResponse 1 OperationRegister OutcomeCreated sample_actor), s')"
    by (rule sample_served)
  from accepted_response_effect [OF s' sample_handler_ok] opened_db_ok
  have "\<exists>base. operation_effect OperationRegister OutcomeCreated sample_actor base 5 (core (svc_store s'))"
    by (auto simp: writeJSON_def)
  with s' show ?thesis by blast
qed


theorem handler_is_limiter_run_witness:
  "\<exists>response s'. serve_lifecycle True (Some sample_handler) (sample_runtime calm calm) sample_lifecycle_request
       ''/v1/relays/register'' sample_service = Some (response, s') \<and> inFlight (svc_limiter s') = 0"
proof -
  obtain s' where s': "serve_lifecycle True (Some sample_handler) (sample_runtime calm calm) sample_lifecycle_request
      ''/v1/relays/register'' sample_service =
    Some (writeJSON sample_request [] 201 (OperationResponse 1 OperationRegister OutcomeCreated sample_actor), s')"
    by (rule sample_served)
  from handler_is_limiter_run [OF s', of sample_system] sample_system_ok have "inFlight (svc_limiter s') = 0"
    by (auto simp: sample_system_def sample_limiter_def)
  with s' show ?thesis by blast
qed

theorem lifecycle_response_vocabulary_witness:
  "\<exists>response s' n op. serve_lifecycle True None (sample_runtime calm calm) sample_lifecycle_request
       ''/v1/relays/register'' sample_service = Some (response, s') \<and> map_of lifecycle_routes ''/v1/relays/register'' = Some (n, op)"
proof -
  obtain response s' where s': "serve_lifecycle True None (sample_runtime calm calm) sample_lifecycle_request
      ''/v1/relays/register'' sample_service = Some (response, s')"
    by (simp add: serve_lifecycle_def sample_route serveV1_def)
  from lifecycle_response_vocabulary [OF s'] s' show ?thesis by blast
qed


end
