(* ===== verification/Retention.thy ===== *)
theory Retention
  imports Profile Listing
begin

section \<open>Hard retention: candidates, purge batches and the run audit\<close>

text \<open>
  \<open>internal/storage/retention.go\<close> and the repository half of
  \<open>internal/storage/sqlite/retention.go\<close>. The state adds to the tables of \<open>profile_db\<close> the
  \<open>retention_runs\<close> table, the retention metadata and whether the trigger
  \<open>relay_events_no_delete\<close> exists, since a purge drops and recreates it. The cleanup
  triggers of the migrations run with the deletes. A candidate kind and a lifecycle state
  are texts, as in the code, so that malformed candidates are inputs of the model.
\<close>

definition MaximumInactiveRetentionDays :: int where "MaximumInactiveRetentionDays = 36500"
definition MaximumPurgeCandidatePage :: int where "MaximumPurgeCandidatePage = 100"
definition MaximumPurgeAttemptsPerRun :: int where "MaximumPurgeAttemptsPerRun = 1000"
definition RetentionPolicyVersion :: int where "RetentionPolicyVersion = 2"
definition PurgeCandidateLifecycle :: string where "PurgeCandidateLifecycle = ''lifecycle''"
definition PurgeCandidateDiscovery :: string where "PurgeCandidateDiscovery = ''discovery''"

lemmas purge_kinds = PurgeCandidateLifecycle_def PurgeCandidateDiscovery_def

definition purge_kind_Valid :: "string \<Rightarrow> bool" where
  "purge_kind_Valid kind \<longleftrightarrow> kind = PurgeCandidateLifecycle \<or> kind = PurgeCandidateDiscovery"

text \<open>A cursor is the triple of inactive time, actor and kind, ordered as SQLite orders row values.\<close>

type_synonym purge_cursor = "int \<times> string \<times> string"

definition zero_purge_cursor :: purge_cursor where "zero_purge_cursor = (0, [], [])"

definition purge_cursor_Valid :: "purge_cursor \<Rightarrow> bool" where
  "purge_cursor_Valid c \<longleftrightarrow> c = zero_purge_cursor \<or>
     (case c of (inactiveUnix, actor, kind) \<Rightarrow> inactiveUnix \<ge> 0 \<and> actor \<noteq> [] \<and> purge_kind_Valid kind)"

record PurgeCandidateQuery =
  purge_after :: purge_cursor
  purge_limit :: int
  purge_cutoff :: int

record PurgeCandidate =
  cand_kind :: string
  cand_actor :: string
  cand_state :: string
  cand_inactive :: int
  cand_updated :: int
  cand_relay_event :: int
  cand_moderation_event :: int
  cand_discovery_event :: int
  cand_observation :: int

fun lifecycle_text :: "lifecycle \<Rightarrow> string" where
  "lifecycle_text Registered = ''registered''"
| "lifecycle_text Unregistered = ''unregistered''"
| "lifecycle_text Pruned = ''pruned''"

definition PurgeCandidate_Valid :: "PurgeCandidate \<Rightarrow> bool" where
  "PurgeCandidate_Valid c \<longleftrightarrow>
     \<not> (\<not> purge_kind_Valid (cand_kind c) \<or> cand_actor c = [] \<or> cand_inactive c < 0 \<or>
        cand_updated c < cand_inactive c \<or> cand_observation c < 0) \<and>
     (if cand_kind c = PurgeCandidateLifecycle
      then cand_relay_event c \<ge> 0 \<and> cand_moderation_event c \<ge> 0 \<and>
           (cand_state c = lifecycle_text Unregistered \<or> cand_state c = lifecycle_text Pruned)
      else if cand_kind c = PurgeCandidateDiscovery
      then cand_state c = [] \<and> cand_discovery_event c \<ge> 0
      else False)"

definition cand_key :: "PurgeCandidate \<Rightarrow> purge_cursor" where
  "cand_key c = (cand_inactive c, cand_actor c, cand_kind c)"

record PurgeBatchResult =
  Attempted :: int
  PurgedRelays :: int
  PurgedDiscoveries :: int
  PurgedObservations :: int
  PurgedLifecycleEvents :: int
  batch_Skipped :: int

subsection \<open>Run records\<close>

definition RetentionCompleted :: string where "RetentionCompleted = ''completed''"
definition RetentionCanceled :: string where "RetentionCanceled = ''canceled''"
definition RetentionFailed :: string where "RetentionFailed = ''failed''"
definition retention_running :: string where "retention_running = ''running''"

lemmas outcome_texts = RetentionCompleted_def RetentionCanceled_def RetentionFailed_def retention_running_def

definition RetentionOutcome_Valid :: "string \<Rightarrow> bool" where
  "RetentionOutcome_Valid out \<longleftrightarrow> out = RetentionCompleted \<or> out = RetentionCanceled \<or> out = RetentionFailed"

record RetentionRunStart =
  start_policy :: int
  start_days :: int
  start_observed :: int
  start_cutoff :: int
  start_backup :: string
  start_started :: int

record RetentionRunFinish =
  fin_run :: int
  fin_scanned :: int
  fin_relays :: int
  fin_discoveries :: int
  fin_observations :: int
  fin_events :: int
  fin_skipped :: int
  fin_batches :: int
  fin_truncated :: bool
  fin_outcome :: string
  fin_finished :: int

record retention_run =
  run_policy :: int
  run_days :: int
  run_observed :: int
  run_cutoff :: int
  run_scanned :: int
  run_relays :: int
  run_discoveries :: int
  run_observations :: int
  run_events :: int
  run_skipped :: int
  run_batches :: int
  run_truncated :: int
  run_outcome :: string
  run_backup :: string
  run_started :: int
  run_finished :: "int option"

definition lower_hex :: "char \<Rightarrow> bool" where
  "lower_hex c \<longleftrightarrow> is_digit c \<or> (CHR ''a'' \<le> c \<and> c \<le> CHR ''f'')"

definition run_check :: "retention_run \<Rightarrow> bool" where
  "run_check r \<longleftrightarrow>
     (run_policy r = 1 \<or> run_policy r = 2) \<and>
     1 \<le> run_days r \<and> run_days r \<le> 36500 \<and> 0 \<le> run_observed r \<and>
     0 \<le> run_cutoff r \<and> run_cutoff r \<le> run_observed r \<and>
     run_observed r \<ge> run_days r * 86400 \<and> run_cutoff r = run_observed r - run_days r * 86400 \<and>
     0 \<le> run_scanned r \<and> run_scanned r \<le> 1000 \<and>
     0 \<le> run_relays r \<and> run_relays r \<le> run_scanned r \<and>
     0 \<le> run_discoveries r \<and> run_discoveries r \<le> run_scanned r \<and>
     0 \<le> run_observations r \<and> run_observations r \<le> run_scanned r \<and>
     0 \<le> run_events r \<and>
     0 \<le> run_skipped r \<and> run_skipped r \<le> run_scanned r \<and>
     run_relays r + run_discoveries r + run_skipped r \<le> run_scanned r \<and>
     0 \<le> run_batches r \<and> run_batches r \<le> 1000 \<and>
     ((run_scanned r = 0 \<and> run_batches r = 0) \<or>
      (run_scanned r > 0 \<and> 1 \<le> run_batches r \<and> run_batches r \<le> run_scanned r)) \<and>
     (run_truncated r = 0 \<or> run_truncated r = 1) \<and>
     (run_outcome r = retention_running \<or> RetentionOutcome_Valid (run_outcome r)) \<and>
     length (run_backup r) = 64 \<and> list_all lower_hex (run_backup r) \<and>
     run_started r \<ge> run_observed r \<and> opt_ge (run_finished r) (run_started r) \<and>
     (run_outcome r = retention_running \<longleftrightarrow> run_finished r = None) \<and>
     (run_outcome r = retention_running \<or> run_outcome r = RetentionCompleted \<longrightarrow>
        run_relays r + run_discoveries r + run_skipped r = run_scanned r) \<and>
     run_observations r \<le> run_relays r + run_discoveries r \<and>
     (run_policy r = 2 \<or> (run_discoveries r = 0 \<and> run_observations r = 0))"

text \<open>The trigger \<open>retention_runs_guard_update\<close>: what an update may change.\<close>

definition run_update_allowed :: "retention_run \<Rightarrow> retention_run \<Rightarrow> bool" where
  "run_update_allowed old new \<longleftrightarrow>
     \<not> (run_policy old \<noteq> run_policy new \<or> run_days old \<noteq> run_days new \<or>
        run_observed old \<noteq> run_observed new \<or> run_cutoff old \<noteq> run_cutoff new \<or>
        run_backup old \<noteq> run_backup new \<or> run_started old \<noteq> run_started new \<or>
        run_outcome old \<noteq> retention_running \<or>
        run_scanned new < run_scanned old \<or> run_relays new < run_relays old \<or>
        run_discoveries new < run_discoveries old \<or> run_observations new < run_observations old \<or>
        run_events new < run_events old \<or> run_skipped new < run_skipped old \<or>
        run_batches new < run_batches old \<or>
        (run_truncated old = 1 \<and> run_truncated new = 0))"

record retention_db =
  content :: profile_db
  events_guarded :: bool
  retention_metadata :: "(string \<times> int) option"
  retention_runs :: "(int, retention_run) table"
  retention_run_seq :: int

definition store :: "retention_db \<Rightarrow> db" where
  "store s = core (content s)"

definition set_store :: "(db \<Rightarrow> db) \<Rightarrow> retention_db \<Rightarrow> retention_db" where
  "set_store f s = s\<lparr>content := (content s)\<lparr>core := f (core (content s))\<rparr>\<rparr>"

subsection \<open>Statements\<close>

text \<open>
  A statement together with its affected row count, and the \<open>RowsAffected\<close> or
  \<open>LastInsertId\<close> call after it, which may fail on its own.
\<close>

definition exec_rows :: "string \<Rightarrow> string \<Rightarrow> ('d \<Rightarrow> ('d \<times> int) option) \<Rightarrow> ('d, int) tx" where
  "exec_rows action countAction f s =
     (case s of (d, fs) \<Rightarrow>
        if fs \<noteq> [] \<and> hd fs then (Inl (storageFailure action driver_error), (d, tl fs))
        else case f d of
               None \<Rightarrow> (Inl (storageFailure action constraint_error), (d, tl fs))
             | Some (d', n) \<Rightarrow> query countAction (\<lambda>_. n) (d', tl fs))"

definition delete_relay_events :: "string \<Rightarrow> retention_db \<Rightarrow> (retention_db \<times> int) option" where
  "delete_relay_events actor s =
     (let gone = filter (\<lambda>e. event_actor e = actor) (relay_events (store s)) in
      if gone \<noteq> [] \<and> events_guarded s then None
      else Some (set_store (\<lambda>d. d\<lparr>relay_events := filter (\<lambda>e. event_actor e \<noteq> actor) (relay_events d)\<rparr>) s,
                 int (length gone)))"

definition drop_profile :: "string \<Rightarrow> retention_db \<Rightarrow> retention_db" where
  "drop_profile actor s =
     s\<lparr>content := (content s)\<lparr>profile_values := filter (\<lambda>kv. fst (fst kv) \<noteq> actor) (profile_values (content s))\<rparr>\<rparr>"

definition drop_telemetry :: "string \<Rightarrow> retention_db \<Rightarrow> retention_db" where
  "drop_telemetry actor s = s\<lparr>content := (content s)\<lparr>telemetry := AList.delete actor (telemetry (content s))\<rparr>\<rparr>"

definition drop_relay :: "string \<Rightarrow> retention_db \<Rightarrow> retention_db" where
  "drop_relay actor s =
     (let s1 = drop_telemetry actor (set_store (\<lambda>d. d\<lparr>relays := AList.delete actor (relays d)\<rparr>) s) in
      if map_of (relay_discoveries (store s)) actor = None then drop_profile actor s1 else s1)"

definition delete_inactive_relay :: "string \<Rightarrow> string \<Rightarrow> retention_db \<Rightarrow> (retention_db \<times> int) option" where
  "delete_inactive_relay actor state s =
     (case map_of (relays (store s)) actor of
        Some r \<Rightarrow>
          if administrative_state r = Active \<and> lifecycle_text (lifecycle_state r) = state
          then Some (drop_relay actor s, 1) else Some (s, 0)
      | None \<Rightarrow> Some (s, 0))"

definition drop_discovery :: "string \<Rightarrow> retention_db \<Rightarrow> retention_db" where
  "drop_discovery actor s =
     (let s1 = set_store (\<lambda>d. d\<lparr>relay_discoveries := AList.delete actor (relay_discoveries d)\<rparr>) s in
      if map_of (relays (store s)) actor = None then drop_profile actor s1 else s1)"

definition delete_removed_discovery :: "string \<Rightarrow> retention_db \<Rightarrow> (retention_db \<times> int) option" where
  "delete_removed_discovery actor s =
     (case map_of (relay_discoveries (store s)) actor of
        Some r \<Rightarrow> if discovery_state r = DiscoveryRemoved then Some (drop_discovery actor s, 1) else Some (s, 0)
      | None \<Rightarrow> Some (s, 0))"

definition drop_observation :: "string \<Rightarrow> retention_db \<Rightarrow> retention_db" where
  "drop_observation actor = set_store (\<lambda>d. d\<lparr>relay_observations := AList.delete actor (relay_observations d)\<rparr>)"

definition delete_unowned_observation :: "string \<Rightarrow> retention_db \<Rightarrow> (retention_db \<times> int) option" where
  "delete_unowned_observation actor s =
     (if map_of (relay_observations (store s)) actor \<noteq> None \<and> \<not> retained (store s) actor
      then Some (drop_observation actor s, 1) else Some (s, 0))"

definition drop_delete_trigger :: "retention_db \<Rightarrow> retention_db option" where
  "drop_delete_trigger s = (if events_guarded s then Some (s\<lparr>events_guarded := False\<rparr>) else None)"

definition create_delete_trigger :: "retention_db \<Rightarrow> retention_db option" where
  "create_delete_trigger s = (if events_guarded s then None else Some (s\<lparr>events_guarded := True\<rparr>))"

definition insert_run :: "retention_run \<Rightarrow> retention_db \<Rightarrow> (retention_db \<times> int) option" where
  "insert_run r s =
     (if run_check r
      then Some (s\<lparr>retention_runs := AList.update (retention_run_seq s + 1) r (retention_runs s),
                   retention_run_seq := retention_run_seq s + 1\<rparr>, retention_run_seq s + 1)
      else None)"

text \<open>\<open>UPDATE retention_runs SET .. WHERE retention_run_id = ? AND outcome = 'running'\<close>.\<close>

definition update_running :: "int \<Rightarrow> (retention_run \<Rightarrow> retention_run) \<Rightarrow> retention_db \<Rightarrow> (retention_db \<times> int) option" where
  "update_running runID f s =
     (case map_of (retention_runs s) runID of
        Some r \<Rightarrow>
          if run_outcome r \<noteq> retention_running then Some (s, 0)
          else if run_check (f r) \<and> run_update_allowed r (f r)
          then Some (s\<lparr>retention_runs := AList.update runID (f r) (retention_runs s)\<rparr>, 1) else None
      | None \<Rightarrow> Some (s, 0))"

subsection \<open>Candidates\<close>

definition inactive_at :: "relay_row \<Rightarrow> int option" where
  "inactive_at r =
     (case lifecycle_state r of Unregistered \<Rightarrow> unregistered_at r | Pruned \<Rightarrow> pruned_at r | Registered \<Rightarrow> None)"

definition coalesce_zero :: "int option \<Rightarrow> int" where
  "coalesce_zero v = (case v of None \<Rightarrow> 0 | Some x \<Rightarrow> x)"

definition latest_relay_event :: "db \<Rightarrow> string \<Rightarrow> int" where
  "latest_relay_event d actor =
     coalesce_zero (sql_max (map event_id (filter (\<lambda>e. event_actor e = actor) (relay_events d))))"

definition latest_moderation_event :: "db \<Rightarrow> string \<Rightarrow> int" where
  "latest_moderation_event d actor =
     coalesce_zero (sql_max (map moderation_id (filter (\<lambda>e. moderation_actor e = actor) (moderation_events d))))"

definition latest_discovery_event :: "db \<Rightarrow> string \<Rightarrow> int" where
  "latest_discovery_event d actor =
     coalesce_zero (sql_max (map discovery_id (filter (\<lambda>e. discovery_actor e = actor) (discovery_events d))))"

definition observation_revision :: "db \<Rightarrow> string \<Rightarrow> int" where
  "observation_revision d actor = coalesce_zero (map_option revision (map_of (relay_observations d) actor))"

definition lifecycle_candidate :: "db \<Rightarrow> string \<times> relay_row \<Rightarrow> PurgeCandidate" where
  "lifecycle_candidate d ar =
     \<lparr>cand_kind = PurgeCandidateLifecycle, cand_actor = fst ar,
      cand_state = lifecycle_text (lifecycle_state (snd ar)),
      cand_inactive = coalesce_zero (inactive_at (snd ar)), cand_updated = updated_at (snd ar),
      cand_relay_event = latest_relay_event d (fst ar),
      cand_moderation_event = latest_moderation_event d (fst ar), cand_discovery_event = 0,
      cand_observation = observation_revision d (fst ar)\<rparr>"

definition due_by :: "int option \<Rightarrow> int \<Rightarrow> bool" where
  "due_by v cutoffUnix = (case v of None \<Rightarrow> False | Some t \<Rightarrow> t \<le> cutoffUnix)"

definition purgeable_relay :: "int \<Rightarrow> string \<times> relay_row \<Rightarrow> bool" where
  "purgeable_relay cutoffUnix ar \<longleftrightarrow>
     administrative_state (snd ar) = Active \<and> lifecycle_state (snd ar) \<in> {Unregistered, Pruned} \<and>
     due_by (inactive_at (snd ar)) cutoffUnix"

definition discovery_candidate :: "db \<Rightarrow> string \<times> discovery_row \<Rightarrow> PurgeCandidate" where
  "discovery_candidate d ar =
     \<lparr>cand_kind = PurgeCandidateDiscovery, cand_actor = fst ar, cand_state = [],
      cand_inactive = coalesce_zero (removed_at (snd ar)), cand_updated = discovery_updated_at (snd ar),
      cand_relay_event = 0, cand_moderation_event = 0,
      cand_discovery_event = latest_discovery_event d (fst ar),
      cand_observation = observation_revision d (fst ar)\<rparr>"

definition purgeable_discovery :: "int \<Rightarrow> string \<times> discovery_row \<Rightarrow> bool" where
  "purgeable_discovery cutoffUnix ar \<longleftrightarrow>
     discovery_state (snd ar) = DiscoveryRemoved \<and> due_by (removed_at (snd ar)) cutoffUnix"

text \<open>The two sources, each with its own limit, and their ordered union with a limit.\<close>

definition lifecycle_candidates :: "int \<Rightarrow> db \<Rightarrow> PurgeCandidate list" where
  "lifecycle_candidates cutoffUnix d = map (lifecycle_candidate d) (filter (purgeable_relay cutoffUnix) (relays d))"

definition discovery_candidates :: "int \<Rightarrow> db \<Rightarrow> PurgeCandidate list" where
  "discovery_candidates cutoffUnix d =
     map (discovery_candidate d) (filter (purgeable_discovery cutoffUnix) (relay_discoveries d))"

definition candidate_rows :: "int \<Rightarrow> purge_cursor \<Rightarrow> nat \<Rightarrow> db \<Rightarrow> PurgeCandidate list" where
  "candidate_rows cutoffUnix after n d =
     take n (sort_key cand_key
       (keyset_rows cand_key after n (lifecycle_candidates cutoffUnix d) @
        keyset_rows cand_key after n (discovery_candidates cutoffUnix d)))"

definition decode_purge_candidate :: "int \<Rightarrow> PurgeCandidate \<Rightarrow> PurgeCandidate result" where
  "decode_purge_candidate cutoffUnix c =
     (if \<not> PurgeCandidate_Valid c \<or> \<not> validHealthProjectionActor (cand_actor c) \<or> cand_inactive c > cutoffUnix
      then Inl (storageFailure ''validate retention candidate'' (Opaque ''invalid retained retention state''))
      else Inr c)"

definition PurgeCandidates :: "read_faults \<Rightarrow> PurgeCandidateQuery \<Rightarrow> retention_db \<Rightarrow> (PurgeCandidate list \<times> purge_cursor) result" where
  "PurgeCandidates rf q s =
     (if \<not> purge_cursor_Valid (purge_after q) \<or> purge_limit q \<le> 0 \<or> purge_limit q > MaximumPurgeCandidatePage \<or>
         (purge_after q \<noteq> zero_purge_cursor \<and> \<not> validHealthProjectionActor (fst (snd (purge_after q))))
      then Inl (Err ErrRetentionReadInput)
      else if purge_cutoff q < 0 \<or>
              (purge_after q \<noteq> zero_purge_cursor \<and> fst (purge_after q) > purge_cutoff q)
      then Inl (Err ErrRetentionReadInput)
      else scan_page rf ''read retention candidates'' ''iterate retention candidates''
             (decode_purge_candidate (purge_cutoff q)) cand_key zero_purge_cursor (nat (purge_limit q))
             (candidate_rows (purge_cutoff q) (purge_after q) (nat (purge_limit q) + 1) (store s)))"

subsection \<open>Purge batches\<close>

record retentionState =
  state_kind :: string
  state_lifecycle :: string
  state_administrative :: string
  state_inactive :: int
  state_updated :: int
  state_relay_event :: int
  state_moderation_event :: int
  state_discovery_event :: int
  state_observation :: int

fun administrative_text :: "administrative \<Rightarrow> string" where
  "administrative_text Active = ''active''"
| "administrative_text Suspended = ''suspended''"

fun discovery_text :: "discovery_state \<Rightarrow> string" where
  "discovery_text DiscoveryActive = ''active''"
| "discovery_text DiscoveryRemoved = ''removed''"

definition null_to_minus :: "int option \<Rightarrow> int" where
  "null_to_minus v = (case v of None \<Rightarrow> -1 | Some x \<Rightarrow> x)"

definition relay_retention_state :: "db \<Rightarrow> string \<Rightarrow> relay_row \<Rightarrow> retentionState" where
  "relay_retention_state d actor r =
     \<lparr>state_kind = PurgeCandidateLifecycle, state_lifecycle = lifecycle_text (lifecycle_state r),
      state_administrative = administrative_text (administrative_state r),
      state_inactive = null_to_minus (inactive_at r), state_updated = updated_at r,
      state_relay_event = latest_relay_event d actor, state_moderation_event = latest_moderation_event d actor,
      state_discovery_event = 0, state_observation = observation_revision d actor\<rparr>"

definition discovery_retention_state :: "db \<Rightarrow> string \<Rightarrow> discovery_row \<Rightarrow> retentionState" where
  "discovery_retention_state d actor r =
     \<lparr>state_kind = PurgeCandidateDiscovery, state_lifecycle = discovery_text (discovery_state r),
      state_administrative = [], state_inactive = null_to_minus (removed_at r),
      state_updated = discovery_updated_at r, state_relay_event = 0, state_moderation_event = 0,
      state_discovery_event = latest_discovery_event d actor,
      state_observation = observation_revision d actor\<rparr>"

definition readRetentionState :: "PurgeCandidate \<Rightarrow> (retention_db, retentionState option) tx" where
  "readRetentionState c =
     (if cand_kind c = PurgeCandidateLifecycle
      then query ''read relay for retention'' (\<lambda>s.
             map_option (relay_retention_state (store s) (cand_actor c)) (map_of (relays (store s)) (cand_actor c)))
      else if cand_kind c = PurgeCandidateDiscovery
      then query ''read discovery for retention'' (\<lambda>s.
             map_option (discovery_retention_state (store s) (cand_actor c))
               (map_of (relay_discoveries (store s)) (cand_actor c)))
      else fail (Err ErrRetentionWriteInput))"

definition retentionStateMatches :: "PurgeCandidate \<Rightarrow> retentionState option \<Rightarrow> int \<Rightarrow> bool" where
  "retentionStateMatches c found cutoffUnix =
     (case found of
        None \<Rightarrow> False
      | Some current \<Rightarrow>
          if state_kind current \<noteq> cand_kind c \<or> state_inactive current \<noteq> cand_inactive c \<or>
             state_updated current \<noteq> cand_updated c \<or> state_observation current \<noteq> cand_observation c \<or>
             state_inactive current > cutoffUnix
          then False
          else if cand_kind c = PurgeCandidateLifecycle
          then state_administrative current = administrative_text Active \<and> state_lifecycle current = cand_state c \<and>
               state_relay_event current = cand_relay_event c \<and>
               state_moderation_event current = cand_moderation_event c
          else if cand_kind c = PurgeCandidateDiscovery
          then state_lifecycle current = discovery_text DiscoveryRemoved \<and>
               state_discovery_event current = cand_discovery_event c
          else False)"

definition purge_lifecycle :: "PurgeCandidate \<Rightarrow> PurgeBatchResult \<Rightarrow> (retention_db, PurgeBatchResult) tx" where
  "purge_lifecycle c res =
     bindt (exec_rows ''delete retained lifecycle events'' ''count deleted lifecycle events''
              (delete_relay_events (cand_actor c))) (\<lambda>eventCount.
     if eventCount < 0
     then fail (storageFailure ''count deleted lifecycle events'' (Opaque ''negative deleted lifecycle event count''))
     else
       bindt (exec_rows ''delete inactive relay'' ''count deleted inactive relay''
                (delete_inactive_relay (cand_actor c) (cand_state c))) (\<lambda>count.
       if count \<noteq> 1
       then fail (storageFailure ''count deleted inactive relay'' (Opaque ''deleted relay count''))
       else ret (res\<lparr>PurgedRelays := PurgedRelays res + 1,
                     PurgedLifecycleEvents := PurgedLifecycleEvents res + eventCount\<rparr>)))"

definition purge_discovery :: "PurgeCandidate \<Rightarrow> PurgeBatchResult \<Rightarrow> (retention_db, PurgeBatchResult) tx" where
  "purge_discovery c res =
     bindt (exec_rows ''delete removed discovery'' ''count deleted discovery''
              (delete_removed_discovery (cand_actor c))) (\<lambda>count.
     if count \<noteq> 1
     then fail (storageFailure ''count deleted discovery'' (Opaque ''deleted discovery count''))
     else ret (res\<lparr>PurgedDiscoveries := PurgedDiscoveries res + 1\<rparr>))"

definition purge_unowned :: "PurgeCandidate \<Rightarrow> PurgeBatchResult \<Rightarrow> (retention_db, PurgeBatchResult) tx" where
  "purge_unowned c res =
     bindt (exec_rows ''delete unowned relay observation'' ''count deleted relay observation''
              (delete_unowned_observation (cand_actor c))) (\<lambda>observationCount.
     if observationCount < 0 \<or> observationCount > 1
     then fail (storageFailure ''count deleted relay observation'' (Opaque ''deleted observation count''))
     else ret (res\<lparr>PurgedObservations := PurgedObservations res + observationCount\<rparr>))"

text \<open>One iteration of the loop over the candidates of a batch.\<close>

definition purge_one :: "int \<Rightarrow> PurgeCandidate \<Rightarrow> PurgeBatchResult \<Rightarrow> (retention_db, PurgeBatchResult) tx" where
  "purge_one cutoffUnix c res =
     bindt (readRetentionState c) (\<lambda>current.
     if \<not> retentionStateMatches c current cutoffUnix
     then ret (res\<lparr>batch_Skipped := batch_Skipped res + 1\<rparr>)
     else
       bindt (if cand_kind c = PurgeCandidateLifecycle then purge_lifecycle c res
              else if cand_kind c = PurgeCandidateDiscovery then purge_discovery c res
              else fail (Err ErrRetentionWriteInput)) (purge_unowned c))"

fun purge_all :: "int \<Rightarrow> PurgeCandidate list \<Rightarrow> PurgeBatchResult \<Rightarrow> (retention_db, PurgeBatchResult) tx" where
  "purge_all cutoffUnix [] res = ret res"
| "purge_all cutoffUnix (c # cs) res = bindt (purge_one cutoffUnix c res) (purge_all cutoffUnix cs)"

definition checkpoint :: "PurgeBatchResult \<Rightarrow> retention_run \<Rightarrow> retention_run" where
  "checkpoint res r =
     r\<lparr>run_scanned := run_scanned r + Attempted res, run_relays := run_relays r + PurgedRelays res,
       run_discoveries := run_discoveries r + PurgedDiscoveries res,
       run_observations := run_observations r + PurgedObservations res,
       run_events := run_events r + PurgedLifecycleEvents res,
       run_skipped := run_skipped r + batch_Skipped res, run_batches := run_batches r + 1\<rparr>"

definition empty_batch :: "int \<Rightarrow> PurgeBatchResult" where
  "empty_batch n = \<lparr>Attempted = n, PurgedRelays = 0, PurgedDiscoveries = 0, PurgedObservations = 0,
     PurgedLifecycleEvents = 0, batch_Skipped = 0\<rparr>"

definition purge_batch_tx :: "int \<Rightarrow> PurgeCandidate list \<Rightarrow> int \<Rightarrow> (retention_db, PurgeBatchResult completion) tx" where
  "purge_batch_tx runID candidates cutoffUnix =
     bindt (query ''read retention run'' (\<lambda>s. map_of (retention_runs s) runID)) (\<lambda>found.
     case found of
       None \<Rightarrow> fail (storageFailure ''read retention run'' (Opaque ''sql: no rows in result set''))
     | Some run \<Rightarrow>
         if run_outcome run \<noteq> retention_running \<or> run_cutoff run \<noteq> cutoffUnix \<or> run_policy run \<noteq> RetentionPolicyVersion
         then fail (Err ErrRetentionWriteInput)
         else
           let needsLifecycleDelete = list_ex (\<lambda>c. cand_kind c = PurgeCandidateLifecycle) candidates in
           bindt (if needsLifecycleDelete then exec ''open retention delete scope'' drop_delete_trigger else ret ()) (\<lambda>_.
           bindt (purge_all cutoffUnix candidates (empty_batch (int (length candidates)))) (\<lambda>res.
           bindt (if needsLifecycleDelete then exec ''close retention delete scope'' create_delete_trigger else ret ()) (\<lambda>_.
           bindt (exec_rows ''checkpoint retention batch'' ''checkpoint retention batch''
                    (update_running runID (checkpoint res))) (\<lambda>checkpointCount.
           if checkpointCount \<noteq> 1
           then fail (storageFailure ''checkpoint retention batch'' (Opaque ''retention checkpoint count''))
           else ret (Commit ''commit retention batch'' res))))))"

definition PurgeBatch :: "environment \<Rightarrow> int \<Rightarrow> PurgeCandidate list \<Rightarrow> int \<Rightarrow> retention_db \<Rightarrow> PurgeBatchResult result \<times> retention_db" where
  "PurgeBatch env runID candidates cutoffUnix s =
     (if runID \<le> 0 \<or> cutoffUnix < 0 \<or> candidates = [] \<or> int (length candidates) > MaximumPurgeCandidatePage
      then (Inl (Err ErrRetentionWriteInput), s)
      else if list_ex (\<lambda>c. \<not> PurgeCandidate_Valid c \<or> \<not> validHealthProjectionActor (cand_actor c) \<or>
                           cand_inactive c > cutoffUnix) candidates
      then (Inl (Err ErrRetentionWriteInput), s)
      else run_tx env (purge_batch_tx runID candidates cutoffUnix) s)"

subsection \<open>The run audit\<close>

text \<open>
  A mutation outside a transaction: the write lease of \<open>acquireWrite\<close>, then statements
  that take effect one by one.
\<close>

definition acquireWrite :: "environment \<Rightarrow> ('d, 'a) tx \<Rightarrow> ('d, 'a) tx" where
  "acquireWrite env t =
     (case admission env of
        Some e \<Rightarrow> fail (storageFailure ''admit storage mutation'' e)
      | None \<Rightarrow> t)"

definition run_direct :: "environment \<Rightarrow> ('d, 'a) tx \<Rightarrow> 'd \<Rightarrow> 'a result \<times> 'd" where
  "run_direct env t d = (case t (d, faults env) of (r, (d', _)) \<Rightarrow> (r, d'))"

definition validRetentionDigest :: "string \<Rightarrow> bool" where
  "validRetentionDigest v \<longleftrightarrow> length v = 64 \<and> list_all is_hex v \<and> v = map to_lower v"

definition started_run :: "RetentionRunStart \<Rightarrow> retention_run" where
  "started_run st =
     \<lparr>run_policy = start_policy st, run_days = start_days st, run_observed = start_observed st,
      run_cutoff = start_cutoff st, run_scanned = 0, run_relays = 0, run_discoveries = 0,
      run_observations = 0, run_events = 0, run_skipped = 0, run_batches = 0, run_truncated = 0,
      run_outcome = retention_running, run_backup = start_backup st, run_started = start_started st,
      run_finished = None\<rparr>"

definition BeginRetentionRun :: "environment \<Rightarrow> RetentionRunStart \<Rightarrow> retention_db \<Rightarrow> int result \<times> retention_db" where
  "BeginRetentionRun env st s =
     (if start_policy st \<noteq> RetentionPolicyVersion \<or> start_days st \<le> 0 \<or>
         start_days st > MaximumInactiveRetentionDays \<or> start_observed st < 0 \<or> start_cutoff st < 0 \<or>
         start_cutoff st > start_observed st \<or> \<not> validRetentionDigest (start_backup st) \<or>
         start_started st < start_observed st
      then (Inl (Err ErrRetentionWriteInput), s)
      else
        let retentionSeconds = start_days st * 86400 in
        if retentionSeconds > start_observed st \<or> start_observed st - retentionSeconds \<noteq> start_cutoff st
        then (Inl (Err ErrRetentionWriteInput), s)
        else run_direct env (acquireWrite env
               (bindt (exec_rows ''start retention run audit'' ''read retention run identifier''
                         (insert_run (started_run st))) (\<lambda>runID.
                if runID \<le> 0
                then fail (storageFailure ''read retention run identifier'' (Opaque ''invalid retention run identifier''))
                else ret runID))) s)"

definition finish_input_ok :: "RetentionRunFinish \<Rightarrow> bool" where
  "finish_input_ok fin \<longleftrightarrow>
     (let primaryPurged = fin_relays fin + fin_discoveries fin in
      \<not> (fin_run fin \<le> 0 \<or> fin_scanned fin < 0 \<or> fin_scanned fin > MaximumPurgeAttemptsPerRun \<or>
         fin_relays fin < 0 \<or> fin_discoveries fin < 0 \<or> primaryPurged > fin_scanned fin \<or>
         fin_observations fin < 0 \<or> fin_observations fin > primaryPurged \<or>
         fin_events fin < 0 \<or> fin_skipped fin < 0 \<or>
         primaryPurged + fin_skipped fin > fin_scanned fin \<or>
         (fin_outcome fin = RetentionCompleted \<and> primaryPurged + fin_skipped fin \<noteq> fin_scanned fin) \<or>
         fin_batches fin < 0 \<or> fin_batches fin > MaximumPurgeAttemptsPerRun \<or>
         (fin_scanned fin = 0 \<and> fin_batches fin \<noteq> 0) \<or>
         (fin_scanned fin > 0 \<and> (fin_batches fin = 0 \<or> fin_batches fin > fin_scanned fin)) \<or>
         \<not> RetentionOutcome_Valid (fin_outcome fin) \<or> fin_finished fin < 0))"

definition as_finish :: "int \<Rightarrow> retention_run \<Rightarrow> int \<Rightarrow> RetentionRunFinish" where
  "as_finish runID r finishedUnix =
     \<lparr>fin_run = runID, fin_scanned = run_scanned r, fin_relays = run_relays r,
      fin_discoveries = run_discoveries r, fin_observations = run_observations r,
      fin_events = run_events r, fin_skipped = run_skipped r, fin_batches = run_batches r,
      fin_truncated = (run_truncated r = 1), fin_outcome = run_outcome r, fin_finished = finishedUnix\<rparr>"

definition finished_run :: "RetentionRunFinish \<Rightarrow> retention_run \<Rightarrow> retention_run" where
  "finished_run fin r =
     r\<lparr>run_scanned := fin_scanned fin, run_relays := fin_relays fin, run_discoveries := fin_discoveries fin,
       run_observations := fin_observations fin, run_events := fin_events fin, run_skipped := fin_skipped fin,
       run_batches := fin_batches fin, run_truncated := (if fin_truncated fin then 1 else 0),
       run_outcome := fin_outcome fin, run_finished := Some (fin_finished fin)\<rparr>"

definition finish_agrees :: "RetentionRunFinish \<Rightarrow> retention_run \<Rightarrow> bool" where
  "finish_agrees fin r \<longleftrightarrow>
     \<not> (fin_relays fin \<noteq> run_relays r \<or> fin_discoveries fin \<noteq> run_discoveries r \<or>
        fin_observations fin \<noteq> run_observations r \<or> fin_events fin \<noteq> run_events r \<or>
        fin_skipped fin \<noteq> run_skipped r \<or> fin_batches fin < run_batches r \<or>
        fin_scanned fin < run_scanned r \<or>
        (fin_outcome fin = RetentionCompleted \<and>
           (fin_scanned fin \<noteq> run_scanned r \<or> fin_batches fin \<noteq> run_batches r)))"

definition FinishRetentionRun :: "environment \<Rightarrow> RetentionRunFinish \<Rightarrow> retention_db \<Rightarrow> unit result \<times> retention_db" where
  "FinishRetentionRun env fin s =
     (if \<not> finish_input_ok fin then (Inl (Err ErrRetentionWriteInput), s)
      else run_direct env
        (bindt (query ''read retention run audit for finalization'' (\<lambda>s. map_of (retention_runs s) (fin_run fin))) (\<lambda>found.
         case found of
           None \<Rightarrow> fail (storageFailure ''read retention run audit for finalization'' (Opaque ''sql: no rows in result set''))
         | Some r \<Rightarrow>
             if run_outcome r = retention_running \<and> run_policy r \<noteq> RetentionPolicyVersion
             then fail (Err ErrRetentionWriteInput)
             else if run_outcome r \<noteq> retention_running
             then (case run_finished r of
                     None \<Rightarrow> fail (Err ErrRetentionWriteInput)
                   | Some finishedUnix \<Rightarrow>
                       if as_finish (fin_run fin) r finishedUnix \<noteq> fin then fail (Err ErrRetentionWriteInput)
                       else ret ())
             else if \<not> finish_agrees fin r then fail (Err ErrRetentionWriteInput)
             else acquireWrite env
               (bindt (exec_rows ''finish retention run audit'' ''inspect retention run finalization''
                         (update_running (fin_run fin) (finished_run fin))) (\<lambda>count.
                if count \<noteq> 1 then fail (Err ErrRetentionWriteInput) else ret ())))) s)"

definition RetentionDatabaseIdentity :: "bool \<Rightarrow> retention_db \<Rightarrow> string result" where
  "RetentionDatabaseIdentity fault s =
     (if fault then Inl (storageFailure ''read retention database identity'' driver_error)
      else case retention_metadata s of
        None \<Rightarrow> Inl (storageFailure ''read retention database identity'' (Opaque ''sql: no rows in result set''))
      | Some (identity, version) \<Rightarrow>
          if length identity \<noteq> 16 \<or> version \<noteq> RetentionPolicyVersion
          then Inl (storageFailure ''validate retention database identity'' (Opaque ''invalid retention metadata''))
          else Inr identity)"

end
