(* ===== verification/RetentionStore.thy ===== *)
theory RetentionStore
  imports Retention
begin

section \<open>What a purge batch does\<close>

text \<open>
  The fault-free run of a purge batch as a pure function, fault tolerance of the batch,
  and the frame of one purge: which rows of which actor it removes.
\<close>

lemma exec_rows_tolerant [tolerant]: "fault_tolerant (exec_rows a b f)"
  by (auto simp: fault_tolerant_def exec_rows_def query_def split: option.splits)

lemma exec_rows_calm [tx_simps]:
  "exec_rows a b f (d, []) =
     (case f d of None \<Rightarrow> (Inl (storageFailure a constraint_error), (d, []))
      | Some (d', n) \<Rightarrow> (Inr n, (d', [])))"
  by (simp add: exec_rows_def query_def split: option.splits)

subsection \<open>Reading the changed state\<close>

lemma store_set_store [simp]: "store (set_store f s) = f (store s)"
  by (simp add: store_def set_store_def)

lemma store_updates [simp]:
  "store (s\<lparr>events_guarded := b\<rparr>) = store s" "store (s\<lparr>retention_runs := rs\<rparr>) = store s"
  "store (s\<lparr>retention_run_seq := n\<rparr>) = store s"
  "store (drop_profile a s) = store s" "store (drop_telemetry a s) = store s"
  by (simp_all add: store_def drop_profile_def drop_telemetry_def)

lemma set_store_frame [simp]:
  "events_guarded (set_store f s) = events_guarded s" "retention_runs (set_store f s) = retention_runs s"
  "retention_run_seq (set_store f s) = retention_run_seq s"
  "retention_metadata (set_store f s) = retention_metadata s"
  "profile_values (content (set_store f s)) = profile_values (content s)"
  "profile_events (content (set_store f s)) = profile_events (content s)"
  "telemetry (content (set_store f s)) = telemetry (content s)"
  by (simp_all add: set_store_def)

lemma drop_frame [simp]:
  "events_guarded (drop_profile a s) = events_guarded s" "retention_runs (drop_profile a s) = retention_runs s"
  "retention_run_seq (drop_profile a s) = retention_run_seq s"
  "retention_metadata (drop_profile a s) = retention_metadata s"
  "telemetry (content (drop_profile a s)) = telemetry (content s)"
  "profile_events (content (drop_profile a s)) = profile_events (content s)"
  "events_guarded (drop_telemetry a s) = events_guarded s" "retention_runs (drop_telemetry a s) = retention_runs s"
  "retention_run_seq (drop_telemetry a s) = retention_run_seq s"
  "retention_metadata (drop_telemetry a s) = retention_metadata s"
  "profile_values (content (drop_telemetry a s)) = profile_values (content s)"
  "profile_events (content (drop_telemetry a s)) = profile_events (content s)"
  "profile_values (content (drop_profile a s)) = filter (\<lambda>kv. fst (fst kv) \<noteq> a) (profile_values (content s))"
  "telemetry (content (drop_telemetry a s)) = AList.delete a (telemetry (content s))"
  by (simp_all add: drop_profile_def drop_telemetry_def)

subsection \<open>The pure effect\<close>

definition drop_events :: "string \<Rightarrow> retention_db \<Rightarrow> retention_db" where
  "drop_events actor = set_store (\<lambda>d. d\<lparr>relay_events := filter (\<lambda>e. event_actor e \<noteq> actor) (relay_events d)\<rparr>)"

definition drop_primary :: "PurgeCandidate \<Rightarrow> retention_db \<Rightarrow> retention_db" where
  "drop_primary c s =
     (if cand_kind c = PurgeCandidateLifecycle then drop_relay (cand_actor c) (drop_events (cand_actor c) s)
      else drop_discovery (cand_actor c) s)"

definition orphaned :: "string \<Rightarrow> retention_db \<Rightarrow> bool" where
  "orphaned a s \<longleftrightarrow> map_of (relay_observations (store s)) a \<noteq> None \<and> \<not> retained (store s) a"

definition drop_candidate :: "PurgeCandidate \<Rightarrow> retention_db \<Rightarrow> retention_db" where
  "drop_candidate c s =
     (let s1 = drop_primary c s in if orphaned (cand_actor c) s1 then drop_observation (cand_actor c) s1 else s1)"

definition current_state :: "PurgeCandidate \<Rightarrow> db \<Rightarrow> retentionState option" where
  "current_state c d =
     (if cand_kind c = PurgeCandidateLifecycle
      then map_option (relay_retention_state d (cand_actor c)) (map_of (relays d) (cand_actor c))
      else map_option (discovery_retention_state d (cand_actor c)) (map_of (relay_discoveries d) (cand_actor c)))"

definition still_due :: "int \<Rightarrow> PurgeCandidate \<Rightarrow> retention_db \<Rightarrow> bool" where
  "still_due cutoffUnix c s \<longleftrightarrow> retentionStateMatches c (current_state c (store s)) cutoffUnix"

definition count_candidate :: "int \<Rightarrow> PurgeCandidate \<Rightarrow> retention_db \<Rightarrow> PurgeBatchResult \<Rightarrow> PurgeBatchResult" where
  "count_candidate cutoffUnix c s res =
     (if \<not> still_due cutoffUnix c s then res\<lparr>batch_Skipped := batch_Skipped res + 1\<rparr>
      else
        let res1 =
          (if cand_kind c = PurgeCandidateLifecycle
           then res\<lparr>PurgedRelays := PurgedRelays res + 1,
                    PurgedLifecycleEvents := PurgedLifecycleEvents res +
                      int (length (filter (\<lambda>e. event_actor e = cand_actor c) (relay_events (store s))))\<rparr>
           else res\<lparr>PurgedDiscoveries := PurgedDiscoveries res + 1\<rparr>)
        in res1\<lparr>PurgedObservations := PurgedObservations res1 +
             (if orphaned (cand_actor c) (drop_primary c s) then 1 else 0)\<rparr>)"

definition purge_state :: "int \<Rightarrow> PurgeCandidate \<Rightarrow> retention_db \<Rightarrow> retention_db" where
  "purge_state cutoffUnix c s = (if still_due cutoffUnix c s then drop_candidate c s else s)"

fun purge_states :: "int \<Rightarrow> PurgeCandidate list \<Rightarrow> retention_db \<Rightarrow> retention_db" where
  "purge_states cutoffUnix [] s = s"
| "purge_states cutoffUnix (c # cs) s = purge_states cutoffUnix cs (purge_state cutoffUnix c s)"

fun count_candidates :: "int \<Rightarrow> PurgeCandidate list \<Rightarrow> retention_db \<Rightarrow> PurgeBatchResult \<Rightarrow> PurgeBatchResult" where
  "count_candidates cutoffUnix [] s res = res"
| "count_candidates cutoffUnix (c # cs) s res =
     count_candidates cutoffUnix cs (purge_state cutoffUnix c s) (count_candidate cutoffUnix c s res)"

lemma kinds_differ [simp]:
  "PurgeCandidateLifecycle \<noteq> PurgeCandidateDiscovery" "PurgeCandidateDiscovery \<noteq> PurgeCandidateLifecycle"
  by (simp_all add: purge_kinds)

lemma text_inject [simp]:
  "lifecycle_text a = lifecycle_text b \<longleftrightarrow> a = b" "administrative_text x = administrative_text y \<longleftrightarrow> x = y"
  "discovery_text p = discovery_text q \<longleftrightarrow> p = q"
  by ((cases a; cases b; simp), (cases x; cases y; simp), (cases p; cases q; simp))

text \<open>What a match says about the row it matched.\<close>

lemma still_due_lifecycle:
  assumes "cand_kind c = PurgeCandidateLifecycle" and "0 \<le> cand_inactive c"
  shows "still_due cutoff c s \<longleftrightarrow>
    (\<exists>r t. map_of (relays (store s)) (cand_actor c) = Some r \<and> administrative_state r = Active \<and>
       inactive_at r = Some t \<and> t \<le> cutoff \<and> cand_state c = lifecycle_text (lifecycle_state r) \<and>
       cand_inactive c = t \<and> cand_updated c = updated_at r \<and>
       cand_relay_event c = latest_relay_event (store s) (cand_actor c) \<and>
       cand_moderation_event c = latest_moderation_event (store s) (cand_actor c) \<and>
       cand_observation c = observation_revision (store s) (cand_actor c))"
  using assms
  by (auto simp: still_due_def current_state_def retentionStateMatches_def relay_retention_state_def
      null_to_minus_def simp del: administrative_text.simps split: option.splits)

lemma still_due_discovery:
  assumes "cand_kind c = PurgeCandidateDiscovery" and "0 \<le> cand_inactive c"
  shows "still_due cutoff c s \<longleftrightarrow>
    (\<exists>r t. map_of (relay_discoveries (store s)) (cand_actor c) = Some r \<and> discovery_state r = DiscoveryRemoved \<and>
       removed_at r = Some t \<and> t \<le> cutoff \<and> cand_inactive c = t \<and> cand_updated c = discovery_updated_at r \<and>
       cand_discovery_event c = latest_discovery_event (store s) (cand_actor c) \<and>
       cand_observation c = observation_revision (store s) (cand_actor c))"
  using assms
  by (auto simp: still_due_def current_state_def retentionStateMatches_def discovery_retention_state_def
      null_to_minus_def simp del: discovery_text.simps split: option.splits)

lemma PurgeCandidate_kind:
  "PurgeCandidate_Valid c \<Longrightarrow>
   (cand_kind c = PurgeCandidateLifecycle \<or> cand_kind c = PurgeCandidateDiscovery) \<and> 0 \<le> cand_inactive c"
  by (auto simp: PurgeCandidate_Valid_def purge_kind_Valid_def)

lemma purge_one_calm:
  assumes valid: "PurgeCandidate_Valid c" and unlocked: "cand_kind c = PurgeCandidateLifecycle \<Longrightarrow> \<not> events_guarded s"
  shows "purge_one cutoff c res (s, []) = (Inr (count_candidate cutoff c s res), (purge_state cutoff c s, []))"
proof -
  have read: "readRetentionState c (s, []) = (Inr (current_state c (store s)), (s, []))"
    using PurgeCandidate_kind [OF valid] by (auto simp: readRetentionState_def current_state_def tx_simps)
  show ?thesis
  proof (cases "still_due cutoff c s")
    case False
    then show ?thesis
      by (simp add: purge_one_def tx_simps read still_due_def [symmetric] count_candidate_def purge_state_def)
  next
    case True
    have unowned: "purge_unowned c r (s1, []) =
      (Inr (r\<lparr>PurgedObservations := PurgedObservations r + (if orphaned (cand_actor c) s1 then 1 else 0)\<rparr>),
       (if orphaned (cand_actor c) s1 then drop_observation (cand_actor c) s1 else s1, []))" for r s1
      by (simp add: purge_unowned_def tx_simps delete_unowned_observation_def orphaned_def)
    from PurgeCandidate_kind [OF valid] show ?thesis
    proof (elim conjE disjE)
      assume k: "cand_kind c = PurgeCandidateLifecycle" and i: "0 \<le> cand_inactive c"
      obtain r where r: "map_of (relays (store s)) (cand_actor c) = Some r" "administrative_state r = Active"
        "cand_state c = lifecycle_text (lifecycle_state r)"
        using True unfolding still_due_lifecycle [OF k i] by blast
      have ev: "delete_relay_events (cand_actor c) s = Some (drop_events (cand_actor c) s,
          int (length (filter (\<lambda>e. event_actor e = cand_actor c) (relay_events (store s)))))"
        using unlocked [OF k] by (simp add: delete_relay_events_def drop_events_def)
      have del: "delete_inactive_relay (cand_actor c) (cand_state c) (drop_events (cand_actor c) s) =
          Some (drop_relay (cand_actor c) (drop_events (cand_actor c) s), 1)"
        using r by (simp add: delete_inactive_relay_def drop_events_def)
      show ?thesis using True k
        by (simp add: purge_one_def tx_simps read still_due_def [symmetric] purge_lifecycle_def ev del unowned
            count_candidate_def purge_state_def drop_candidate_def drop_primary_def Let_def)
    next
      assume k: "cand_kind c = PurgeCandidateDiscovery" and i: "0 \<le> cand_inactive c"
      obtain r where r: "map_of (relay_discoveries (store s)) (cand_actor c) = Some r" "discovery_state r = DiscoveryRemoved"
        using True unfolding still_due_discovery [OF k i] by blast
      then have del: "delete_removed_discovery (cand_actor c) s = Some (drop_discovery (cand_actor c) s, 1)"
        by (simp add: delete_removed_discovery_def)
      show ?thesis using True k
        by (simp add: purge_one_def tx_simps read still_due_def [symmetric] purge_discovery_def del unowned
            count_candidate_def purge_state_def drop_candidate_def drop_primary_def Let_def)
    qed
  qed
qed

lemma drop_candidate_frame [simp]:
  "events_guarded (drop_candidate c s) = events_guarded s" "retention_runs (drop_candidate c s) = retention_runs s"
  "retention_run_seq (drop_candidate c s) = retention_run_seq s"
  "retention_metadata (drop_candidate c s) = retention_metadata s"
  "profile_events (content (drop_candidate c s)) = profile_events (content s)"
  by (simp_all add: drop_candidate_def drop_primary_def drop_relay_def drop_discovery_def drop_events_def
      drop_observation_def Let_def)

lemma purge_states_frame [simp]:
  "events_guarded (purge_states cutoff cs s) = events_guarded s"
  "retention_runs (purge_states cutoff cs s) = retention_runs s"
  "retention_run_seq (purge_states cutoff cs s) = retention_run_seq s"
  "retention_metadata (purge_states cutoff cs s) = retention_metadata s"
  "profile_events (content (purge_states cutoff cs s)) = profile_events (content s)"
  by (induction cs arbitrary: s) (simp_all add: purge_state_def)

lemma purge_all_calm:
  assumes "list_all PurgeCandidate_Valid cs"
    and "list_ex (\<lambda>c. cand_kind c = PurgeCandidateLifecycle) cs \<Longrightarrow> \<not> events_guarded s"
  shows "purge_all cutoff cs res (s, []) = (Inr (count_candidates cutoff cs s res), (purge_states cutoff cs s, []))"
  using assms
proof (induction cs arbitrary: s res)
  case (Cons c cs)
  have step: "purge_one cutoff c res (s, []) = (Inr (count_candidate cutoff c s res), (purge_state cutoff c s, []))"
    using Cons.prems by (intro purge_one_calm) auto
  have "purge_all cutoff cs (count_candidate cutoff c s res) (purge_state cutoff c s, []) =
      (Inr (count_candidates cutoff cs (purge_state cutoff c s) (count_candidate cutoff c s res)),
       (purge_states cutoff cs (purge_state cutoff c s), []))"
    using Cons.prems by (intro Cons.IH) (auto simp: purge_state_def)
  with step show ?case by (simp add: tx_simps)
qed (simp add: tx_simps)

subsection \<open>A whole batch\<close>

lemma set_guard [simp]:
  "set_store f (s\<lparr>events_guarded := b\<rparr>) = (set_store f s)\<lparr>events_guarded := b\<rparr>"
  "drop_profile a (s\<lparr>events_guarded := b\<rparr>) = (drop_profile a s)\<lparr>events_guarded := b\<rparr>"
  "drop_telemetry a (s\<lparr>events_guarded := b\<rparr>) = (drop_telemetry a s)\<lparr>events_guarded := b\<rparr>"
  by (simp_all add: set_store_def drop_profile_def drop_telemetry_def)

lemma drop_primary_guard: "drop_primary c (s\<lparr>events_guarded := b\<rparr>) = (drop_primary c s)\<lparr>events_guarded := b\<rparr>"
  by (simp add: drop_primary_def drop_relay_def drop_discovery_def drop_events_def Let_def)

lemma guard_irrelevant:
  "drop_candidate c (s\<lparr>events_guarded := b\<rparr>) = (drop_candidate c s)\<lparr>events_guarded := b\<rparr>"
  "still_due cutoff c (s\<lparr>events_guarded := b\<rparr>) = still_due cutoff c s"
  "orphaned a (drop_primary c (s\<lparr>events_guarded := b\<rparr>)) = orphaned a (drop_primary c s)"
  by (simp_all add: drop_candidate_def drop_primary_guard drop_observation_def still_due_def Let_def orphaned_def)

lemma purge_states_guard:
  "purge_states cutoff cs (s\<lparr>events_guarded := b\<rparr>) = (purge_states cutoff cs s)\<lparr>events_guarded := b\<rparr>"
  "count_candidates cutoff cs (s\<lparr>events_guarded := b\<rparr>) res = count_candidates cutoff cs s res"
proof (induction cs arbitrary: s res)
  case (Cons c cs)
  { case 1
    show ?case using Cons [of "drop_candidate c s"] Cons [of s] by (simp add: purge_state_def guard_irrelevant)
  next
    case 2
    show ?case using Cons by (simp add: purge_state_def count_candidate_def guard_irrelevant Let_def)
  }
qed simp_all

lemma purge_one_tolerant [tolerant]: "fault_tolerant (purge_one cutoff c res)"
  unfolding purge_one_def readRetentionState_def purge_lifecycle_def purge_discovery_def purge_unowned_def
  by (intro tolerant)

lemma purge_all_tolerant [tolerant]: "fault_tolerant (purge_all cutoff cs res)"
  by (induction cs arbitrary: res) (auto intro: tolerant)

lemma purge_batch_tolerant [tolerant]: "fault_tolerant (purge_batch_tx runID cs cutoff)"
  unfolding purge_batch_tx_def Let_def by (intro tolerant)

definition batch_result :: "int \<Rightarrow> PurgeCandidate list \<Rightarrow> retention_db \<Rightarrow> PurgeBatchResult" where
  "batch_result cutoffUnix cs s = count_candidates cutoffUnix cs s (empty_batch (int (length cs)))"

definition batch_state :: "int \<Rightarrow> int \<Rightarrow> PurgeCandidate list \<Rightarrow> retention_run \<Rightarrow> retention_db \<Rightarrow> retention_db" where
  "batch_state runID cutoffUnix cs run s =
     (purge_states cutoffUnix cs s)\<lparr>retention_runs :=
        AList.update runID (checkpoint (batch_result cutoffUnix cs s) run) (retention_runs s)\<rparr>"

definition batch_input_ok :: "int \<Rightarrow> PurgeCandidate list \<Rightarrow> int \<Rightarrow> bool" where
  "batch_input_ok runID cs cutoffUnix \<longleftrightarrow>
     0 < runID \<and> 0 \<le> cutoffUnix \<and> cs \<noteq> [] \<and> int (length cs) \<le> MaximumPurgeCandidatePage \<and>
     list_all (\<lambda>c. PurgeCandidate_Valid c \<and> validHealthProjectionActor (cand_actor c) \<and> cand_inactive c \<le> cutoffUnix) cs"

text \<open>
  The fault-free transaction: it needs a running record of the same cutoff and policy, an
  intact delete trigger, and a checkpoint that the table constraints accept.
\<close>

definition batch_accepted :: "int \<Rightarrow> int \<Rightarrow> PurgeCandidate list \<Rightarrow> retention_run \<Rightarrow> retention_db \<Rightarrow> bool" where
  "batch_accepted runID cutoffUnix cs run s \<longleftrightarrow>
     map_of (retention_runs s) runID = Some run \<and> run_outcome run = retention_running \<and>
     run_cutoff run = cutoffUnix \<and> run_policy run = RetentionPolicyVersion \<and>
     (list_ex (\<lambda>c. cand_kind c = PurgeCandidateLifecycle) cs \<longrightarrow> events_guarded s) \<and>
     run_check (checkpoint (batch_result cutoffUnix cs s) run) \<and>
     run_update_allowed run (checkpoint (batch_result cutoffUnix cs s) run)"

lemma calm_chain:
  "A (s, []) = (Inr u, (s0, [])) \<Longrightarrow> B (s0, []) = (Inr r, (s1, [])) \<Longrightarrow> C (s1, []) = (Inr v, (s2, [])) \<Longrightarrow>
   bindt A (\<lambda>_. bindt B (\<lambda>res. bindt C (\<lambda>_. D res))) (s, []) = D r (s2, [])"
  by (simp add: bindt_def)

lemma purge_batch_calm:
  assumes "list_all PurgeCandidate_Valid cs"
  shows "(\<exists>run. batch_accepted runID cutoff cs run s \<and>
       run_tx calm (purge_batch_tx runID cs cutoff) s =
         (Inr (batch_result cutoff cs s), batch_state runID cutoff cs run s)) \<or>
    (\<not> (\<exists>run. batch_accepted runID cutoff cs run s) \<and>
     (\<exists>e. run_tx calm (purge_batch_tx runID cs cutoff) s = (Inl e, s)))"
proof (cases "map_of (retention_runs s) runID")
  case None
  then show ?thesis by (auto simp: purge_batch_tx_def tx_simps batch_accepted_def)
next
  case (Some run)
  let ?L = "list_ex (\<lambda>c. cand_kind c = PurgeCandidateLifecycle) cs"
  let ?res = "batch_result cutoff cs s"
  show ?thesis
  proof (cases "run_outcome run \<noteq> retention_running \<or> run_cutoff run \<noteq> cutoff \<or> run_policy run \<noteq> RetentionPolicyVersion \<or>
      (?L \<and> \<not> events_guarded s)")
    case True
    with Some show ?thesis by (auto simp: purge_batch_tx_def tx_simps batch_accepted_def drop_delete_trigger_def)
  next
    case False
    define s0 where "s0 = (if ?L then s\<lparr>events_guarded := False\<rparr> else s)"
    define A where "A = (if ?L then exec ''open retention delete scope'' drop_delete_trigger else ret ())"
    define B where "B = purge_all cutoff cs (empty_batch (int (length cs)))"
    define C where "C = (if ?L then exec ''close retention delete scope'' create_delete_trigger else ret ())"
    have all: "B (s0, []) =
        (Inr ?res, (purge_states cutoff cs s0, []))"
      using purge_all_calm [OF assms, of s0 cutoff "empty_batch (int (length cs))"]
      by (auto simp: B_def s0_def batch_result_def purge_states_guard)
    have closed: "C
        (purge_states cutoff cs s0, []) = (Inr (), (purge_states cutoff cs s, []))"
    proof (cases ?L)
      case True
      then have "events_guarded (purge_states cutoff cs s)" using False by simp
      then have "(purge_states cutoff cs s)\<lparr>events_guarded := True\<rparr> = purge_states cutoff cs s"
        by (cases "purge_states cutoff cs s") simp
      with True show ?thesis by (simp add: C_def s0_def tx_simps create_delete_trigger_def purge_states_guard)
    qed (simp add: C_def s0_def tx_simps)
    have opened: "A (s, []) = (Inr (), (s0, []))"
      using False by (simp add: A_def s0_def tx_simps drop_delete_trigger_def)
    have upd: "update_running runID (checkpoint ?res) (purge_states cutoff cs s) =
        (if run_check (checkpoint ?res run) \<and> run_update_allowed run (checkpoint ?res run)
         then Some (batch_state runID cutoff cs run s, 1) else None)"
      using Some False by (simp add: update_running_def batch_state_def)
    have guard: "(run_outcome run \<noteq> retention_running \<or> run_cutoff run \<noteq> cutoff \<or> run_policy run \<noteq> RetentionPolicyVersion) = False"
      using False by blast
    have body: "purge_batch_tx runID cs cutoff (s, []) =
        bindt (exec_rows ''checkpoint retention batch'' ''checkpoint retention batch''
                    (update_running runID (checkpoint ?res))) (\<lambda>checkpointCount.
           if checkpointCount \<noteq> 1
           then fail (storageFailure ''checkpoint retention batch'' (Opaque ''retention checkpoint count''))
           else ret (Commit ''commit retention batch'' ?res)) (purge_states cutoff cs s, [])"
      unfolding purge_batch_tx_def Let_def A_def [symmetric] B_def [symmetric] C_def [symmetric]
      by (subst bindt_def) (simp only: query_calm Some prod.case sum.case option.case guard if_False
          calm_chain [of A s "()" s0 B ?res "purge_states cutoff cs s0" C "()" "purge_states cutoff cs s", OF opened all closed])
    have "run_tx calm (purge_batch_tx runID cs cutoff) s =
        (if run_check (checkpoint ?res run) \<and> run_update_allowed run (checkpoint ?res run)
         then (Inr ?res, batch_state runID cutoff cs run s)
         else (Inl (storageFailure ''checkpoint retention batch'' constraint_error), s))"
      by (simp add: run_calm body bindt_eval exec_rows_calm upd ret_def)
    then show ?thesis using Some False by (auto simp: batch_accepted_def)
  qed
qed

lemma PurgeBatch_cases:
  assumes "PurgeBatch env runID cs cutoff s = (out, s')"
  obtains (refused) e where "out = Inl e" "s' = s"
  | (purged) run where "batch_input_ok runID cs cutoff" "batch_accepted runID cutoff cs run s"
      "out = Inr (batch_result cutoff cs s)" "s' = batch_state runID cutoff cs run s"
proof (cases "batch_input_ok runID cs cutoff")
  case False
  then have "out = Inl (Err ErrRetentionWriteInput)" "s' = s"
    using assms by (auto simp: batch_input_ok_def PurgeBatch_def list_ex_iff list_all_iff split: if_splits)
  then show ?thesis by (rule refused)
next
  case True
  then have run: "run_tx env (purge_batch_tx runID cs cutoff) s = (out, s')"
    using assms by (auto simp: batch_input_ok_def PurgeBatch_def list_ex_iff list_all_iff split: if_splits)
  have valid: "list_all PurgeCandidate_Valid cs" using True by (auto simp: batch_input_ok_def list_all_iff)
  from run_tx_tolerant [OF purge_batch_tolerant, of s env runID cs cutoff] show ?thesis
  proof
    assume "interrupted s (run_tx env (purge_batch_tx runID cs cutoff) s)"
    with run refused show ?thesis by (auto simp: interrupted_def)
  next
    assume "run_tx env (purge_batch_tx runID cs cutoff) s = run_tx calm (purge_batch_tx runID cs cutoff) s"
    with run purge_batch_calm [OF valid, of runID cutoff s] refused purged True show ?thesis by auto
  qed
qed

subsection \<open>The frame of one purge\<close>

lemma store_drop_events [simp]:
  "store (drop_events a s) = (store s)\<lparr>relay_events := filter (\<lambda>e. event_actor e \<noteq> a) (relay_events (store s))\<rparr>"
  by (simp add: drop_events_def)

lemma store_drop_relay [simp]:
  "store (drop_relay a s) = (store s)\<lparr>relays := AList.delete a (relays (store s))\<rparr>"
  by (simp add: drop_relay_def Let_def)

lemma store_drop_discovery [simp]:
  "store (drop_discovery a s) = (store s)\<lparr>relay_discoveries := AList.delete a (relay_discoveries (store s))\<rparr>"
  by (simp add: drop_discovery_def Let_def)

lemma store_drop_observation [simp]:
  "store (drop_observation a s) = (store s)\<lparr>relay_observations := AList.delete a (relay_observations (store s))\<rparr>"
  by (simp add: drop_observation_def)

definition is_lifecycle :: "PurgeCandidate \<Rightarrow> bool" where
  "is_lifecycle c \<longleftrightarrow> cand_kind c = PurgeCandidateLifecycle"

lemma store_drop_primary:
  "store (drop_primary c s) =
     (if is_lifecycle c
      then (store s)\<lparr>relays := AList.delete (cand_actor c) (relays (store s)),
             relay_events := filter (\<lambda>e. event_actor e \<noteq> cand_actor c) (relay_events (store s))\<rparr>
      else (store s)\<lparr>relay_discoveries := AList.delete (cand_actor c) (relay_discoveries (store s))\<rparr>)"
  by (simp add: drop_primary_def is_lifecycle_def)

lemma store_drop_candidate:
  "store (drop_candidate c s) =
     (let d = store (drop_primary c s) in
      if orphaned (cand_actor c) (drop_primary c s)
      then d\<lparr>relay_observations := AList.delete (cand_actor c) (relay_observations d)\<rparr> else d)"
  by (simp add: drop_candidate_def Let_def)

lemma drop_candidate_tables:
  "relays (store (drop_candidate c s)) =
     (if is_lifecycle c then AList.delete (cand_actor c) (relays (store s)) else relays (store s))"
  "relay_events (store (drop_candidate c s)) =
     (if is_lifecycle c then filter (\<lambda>e. event_actor e \<noteq> cand_actor c) (relay_events (store s))
      else relay_events (store s))"
  "relay_discoveries (store (drop_candidate c s)) =
     (if is_lifecycle c then relay_discoveries (store s) else AList.delete (cand_actor c) (relay_discoveries (store s)))"
  "relay_observations (store (drop_candidate c s)) =
     (if orphaned (cand_actor c) (drop_primary c s)
      then AList.delete (cand_actor c) (relay_observations (store s)) else relay_observations (store s))"
  "relay_event_seq (store (drop_candidate c s)) = relay_event_seq (store s)"
  "moderation_events (store (drop_candidate c s)) = moderation_events (store s)"
  "moderation_event_seq (store (drop_candidate c s)) = moderation_event_seq (store s)"
  "directory_policy (store (drop_candidate c s)) = directory_policy (store s)"
  "enrollment_events (store (drop_candidate c s)) = enrollment_events (store s)"
  "enrollment_event_seq (store (drop_candidate c s)) = enrollment_event_seq (store s)"
  "discovery_events (store (drop_candidate c s)) = discovery_events (store s)"
  "discovery_event_seq (store (drop_candidate c s)) = discovery_event_seq (store s)"
  by (simp_all add: store_drop_candidate store_drop_primary Let_def)

lemma orphaned_drop_primary:
  "orphaned a (drop_primary c s) \<longleftrightarrow> map_of (relay_observations (store s)) a \<noteq> None \<and>
     \<not> retained (store (drop_candidate c s)) a"
  by (auto simp: orphaned_def retained_def store_drop_primary drop_candidate_tables)

lemma observation_drop_candidate:
  "map_of (relay_observations (store (drop_candidate c s))) a =
     (if a = cand_actor c \<and> \<not> retained (store (drop_candidate c s)) a then None
      else map_of (relay_observations (store s)) a)"
  by (auto simp: drop_candidate_tables(4) orphaned_drop_primary)

text \<open>
  What a run of purges keeps, compared with the state it started from: the audit tables
  other than the relay events, every surviving row with the events and the observation of
  its actor, and nothing new.
\<close>

definition survivor :: "db \<Rightarrow> db \<Rightarrow> string \<Rightarrow> bool" where
  "survivor d0 d a \<longleftrightarrow>
     (\<forall>r. map_of (relays d) a = Some r \<longrightarrow> map_of (relays d0) a = Some r \<and>
        filter (\<lambda>e. event_actor e = a) (relay_events d) = filter (\<lambda>e. event_actor e = a) (relay_events d0)) \<and>
     (\<forall>r. map_of (relay_discoveries d) a = Some r \<longrightarrow> map_of (relay_discoveries d0) a = Some r) \<and>
     (retained d a \<longrightarrow> map_of (relay_observations d) a = map_of (relay_observations d0) a)"

definition same_audit :: "db \<Rightarrow> db \<Rightarrow> bool" where
  "same_audit d0 d \<longleftrightarrow>
     relay_event_seq d = relay_event_seq d0 \<and> moderation_events d = moderation_events d0 \<and>
     moderation_event_seq d = moderation_event_seq d0 \<and> directory_policy d = directory_policy d0 \<and>
     enrollment_events d = enrollment_events d0 \<and> enrollment_event_seq d = enrollment_event_seq d0 \<and>
     discovery_events d = discovery_events d0 \<and> discovery_event_seq d = discovery_event_seq d0"

lemma survivor_refl [simp]: "survivor d d a" "same_audit d d"
  by (simp_all add: survivor_def same_audit_def)

lemma retained_drop_candidate:
  "retained (store (drop_candidate c s)) a \<Longrightarrow> retained (store s) a"
  by (auto simp: retained_def drop_candidate_tables split: if_splits)

lemma events_of_other:
  assumes "a \<noteq> b"
  shows "filter (\<lambda>e. event_actor e \<noteq> b \<and> event_actor e = a) es = filter (\<lambda>e. event_actor e = a) es"
  using assms by (auto intro!: filter_cong)

lemma survivor_drop_candidate:
  assumes "survivor d0 (store s) a"
  shows "survivor d0 (store (drop_candidate c s)) a"
  using assms retained_drop_candidate [of c s a]
  by (auto simp: survivor_def observation_drop_candidate)
    (auto simp: drop_candidate_tables events_of_other split: if_splits)

lemma purge_states_survivor:
  "survivor d0 (store s) a \<Longrightarrow> survivor d0 (store (purge_states cutoff cs s)) a"
  "same_audit d0 (store s) \<Longrightarrow> same_audit d0 (store (purge_states cutoff cs s))"
  by (induction cs arbitrary: s)
    (simp_all add: purge_state_def survivor_drop_candidate, simp add: same_audit_def drop_candidate_tables)

lemma still_due_survivor:
  assumes valid: "PurgeCandidate_Valid c" and sv: "survivor (store s0) (store s) (cand_actor c)"
    and au: "same_audit (store s0) (store s)" and due: "still_due cutoff c s"
  shows "still_due cutoff c s0"
proof -
  let ?a = "cand_actor c"
  from PurgeCandidate_kind [OF valid] show ?thesis
  proof (elim conjE disjE)
    assume k: "cand_kind c = PurgeCandidateLifecycle" and i: "0 \<le> cand_inactive c"
    obtain r where "map_of (relays (store s)) ?a = Some r" using due unfolding still_due_lifecycle [OF k i] by blast
    then have "map_of (relays (store s0)) ?a = map_of (relays (store s)) ?a"
      "latest_relay_event (store s0) ?a = latest_relay_event (store s) ?a"
      "latest_moderation_event (store s0) ?a = latest_moderation_event (store s) ?a"
      "observation_revision (store s0) ?a = observation_revision (store s) ?a"
      using sv au by (auto simp: survivor_def same_audit_def retained_def latest_relay_event_def
          latest_moderation_event_def observation_revision_def)
    with due show ?thesis unfolding still_due_lifecycle [OF k i] by simp
  next
    assume k: "cand_kind c = PurgeCandidateDiscovery" and i: "0 \<le> cand_inactive c"
    obtain r where "map_of (relay_discoveries (store s)) ?a = Some r" using due unfolding still_due_discovery [OF k i] by blast
    then have "map_of (relay_discoveries (store s0)) ?a = map_of (relay_discoveries (store s)) ?a"
      "latest_discovery_event (store s0) ?a = latest_discovery_event (store s) ?a"
      "observation_revision (store s0) ?a = observation_revision (store s) ?a"
      using sv au by (auto simp: survivor_def same_audit_def retained_def
          latest_discovery_event_def observation_revision_def)
    with due show ?thesis unfolding still_due_discovery [OF k i] by simp
  qed
qed

text \<open>A row that is gone after a batch was removed for a candidate that was due at its start.\<close>

lemma purge_states_removed:
  assumes "list_all PurgeCandidate_Valid cs" "\<And>a. survivor (store s0) (store s) a" "same_audit (store s0) (store s)"
  shows "(\<forall>r. map_of (relays (store s)) a = Some r \<longrightarrow> map_of (relays (store (purge_states cutoff cs s))) a \<noteq> Some r \<longrightarrow>
        (\<exists>c \<in> set cs. cand_actor c = a \<and> is_lifecycle c \<and> still_due cutoff c s0)) \<and>
      (\<forall>q. map_of (relay_discoveries (store s)) a = Some q \<longrightarrow>
        map_of (relay_discoveries (store (purge_states cutoff cs s))) a \<noteq> Some q \<longrightarrow>
        (\<exists>c \<in> set cs. cand_actor c = a \<and> \<not> is_lifecycle c \<and> still_due cutoff c s0))"
  using assms
proof (induction cs arbitrary: s)
  case (Cons c cs)
  let ?s = "purge_state cutoff c s"
  have sv: "\<And>a. survivor (store s0) (store ?s) a" "same_audit (store s0) (store ?s)"
    using Cons.prems(2,3) purge_states_survivor [where cs = "[c]"] by auto
  have due: "still_due cutoff c s \<Longrightarrow> still_due cutoff c s0"
    using still_due_survivor [of c s0 s] Cons.prems by simp
  have valid: "list_all PurgeCandidate_Valid cs" using Cons.prems(1) by simp
  note IH = Cons.IH [OF valid sv]
  have "map_of (relays (store ?s)) a = Some r \<or> cand_actor c = a \<and> is_lifecycle c \<and> still_due cutoff c s"
    if "map_of (relays (store s)) a = Some r" for r
    using that by (auto simp: purge_state_def drop_candidate_tables)
  moreover have "map_of (relay_discoveries (store ?s)) a = Some q \<or> cand_actor c = a \<and> \<not> is_lifecycle c \<and> still_due cutoff c s"
    if "map_of (relay_discoveries (store s)) a = Some q" for q
    using that by (auto simp: purge_state_def drop_candidate_tables)
  ultimately show ?case using IH due by auto
qed simp

end
