(* ===== verification/RetentionAudit.thy ===== *)
theory RetentionAudit
  imports RetentionStore
begin

section \<open>The retention audit and its invariant\<close>

text \<open>
  Sequences of retention operations under any faults: case analyses of the run records, the
  conservation of rows and audit counts, the invariant every operation keeps, and the
  properties of a purge.
\<close>

subsection \<open>Operations of the retention repository\<close>

datatype retention_op =
    OpBegin environment RetentionRunStart
  | OpPurge environment int "PurgeCandidate list" int
  | OpFinish environment RetentionRunFinish

fun retention_step :: "retention_op \<Rightarrow> retention_db \<Rightarrow> retention_db" where
  "retention_step (OpBegin env st) s = snd (BeginRetentionRun env st s)"
| "retention_step (OpPurge env runID cs cutoffUnix) s = snd (PurgeBatch env runID cs cutoffUnix s)"
| "retention_step (OpFinish env fin) s = snd (FinishRetentionRun env fin s)"

fun retention_steps :: "retention_op list \<Rightarrow> retention_db \<Rightarrow> retention_db" where
  "retention_steps [] s = s"
| "retention_steps (op # ops) s = retention_steps ops (retention_step op s)"

lemma direct_rows:
  "run_direct env (acquireWrite env (bindt (exec_rows a b f) g)) s =
     (case admission env of
        Some e \<Rightarrow> (Inl (storageFailure ''admit storage mutation'' e), s)
      | None \<Rightarrow>
          if faults env \<noteq> [] \<and> hd (faults env) then (Inl (storageFailure a driver_error), s)
          else case f s of
            None \<Rightarrow> (Inl (storageFailure a constraint_error), s)
          | Some (s', n) \<Rightarrow>
              if tl (faults env) \<noteq> [] \<and> hd (tl (faults env)) then (Inl (storageFailure b driver_error), s')
              else run_direct (env\<lparr>faults := tl (tl (faults env))\<rparr>) (g n) s')"
  by (auto simp: run_direct_def acquireWrite_def bindt_def exec_rows_def query_def fail_def split: option.splits)

lemma run_direct_simple [simp]: "run_direct env (ret x) s = (Inr x, s)" "run_direct env (fail e) s = (Inl e, s)"
  by (simp_all add: run_direct_def ret_def fail_def)

lemma BeginRetentionRun_cases:
  assumes "BeginRetentionRun env st s = (out, s')"
  obtains (refused) e where "out = Inl e" "s' = s"
  | (inserted) "run_check (started_run st)"
      "s' = s\<lparr>retention_runs := AList.update (retention_run_seq s + 1) (started_run st) (retention_runs s),
              retention_run_seq := retention_run_seq s + 1\<rparr>"
  using assms
  by (auto simp: BeginRetentionRun_def Let_def direct_rows insert_run_def split: if_splits option.splits)

lemma FinishRetentionRun_cases:
  assumes "FinishRetentionRun env fin s = (out, s')"
  obtains (unchanged) "s' = s"
  | (finished) r where "finish_input_ok fin" "map_of (retention_runs s) (fin_run fin) = Some r"
      "run_outcome r = retention_running" "finish_agrees fin r" "run_check (finished_run fin r)"
      "s' = s\<lparr>retention_runs := AList.update (fin_run fin) (finished_run fin r) (retention_runs s)\<rparr>"
proof (cases "finish_input_ok fin")
  case True
  note fin = this
  show ?thesis
  proof (cases "(faults env \<noteq> [] \<and> hd (faults env)) \<or> map_of (retention_runs s) (fin_run fin) = None")
    case True
    with assms fin show ?thesis
      by (intro unchanged) (auto simp: FinishRetentionRun_def run_direct_def bindt_def query_def fail_def split: if_splits)
  next
    case False
    then obtain r where r: "map_of (retention_runs s) (fin_run fin) = Some r" by auto
    define env1 where "env1 = env\<lparr>faults := tl (faults env)\<rparr>"
    have run: "run_direct env (bindt (query a f) g) s = run_direct env1 (g (f s)) s" for a f and g :: "_ \<Rightarrow> (retention_db, unit) tx"
      using False by (auto simp: run_direct_def bindt_def query_def env1_def)
    have adm: "acquireWrite env t = acquireWrite env1 t" for t :: "(retention_db, unit) tx"
      by (simp add: acquireWrite_def env1_def)
    show ?thesis
    proof (cases "run_outcome r = retention_running \<and> run_policy r = RetentionPolicyVersion \<and> finish_agrees fin r")
      case False
      with assms fin r show ?thesis
        by (intro unchanged) (auto simp: FinishRetentionRun_def run split: if_splits option.splits)
    next
      case True
      then have eq: "run_direct env1 (acquireWrite env1
               (bindt (exec_rows ''finish retention run audit'' ''inspect retention run finalization''
                         (update_running (fin_run fin) (finished_run fin))) (\<lambda>count.
                if count \<noteq> 1 then fail (Err ErrRetentionWriteInput) else ret ()))) s = (out, s')"
        using assms fin r by (simp add: FinishRetentionRun_def run adm [symmetric])
      then show ?thesis using r True fin unchanged finished
        by (auto simp: direct_rows update_running_def split: if_splits option.splits)
    qed
  qed
qed (use assms in \<open>auto simp: FinishRetentionRun_def intro: unchanged\<close>)

subsection \<open>Conservation: every deleted row is in the audit\<close>

definition audit_total :: "(retention_run \<Rightarrow> int) \<Rightarrow> retention_db \<Rightarrow> int" where
  "audit_total f s = sum_list (map (\<lambda>kr. f (snd kr)) (retention_runs s))"

declare mem_delete [simp]

definition tables_ok :: "db \<Rightarrow> bool" where
  "tables_ok d \<longleftrightarrow> table_ok (relays d) \<and> table_ok (relay_discoveries d) \<and> table_ok (relay_observations d)"

lemma tables_ok_drop: "tables_ok (store s) \<Longrightarrow> tables_ok (store (drop_candidate c s))"
  by (auto simp: tables_ok_def drop_candidate_tables)

definition conserved :: "PurgeBatchResult \<Rightarrow> retention_db \<Rightarrow> int list" where
  "conserved res s =
     [PurgedRelays res + int (length (relays (store s))),
      PurgedDiscoveries res + int (length (relay_discoveries (store s))),
      PurgedObservations res + int (length (relay_observations (store s))),
      PurgedLifecycleEvents res + int (length (relay_events (store s)))]"

lemma count_candidate_conserved:
  assumes "tables_ok (store s)" "PurgeCandidate_Valid c"
  shows "conserved (count_candidate cutoff c s res) (purge_state cutoff c s) = conserved res s"
proof (cases "still_due cutoff c s")
  case True
  have obs: "orphaned (cand_actor c) (drop_primary c s) \<Longrightarrow>
      int (length (relay_observations (store s))) =
      1 + int (length (AList.delete (cand_actor c) (relay_observations (store s))))"
    using assms(1) length_delete_one [of "relay_observations (store s)" "cand_actor c"]
    by (auto simp: orphaned_def store_drop_primary tables_ok_def split: if_splits)
  have ev: "int (length (relay_events (store s))) =
      int (length (filter (\<lambda>e. event_actor e = cand_actor c) (relay_events (store s)))) +
      int (length (filter (\<lambda>e. event_actor e \<noteq> cand_actor c) (relay_events (store s))))"
    using sum_length_filter_compl [of "\<lambda>e. event_actor e = cand_actor c" "relay_events (store s)"] by linarith
  from PurgeCandidate_kind [OF assms(2)] show ?thesis
  proof (elim conjE disjE)
    assume k: "cand_kind c = PurgeCandidateLifecycle" and i: "0 \<le> cand_inactive c"
    have "map_of (relays (store s)) (cand_actor c) \<noteq> None"
      using True unfolding still_due_lifecycle [OF k i] by auto
    then have "int (length (relays (store s))) = 1 + int (length (AList.delete (cand_actor c) (relays (store s))))"
      using assms(1) length_delete_one [of "relays (store s)" "cand_actor c"] by (auto simp: tables_ok_def)
    with True k obs ev show ?thesis
      by (simp add: conserved_def count_candidate_def purge_state_def drop_candidate_tables is_lifecycle_def Let_def)
  next
    assume k: "cand_kind c = PurgeCandidateDiscovery" and i: "0 \<le> cand_inactive c"
    have "map_of (relay_discoveries (store s)) (cand_actor c) \<noteq> None"
      using True unfolding still_due_discovery [OF k i] by auto
    then have "int (length (relay_discoveries (store s))) =
        1 + int (length (AList.delete (cand_actor c) (relay_discoveries (store s))))"
      using assms(1) length_delete_one [of "relay_discoveries (store s)" "cand_actor c"] by (auto simp: tables_ok_def)
    with True k obs show ?thesis
      by (simp add: conserved_def count_candidate_def purge_state_def drop_candidate_tables is_lifecycle_def Let_def)
  qed
qed (simp add: conserved_def count_candidate_def purge_state_def)

lemma count_candidates_conserved:
  assumes "tables_ok (store s)" "list_all PurgeCandidate_Valid cs"
  shows "conserved (count_candidates cutoff cs s res) (purge_states cutoff cs s) = conserved res s"
  using assms
proof (induction cs arbitrary: s res)
  case (Cons c cs)
  have "tables_ok (store (purge_state cutoff c s))" using Cons.prems(1) by (simp add: purge_state_def tables_ok_drop)
  with Cons count_candidate_conserved [of s c cutoff res] show ?case by simp
qed simp

definition ledger :: "retention_db \<Rightarrow> int list" where
  "ledger s =
     [audit_total run_relays s + int (length (relays (store s))),
      audit_total run_discoveries s + int (length (relay_discoveries (store s))),
      audit_total run_observations s + int (length (relay_observations (store s))),
      audit_total run_events s + int (length (relay_events (store s)))]"

definition runs_ok :: "retention_db \<Rightarrow> bool" where
  "runs_ok s \<longleftrightarrow> table_ok (retention_runs s) \<and> 0 \<le> retention_run_seq s \<and>
     (\<forall>runID r. map_of (retention_runs s) runID = Some r \<longrightarrow>
        0 < runID \<and> runID \<le> retention_run_seq s \<and> run_check r)"

lemma batch_ledger:
  assumes "tables_ok (store s)" "runs_ok s" "list_all PurgeCandidate_Valid cs" "batch_accepted runID cutoff cs run s"
  shows "ledger (batch_state runID cutoff cs run s) = ledger s"
proof -
  have "conserved (batch_result cutoff cs s) (purge_states cutoff cs s) = conserved (empty_batch (int (length cs))) s"
    using count_candidates_conserved [OF assms(1,3)] by (simp add: batch_result_def)
  moreover have "audit_total f (batch_state runID cutoff cs run s) =
      audit_total f s - f run + f (checkpoint (batch_result cutoff cs s) run)" for f
    using assms(2,4) by (simp add: audit_total_def batch_state_def runs_ok_def batch_accepted_def sum_update_old)
  moreover have "store (batch_state runID cutoff cs run s) = store (purge_states cutoff cs s)"
    by (simp add: batch_state_def)
  ultimately show ?thesis by (simp add: ledger_def conserved_def empty_batch_def checkpoint_def)
qed

subsection \<open>The retention invariant\<close>

definition owned :: "retention_db \<Rightarrow> bool" where
  "owned s \<longleftrightarrow>
     (\<forall>a o1. map_of (relay_observations (store s)) a = Some o1 \<longrightarrow> observation_check a o1 \<and> retained (store s) a) \<and>
     (\<forall>kv \<in> set (profile_values (content s)). retained (store s) (fst (fst kv))) \<and>
     (\<forall>kt \<in> set (telemetry (content s)). map_of (relays (store s)) (fst kt) \<noteq> None)"

definition positive_ids :: "db \<Rightarrow> bool" where
  "positive_ids d \<longleftrightarrow> (\<forall>e \<in> set (relay_events d). 0 < event_id e) \<and>
     (\<forall>e \<in> set (moderation_events d). 0 < moderation_id e) \<and> (\<forall>e \<in> set (discovery_events d). 0 < discovery_id e)"

definition retention_ok :: "retention_db \<Rightarrow> bool" where
  "retention_ok s \<longleftrightarrow>
     positive_ids (store s) \<and> relays_ok (store s) \<and> discoveries_ok (store s) \<and> policy_ok (store s) \<and> events_ok (store s) \<and>
     table_ok (relay_observations (store s)) \<and> owned s \<and> events_guarded s \<and> runs_ok s"

lemma retention_tables: "retention_ok s \<Longrightarrow> tables_ok (store s)"
  by (simp add: retention_ok_def tables_ok_def relays_ok_def discoveries_ok_def)

lemma profile_drop_candidate:
  "profile_values (content (drop_candidate c s)) =
     (if retained (store (drop_candidate c s)) (cand_actor c) then profile_values (content s)
      else filter (\<lambda>kv. fst (fst kv) \<noteq> cand_actor c) (profile_values (content s)))"
proof -
  have "profile_values (content (drop_candidate c s)) = profile_values (content (drop_primary c s))"
    by (simp add: drop_candidate_def Let_def drop_observation_def)
  then show ?thesis
    by (auto simp: retained_def drop_candidate_tables)
      (auto simp: drop_primary_def drop_relay_def drop_discovery_def drop_events_def is_lifecycle_def Let_def)
qed

lemma telemetry_drop_candidate:
  "telemetry (content (drop_candidate c s)) =
     (if is_lifecycle c then AList.delete (cand_actor c) (telemetry (content s)) else telemetry (content s))"
  by (simp add: drop_candidate_def drop_primary_def drop_relay_def drop_discovery_def drop_events_def
      is_lifecycle_def drop_observation_def Let_def)

lemma retained_other:
  "a \<noteq> cand_actor c \<Longrightarrow> retained (store (drop_candidate c s)) a = retained (store s) a"
  by (simp add: retained_def drop_candidate_tables)

lemma owned_drop_candidate:
  assumes "owned s"
  shows "owned (drop_candidate c s)"
proof -
  have obs: "observation_check a o1 \<and> retained (store (drop_candidate c s)) a"
    if "map_of (relay_observations (store (drop_candidate c s))) a = Some o1" for a o1
    using that assms retained_other [of a c s]
    by (cases "a = cand_actor c") (auto simp: owned_def observation_drop_candidate split: if_splits)
  have prof: "retained (store (drop_candidate c s)) (fst (fst kv))"
    if "kv \<in> set (profile_values (content (drop_candidate c s)))" for kv
    using that assms retained_other [of "fst (fst kv)" c s]
    by (cases "fst (fst kv) = cand_actor c") (auto simp: owned_def profile_drop_candidate split: if_splits)
  have tel: "map_of (relays (store (drop_candidate c s))) (fst kt) \<noteq> None"
    if "kt \<in> set (telemetry (content (drop_candidate c s)))" for kt
    using that assms by (auto simp: owned_def telemetry_drop_candidate drop_candidate_tables
        simp del: map_of_eq_None_iff split: if_splits)
  show ?thesis unfolding owned_def using obs prof tel by blast
qed

lemma events_ok_drop_candidate:
  assumes "events_ok (store s)"
  shows "events_ok (store (drop_candidate c s))"
proof -
  have "event_times (store (drop_candidate c s)) a =
      (if is_lifecycle c \<and> a = cand_actor c then [] else event_times (store s) a)" for a
    by (auto simp: event_times_def drop_candidate_tables events_of_other)
  moreover have "moderation_times (store (drop_candidate c s)) a = moderation_times (store s) a" for a
    by (simp add: moderation_times_def drop_candidate_tables)
  moreover have "sorted_wrt (<) (map event_id (relay_events (store (drop_candidate c s))))"
    using assms by (simp add: events_ok_def drop_candidate_tables sorted_wrt_map sorted_wrt_filter)
  ultimately show ?thesis using assms by (auto simp: events_ok_def) (auto simp: drop_candidate_tables split: if_splits)
qed

lemma retention_ok_drop_candidate:
  assumes "retention_ok s"
  shows "retention_ok (drop_candidate c s)"
  using assms owned_drop_candidate [of s c] events_ok_drop_candidate [of s c]
  by (auto simp: retention_ok_def relays_ok_def discoveries_ok_def policy_ok_def runs_ok_def positive_ids_def)
    (auto simp: drop_candidate_tables split: if_splits)

lemma retention_ok_purge_states: "retention_ok s \<Longrightarrow> retention_ok (purge_states cutoff cs s)"
  by (induction cs arbitrary: s) (simp_all add: purge_state_def retention_ok_drop_candidate)

lemma retention_ok_runs:
  assumes "retention_ok s" "0 < k" "k \<le> n" "retention_run_seq s \<le> n" "run_check r"
  shows "retention_ok (s\<lparr>retention_runs := AList.update k r (retention_runs s), retention_run_seq := n\<rparr>)"
  using assms by (auto simp: retention_ok_def runs_ok_def owned_def) fastforce+

lemma retention_ok_update_run:
  assumes "retention_ok s" "map_of (retention_runs s) k = Some r0" "run_check r"
  shows "retention_ok (s\<lparr>retention_runs := AList.update k r (retention_runs s)\<rparr>)"
proof -
  have "0 < k \<and> k \<le> retention_run_seq s" using assms(1,2) by (auto simp: retention_ok_def runs_ok_def)
  with retention_ok_runs [OF assms(1), of k "retention_run_seq s" r] assms(3) show ?thesis by (cases s) simp
qed

lemma retention_step_ok:
  assumes ok: "retention_ok s"
  shows "retention_ok (retention_step op s)"
proof (cases op)
  case (OpBegin env st)
  obtain out s' where run: "BeginRetentionRun env st s = (out, s')" by fastforce
  have "0 \<le> retention_run_seq s" using ok by (simp add: retention_ok_def runs_ok_def)
  then show ?thesis using run OpBegin ok
    by (cases rule: BeginRetentionRun_cases [OF run]) (auto intro!: retention_ok_runs)
next
  case (OpPurge env runID cs cutoff)
  obtain out s' where run: "PurgeBatch env runID cs cutoff s = (out, s')" by fastforce
  then show ?thesis using OpPurge ok
  proof (cases rule: PurgeBatch_cases [OF run])
    case (2 r)
    have "map_of (retention_runs (purge_states cutoff cs s)) runID = Some r" using 2(2) by (simp add: batch_accepted_def)
    from retention_ok_update_run [OF retention_ok_purge_states [OF ok] this] 2 OpPurge run
    show ?thesis by (simp add: batch_state_def batch_accepted_def)
  qed simp
next
  case (OpFinish env fin)
  obtain out s' where run: "FinishRetentionRun env fin s = (out, s')" by fastforce
  then show ?thesis using OpFinish ok
    by (cases rule: FinishRetentionRun_cases [OF run]) (auto intro: retention_ok_update_run)
qed

lemma retention_step_ledger:
  assumes ok: "retention_ok s"
  shows "ledger (retention_step op s) = ledger s"
proof -
  have runs: "runs_ok s" "table_ok (retention_runs s)" using ok by (simp_all add: retention_ok_def runs_ok_def)
  have audit: "ledger (s\<lparr>retention_runs := rs, retention_run_seq := n\<rparr>) = ledger s"
    if "\<And>f. f \<in> {run_relays, run_discoveries, run_observations, run_events} \<Longrightarrow>
        sum_list (map (\<lambda>kr. f (snd kr)) rs) = audit_total f s" for rs n
    using that by (simp add: ledger_def audit_total_def)
  show ?thesis
  proof (cases op)
    case (OpBegin env st)
    obtain out s' where run: "BeginRetentionRun env st s = (out, s')" by fastforce
    have fresh: "map_of (retention_runs s) (retention_run_seq s + 1) = None"
      using runs(1) by (cases "map_of (retention_runs s) (retention_run_seq s + 1)") (fastforce simp: runs_ok_def)+
    show ?thesis using run OpBegin
      by (cases rule: BeginRetentionRun_cases [OF run])
        (auto intro!: audit simp: sum_update_new [OF fresh] audit_total_def started_run_def)
  next
    case (OpPurge env runID cs cutoff)
    obtain out s' where run: "PurgeBatch env runID cs cutoff s = (out, s')" by fastforce
    then show ?thesis using OpPurge
    proof (cases rule: PurgeBatch_cases [OF run])
      case (2 r)
      then have "list_all PurgeCandidate_Valid cs" by (auto simp: batch_input_ok_def list_all_iff)
      from batch_ledger [OF retention_tables [OF ok] runs(1) this 2(2)] 2 OpPurge run show ?thesis by simp
    qed simp
  next
    case (OpFinish env fin)
    obtain out s' where run: "FinishRetentionRun env fin s = (out, s')" by fastforce
    then show ?thesis using OpFinish
    proof (cases rule: FinishRetentionRun_cases [OF run])
      case (2 r)
      then have "ledger (s\<lparr>retention_runs := AList.update (fin_run fin) (finished_run fin r) (retention_runs s),
          retention_run_seq := retention_run_seq s\<rparr>) = ledger s"
        by (intro audit) (auto simp: sum_update_old [OF runs(2) 2(2)] audit_total_def finished_run_def finish_agrees_def)
      with 2 OpFinish run show ?thesis by (cases s) simp
    qed simp
  qed
qed

lemma retention_step_finished:
  assumes "map_of (retention_runs s) k = Some r" "run_outcome r \<noteq> retention_running" "runs_ok s"
  shows "map_of (retention_runs (retention_step op s)) k = Some r"
proof (cases op)
  case (OpBegin env st)
  obtain out s' where run: "BeginRetentionRun env st s = (out, s')" by fastforce
  have "k \<le> retention_run_seq s" using assms(1,3) unfolding runs_ok_def by blast
  then show ?thesis using run OpBegin assms(1) by (cases rule: BeginRetentionRun_cases [OF run]) auto
next
  case (OpPurge env runID cs cutoff)
  obtain out s' where run: "PurgeBatch env runID cs cutoff s = (out, s')" by fastforce
  then show ?thesis using OpPurge assms
    by (cases rule: PurgeBatch_cases [OF run]) (auto simp: batch_state_def batch_accepted_def)
next
  case (OpFinish env fin)
  obtain out s' where run: "FinishRetentionRun env fin s = (out, s')" by fastforce
  then show ?thesis using OpFinish assms by (cases rule: FinishRetentionRun_cases [OF run]) auto
qed

lemma retention_steps_ok: "retention_ok s \<Longrightarrow> retention_ok (retention_steps ops s)"
  by (induction ops arbitrary: s) (simp_all add: retention_step_ok)

subsection \<open>An example\<close>

definition gone_row :: relay_row where
  "gone_row = \<lparr>public_base_url = sample_base, lifecycle_state = Unregistered, administrative_state = Active,
     first_registered_at = 5, updated_at = 10, last_seen_at = 5, last_heartbeat_at = None,
     unregistered_at = Some 10, pruned_at = None, suspended_at = None\<rparr>"

definition inactive_db :: retention_db where
  "inactive_db =
     \<lparr>content = \<lparr>core = migrated\<lparr>relays := [(sample_actor, gone_row)],
          relay_events := [\<lparr>event_id = 1, event_actor = sample_actor, event_kind = UnregisterRemoved, event_at = 10\<rparr>],
          relay_event_seq := 1,
          relay_observations := [(sample_actor, empty_observation 5)]\<rparr>,
        profile_values = [], profile_events = [], telemetry = []\<rparr>,
      events_guarded = True, retention_metadata = None, retention_runs = [], retention_run_seq = 0\<rparr>"

definition sample_start :: RetentionRunStart where
  "sample_start = \<lparr>start_policy = 2, start_days = 1, start_observed = 100000, start_cutoff = 13600,
     start_backup = replicate 64 CHR ''0'', start_started = 100000\<rparr>"

definition sample_candidate :: PurgeCandidate where
  "sample_candidate = lifecycle_candidate (store inactive_db) (sample_actor, gone_row)"

definition running_db :: retention_db where
  "running_db = retention_step (OpBegin calm sample_start) inactive_db"

lemma sample_lengths_ok: "actor_length_ok sample_actor" "base_length_ok sample_base" "validHealthProjectionActor sample_actor"
  using sample_actor_canonical
  by (simp_all add: actor_length_ok_def base_length_ok_def sample_actor_def sample_base_def
      maximumRelayActorBytes_def maximumPublicBaseBytes_def validHealthProjectionActor_def)

lemma inactive_db_ok: "retention_ok inactive_db"
  using sample_lengths_ok sample_identity
  by (auto simp: retention_ok_def positive_ids_def inactive_db_def store_def migrated_def relays_ok_def discoveries_ok_def policy_ok_def
      events_ok_def event_times_def moderation_times_def owned_def runs_ok_def retained_def relay_check_def gone_row_def
      lifecycle_times_ok_def observation_check_def empty_observation_def actor_probe_ok_def canonical_identity_def)

lemma sample_run_check: "run_check (started_run sample_start)"
  by (simp add: run_check_def started_run_def sample_start_def lower_hex_def is_digit_def code_def outcome_texts
      list_all_iff)

lemma running_db_eq:
  "running_db = inactive_db\<lparr>retention_runs := [(1, started_run sample_start)], retention_run_seq := 1\<rparr>"
proof -
  have "validRetentionDigest (start_backup sample_start)"
    by (simp add: validRetentionDigest_def sample_start_def is_hex_def hex_digit_def is_digit_def is_lower_def code_def
        to_lower_def is_upper_def list_all_iff)
  moreover have "insert_run (started_run sample_start) inactive_db =
      Some (inactive_db\<lparr>retention_runs := [(1, started_run sample_start)], retention_run_seq := 1\<rparr>, 1)"
    using sample_run_check by (simp add: insert_run_def inactive_db_def)
  moreover have "validRetentionDigest (replicate 64 CHR ''0'') = validRetentionDigest (start_backup sample_start)"
    by (simp add: sample_start_def)
  ultimately show ?thesis
    by (simp add: running_db_def BeginRetentionRun_def sample_start_def [THEN arg_cong [of _ _ start_days]]
        sample_start_def [THEN arg_cong [of _ _ start_policy]] sample_start_def [THEN arg_cong [of _ _ start_observed]]
        sample_start_def [THEN arg_cong [of _ _ start_cutoff]] sample_start_def [THEN arg_cong [of _ _ start_started]]
        RetentionPolicyVersion_def MaximumInactiveRetentionDays_def Let_def direct_rows calm_def)
qed

lemma sample_candidate_eq:
  "sample_candidate = \<lparr>cand_kind = PurgeCandidateLifecycle, cand_actor = sample_actor, cand_state = ''unregistered'',
     cand_inactive = 10, cand_updated = 10, cand_relay_event = 1, cand_moderation_event = 0,
     cand_discovery_event = 0, cand_observation = 1\<rparr>"
  by (simp add: sample_candidate_def lifecycle_candidate_def gone_row_def inactive_at_def coalesce_zero_def
      latest_relay_event_def latest_moderation_event_def observation_revision_def sql_max_def inactive_db_def
      store_def migrated_def empty_observation_def)

lemma sample_batch:
  "fst (PurgeBatch calm 1 [sample_candidate] 13600 running_db) =
     Inr \<lparr>Attempted = 1, PurgedRelays = 1, PurgedDiscoveries = 0, PurgedObservations = 1, PurgedLifecycleEvents = 1,
         batch_Skipped = 0\<rparr>"
proof -
  have valid: "PurgeCandidate_Valid sample_candidate"
    by (simp add: sample_candidate_eq PurgeCandidate_Valid_def purge_kind_Valid_def) (simp add: sample_actor_def)
  have st: "store running_db = store inactive_db" by (simp add: running_db_eq)
  have due: "still_due 13600 sample_candidate running_db"
    by (subst still_due_lifecycle)
      (simp_all add: sample_candidate_eq st, simp add: inactive_db_def store_def migrated_def gone_row_def inactive_at_def
        latest_relay_event_def latest_moderation_event_def observation_revision_def sql_max_def coalesce_zero_def
        empty_observation_def)
  have orph: "orphaned sample_actor (drop_primary sample_candidate running_db)"
    by (simp add: orphaned_def store_drop_primary is_lifecycle_def sample_candidate_eq st retained_def)
      (simp add: inactive_db_def store_def migrated_def)
  have res: "batch_result 13600 [sample_candidate] running_db =
      \<lparr>Attempted = 1, PurgedRelays = 1, PurgedDiscoveries = 0, PurgedObservations = 1, PurgedLifecycleEvents = 1,
         batch_Skipped = 0\<rparr>"
    using due orph by (simp add: batch_result_def count_candidate_def empty_batch_def Let_def st)
      (simp add: sample_candidate_eq inactive_db_def store_def migrated_def)
  have acc: "batch_accepted 1 13600 [sample_candidate] (started_run sample_start) running_db"
    unfolding batch_accepted_def res
    by (simp add: running_db_eq checkpoint_def started_run_def RetentionPolicyVersion_def run_check_def
        run_update_allowed_def outcome_texts sample_start_def inactive_db_def RetentionOutcome_Valid_def
        lower_hex_def is_digit_def code_def list_all_iff)
  from purge_batch_calm [of "[sample_candidate]" 1 13600 running_db] valid acc
  have "fst (run_tx calm (purge_batch_tx 1 [sample_candidate] 13600) running_db) = Inr (batch_result 13600 [sample_candidate] running_db)"
    by auto
  then show ?thesis using valid sample_lengths_ok
    by (simp add: PurgeBatch_def res MaximumPurgeCandidatePage_def) (simp add: sample_candidate_eq)
qed

subsection \<open>Properties\<close>

lemma purge_states_events:
  assumes "list_all PurgeCandidate_Valid cs"
  shows "filter (\<lambda>e. event_actor e = a) (relay_events (store (purge_states cutoff cs s))) =
    (if map_of (relays (store s)) a \<noteq> None \<and> map_of (relays (store (purge_states cutoff cs s))) a = None then []
     else filter (\<lambda>e. event_actor e = a) (relay_events (store s)))"
  using assms
proof (induction cs arbitrary: s)
  case (Cons c cs)
  let ?s = "purge_state cutoff c s"
  have "filter (\<lambda>e. event_actor e = a) (relay_events (store ?s)) =
      (if map_of (relays (store s)) a \<noteq> None \<and> map_of (relays (store ?s)) a = None then []
       else filter (\<lambda>e. event_actor e = a) (relay_events (store s)))"
  proof (cases "still_due cutoff c s \<and> is_lifecycle c \<and> a = cand_actor c")
    case True
    have k: "cand_kind c = PurgeCandidateLifecycle" "0 \<le> cand_inactive c"
      using True Cons.prems PurgeCandidate_kind [of c] by (auto simp: is_lifecycle_def)
    have "map_of (relays (store s)) a \<noteq> None" using True unfolding still_due_lifecycle [OF k] by auto
    with True show ?thesis by (simp add: purge_state_def drop_candidate_tables)
  qed (auto simp: purge_state_def drop_candidate_tables events_of_other)
  moreover have "map_of (relays (store (purge_states cutoff cs ?s))) a = None" if "map_of (relays (store ?s)) a = None"
    using purge_states_survivor(1) [of "store ?s" ?s a cutoff cs] that by (auto simp: survivor_def)
  moreover have "map_of (relays (store ?s)) a = None" if "map_of (relays (store s)) a = None"
    using that by (auto simp: purge_state_def drop_candidate_tables)
  ultimately show ?case using Cons.IH [of ?s] Cons.prems by auto
qed auto

lemma still_due_row:
  assumes "PurgeCandidate_Valid c" "still_due cutoff c s"
  shows "is_lifecycle c \<Longrightarrow> map_of (relays (store s)) (cand_actor c) = Some r \<Longrightarrow>
      purgeable_relay cutoff (cand_actor c, r) \<and>
      c\<lparr>cand_discovery_event := 0\<rparr> = lifecycle_candidate (store s) (cand_actor c, r)"
    and "\<not> is_lifecycle c \<Longrightarrow> map_of (relay_discoveries (store s)) (cand_actor c) = Some q \<Longrightarrow>
      purgeable_discovery cutoff (cand_actor c, q) \<and>
      c\<lparr>cand_relay_event := 0, cand_moderation_event := 0\<rparr> = discovery_candidate (store s) (cand_actor c, q)"
proof -
  note kind = PurgeCandidate_kind [OF assms(1)]
  { assume l: "is_lifecycle c" and r: "map_of (relays (store s)) (cand_actor c) = Some r"
    have k: "cand_kind c = PurgeCandidateLifecycle" "0 \<le> cand_inactive c" using l kind by (auto simp: is_lifecycle_def)
    then show "purgeable_relay cutoff (cand_actor c, r) \<and>
      c\<lparr>cand_discovery_event := 0\<rparr> = lifecycle_candidate (store s) (cand_actor c, r)"
      using assms(2) r unfolding still_due_lifecycle [OF k]
      by (cases c) (auto simp: purgeable_relay_def lifecycle_candidate_def due_by_def coalesce_zero_def inactive_at_def
          split: lifecycle.splits) }
  { assume l: "\<not> is_lifecycle c" and q: "map_of (relay_discoveries (store s)) (cand_actor c) = Some q"
    have k: "cand_kind c = PurgeCandidateDiscovery" "0 \<le> cand_inactive c" using l kind by (auto simp: is_lifecycle_def)
    moreover have "cand_state c = []" using assms(1) k by (simp add: PurgeCandidate_Valid_def)
    ultimately show "purgeable_discovery cutoff (cand_actor c, q) \<and>
      c\<lparr>cand_relay_event := 0, cand_moderation_event := 0\<rparr> = discovery_candidate (store s) (cand_actor c, q)"
      using assms(2) q unfolding still_due_discovery [OF k]
      by (cases c) (auto simp: purgeable_discovery_def discovery_candidate_def due_by_def coalesce_zero_def) }
qed

text \<open>C6: a purge batch, under any candidates, admission answers and driver faults, deletes a
  relay only if it is at that moment an unsuspended, unregistered or pruned relay whose
  inactivity began at or before the cutoff and one of the candidates is an exact snapshot
  of it: the same update time, latest lifecycle and moderation events and observation
  revision. Its lifecycle events go with it, and no other. Discoveries are deleted under
  the corresponding condition. An observation goes exactly when its last owner is gone,
  and moderation, discovery and enrollment history, the policy and the append-only trigger
  are as before.\<close>

theorem purge_only_unchanged_inactive:
  assumes "retention_ok s" and run: "PurgeBatch env runID cs cutoff s = (out, s')"
  shows "(\<forall>a r. map_of (relays (store s)) a = Some r \<longrightarrow>
        map_of (relays (store s')) a = Some r \<or>
        map_of (relays (store s')) a = None \<and> purgeable_relay cutoff (a, r) \<and>
        (\<exists>c \<in> set cs. c\<lparr>cand_discovery_event := 0\<rparr> = lifecycle_candidate (store s) (a, r))) \<and>
    (\<forall>a q. map_of (relay_discoveries (store s)) a = Some q \<longrightarrow>
        map_of (relay_discoveries (store s')) a = Some q \<or>
        map_of (relay_discoveries (store s')) a = None \<and> purgeable_discovery cutoff (a, q) \<and>
        (\<exists>c \<in> set cs. c\<lparr>cand_relay_event := 0, cand_moderation_event := 0\<rparr> = discovery_candidate (store s) (a, q))) \<and>
    (\<forall>a. filter (\<lambda>e. event_actor e = a) (relay_events (store s')) =
        (if map_of (relays (store s)) a \<noteq> None \<and> map_of (relays (store s')) a = None then []
         else filter (\<lambda>e. event_actor e = a) (relay_events (store s)))) \<and>
    (\<forall>a. map_of (relay_observations (store s')) a =
        (if retained (store s') a then map_of (relay_observations (store s)) a else None)) \<and>
    same_audit (store s) (store s') \<and> events_guarded s'"
proof -
  have owner: "map_of (relay_observations (store s)) a = None" if "\<not> retained (store s) a" for a
    using assms(1) that by (cases "map_of (relay_observations (store s)) a") (auto simp: retention_ok_def owned_def)
  have guarded: "events_guarded s" using assms(1) by (simp add: retention_ok_def)
  from run show ?thesis
  proof (cases rule: PurgeBatch_cases [OF run])
    case (1 e)
    then show ?thesis using owner guarded by auto
  next
    case (2 r)
    have valid: "list_all PurgeCandidate_Valid cs" using 2(1) by (auto simp: batch_input_ok_def list_all_iff)
    have st: "store s' = store (purge_states cutoff cs s)" using 2 by (simp add: batch_state_def)
    have ok2: "retention_ok s'" using retention_step_ok [OF assms(1), of "OpPurge env runID cs cutoff"] run by simp
    have sv: "survivor (store s) (store s') a" for a unfolding st by (rule purge_states_survivor) simp
    note gone = purge_states_removed [OF valid, of s s _ cutoff, folded st, simplified]
    have obs: "map_of (relay_observations (store s')) a =
        (if retained (store s') a then map_of (relay_observations (store s)) a else None)" for a
      using sv [of a] ok2 by (cases "map_of (relay_observations (store s')) a") (auto simp: survivor_def retention_ok_def owned_def)
    have rel: "map_of (relays (store s')) a = None \<and> purgeable_relay cutoff (a, r) \<and>
        (\<exists>c \<in> set cs. c\<lparr>cand_discovery_event := 0\<rparr> = lifecycle_candidate (store s) (a, r))"
      if h: "map_of (relays (store s)) a = Some r" "map_of (relays (store s')) a \<noteq> Some r" for a r
    proof -
      obtain c where c: "c \<in> set cs" "cand_actor c = a" "is_lifecycle c" "still_due cutoff c s"
        using gone [of a] h by blast
      moreover have "map_of (relays (store s')) a = None"
        using sv [of a] h by (cases "map_of (relays (store s')) a") (auto simp: survivor_def)
      ultimately show ?thesis using still_due_row(1) [of c cutoff s r] valid h(1) by (auto simp: list_all_iff)
    qed
    have dis: "map_of (relay_discoveries (store s')) a = None \<and> purgeable_discovery cutoff (a, q) \<and>
        (\<exists>c \<in> set cs. c\<lparr>cand_relay_event := 0, cand_moderation_event := 0\<rparr> = discovery_candidate (store s) (a, q))"
      if h: "map_of (relay_discoveries (store s)) a = Some q" "map_of (relay_discoveries (store s')) a \<noteq> Some q" for a q
    proof -
      obtain c where c: "c \<in> set cs" "cand_actor c = a" "\<not> is_lifecycle c" "still_due cutoff c s"
        using gone [of a] h by blast
      moreover have "map_of (relay_discoveries (store s')) a = None"
        using sv [of a] h by (cases "map_of (relay_discoveries (store s')) a") (auto simp: survivor_def)
      ultimately show ?thesis using still_due_row(2) [of c cutoff s q] valid h(1) by (auto simp: list_all_iff)
    qed
    have audit: "same_audit (store s) (store s')" unfolding st by (rule purge_states_survivor) simp
    have guard: "events_guarded s'" using ok2 by (simp add: retention_ok_def)
    note ev = purge_states_events [OF valid, of _ cutoff s, folded st]
    show ?thesis
      by (intro conjI allI impI; (rule ev obs audit guard)?) (use rel dis in blast)+
  qed
qed

theorem purge_only_unchanged_inactive_witness:
  "map_of (relays (store (snd (PurgeBatch calm 1 [sample_candidate] 13600 running_db)))) sample_actor = Some gone_row \<or>
   map_of (relays (store (snd (PurgeBatch calm 1 [sample_candidate] 13600 running_db)))) sample_actor = None \<and>
   purgeable_relay 13600 (sample_actor, gone_row)"
proof -
  have "retention_ok running_db" unfolding running_db_def by (rule retention_step_ok [OF inactive_db_ok])
  moreover have "map_of (relays (store running_db)) sample_actor = Some gone_row"
    by (simp add: running_db_eq) (simp add: inactive_db_def store_def)
  ultimately show ?thesis using purge_only_unchanged_inactive [of running_db calm 1 "[sample_candidate]" 13600
    "fst (PurgeBatch calm 1 [sample_candidate] 13600 running_db)" "snd (PurgeBatch calm 1 [sample_candidate] 13600 running_db)"]
    by simp blast
qed

text \<open>C8: the run audit accounts for every deleted row. Over any sequence of retention
  operations, under any faults, the retention invariant is kept (table constraints, every
  observation, profile assertion and telemetry row owned, event order, the delete trigger in
  place between operations, well-formed run records); the rows left in a table plus the rows the run records
  count as purged from it stay constant, for relays, discoveries, observations and
  lifecycle events; and a finished run record never changes again.\<close>

theorem retention_audit_exact:
  assumes "retention_ok s"
  shows "retention_ok (retention_steps ops s) \<and> ledger (retention_steps ops s) = ledger s \<and>
    (\<forall>runID r. map_of (retention_runs s) runID = Some r \<and> run_outcome r \<noteq> retention_running \<longrightarrow>
       map_of (retention_runs (retention_steps ops s)) runID = Some r)"
  using assms
proof (induction ops arbitrary: s)
  case (Cons op ops)
  have "runs_ok s" using Cons.prems by (simp add: retention_ok_def)
  with Cons.IH [OF retention_step_ok [OF Cons.prems, of op]] retention_step_ledger [OF Cons.prems, of op]
    retention_step_finished [of s _ _ op] show ?case by simp
qed simp

theorem retention_audit_exact_witness:
  "ledger (retention_steps [OpBegin calm sample_start, OpPurge calm 1 [sample_candidate] 13600] inactive_db) = [1, 0, 1, 1]"
proof -
  have "ledger inactive_db = [1, 0, 1, 1]"
    by (simp add: ledger_def audit_total_def) (simp add: inactive_db_def store_def migrated_def)
  then show ?thesis
    using retention_audit_exact [OF inactive_db_ok, of "[OpBegin calm sample_start, OpPurge calm 1 [sample_candidate] 13600]"]
    by simp
qed

end
