(* ===== verification/RetentionRun.thy ===== *)
theory RetentionRun
  imports RetentionAudit
begin

section \<open>Bounded retention runs\<close>

text \<open>
  \<open>internal/retention/run.go\<close> over an abstract retention repository: a record of the
  operations of \<open>storage.RetentionRepository\<close> and of the context error over an explicit
  state. The loops run on fuel; the budget of 1000 attempts is always enough, since every
  page that does not end the loop has at least one candidate. A returned error is a list:
  empty for nil, and two entries for \<open>errors.Join\<close>.
\<close>

record 's retention_repository =
  repo_purge_candidates :: "'s \<Rightarrow> PurgeCandidateQuery \<Rightarrow> (PurgeCandidate list \<times> purge_cursor) result"
  repo_begin_run :: "'s \<Rightarrow> RetentionRunStart \<Rightarrow> int result \<times> 's"
  repo_purge_batch :: "'s \<Rightarrow> int \<Rightarrow> PurgeCandidate list \<Rightarrow> int \<Rightarrow> PurgeBatchResult result \<times> 's"
  repo_finish_run :: "'s \<Rightarrow> RetentionRunFinish \<Rightarrow> unit result \<times> 's"
  repo_run_ctx :: "'s \<Rightarrow> goerror option"

record retention_summary =
  sum_observed :: int
  sum_cutoff :: int
  sum_count :: int
  sum_oldest :: "int option"
  sum_newest :: "int option"
  sum_batches :: int
  sum_truncated :: bool

record retention_result = retention_summary +
  res_relays :: int
  res_discoveries :: int
  res_observations :: int
  res_events :: int
  res_skipped :: int

definition validRetentionDays :: "int \<Rightarrow> bool" where
  "validRetentionDays days \<longleftrightarrow> days \<ge> 0 \<and> days \<le> MaximumInactiveRetentionDays"

definition validSHA256 :: "string \<Rightarrow> bool" where
  "validSHA256 v \<longleftrightarrow> length v = 64 \<and> list_all lower_hex v"

definition retention_cutoff :: "int \<Rightarrow> int \<Rightarrow> (int \<times> int) result" where
  "retention_cutoff days observedAt =
     (if \<not> validRetentionDays days then Inl (Err ErrRetentionConfiguration)
      else if observedAt < 0 then Inl (Err ErrRetentionConfiguration)
      else let seconds = days * 86400 in
        if seconds > observedAt then Inl (Err ErrRetentionConfiguration) else Inr (observedAt, observedAt - seconds))"

definition purgeCursorAfter :: "purge_cursor \<Rightarrow> purge_cursor \<Rightarrow> bool" where
  "purgeCursorAfter candidate previous =
     (if previous = zero_purge_cursor then True
      else case (candidate, previous) of ((t, a, k), (t', a', k')) \<Rightarrow>
        if t \<noteq> t' then t > t' else if a \<noteq> a' then a > a' else k > k')"

fun validate_candidates :: "int \<Rightarrow> purge_cursor \<Rightarrow> PurgeCandidate list \<Rightarrow> purge_cursor option" where
  "validate_candidates cutoffUnix position [] = Some position"
| "validate_candidates cutoffUnix position (c # cs) =
     (if NormalizeRelayActorURL (cand_actor c) \<noteq> Inr (cand_actor c) \<or> \<not> PurgeCandidate_Valid c \<or>
         cand_inactive c > cutoffUnix \<or> \<not> purgeCursorAfter (cand_key c) position
      then None else validate_candidates cutoffUnix (cand_key c) cs)"

definition validatePage :: "PurgeCandidate list \<times> purge_cursor \<Rightarrow> purge_cursor \<Rightarrow> int \<Rightarrow> int \<Rightarrow> goerror option" where
  "validatePage page previous limit cutoffUnix =
     (case page of (candidates, next_cursor) \<Rightarrow>
        if int (length candidates) > limit then Some (Err ErrRetentionConfiguration)
        else if candidates = [] then
          (if next_cursor \<noteq> zero_purge_cursor then Some (Err ErrRetentionConfiguration) else None)
        else case validate_candidates cutoffUnix previous candidates of
          None \<Rightarrow> Some (Err ErrRetentionConfiguration)
        | Some position \<Rightarrow>
            if next_cursor \<noteq> zero_purge_cursor \<and> (\<not> purge_cursor_Valid next_cursor \<or> next_cursor \<noteq> position)
            then Some (Err ErrRetentionConfiguration) else None)"

definition purge_page_limit :: "int \<Rightarrow> int" where
  "purge_page_limit count =
     (let remaining = MaximumPurgeAttemptsPerRun - count in
      if remaining < MaximumPurgeCandidatePage then remaining else MaximumPurgeCandidatePage)"

text \<open>Counting the candidates of a page: the oldest time of the first one, the newest of the last.\<close>

fun note_candidates :: "PurgeCandidate list \<Rightarrow> 'a retention_summary_scheme \<Rightarrow> 'a retention_summary_scheme" where
  "note_candidates [] res = res"
| "note_candidates (c # cs) res =
     note_candidates cs (res\<lparr>sum_oldest := (if sum_oldest res = None then Some (cand_inactive c) else sum_oldest res),
       sum_newest := Some (cand_inactive c), sum_count := sum_count res + 1\<rparr>)"

definition note_page :: "PurgeCandidate list \<Rightarrow> 'a retention_summary_scheme \<Rightarrow> 'a retention_summary_scheme" where
  "note_page cs res = note_candidates cs (res\<lparr>sum_batches := sum_batches res + 1\<rparr>)"

definition summary_at :: "int \<Rightarrow> int \<Rightarrow> retention_summary" where
  "summary_at observedUnix cutoffUnix = \<lparr>sum_observed = observedUnix, sum_cutoff = cutoffUnix, sum_count = 0,
     sum_oldest = None, sum_newest = None, sum_batches = 0, sum_truncated = False\<rparr>"

definition result_at :: "int \<Rightarrow> int \<Rightarrow> retention_result" where
  "result_at observedUnix cutoffUnix = \<lparr>sum_observed = observedUnix, sum_cutoff = cutoffUnix, sum_count = 0,
     sum_oldest = None, sum_newest = None, sum_batches = 0, sum_truncated = False, res_relays = 0,
     res_discoveries = 0, res_observations = 0, res_events = 0, res_skipped = 0\<rparr>"

subsection \<open>The dry run\<close>

fun summarize_loop :: "'s retention_repository \<Rightarrow> int \<Rightarrow> nat \<Rightarrow> purge_cursor \<Rightarrow> retention_summary \<Rightarrow> 's
    \<Rightarrow> (retention_summary \<times> goerror option) option" where
  "summarize_loop repo cutoffUnix 0 cursor res s = None"
| "summarize_loop repo cutoffUnix (Suc fuel) cursor res s =
     (if \<not> sum_count res < MaximumPurgeAttemptsPerRun then Some (res, None)
      else
        let limit = purge_page_limit (sum_count res) in
        case repo_purge_candidates repo s \<lparr>purge_after = cursor, purge_limit = limit, purge_cutoff = cutoffUnix\<rparr> of
          Inl e \<Rightarrow> Some (res, Some e)
        | Inr (candidates, next_cursor) \<Rightarrow>
            (case validatePage (candidates, next_cursor) cursor limit cutoffUnix of
               Some e \<Rightarrow> Some (res, Some e)
             | None \<Rightarrow>
                 if candidates = [] then Some (res, None)
                 else
                   let res1 = note_page candidates res in
                   if next_cursor = zero_purge_cursor then Some (res1, None)
                   else if sum_count res1 = MaximumPurgeAttemptsPerRun
                   then Some (res1\<lparr>sum_truncated := True\<rparr>, None)
                   else summarize_loop repo cutoffUnix fuel next_cursor res1 s))"

definition Summarize :: "'s retention_repository \<Rightarrow> int \<Rightarrow> int \<Rightarrow> 's \<Rightarrow> (retention_summary \<times> goerror option) option" where
  "Summarize repo retentionDays observedAt s =
     (if \<not> validRetentionDays retentionDays then Some (summary_at 0 0, Some (Err ErrRetentionConfiguration))
      else case retention_cutoff retentionDays observedAt of
        Inl e \<Rightarrow> Some (summary_at 0 0, Some e)
      | Inr (observedUnix, cutoffUnix) \<Rightarrow>
          if retentionDays = 0 then Some (summary_at observedUnix cutoffUnix, None)
          else case repo_run_ctx repo s of
            Some e \<Rightarrow> Some (summary_at observedUnix cutoffUnix, Some e)
          | None \<Rightarrow>
              summarize_loop repo cutoffUnix (Suc (nat MaximumPurgeAttemptsPerRun)) zero_purge_cursor
                (summary_at observedUnix cutoffUnix) s)"

subsection \<open>The destructive run\<close>

definition batch_consistent :: "PurgeBatchResult \<Rightarrow> int \<Rightarrow> bool" where
  "batch_consistent batch n \<longleftrightarrow>
     (let primaryPurged = PurgedRelays batch + PurgedDiscoveries batch in
      \<not> (Attempted batch \<noteq> n \<or> PurgedRelays batch < 0 \<or> PurgedDiscoveries batch < 0 \<or>
         PurgedObservations batch < 0 \<or> PurgedObservations batch > primaryPurged \<or>
         PurgedLifecycleEvents batch < 0 \<or> batch_Skipped batch < 0 \<or>
         primaryPurged + batch_Skipped batch \<noteq> Attempted batch))"

definition add_batch :: "PurgeBatchResult \<Rightarrow> retention_result \<Rightarrow> retention_result" where
  "add_batch batch res =
     res\<lparr>res_relays := res_relays res + PurgedRelays batch,
         res_discoveries := res_discoveries res + PurgedDiscoveries batch,
         res_observations := res_observations res + PurgedObservations batch,
         res_events := res_events res + PurgedLifecycleEvents batch,
         res_skipped := res_skipped res + batch_Skipped batch\<rparr>"

fun purge_loop :: "'s retention_repository \<Rightarrow> int \<Rightarrow> int \<Rightarrow> nat \<Rightarrow> purge_cursor \<Rightarrow> retention_result \<Rightarrow> 's
    \<Rightarrow> ((retention_result \<times> goerror option) \<times> 's) option" where
  "purge_loop repo runID cutoffUnix 0 cursor res s = None"
| "purge_loop repo runID cutoffUnix (Suc fuel) cursor res s =
     (if \<not> sum_count res < MaximumPurgeAttemptsPerRun then Some ((res, None), s)
      else case repo_run_ctx repo s of
        Some e \<Rightarrow> Some ((res, Some e), s)
      | None \<Rightarrow>
        let limit = purge_page_limit (sum_count res) in
        case repo_purge_candidates repo s \<lparr>purge_after = cursor, purge_limit = limit, purge_cutoff = cutoffUnix\<rparr> of
          Inl e \<Rightarrow> Some ((res, Some e), s)
        | Inr (candidates, next_cursor) \<Rightarrow>
            (case validatePage (candidates, next_cursor) cursor limit cutoffUnix of
               Some e \<Rightarrow> Some ((res, Some e), s)
             | None \<Rightarrow>
                 if candidates = [] then Some ((res, None), s)
                 else
                   let res1 = note_page candidates res in
                   case repo_purge_batch repo s runID candidates cutoffUnix of
                     (Inl e, s') \<Rightarrow> Some ((res1, Some e), s')
                   | (Inr batch, s') \<Rightarrow>
                       if \<not> batch_consistent batch (int (length candidates))
                       then Some ((res1, Some (Err ErrRetentionConfiguration)), s')
                       else
                         let res2 = add_batch batch res1 in
                         if next_cursor = zero_purge_cursor then Some ((res2, None), s')
                         else if sum_count res2 = MaximumPurgeAttemptsPerRun
                         then Some ((res2\<lparr>sum_truncated := True\<rparr>, None), s')
                         else purge_loop repo runID cutoffUnix fuel next_cursor res2 s'))"

definition run_outcome_of :: "goerror option \<Rightarrow> string" where
  "run_outcome_of runErr =
     (case runErr of
        None \<Rightarrow> RetentionCompleted
      | Some e \<Rightarrow>
          if errors_is e ErrContextCanceled \<or> errors_is e ErrContextDeadlineExceeded then RetentionCanceled
          else RetentionFailed)"

definition finish_of :: "int \<Rightarrow> retention_result \<Rightarrow> goerror option \<Rightarrow> int \<Rightarrow> RetentionRunFinish" where
  "finish_of runID res runErr observedUnix =
     \<lparr>fin_run = runID, fin_scanned = sum_count res, fin_relays = res_relays res,
      fin_discoveries = res_discoveries res, fin_observations = res_observations res,
      fin_events = res_events res, fin_skipped = res_skipped res, fin_batches = sum_batches res,
      fin_truncated = sum_truncated res, fin_outcome = run_outcome_of runErr, fin_finished = observedUnix\<rparr>"

definition option_error :: "goerror option \<Rightarrow> goerror list" where
  "option_error v = (case v of None \<Rightarrow> [] | Some e \<Rightarrow> [e])"

definition retention_Run :: "'s retention_repository \<Rightarrow> int \<Rightarrow> int \<Rightarrow> string \<Rightarrow> 's
    \<Rightarrow> ((retention_result \<times> goerror list) \<times> 's) option" where
  "retention_Run repo retentionDays observedAt backupSHA256 s =
     (if retentionDays \<le> 0 \<or> \<not> validRetentionDays retentionDays \<or> \<not> validSHA256 backupSHA256
      then Some ((result_at 0 0, [Err ErrRetentionConfiguration]), s)
      else case retention_cutoff retentionDays observedAt of
        Inl e \<Rightarrow> Some ((result_at 0 0, [e]), s)
      | Inr (observedUnix, cutoffUnix) \<Rightarrow>
        (case repo_run_ctx repo s of
           Some e \<Rightarrow> Some ((result_at 0 0, [e]), s)
         | None \<Rightarrow>
           (case repo_begin_run repo s \<lparr>start_policy = RetentionPolicyVersion, start_days = retentionDays,
                   start_observed = observedUnix, start_cutoff = cutoffUnix, start_backup = backupSHA256,
                   start_started = observedUnix\<rparr> of
              (Inl e, s1) \<Rightarrow> Some ((result_at 0 0, [e]), s1)
            | (Inr runID, s1) \<Rightarrow>
                (case purge_loop repo runID cutoffUnix (Suc (nat MaximumPurgeAttemptsPerRun)) zero_purge_cursor
                        (result_at observedUnix cutoffUnix) s1 of
                   None \<Rightarrow> None
                 | Some ((res, runErr), s2) \<Rightarrow>
                     (case repo_finish_run repo s2 (finish_of runID res runErr observedUnix) of
                        (finished, s3) \<Rightarrow>
                          Some ((res, option_error runErr @ (case finished of Inl e \<Rightarrow> [e] | Inr _ \<Rightarrow> [])), s3))))))"

subsection \<open>Bounds for every repository\<close>

definition run_bounds :: "retention_result \<Rightarrow> bool" where
  "run_bounds res \<longleftrightarrow>
     sum_count res \<le> MaximumPurgeAttemptsPerRun \<and> 0 \<le> sum_batches res \<and> sum_batches res \<le> sum_count res \<and>
     0 \<le> res_relays res \<and> 0 \<le> res_discoveries res \<and> 0 \<le> res_observations res \<and> 0 \<le> res_events res \<and>
     0 \<le> res_skipped res \<and> res_observations res \<le> res_relays res + res_discoveries res \<and>
     res_relays res + res_discoveries res + res_skipped res \<le> sum_count res"

definition accounted :: "retention_result \<Rightarrow> bool" where
  "accounted res \<longleftrightarrow> res_relays res + res_discoveries res + res_skipped res = sum_count res"

lemma note_candidates_frame:
  "sum_count (note_candidates cs res) = sum_count res + int (length cs) \<and>
   sum_batches (note_candidates cs res) = sum_batches res \<and>
   sum_truncated (note_candidates cs res) = sum_truncated res \<and>
   retention_summary.more (note_candidates cs res) = retention_summary.more res"
  by (induction cs arbitrary: res) simp_all

lemma result_more:
  "retention_summary.more (a :: retention_result) = retention_summary.more b \<Longrightarrow>
   res_relays a = res_relays b \<and> res_discoveries a = res_discoveries b \<and> res_observations a = res_observations b \<and>
   res_events a = res_events b \<and> res_skipped a = res_skipped b"
  by (cases a; cases b) simp

lemma note_page_frame [simp]:
  "sum_count (note_page cs res) = sum_count res + int (length cs)"
  "sum_batches (note_page cs res) = sum_batches res + 1"
  "sum_truncated (note_page cs res) = sum_truncated res"
  using note_candidates_frame [of cs "res\<lparr>sum_batches := sum_batches res + 1\<rparr>"] by (simp_all add: note_page_def)

lemma note_page_result [simp]:
  fixes res :: retention_result
  shows "res_relays (note_page cs res) = res_relays res" "res_discoveries (note_page cs res) = res_discoveries res"
    "res_observations (note_page cs res) = res_observations res" "res_events (note_page cs res) = res_events res"
    "res_skipped (note_page cs res) = res_skipped res"
proof -
  have "retention_summary.more (note_page cs res) = retention_summary.more res"
    using note_candidates_frame [of cs "res\<lparr>sum_batches := sum_batches res + 1\<rparr>"] by (simp add: note_page_def)
  from result_more [OF this]
  show "res_relays (note_page cs res) = res_relays res" "res_discoveries (note_page cs res) = res_discoveries res"
    "res_observations (note_page cs res) = res_observations res" "res_events (note_page cs res) = res_events res"
    "res_skipped (note_page cs res) = res_skipped res" by simp_all
qed

lemma validatePage_length: "validatePage (cs, c) prev limit cutoff = None \<Longrightarrow> int (length cs) \<le> limit"
  by (auto simp: validatePage_def split: if_splits)

lemma noted_bounds:
  assumes "run_bounds res" "cs \<noteq> []" "int (length cs) \<le> purge_page_limit (sum_count res)"
  shows "run_bounds (note_page cs res)"
  using assms by (cases cs) (auto simp: run_bounds_def purge_page_limit_def Let_def split: if_splits)

lemma added_bounds:
  assumes "run_bounds res" "accounted res" "cs \<noteq> []" "int (length cs) \<le> purge_page_limit (sum_count res)"
    "batch_consistent batch (int (length cs))"
  shows "run_bounds (add_batch batch (note_page cs res))" "accounted (add_batch batch (note_page cs res))"
  using noted_bounds [OF assms(1,3,4)] assms(2,5)
  by (auto simp: run_bounds_def accounted_def add_batch_def batch_consistent_def Let_def)

lemma purge_loop_bounded:
  assumes "nat (MaximumPurgeAttemptsPerRun - sum_count res) < fuel" "run_bounds res" "accounted res"
  shows "\<exists>res' err s'. purge_loop repo runID cutoff fuel cursor res s = Some ((res', err), s') \<and>
    run_bounds res' \<and> (err = None \<longrightarrow> accounted res')"
  using assms
proof (induction fuel arbitrary: cursor res s)
  case (Suc fuel)
  let ?limit = "purge_page_limit (sum_count res)"
  let ?fetch = "repo_purge_candidates repo s \<lparr>purge_after = cursor, purge_limit = ?limit, purge_cutoff = cutoff\<rparr>"
  show ?case
  proof (cases "sum_count res < MaximumPurgeAttemptsPerRun \<and> repo_run_ctx repo s = None \<and>
      (\<exists>cs nxt. ?fetch = Inr (cs, nxt) \<and> validatePage (cs, nxt) cursor ?limit cutoff = None \<and> cs \<noteq> [])")
    case False
    then show ?thesis using Suc.prems(2,3)
      by (cases "repo_run_ctx repo s"; cases ?fetch) (auto simp: Let_def split: option.splits)
  next
    case True
    then obtain cs nxt where page: "?fetch = Inr (cs, nxt)" "validatePage (cs, nxt) cursor ?limit cutoff = None" "cs \<noteq> []"
      by blast
    have len: "int (length cs) \<le> ?limit" by (rule validatePage_length [OF page(2)])
    note noted = noted_bounds [OF Suc.prems(2) page(3) len]
    obtain out s1 where batch: "repo_purge_batch repo s runID cs cutoff = (out, s1)" by fastforce
    show ?thesis
    proof (cases "\<exists>b. out = Inr b \<and> batch_consistent b (int (length cs))")
      case False
      with True page batch noted show ?thesis by (cases out) (auto simp: Let_def)
    next
      case consistent: True
      then obtain b where b: "out = Inr b" "batch_consistent b (int (length cs))" by blast
      let ?res = "add_batch b (note_page cs res)"
      note added = added_bounds [OF Suc.prems(2,3) page(3) len b(2)]
      have step: "purge_loop repo runID cutoff (Suc fuel) cursor res s =
        (if nxt = zero_purge_cursor then Some ((?res, None), s1)
         else if sum_count ?res = MaximumPurgeAttemptsPerRun then Some ((?res\<lparr>sum_truncated := True\<rparr>, None), s1)
         else purge_loop repo runID cutoff fuel nxt ?res s1)"
        using True page batch b by (simp add: Let_def)
      have "run_bounds (?res\<lparr>sum_truncated := True\<rparr>)" "accounted (?res\<lparr>sum_truncated := True\<rparr>)"
        using added by (simp_all add: run_bounds_def accounted_def)
      moreover have "nat (MaximumPurgeAttemptsPerRun - sum_count ?res) < fuel"
        if "sum_count ?res \<noteq> MaximumPurgeAttemptsPerRun"
        using that Suc.prems(1) page(3) added(1) by (cases cs) (auto simp: add_batch_def run_bounds_def)
      ultimately show ?thesis unfolding step using added Suc.IH [of ?res nxt s1] by auto
    qed
  qed
qed simp

lemma summarize_loop_bounded:
  assumes "nat (MaximumPurgeAttemptsPerRun - sum_count res) < fuel" "sum_count res \<le> MaximumPurgeAttemptsPerRun"
  shows "\<exists>res' err. summarize_loop repo cutoff fuel cursor res s = Some (res', err) \<and>
    sum_count res' \<le> MaximumPurgeAttemptsPerRun"
  using assms
proof (induction fuel arbitrary: cursor res)
  case (Suc fuel)
  let ?limit = "purge_page_limit (sum_count res)"
  let ?fetch = "repo_purge_candidates repo s \<lparr>purge_after = cursor, purge_limit = ?limit, purge_cutoff = cutoff\<rparr>"
  show ?case
  proof (cases "sum_count res < MaximumPurgeAttemptsPerRun \<and>
      (\<exists>cs nxt. ?fetch = Inr (cs, nxt) \<and> validatePage (cs, nxt) cursor ?limit cutoff = None \<and> cs \<noteq> [])")
    case False
    then show ?thesis using Suc.prems(2) by (cases ?fetch) (auto simp: Let_def split: option.splits)
  next
    case True
    then obtain cs nxt where page: "?fetch = Inr (cs, nxt)" "validatePage (cs, nxt) cursor ?limit cutoff = None" "cs \<noteq> []"
      by blast
    have len: "int (length cs) \<le> MaximumPurgeAttemptsPerRun - sum_count res"
      using validatePage_length [OF page(2)] by (auto simp: purge_page_limit_def Let_def split: if_splits)
    let ?res = "note_page cs res"
    have step: "summarize_loop repo cutoff (Suc fuel) cursor res s =
        (if nxt = zero_purge_cursor then Some (?res, None)
         else if sum_count ?res = MaximumPurgeAttemptsPerRun then Some (?res\<lparr>sum_truncated := True\<rparr>, None)
         else summarize_loop repo cutoff fuel nxt ?res s)"
      using True page by (simp add: Let_def)
    have "nat (MaximumPurgeAttemptsPerRun - sum_count ?res) < fuel"
      using Suc.prems page(3) len by (cases cs) auto
    with Suc.IH [of ?res nxt] len show ?thesis unfolding step by auto
  qed
qed simp

end
