(* ===== verification/RetentionDue.thy ===== *)
theory RetentionDue
  imports RetentionRun
begin

section \<open>What is due for retention\<close>

text \<open>
  The complete ordered list of rows due at a cutoff, the pages \<open>PurgeCandidates\<close> cuts from it,
  and the effect of a batch of due candidates on it.
\<close>

subsection \<open>What is due\<close>

definition all_due :: "int \<Rightarrow> db \<Rightarrow> PurgeCandidate list" where
  "all_due cutoffUnix d = sort_key cand_key (lifecycle_candidates cutoffUnix d @ discovery_candidates cutoffUnix d)"

lemma candidate_fields [simp]:
  "cand_kind (lifecycle_candidate d ar) = PurgeCandidateLifecycle" "cand_actor (lifecycle_candidate d ar) = fst ar"
  "cand_kind (discovery_candidate d aq) = PurgeCandidateDiscovery" "cand_actor (discovery_candidate d aq) = fst aq"
  by (simp_all add: lifecycle_candidate_def discovery_candidate_def)

lemma distinct_actor_keys:
  assumes "table_ok t" "\<And>ar. cand_actor (f ar) = fst ar"
  shows "distinct (map cand_key (map f (filter P t)))"
proof -
  have "distinct (map fst (filter P t))" using assms(1) by (simp add: distinct_map inj_on_def)
  moreover have "map fst (filter P t) = map (fst \<circ> snd) (map cand_key (map f (filter P t)))"
    using assms(2) by (simp add: cand_key_def o_def)
  ultimately show ?thesis by (metis distinct_map)
qed

lemma due_keys_distinct:
  assumes "tables_ok d"
  shows "distinct (map cand_key (lifecycle_candidates cutoff d @ discovery_candidates cutoff d))"
proof -
  have "distinct (map cand_key (lifecycle_candidates cutoff d))" "distinct (map cand_key (discovery_candidates cutoff d))"
    unfolding lifecycle_candidates_def discovery_candidates_def using assms
    by (auto simp: tables_ok_def intro!: distinct_actor_keys simp del: map_map)
  moreover have "cand_key ` set (lifecycle_candidates cutoff d) \<inter> cand_key ` set (discovery_candidates cutoff d) = {}"
    by (auto simp: lifecycle_candidates_def discovery_candidates_def cand_key_def)
  ultimately show ?thesis by auto
qed

lemma all_due_sorted: "tables_ok d \<Longrightarrow> sorted_wrt (<) (map cand_key (all_due cutoff d))"
  unfolding all_due_def by (rule sort_key_strict [OF due_keys_distinct])

lemma all_due_mem:
  "c \<in> set (all_due cutoff d) \<longleftrightarrow>
     (\<exists>ar \<in> set (relays d). purgeable_relay cutoff ar \<and> c = lifecycle_candidate d ar) \<or>
     (\<exists>aq \<in> set (relay_discoveries d). purgeable_discovery cutoff aq \<and> c = discovery_candidate d aq)"
  by (auto simp: all_due_def lifecycle_candidates_def discovery_candidates_def)

lemma sql_max_nonneg: "(\<And>x. x \<in> set xs \<Longrightarrow> 0 < x) \<Longrightarrow> 0 \<le> coalesce_zero (sql_max xs)"
  by (cases xs) (auto simp: sql_max_def coalesce_zero_def less_imp_le Max_ge_iff)

lemma revision_nonneg:
  assumes "retention_ok s"
  shows "0 \<le> observation_revision (store s) a"
proof (cases "map_of (relay_observations (store s)) a")
  case (Some o1)
  then have "observation_check a o1" using assms unfolding retention_ok_def owned_def by blast
  with Some show ?thesis by (simp add: observation_revision_def coalesce_zero_def observation_check_def)
qed (simp add: observation_revision_def coalesce_zero_def)

lemma all_due_valid:
  assumes ok: "retention_ok s" and c: "c \<in> set (all_due cutoff (store s))"
  shows "PurgeCandidate_Valid c" "validHealthProjectionActor (cand_actor c)" "cand_inactive c \<le> cutoff"
proof -
  have "PurgeCandidate_Valid c \<and> validHealthProjectionActor (cand_actor c) \<and> cand_inactive c \<le> cutoff"
    using c unfolding all_due_mem
  proof (elim disjE bexE conjE)
    fix ar assume ar: "ar \<in> set (relays (store s))" and p: "purgeable_relay cutoff ar" and eq: "c = lifecycle_candidate (store s) ar"
    obtain a r where ar_eq: "ar = (a, r)" by (cases ar)
    have R: "relay_check a r" "canonical_identity a (public_base_url r)"
      using ok ar by (auto simp: ar_eq retention_ok_def relays_ok_def)
    have actor: "validHealthProjectionActor a"
      using R by (auto simp: relay_check_def actor_length_ok_def validHealthProjectionActor_def canonical_identity_actor)
    have ids: "0 \<le> latest_relay_event (store s) a" "0 \<le> latest_moderation_event (store s) a"
      using ok by (auto simp: latest_relay_event_def latest_moderation_event_def retention_ok_def positive_ids_def
          intro!: sql_max_nonneg)
    show ?thesis using R p actor ids revision_nonneg [OF ok, of a]
      by (auto simp: eq ar_eq lifecycle_candidate_def purgeable_relay_def PurgeCandidate_Valid_def purge_kind_Valid_def
          inactive_at_def due_by_def coalesce_zero_def relay_check_def actor_length_ok_def split: option.splits)
  next
    fix ar assume ar: "ar \<in> set (relay_discoveries (store s))" and p: "purgeable_discovery cutoff ar"
      and eq: "c = discovery_candidate (store s) ar"
    obtain a r where ar_eq: "ar = (a, r)" by (cases ar)
    have R: "discovery_check a r" "canonical_identity a (discovery_base_url r)"
      using ok ar by (auto simp: ar_eq retention_ok_def discoveries_ok_def)
    have actor: "validHealthProjectionActor a"
      using R by (auto simp: discovery_check_def actor_length_ok_def validHealthProjectionActor_def canonical_identity_actor)
    have ids: "0 \<le> latest_discovery_event (store s) a"
      using ok by (auto simp: latest_discovery_event_def retention_ok_def positive_ids_def intro!: sql_max_nonneg)
    show ?thesis using R p actor ids revision_nonneg [OF ok, of a]
      by (auto simp: eq ar_eq discovery_candidate_def purgeable_discovery_def PurgeCandidate_Valid_def purge_kind_Valid_def
          due_by_def coalesce_zero_def discovery_check_def actor_length_ok_def split: option.splits)
  qed
  then show "PurgeCandidate_Valid c" "validHealthProjectionActor (cand_actor c)" "cand_inactive c \<le> cutoff" by auto
qed

lemma all_due_still_due:
  assumes ok: "retention_ok s" and c: "c \<in> set (all_due cutoff (store s))"
  shows "still_due cutoff c s"
proof -
  have i: "0 \<le> cand_inactive c" using PurgeCandidate_kind [OF all_due_valid(1) [OF ok c]] by simp
  have t: "table_ok (relays (store s))" "table_ok (relay_discoveries (store s))"
    using retention_tables [OF ok] by (simp_all add: tables_ok_def)
  from c show ?thesis unfolding all_due_mem
  proof (elim disjE bexE conjE)
    fix ar assume ar: "ar \<in> set (relays (store s))" "purgeable_relay cutoff ar" "c = lifecycle_candidate (store s) ar"
    then have "map_of (relays (store s)) (fst ar) = Some (snd ar)" using t by simp
    then show ?thesis using ar i
      by (subst still_due_lifecycle)
        (auto simp: lifecycle_candidate_def purgeable_relay_def due_by_def coalesce_zero_def
          simp del: map_of_eq_Some_iff split: option.splits)
  next
    fix ar assume ar: "ar \<in> set (relay_discoveries (store s))" "purgeable_discovery cutoff ar"
      "c = discovery_candidate (store s) ar"
    then have "map_of (relay_discoveries (store s)) (fst ar) = Some (snd ar)" using t by simp
    then show ?thesis using ar i
      by (subst still_due_discovery)
        (auto simp: discovery_candidate_def purgeable_discovery_def due_by_def coalesce_zero_def
          simp del: map_of_eq_Some_iff split: option.splits)
  qed
qed

subsection \<open>The candidate pages\<close>

lemma cand_key_after_zero:
  assumes "PurgeCandidate_Valid c"
  shows "zero_purge_cursor < cand_key c"
  using assms by (cases "cand_actor c") (auto simp: PurgeCandidate_Valid_def zero_purge_cursor_def cand_key_def less_prod_def)

definition purge_cursor_ok :: "int \<Rightarrow> purge_cursor \<Rightarrow> bool" where
  "purge_cursor_ok cutoff c \<longleftrightarrow> purge_cursor_Valid c \<and>
     (c = zero_purge_cursor \<or> validHealthProjectionActor (fst (snd c)) \<and> fst c \<le> cutoff)"

lemma PurgeCandidates_page:
  assumes ok: "retention_ok s" and "0 \<le> cutoff" "0 < l" "l \<le> MaximumPurgeCandidatePage" "purge_cursor_ok cutoff c"
  shows "PurgeCandidates quiet \<lparr>purge_after = c, purge_limit = l, purge_cutoff = cutoff\<rparr> s =
    Inr (page_of cand_key zero_purge_cursor (nat l) (all_due cutoff (store s)) c)"
proof -
  let ?L = "lifecycle_candidates cutoff (store s)" and ?D = "discovery_candidates cutoff (store s)"
  have d: "distinct (map cand_key (filter (\<lambda>r. c < cand_key r) ?L @ filter (\<lambda>r. c < cand_key r) ?D))"
    using due_keys_distinct [OF retention_tables [OF ok], of cutoff]
    by (auto simp: distinct_map inj_on_def) 
  have rows: "candidate_rows cutoff c n (store s) = keyset_rows cand_key c n (?L @ ?D)" for n
    using take_sort_merge [OF d, of n] by (simp add: candidate_rows_def keyset_rows_def)
  have "read_page (decode_purge_candidate cutoff) cand_key zero_purge_cursor (nat l) []
      (keyset_rows cand_key c (Suc (nat l)) (?L @ ?D)) =
    Inr (page_of cand_key zero_purge_cursor (nat l) (map (\<lambda>x. x) (sort_key cand_key (?L @ ?D))) c)"
  proof (rule keyset_page)
    fix x assume "x \<in> set (?L @ ?D)"
    then have "x \<in> set (all_due cutoff (store s))" by (simp add: all_due_def)
    from all_due_valid [OF ok this] show "decode_purge_candidate cutoff x = Inr x" by (simp add: decode_purge_candidate_def)
  qed simp
  moreover have "PurgeCandidates quiet \<lparr>purge_after = c, purge_limit = l, purge_cutoff = cutoff\<rparr> s =
      read_page (decode_purge_candidate cutoff) cand_key zero_purge_cursor (nat l) []
        (candidate_rows cutoff c (Suc (nat l)) (store s))"
    using assms(2-5) by (auto simp: PurgeCandidates_def purge_cursor_ok_def)
  ultimately show ?thesis by (simp add: rows all_due_def)
qed

subsection \<open>Purging what is due\<close>

lemma filter_delete: "filter P (AList.delete k t) = filter (\<lambda>kv. fst kv \<noteq> k) (filter P t)"
  by (induction t) (auto simp: AList.delete_eq)

lemma drop_due_parts:
  assumes ok: "retention_ok s"
  shows "lifecycle_candidates cutoff (store (drop_candidate c s)) =
      (if is_lifecycle c then filter (\<lambda>x. cand_actor x \<noteq> cand_actor c) (lifecycle_candidates cutoff (store s))
       else lifecycle_candidates cutoff (store s))"
    and "discovery_candidates cutoff (store (drop_candidate c s)) =
      (if is_lifecycle c then discovery_candidates cutoff (store s)
       else filter (\<lambda>x. cand_actor x \<noteq> cand_actor c) (discovery_candidates cutoff (store s)))"
proof -
  let ?d = "store (drop_candidate c s)"
  have rev: "observation_revision ?d a = observation_revision (store s) a" if "retained ?d a" for a
    using that by (simp add: observation_revision_def observation_drop_candidate)
  have L: "lifecycle_candidate ?d ar = lifecycle_candidate (store s) ar" if "ar \<in> set (relays ?d)" for ar
  proof -
    have "retained ?d (fst ar)" using that weak_map_of_SomeI [of "fst ar" "snd ar" "relays ?d"] by (auto simp: retained_def)
    moreover have "latest_relay_event ?d (fst ar) = latest_relay_event (store s) (fst ar)"
      using that by (auto simp: latest_relay_event_def drop_candidate_tables events_of_other split: if_splits)
    ultimately show ?thesis
      by (simp add: lifecycle_candidate_def rev latest_moderation_event_def drop_candidate_tables)
  qed
  have D: "discovery_candidate ?d ar = discovery_candidate (store s) ar" if "ar \<in> set (relay_discoveries ?d)" for ar
  proof -
    have "retained ?d (fst ar)" using that weak_map_of_SomeI [of "fst ar" "snd ar" "relay_discoveries ?d"] by (auto simp: retained_def)
    then show ?thesis by (simp add: discovery_candidate_def rev latest_discovery_event_def drop_candidate_tables)
  qed
  have "lifecycle_candidates cutoff ?d = map (lifecycle_candidate (store s)) (filter (purgeable_relay cutoff) (relays ?d))"
    unfolding lifecycle_candidates_def using L by auto
  then show "lifecycle_candidates cutoff ?d =
      (if is_lifecycle c then filter (\<lambda>x. cand_actor x \<noteq> cand_actor c) (lifecycle_candidates cutoff (store s))
       else lifecycle_candidates cutoff (store s))"
    by (simp add: drop_candidate_tables filter_delete lifecycle_candidates_def filter_map o_def)
  have "discovery_candidates cutoff ?d =
      map (discovery_candidate (store s)) (filter (purgeable_discovery cutoff) (relay_discoveries ?d))"
    unfolding discovery_candidates_def using D by auto
  then show "discovery_candidates cutoff ?d =
      (if is_lifecycle c then discovery_candidates cutoff (store s)
       else filter (\<lambda>x. cand_actor x \<noteq> cand_actor c) (discovery_candidates cutoff (store s)))"
    by (simp add: drop_candidate_tables filter_delete discovery_candidates_def filter_map o_def)
qed

lemma all_due_drop:
  assumes ok: "retention_ok s" and c: "c \<in> set (all_due cutoff (store s))"
  shows "all_due cutoff (store (drop_candidate c s)) = filter (\<lambda>x. x \<noteq> c) (all_due cutoff (store s))"
proof -
  let ?L = "lifecycle_candidates cutoff (store s)" and ?D = "discovery_candidates cutoff (store s)"
  have kinds: "is_lifecycle x" if "x \<in> set ?L" for x using that by (auto simp: lifecycle_candidates_def is_lifecycle_def)
  have kinds': "\<not> is_lifecycle x" if "x \<in> set ?D" for x using that by (auto simp: discovery_candidates_def is_lifecycle_def)
  have t: "table_ok (relays (store s))" "table_ok (relay_discoveries (store s))"
    using retention_tables [OF ok] by (simp_all add: tables_ok_def)
  have same: "x = y" if "x \<in> set ?L" "y \<in> set ?L" "cand_actor x = cand_actor y" for x y
    using that t by (auto simp: lifecycle_candidates_def) (metis eq_key_imp_eq_value)
  have same': "x = y" if "x \<in> set ?D" "y \<in> set ?D" "cand_actor x = cand_actor y" for x y
    using that t by (auto simp: discovery_candidates_def) (metis eq_key_imp_eq_value)
  have cm: "c \<in> set ?L \<or> c \<in> set ?D" using c by (simp add: all_due_def)
  have "lifecycle_candidates cutoff (store (drop_candidate c s)) = filter (\<lambda>x. x \<noteq> c) ?L \<and>
      discovery_candidates cutoff (store (drop_candidate c s)) = filter (\<lambda>x. x \<noteq> c) ?D"
  proof (cases "is_lifecycle c")
    case True
    then have "c \<in> set ?L" "c \<notin> set ?D" using cm kinds' by auto
    moreover from this have "filter (\<lambda>x. cand_actor x \<noteq> cand_actor c) ?L = filter (\<lambda>x. x \<noteq> c) ?L"
      using same by (intro filter_cong) auto
    moreover have "filter (\<lambda>x. x \<noteq> c) ?D = ?D" using \<open>c \<notin> set ?D\<close> by (intro filter_True) auto
    ultimately show ?thesis using True by (simp add: drop_due_parts [OF ok])
  next
    case False
    then have "c \<in> set ?D" "c \<notin> set ?L" using cm kinds by auto
    moreover from this have "filter (\<lambda>x. cand_actor x \<noteq> cand_actor c) ?D = filter (\<lambda>x. x \<noteq> c) ?D"
      using same' by (intro filter_cong) auto
    moreover have "filter (\<lambda>x. x \<noteq> c) ?L = ?L" using \<open>c \<notin> set ?L\<close> by (intro filter_True) auto
    ultimately show ?thesis using False by (simp add: drop_due_parts [OF ok])
  qed
  then show ?thesis by (simp add: all_due_def filter_sort)
qed

text \<open>A batch of due candidates skips none: \<open>n\<close> more relays and discoveries are purged.\<close>

definition more_purged :: "int \<Rightarrow> PurgeBatchResult \<Rightarrow> PurgeBatchResult \<Rightarrow> bool" where
  "more_purged n res res' \<longleftrightarrow>
     Attempted res' = Attempted res \<and> batch_Skipped res' = batch_Skipped res \<and>
     PurgedRelays res \<le> PurgedRelays res' \<and> PurgedDiscoveries res \<le> PurgedDiscoveries res' \<and>
     PurgedRelays res' + PurgedDiscoveries res' = PurgedRelays res + PurgedDiscoveries res + n \<and>
     PurgedObservations res \<le> PurgedObservations res' \<and> PurgedObservations res' \<le> PurgedObservations res + n \<and>
     PurgedLifecycleEvents res \<le> PurgedLifecycleEvents res'"

lemma more_purged_refl: "more_purged 0 res res"
  by (simp add: more_purged_def)

lemma more_purged_step:
  "still_due cutoff c s \<Longrightarrow> more_purged n (count_candidate cutoff c s res) res' \<Longrightarrow> more_purged (1 + n) res res'"
  by (auto simp: more_purged_def count_candidate_def Let_def split: if_splits)

lemma purge_due:
  assumes "retention_ok s" "set cs \<subseteq> set (all_due cutoff (store s))" "distinct cs"
  shows "all_due cutoff (store (purge_states cutoff cs s)) = filter (\<lambda>x. x \<notin> set cs) (all_due cutoff (store s)) \<and>
    more_purged (int (length cs)) res (count_candidates cutoff cs s res)"
  using assms
proof (induction cs arbitrary: s res)
  case (Cons c cs)
  let ?s = "drop_candidate c s"
  have c: "c \<in> set (all_due cutoff (store s))" using Cons.prems by simp
  have due: "still_due cutoff c s" by (rule all_due_still_due [OF Cons.prems(1) c])
  note dd = all_due_drop [OF Cons.prems(1) c]
  have "set cs \<subseteq> set (all_due cutoff (store ?s))" "distinct cs" using Cons.prems(2,3) dd by auto
  note IH = Cons.IH [OF retention_ok_drop_candidate [OF Cons.prems(1), of c] this, of "count_candidate cutoff c s res"]
  from IH dd due show ?case by (simp add: purge_state_def conj_commute more_purged_step [OF due])
qed (simp add: more_purged_refl)

end
