(* ===== verification/RetentionProps.thy ===== *)
theory RetentionProps
  imports RetentionDue
begin

section \<open>Complete retention runs\<close>

text \<open>
  The contract of a retention repository as a locale, complete runs over it, the proof that the
  SQLite repository keeps the contract, and the properties of runs.
\<close>

subsection \<open>The repository contract and complete runs\<close>

definition add_tally :: "PurgeBatchResult \<Rightarrow> PurgeBatchResult \<Rightarrow> PurgeBatchResult" where
  "add_tally T b =
     \<lparr>Attempted = Attempted T + Attempted b, PurgedRelays = PurgedRelays T + PurgedRelays b,
      PurgedDiscoveries = PurgedDiscoveries T + PurgedDiscoveries b,
      PurgedObservations = PurgedObservations T + PurgedObservations b,
      PurgedLifecycleEvents = PurgedLifecycleEvents T + PurgedLifecycleEvents b,
      batch_Skipped = batch_Skipped T + batch_Skipped b\<rparr>"

definition tally_ok :: "PurgeBatchResult \<Rightarrow> int \<Rightarrow> bool" where
  "tally_ok T b \<longleftrightarrow> batch_consistent T (Attempted T) \<and> Attempted T \<le> MaximumPurgeAttemptsPerRun \<and> 0 \<le> b \<and>
     b \<le> Attempted T \<and> (b = 0 \<longrightarrow> Attempted T = 0)"

definition start_ok :: "RetentionRunStart \<Rightarrow> bool" where
  "start_ok st \<longleftrightarrow> start_policy st = RetentionPolicyVersion \<and> 1 \<le> start_days st \<and>
     start_days st \<le> MaximumInactiveRetentionDays \<and> start_days st * 86400 \<le> start_observed st \<and>
     start_cutoff st = start_observed st - start_days st * 86400 \<and> validSHA256 (start_backup st) \<and>
     start_started st = start_observed st"

definition result_tally :: "retention_result \<Rightarrow> PurgeBatchResult" where
  "result_tally res =
     \<lparr>Attempted = sum_count res, PurgedRelays = res_relays res, PurgedDiscoveries = res_discoveries res,
      PurgedObservations = res_observations res, PurgedLifecycleEvents = res_events res, batch_Skipped = res_skipped res\<rparr>"

lemma tally_add:
  assumes "tally_ok T b" "batch_consistent res n" "0 < n" "Attempted T + n \<le> MaximumPurgeAttemptsPerRun"
  shows "tally_ok (add_tally T res) (b + 1)"
  using assms by (auto simp: tally_ok_def batch_consistent_def add_tally_def Let_def)

lemma result_tally_add:
  assumes "batch_consistent batch (int (length cs))"
  shows "result_tally (add_batch batch (note_page cs res)) = add_tally (result_tally res) batch"
  using assms by (simp add: result_tally_def add_batch_def add_tally_def batch_consistent_def Let_def)

lemma cursorAfter_less:
  "position < cand_key c \<Longrightarrow> purgeCursorAfter (cand_key c) position"
  by (cases position) (auto simp: purgeCursorAfter_def cand_key_def less_prod_def)

text \<open>
  What a run relies on: the candidates that are due at a cutoff in cursor order, pages cut
  from them, batches of due candidates that purge all of them and checkpoint the running
  record, and a final record that is accepted when it repeats the checkpoints.
\<close>

locale retention_contract =
  fixes repo :: "'s retention_repository" and inv :: "'s \<Rightarrow> bool" and due :: "'s \<Rightarrow> int \<Rightarrow> PurgeCandidate list"
    and progress :: "'s \<Rightarrow> int \<Rightarrow> RetentionRunStart \<Rightarrow> PurgeBatchResult \<Rightarrow> int \<Rightarrow> bool"
    and finished :: "'s \<Rightarrow> RetentionRunFinish \<Rightarrow> bool"
  assumes ctx_alive: "inv s \<Longrightarrow> repo_run_ctx repo s = None"
    and due_sorted: "inv s \<Longrightarrow> sorted_wrt (<) (map cand_key (due s t))"
    and due_valid: "inv s \<Longrightarrow> x \<in> set (due s t) \<Longrightarrow>
      PurgeCandidate_Valid x \<and> validHealthProjectionActor (cand_actor x) \<and> cand_inactive x \<le> t"
    and page_law: "inv s \<Longrightarrow> 0 \<le> t \<Longrightarrow> 0 < l \<Longrightarrow> l \<le> MaximumPurgeCandidatePage \<Longrightarrow> purge_cursor_ok t c \<Longrightarrow>
      repo_purge_candidates repo s \<lparr>purge_after = c, purge_limit = l, purge_cutoff = t\<rparr> =
        Inr (page_of cand_key zero_purge_cursor (nat l) (due s t) c)"
    and begin_law: "inv s \<Longrightarrow> start_ok st \<Longrightarrow>
      \<exists>runID s'. repo_begin_run repo s st = (Inr runID, s') \<and> inv s' \<and> 0 < runID \<and> (\<forall>t. due s' t = due s t) \<and>
        progress s' runID st (empty_batch 0) 0"
    and purge_law: "inv s \<Longrightarrow> progress s runID st T b \<Longrightarrow> tally_ok T b \<Longrightarrow> cs \<noteq> [] \<Longrightarrow>
      int (length cs) \<le> MaximumPurgeCandidatePage \<Longrightarrow> Attempted T + int (length cs) \<le> MaximumPurgeAttemptsPerRun \<Longrightarrow>
      set cs \<subseteq> set (due s (start_cutoff st)) \<Longrightarrow> distinct cs \<Longrightarrow>
      \<exists>res s'. repo_purge_batch repo s runID cs (start_cutoff st) = (Inr res, s') \<and> inv s' \<and>
        batch_consistent res (int (length cs)) \<and> batch_Skipped res = 0 \<and>
        due s' (start_cutoff st) = filter (\<lambda>x. x \<notin> set cs) (due s (start_cutoff st)) \<and>
        progress s' runID st (add_tally T res) (b + 1)"
    and finish_law: "inv s \<Longrightarrow> progress s runID st T b \<Longrightarrow> tally_ok T b \<Longrightarrow> result_tally res = T \<Longrightarrow>
      sum_batches res = b \<Longrightarrow>
      \<exists>s'. repo_finish_run repo s (finish_of runID res None (start_observed st)) = (Inr (), s') \<and> inv s' \<and>
        (\<forall>t. due s' t = due s t) \<and> finished s' (finish_of runID res None (start_observed st))"
begin

lemma key_cursor_ok: "inv s \<Longrightarrow> x \<in> set (due s t) \<Longrightarrow> purge_cursor_ok t (cand_key x) \<and> zero_purge_cursor < cand_key x"
  using due_valid [of s x t] cand_key_after_zero [of x]
  by (auto simp: purge_cursor_ok_def purge_cursor_Valid_def cand_key_def PurgeCandidate_Valid_def)

lemma page_valid:
  assumes "inv s" "sorted_wrt (<) (c # map cand_key cs)" "set cs \<subseteq> set (due s t)"
  shows "validate_candidates t c cs = Some (if cs = [] then c else cand_key (last cs))"
  using assms(2,3)
proof (induction cs arbitrary: c)
  case (Cons x cs)
  have x: "PurgeCandidate_Valid x" "NormalizeRelayActorURL (cand_actor x) = Inr (cand_actor x)" "\<not> cand_inactive x > t"
    using due_valid [OF assms(1), of x t] Cons.prems by (auto simp: validHealthProjectionActor_def)
  have "purgeCursorAfter (cand_key x) c" using Cons.prems by (intro cursorAfter_less) simp
  with x Cons show ?case by auto
qed simp

lemma rest_after:
  assumes "inv s" "R = filter (\<lambda>x. c < cand_key x) (due s t)" "take l R \<noteq> []"
  shows "filter (\<lambda>x. cand_key (last (take l R)) < cand_key x) (due s t) = drop l R"
proof -
  have srt: "sorted_wrt (<) (map cand_key R)"
    using due_sorted [OF assms(1), of t] assms(2) by (simp add: sorted_wrt_map sorted_wrt_filter)
  define x where "x = last (take l R)"
  obtain pre where pre: "take l R = pre @ [x]" using assms(3) by (metis append_butlast_last_id x_def)
  have R: "R = pre @ x # drop l R" by (metis append.assoc append_Cons append_Nil append_take_drop_id pre)
  have "x \<in> set R" using R by (metis in_set_conv_decomp)
  then have "c < cand_key x" by (simp add: assms(2))
  then have "filter (\<lambda>y. cand_key x < cand_key y) (due s t) = filter (\<lambda>y. cand_key x < cand_key y) R"
    unfolding assms(2) by (auto simp: filter_filter intro!: filter_cong)
  also have "\<dots> = filter (\<lambda>y. cand_key x < cand_key y) (pre @ x # drop l R)" using R by simp
  also have "\<dots> = drop l R"
  proof -
    have "sorted_wrt (<) (map cand_key (pre @ x # drop l R))" using srt R by simp
    then show ?thesis by (auto simp: sorted_wrt_append filter_empty_conv filter_id_conv)
  qed
  finally show ?thesis by (simp add: x_def)
qed

lemma page_fetch:
  assumes "inv s" "0 \<le> t" "purge_cursor_ok t c" "R = filter (\<lambda>x. c < cand_key x) (due s t)"
    "sum_count res < MaximumPurgeAttemptsPerRun" "0 \<le> sum_count res" "l = nat (purge_page_limit (sum_count res))"
  shows "repo_purge_candidates repo s \<lparr>purge_after = c, purge_limit = purge_page_limit (sum_count res), purge_cutoff = t\<rparr> =
      Inr (take l R, if length R \<le> l then zero_purge_cursor else cand_key (last (take l R)))"
    and "validatePage (take l R, if length R \<le> l then zero_purge_cursor else cand_key (last (take l R))) c
        (purge_page_limit (sum_count res)) t = None"
    and "0 < l" "int l \<le> MaximumPurgeAttemptsPerRun - sum_count res"
proof -
  have l: "0 < l" "int l = purge_page_limit (sum_count res)" "purge_page_limit (sum_count res) \<le> MaximumPurgeCandidatePage"
    "0 < purge_page_limit (sum_count res)" "purge_page_limit (sum_count res) \<le> MaximumPurgeAttemptsPerRun - sum_count res"
    using assms(5-7) by (auto simp: purge_page_limit_def MaximumPurgeCandidatePage_def Let_def)
  then show "0 < l" "int l \<le> MaximumPurgeAttemptsPerRun - sum_count res" by simp_all
  show "repo_purge_candidates repo s \<lparr>purge_after = c, purge_limit = purge_page_limit (sum_count res), purge_cutoff = t\<rparr> =
      Inr (take l R, if length R \<le> l then zero_purge_cursor else cand_key (last (take l R)))"
    using page_law [OF assms(1,2) l(4,3) assms(3)] assms(4,7) by (simp add: page_of_def Let_def)
  show "validatePage (take l R, if length R \<le> l then zero_purge_cursor else cand_key (last (take l R))) c
        (purge_page_limit (sum_count res)) t = None"
  proof (cases "R = []")
    case True
    then show ?thesis using l(2) by (auto simp: validatePage_def)
  next
    case False
    have ne: "take l R \<noteq> []" using False l(1) by simp
    have srt: "sorted_wrt (<) (map cand_key R)"
      using due_sorted [OF assms(1), of t] assms(4) by (simp add: sorted_wrt_map sorted_wrt_filter)
    have srt1: "sorted_wrt (<) (c # map cand_key (take l R))"
      using srt assms(4) by (auto simp: sorted_wrt_take dest!: in_set_takeD simp flip: take_map)
    have sub: "set (take l R) \<subseteq> set (due s t)" using assms(4) by (auto dest: in_set_takeD)
    have "last (take l R) \<in> set (due s t)" using sub ne last_in_set by blast
    from key_cursor_ok [OF assms(1) this] page_valid [OF assms(1) srt1 sub] ne l(2) show ?thesis
      by (auto simp: validatePage_def purge_cursor_ok_def)
  qed
qed

lemma loop_run:
  assumes "inv s" "progress s runID st (result_tally res) (sum_batches res)" "tally_ok (result_tally res) (sum_batches res)"
    "0 \<le> start_cutoff st" "purge_cursor_ok (start_cutoff st) c"
    "R = filter (\<lambda>x. c < cand_key x) (due s (start_cutoff st))"
    "n = nat (MaximumPurgeAttemptsPerRun - sum_count res)" "0 < n" "n < fuel" "\<not> sum_truncated res" "res_skipped res = 0"
  shows "\<exists>res' s'. purge_loop repo runID (start_cutoff st) fuel c res s = Some ((res', None), s') \<and> inv s' \<and>
    progress s' runID st (result_tally res') (sum_batches res') \<and> tally_ok (result_tally res') (sum_batches res') \<and>
    sum_count res' = sum_count res + int (min n (length R)) \<and> sum_truncated res' = (n < length R) \<and>
    res_skipped res' = 0 \<and>
    due s' (start_cutoff st) = filter (\<lambda>x. x \<notin> set (take n R)) (due s (start_cutoff st))"
  using assms
proof (induction fuel arbitrary: s c res R n)
  case (Suc fuel)
  let ?t = "start_cutoff st"
  define l where "l = nat (purge_page_limit (sum_count res))"
  have cnt: "sum_count res < MaximumPurgeAttemptsPerRun" "0 \<le> sum_count res"
    using Suc.prems(3,7,8) by (auto simp: tally_ok_def result_tally_def)
  note page = page_fetch [OF Suc.prems(1,4,5,6) cnt l_def]
  have l: "l \<le> n" "int l \<le> MaximumPurgeCandidatePage"
    using page(4) Suc.prems(7) cnt by (auto simp: l_def purge_page_limit_def MaximumPurgeCandidatePage_def Let_def)
  have ctx: "repo_run_ctx repo s = None" by (rule ctx_alive [OF Suc.prems(1)])
  show ?case
  proof (cases "R = []")
    case True
    with page(1,2) cnt ctx Suc.prems show ?thesis by (auto simp: Let_def)
  next
    case False
    let ?page = "take l R" and ?nxt = "if length R \<le> l then zero_purge_cursor else cand_key (last (take l R))"
    have ne: "?page \<noteq> []" using False page(3) by simp
    have srt: "sorted_wrt (<) (map cand_key R)"
      using due_sorted [OF Suc.prems(1), of ?t] Suc.prems(6) by (simp add: sorted_wrt_map sorted_wrt_filter)
    have sub: "set ?page \<subseteq> set (due s ?t)" using Suc.prems(6) by (auto dest: in_set_takeD)
    have lastmem: "last ?page \<in> set (due s ?t)" using sub ne last_in_set by blast
    note lastok = key_cursor_ok [OF Suc.prems(1) lastmem]
    have dist: "distinct R" using srt by (auto simp: strict_sorted_iff distinct_map)
    have dpage: "distinct ?page" using dist by simp
    have fits: "int (length ?page) \<le> MaximumPurgeCandidatePage"
      "Attempted (result_tally res) + int (length ?page) \<le> MaximumPurgeAttemptsPerRun"
      using l page(4) by (auto simp: result_tally_def)
    obtain b s1 where P: "repo_purge_batch repo s runID ?page ?t = (Inr b, s1)" "inv s1"
      "batch_consistent b (int (length ?page))" "batch_Skipped b = 0"
      "due s1 ?t = filter (\<lambda>x. x \<notin> set ?page) (due s ?t)"
      "progress s1 runID st (add_tally (result_tally res) b) (sum_batches res + 1)"
      using purge_law [OF Suc.prems(1-3) ne fits sub dpage] by blast
    let ?res = "add_batch b (note_page ?page res)"
    have tally: "result_tally ?res = add_tally (result_tally res) b" by (rule result_tally_add [OF P(3)])
    have batches: "sum_batches ?res = sum_batches res + 1" "sum_count ?res = sum_count res + int (length ?page)"
      "sum_truncated ?res = sum_truncated res" "res_skipped ?res = res_skipped res"
      using P(4) by (simp_all add: add_batch_def)
    have tok: "tally_ok (result_tally ?res) (sum_batches ?res)"
      unfolding tally batches using ne page(4)
      by (intro tally_add [OF Suc.prems(3) P(3)]) (auto simp: result_tally_def)
    have prog: "progress s1 runID st (result_tally ?res) (sum_batches ?res)" using P(6) by (simp add: tally batches)
    have step: "purge_loop repo runID ?t (Suc fuel) c res s =
        (if ?nxt = zero_purge_cursor then Some ((?res, None), s1)
         else if sum_count ?res = MaximumPurgeAttemptsPerRun then Some ((?res\<lparr>sum_truncated := True\<rparr>, None), s1)
         else purge_loop repo runID ?t fuel ?nxt ?res s1)"
      using cnt ctx page(1,2) ne P(1,3) by (simp add: Let_def)
    show ?thesis
    proof (cases "length R \<le> l")
      case True
      then have "purge_loop repo runID ?t (Suc fuel) c res s = Some ((?res, None), s1)" using step by simp
      with True l P(2,5) prog tok batches Suc.prems show ?thesis by (auto simp: min_def)
    next
      case more: False
      have len: "length ?page = l" using more by simp
      have nxt: "?nxt = cand_key (last ?page)" "?nxt \<noteq> zero_purge_cursor" using more lastok by auto
      show ?thesis
      proof (cases "l = n")
        case True
        then have full: "sum_count ?res = MaximumPurgeAttemptsPerRun"
          using batches len cnt Suc.prems(7) by simp
        have "result_tally (?res\<lparr>sum_truncated := True\<rparr>) = result_tally ?res" by (simp add: result_tally_def)
        then show ?thesis using step nxt full True more len P(2,5) prog tok batches Suc.prems by (auto simp: min_def)
      next
        case False
        define R1 where "R1 = drop l R"
        define n1 where "n1 = n - l"
        have rest: "filter (\<lambda>x. ?nxt < cand_key x) (due s ?t) = R1"
          unfolding R1_def nxt(1) by (rule rest_after [OF Suc.prems(1,6) ne])
        have disj: "set R1 \<inter> set ?page = {}"
          using dist unfolding R1_def by (metis append_take_drop_id distinct_append inf_commute)
        have R1: "R1 = filter (\<lambda>x. ?nxt < cand_key x) (due s1 ?t)"
        proof -
          have "filter (\<lambda>x. ?nxt < cand_key x) (due s1 ?t) = filter (\<lambda>x. x \<notin> set ?page) R1"
            unfolding P(5) rest [symmetric] by (simp add: conj_commute)
          also have "\<dots> = R1" using disj by (auto simp: filter_id_conv)
          finally show ?thesis by simp
        qed
        have n1: "n1 = nat (MaximumPurgeAttemptsPerRun - sum_count ?res)" "0 < n1" "n1 < fuel"
          using Suc.prems(7-9) batches len page(3) l(1) False by (auto simp: n1_def)
        have cok: "purge_cursor_ok ?t ?nxt" using nxt lastok by simp
        have flags: "\<not> sum_truncated ?res" "res_skipped ?res = 0" using batches Suc.prems(10,11) by simp_all
        obtain res2 s2 where L: "purge_loop repo runID ?t fuel ?nxt ?res s1 = Some ((res2, None), s2)" "inv s2"
          "progress s2 runID st (result_tally res2) (sum_batches res2)" "tally_ok (result_tally res2) (sum_batches res2)"
          "sum_count res2 = sum_count ?res + int (min n1 (length R1))" "sum_truncated res2 = (n1 < length R1)"
          "res_skipped res2 = 0" "due s2 ?t = filter (\<lambda>x. x \<notin> set (take n1 R1)) (due s1 ?t)"
          using Suc.IH [OF P(2) prog tok Suc.prems(4) cok R1 n1 flags] by blast
        have notfull: "sum_count ?res \<noteq> MaximumPurgeAttemptsPerRun" using n1 by simp
        have tk: "take n R = ?page @ take n1 R1" using l(1) by (simp add: R1_def n1_def take_add [symmetric])
        have "due s2 ?t = filter (\<lambda>x. x \<notin> set (take n R)) (due s ?t)"
          unfolding L(8) P(5) tk by (simp add: filter_filter)
        moreover have "sum_count res2 = sum_count res + int (min n (length R))"
          using L(5) batches len l(1) more by (auto simp: R1_def n1_def)
        moreover have "sum_truncated res2 = (n < length R)" using L(6) l(1) more by (auto simp: R1_def n1_def)
        ultimately show ?thesis using step nxt notfull L by auto
      qed
    qed
  qed
qed simp

theorem run_complete:
  assumes "inv s" "0 < days" "days \<le> MaximumInactiveRetentionDays" "days * 86400 \<le> observedAt" "validSHA256 sha"
  defines "t \<equiv> observedAt - days * 86400"
  shows "\<exists>res runID s'. retention_Run repo days observedAt sha s = Some ((res, []), s') \<and> inv s' \<and> 0 < runID \<and>
    sum_count res = min MaximumPurgeAttemptsPerRun (int (length (due s t))) \<and>
    sum_truncated res = (MaximumPurgeAttemptsPerRun < int (length (due s t))) \<and>
    res_skipped res = 0 \<and> res_relays res + res_discoveries res = sum_count res \<and>
    due s' t = drop (nat MaximumPurgeAttemptsPerRun) (due s t) \<and>
    finished s' (finish_of runID res None observedAt)"
proof -
  define st where "st = \<lparr>start_policy = RetentionPolicyVersion, start_days = days, start_observed = observedAt,
     start_cutoff = t, start_backup = sha, start_started = observedAt\<rparr>"
  define N where "N = nat MaximumPurgeAttemptsPerRun"
  have st: "start_ok st" "start_cutoff st = t" "start_observed st = observedAt" "0 \<le> t"
    using assms(2-5) by (simp_all add: start_ok_def st_def t_def)
  have cut: "retention_cutoff days observedAt = Inr (observedAt, t)" "validRetentionDays days"
    using assms(2-4) by (auto simp: retention_cutoff_def validRetentionDays_def t_def Let_def)
  obtain runID s1 where B: "repo_begin_run repo s st = (Inr runID, s1)" "inv s1" "0 < runID" "\<And>t. due s1 t = due s t"
    "progress s1 runID st (empty_batch 0) 0"
    using begin_law [OF assms(1) st(1)] by blast
  let ?res = "result_at observedAt t"
  have r0: "result_tally ?res = empty_batch 0" "sum_batches ?res = 0" "sum_count ?res = 0" "\<not> sum_truncated ?res" "res_skipped ?res = 0"
    by (simp_all add: result_tally_def result_at_def empty_batch_def)
  have t0: "tally_ok (result_tally ?res) (sum_batches ?res)"
    unfolding r0 by (simp add: tally_ok_def batch_consistent_def empty_batch_def MaximumPurgeAttemptsPerRun_def)
  have zero: "purge_cursor_ok (start_cutoff st) zero_purge_cursor" by (simp add: purge_cursor_ok_def purge_cursor_Valid_def)
  have p1: "progress s1 runID st (result_tally ?res) (sum_batches ?res)" using B(5) by (simp only: r0)
  have c0: "0 \<le> start_cutoff st" using st by simp
  have all: "due s1 t = filter (\<lambda>x. zero_purge_cursor < cand_key x) (due s1 (start_cutoff st))"
    using key_cursor_ok [OF B(2)] st(2) by (auto simp: filter_id_conv)
  have N: "N = nat (MaximumPurgeAttemptsPerRun - sum_count ?res)" "0 < N" "N < Suc N" "int N = MaximumPurgeAttemptsPerRun"
    by (simp_all add: N_def r0 MaximumPurgeAttemptsPerRun_def)
  obtain res s2 where L: "purge_loop repo runID t (Suc N) zero_purge_cursor ?res s1 = Some ((res, None), s2)" "inv s2"
    "progress s2 runID st (result_tally res) (sum_batches res)" "tally_ok (result_tally res) (sum_batches res)"
    "sum_count res = sum_count ?res + int (min N (length (due s1 t)))" "sum_truncated res = (N < length (due s1 t))"
    "res_skipped res = 0" "due s2 t = filter (\<lambda>x. x \<notin> set (take N (due s1 t))) (due s1 t)"
    using loop_run [OF B(2) p1 t0 c0 zero all N(1-3) r0(4,5)] unfolding st(2) by blast
  obtain s3 where F: "repo_finish_run repo s2 (finish_of runID res None observedAt) = (Inr (), s3)" "inv s3"
    "\<And>t. due s3 t = due s2 t" "finished s3 (finish_of runID res None observedAt)"
    using finish_law [OF L(2-4) refl refl] st(3) by auto
  have run: "retention_Run repo days observedAt sha s = Some ((res, []), s3)"
    using assms(2,5) cut B(1) ctx_alive [OF assms(1)] L(1) F(1)
    by (simp add: retention_Run_def st_def N_def option_error_def)
  have "distinct (due s t)" using due_sorted [OF assms(1), of t] by (simp add: strict_sorted_iff distinct_map)
  then have "filter (\<lambda>x. x \<notin> set (take N (due s t))) (due s t) = drop N (due s t)"
    by (rule filter_notin_take)
  moreover have "res_relays res + res_discoveries res = sum_count res"
    using L(4,7) by (simp add: tally_ok_def batch_consistent_def result_tally_def Let_def)
  ultimately show ?thesis
    using run F B L r0 N(4) unfolding N_def [symmetric] by (intro exI [of _ res] exI [of _ runID] exI [of _ s3]) auto
qed

lemma summarize_run:
  assumes "inv s" "0 \<le> t" "purge_cursor_ok t c" "R = filter (\<lambda>x. c < cand_key x) (due s t)" "0 \<le> sum_count res"
    "n = nat (MaximumPurgeAttemptsPerRun - sum_count res)" "0 < n" "n < fuel" "\<not> sum_truncated res"
  shows "\<exists>res'. summarize_loop repo t fuel c res s = Some (res', None) \<and>
    sum_count res' = sum_count res + int (min n (length R)) \<and> sum_truncated res' = (n < length R)"
  using assms
proof (induction fuel arbitrary: c res R n)
  case (Suc fuel)
  define l where "l = nat (purge_page_limit (sum_count res))"
  have cnt: "sum_count res < MaximumPurgeAttemptsPerRun" using Suc.prems(6,7) by simp
  note page = page_fetch [OF Suc.prems(1-4) cnt Suc.prems(5) l_def]
  have ln: "l \<le> n" using page(4) Suc.prems(6) by simp
  show ?case
  proof (cases "R = []")
    case True
    with page(1,2) cnt Suc.prems(9) show ?thesis by (simp add: Let_def)
  next
    case False
    let ?nxt = "if length R \<le> l then zero_purge_cursor else cand_key (last (take l R))" and ?res = "note_page (take l R) res"
    have ne: "take l R \<noteq> []" using False page(3) by simp
    have step: "summarize_loop repo t (Suc fuel) c res s =
        (if ?nxt = zero_purge_cursor then Some (?res, None)
         else if sum_count ?res = MaximumPurgeAttemptsPerRun then Some (?res\<lparr>sum_truncated := True\<rparr>, None)
         else summarize_loop repo t fuel ?nxt ?res s)"
      using cnt page(1,2) ne by (simp add: Let_def)
    show ?thesis
    proof (cases "length R \<le> l")
      case True
      with step ln Suc.prems(9) show ?thesis by (auto simp: min_def)
    next
      case more: False
      have "last (take l R) \<in> set (due s t)"
        using ne Suc.prems(4) by (metis (no_types, lifting) filter_is_subset in_set_takeD last_in_set subsetD)
      note lastok = key_cursor_ok [OF Suc.prems(1) this]
      show ?thesis
      proof (cases "l = n")
        case True
        then show ?thesis using step more lastok Suc.prems(6,7) by auto
      next
        case False
        define R1 where "R1 = drop l R"
        define n1 where "n1 = n - l"
        have R1: "R1 = filter (\<lambda>x. cand_key (last (take l R)) < cand_key x) (due s t)"
          unfolding R1_def by (rule rest_after [OF Suc.prems(1,4) ne, symmetric])
        have n1: "n1 = nat (MaximumPurgeAttemptsPerRun - sum_count ?res)" "0 < n1" "n1 < fuel"
          using Suc.prems(6-8) page(3) ln False more by (auto simp: n1_def)
        have r: "0 \<le> sum_count ?res" "\<not> sum_truncated ?res" using Suc.prems(5,9) by simp_all
        obtain res2 where "summarize_loop repo t fuel (cand_key (last (take l R))) ?res s = Some (res2, None)"
          "sum_count res2 = sum_count ?res + int (min n1 (length R1))" "sum_truncated res2 = (n1 < length R1)"
          using Suc.IH [OF Suc.prems(1,2) conjunct1 [OF lastok] R1 r(1) n1 r(2)] by blast
        then show ?thesis using step more lastok n1 ln by (auto simp: R1_def n1_def)
      qed
    qed
  qed
qed simp

theorem dry_run_exact:
  assumes "inv s" "0 < days" "days \<le> MaximumInactiveRetentionDays" "days * 86400 \<le> observedAt"
  defines "t \<equiv> observedAt - days * 86400"
  shows "\<exists>sm. Summarize repo days observedAt s = Some (sm, None) \<and>
    sum_count sm = min MaximumPurgeAttemptsPerRun (int (length (due s t))) \<and>
    sum_truncated sm = (MaximumPurgeAttemptsPerRun < int (length (due s t)))"
proof -
  have cut: "retention_cutoff days observedAt = Inr (observedAt, t)" "validRetentionDays days" "0 \<le> t"
    using assms(2-4) by (auto simp: retention_cutoff_def validRetentionDays_def t_def Let_def)
  let ?res = "summary_at observedAt t" and ?N = "nat MaximumPurgeAttemptsPerRun"
  have zero: "purge_cursor_ok t zero_purge_cursor" by (simp add: purge_cursor_ok_def purge_cursor_Valid_def)
  have all: "due s t = filter (\<lambda>x. zero_purge_cursor < cand_key x) (due s t)"
    using key_cursor_ok [OF assms(1)] by (auto simp: filter_id_conv)
  have r: "0 \<le> sum_count ?res" "?N = nat (MaximumPurgeAttemptsPerRun - sum_count ?res)" "0 < ?N" "?N < Suc ?N"
    "\<not> sum_truncated ?res" "sum_count ?res = 0" "int ?N = MaximumPurgeAttemptsPerRun"
    by (simp_all add: summary_at_def MaximumPurgeAttemptsPerRun_def)
  obtain sm where "summarize_loop repo t (Suc ?N) zero_purge_cursor ?res s = Some (sm, None)"
    "sum_count sm = sum_count ?res + int (min ?N (length (due s t)))" "sum_truncated sm = (?N < length (due s t))"
    using summarize_run [OF assms(1) cut(3) zero all r(1-5)] by blast
  moreover from this(1) have "Summarize repo days observedAt s = Some (sm, None)"
    using assms(2) cut ctx_alive [OF assms(1)] by (simp add: Summarize_def)
  ultimately show ?thesis using r(6,7) by (intro exI [of _ sm]) (auto simp: nat_less_iff MaximumPurgeAttemptsPerRun_def)
qed

end

subsection \<open>The SQLite repository keeps the contract\<close>

definition sqlite_retention :: "retention_db retention_repository" where
  "sqlite_retention = \<lparr>repo_purge_candidates = (\<lambda>s q. PurgeCandidates quiet q s),
     repo_begin_run = (\<lambda>s st. BeginRetentionRun calm st s),
     repo_purge_batch = (\<lambda>s runID cs t. PurgeBatch calm runID cs t s),
     repo_finish_run = (\<lambda>s fin. FinishRetentionRun calm fin s), repo_run_ctx = (\<lambda>_. None)\<rparr>"

definition run_with :: "RetentionRunStart \<Rightarrow> PurgeBatchResult \<Rightarrow> int \<Rightarrow> retention_run" where
  "run_with st T b = (started_run st)\<lparr>run_scanned := Attempted T, run_relays := PurgedRelays T,
     run_discoveries := PurgedDiscoveries T, run_observations := PurgedObservations T,
     run_events := PurgedLifecycleEvents T, run_skipped := batch_Skipped T, run_batches := b\<rparr>"

definition sqlite_progress :: "retention_db \<Rightarrow> int \<Rightarrow> RetentionRunStart \<Rightarrow> PurgeBatchResult \<Rightarrow> int \<Rightarrow> bool" where
  "sqlite_progress s runID st T b \<longleftrightarrow> start_ok st \<and> 0 < runID \<and> map_of (retention_runs s) runID = Some (run_with st T b)"

definition recorded :: "retention_db \<Rightarrow> RetentionRunFinish \<Rightarrow> bool" where
  "recorded s fin \<longleftrightarrow>
     (case map_of (retention_runs s) (fin_run fin) of
        None \<Rightarrow> False
      | Some r \<Rightarrow> as_finish (fin_run fin) r (fin_finished fin) = fin \<and> run_finished r = Some (fin_finished fin))"

lemma lower_hex_digest: "validSHA256 v \<Longrightarrow> validRetentionDigest v"
proof -
  have "is_hex c \<and> to_lower c = c" if "lower_hex c" for c
    using that by (auto simp: lower_hex_def is_hex_def hex_digit_def to_lower_def is_upper_def is_digit_def
        less_eq_char_def code_def)
  then show "validSHA256 v \<Longrightarrow> validRetentionDigest v"
    by (auto simp: validSHA256_def validRetentionDigest_def list_all_iff intro!: map_idI [symmetric])
qed

lemma run_with_check:
  assumes "start_ok st" "tally_ok T b"
  shows "run_check (run_with st T b)"
  using assms
  by (auto simp: run_check_def run_with_def started_run_def start_ok_def tally_ok_def batch_consistent_def Let_def
      validSHA256_def MaximumPurgeAttemptsPerRun_def MaximumInactiveRetentionDays_def RetentionPolicyVersion_def)

lemma checkpoint_run_with: "checkpoint res (run_with st T b) = run_with st (add_tally T res) (b + 1)"
  by (simp add: checkpoint_def run_with_def add_tally_def)

lemma run_with_grows:
  assumes "batch_consistent res n" "0 < n"
  shows "run_update_allowed (run_with st T b) (run_with st (add_tally T res) (b + 1))"
  using assms by (auto simp: run_update_allowed_def run_with_def started_run_def add_tally_def batch_consistent_def Let_def)

lemma batch_result_due:
  assumes "retention_ok s" "set cs \<subseteq> set (all_due t (store s))" "distinct cs"
  shows "batch_consistent (batch_result t cs s) (int (length cs))" "batch_Skipped (batch_result t cs s) = 0"
  using purge_due [OF assms, of "empty_batch (int (length cs))"]
  by (auto simp: batch_result_def more_purged_def empty_batch_def batch_consistent_def Let_def)

lemma sqlite_purge_law:
  assumes ok: "retention_ok s" and prog: "sqlite_progress s runID st T b" and tally: "tally_ok T b" and ne: "cs \<noteq> []"
    and len: "int (length cs) \<le> MaximumPurgeCandidatePage" "Attempted T + int (length cs) \<le> MaximumPurgeAttemptsPerRun"
    and sub: "set cs \<subseteq> set (all_due (start_cutoff st) (store s))" and dist: "distinct cs"
  shows "\<exists>res s'. PurgeBatch calm runID cs (start_cutoff st) s = (Inr res, s') \<and> retention_ok s' \<and>
    batch_consistent res (int (length cs)) \<and> batch_Skipped res = 0 \<and>
    all_due (start_cutoff st) (store s') = filter (\<lambda>x. x \<notin> set cs) (all_due (start_cutoff st) (store s)) \<and>
    sqlite_progress s' runID st (add_tally T res) (b + 1)"
proof -
  let ?t = "start_cutoff st" and ?run = "run_with st T b" and ?res = "batch_result (start_cutoff st) cs s"
  note res = batch_result_due [OF ok sub dist]
  have valid: "list_all (\<lambda>c. PurgeCandidate_Valid c \<and> validHealthProjectionActor (cand_actor c) \<and> cand_inactive c \<le> ?t) cs"
    using all_due_valid [OF ok, of _ ?t] sub by (auto simp: list_all_iff)
  then have valid1: "list_all PurgeCandidate_Valid cs" by (auto simp: list_all_iff)
  have input: "\<not> (runID \<le> 0 \<or> ?t < 0 \<or> cs = [] \<or> int (length cs) > MaximumPurgeCandidatePage)"
    using prog ne len(1) by (auto simp: sqlite_progress_def start_ok_def)
  have start: "start_ok st" "map_of (retention_runs s) runID = Some ?run" using prog by (simp_all add: sqlite_progress_def)
  have "0 < int (length cs)" using ne by simp
  have check: "run_check (run_with st (add_tally T ?res) (b + 1))"
    using run_with_check [OF start(1) tally_add [OF tally res(1) \<open>0 < int (length cs)\<close> len(2)]] .
  have acc: "batch_accepted runID ?t cs ?run s"
    unfolding batch_accepted_def checkpoint_run_with
    using start check run_with_grows [OF res(1) \<open>0 < int (length cs)\<close>] ok
    by (auto simp: start_ok_def retention_ok_def) (auto simp: run_with_def started_run_def)
  have run: "PurgeBatch calm runID cs ?t s = run_tx calm (purge_batch_tx runID cs ?t) s"
    using input valid by (auto simp: PurgeBatch_def list_ex_iff list_all_iff)
  from purge_batch_calm [OF valid1, of runID ?t s] acc obtain run' where
    R: "batch_accepted runID ?t cs run' s" "run_tx calm (purge_batch_tx runID cs ?t) s = (Inr ?res, batch_state runID ?t cs run' s)"
    by blast
  have "run' = ?run" using R(1) start(2) by (simp add: batch_accepted_def)
  with R run have out: "PurgeBatch calm runID cs ?t s = (Inr ?res, batch_state runID ?t cs ?run s)" by simp
  have "retention_ok (batch_state runID ?t cs ?run s)"
    using retention_step_ok [OF ok, of "OpPurge calm runID cs ?t"] out by simp
  moreover have "all_due ?t (store (batch_state runID ?t cs ?run s)) = filter (\<lambda>x. x \<notin> set cs) (all_due ?t (store s))"
    using purge_due [OF ok sub dist] by (simp add: batch_state_def)
  moreover have "sqlite_progress (batch_state runID ?t cs ?run s) runID st (add_tally T ?res) (b + 1)"
    using prog by (simp add: sqlite_progress_def batch_state_def checkpoint_run_with)
  ultimately show ?thesis using out res by blast
qed

lemma sqlite_begin_law:
  assumes ok: "retention_ok s" and st: "start_ok st"
  shows "\<exists>runID s'. BeginRetentionRun calm st s = (Inr runID, s') \<and> retention_ok s' \<and> 0 < runID \<and>
    store s' = store s \<and> sqlite_progress s' runID st (empty_batch 0) 0"
proof -
  let ?s = "s\<lparr>retention_runs := AList.update (retention_run_seq s + 1) (started_run st) (retention_runs s),
              retention_run_seq := retention_run_seq s + 1\<rparr>"
  have eq: "run_with st (empty_batch 0) 0 = started_run st" by (simp add: run_with_def empty_batch_def started_run_def)
  have "tally_ok (empty_batch 0) 0"
    by (simp add: tally_ok_def batch_consistent_def empty_batch_def MaximumPurgeAttemptsPerRun_def)
  from run_with_check [OF st this] have check: "run_check (started_run st)" by (simp add: eq)
  have seq: "0 \<le> retention_run_seq s" using ok by (simp add: retention_ok_def runs_ok_def)
  have out: "BeginRetentionRun calm st s = (Inr (retention_run_seq s + 1), ?s)"
    using st check seq lower_hex_digest [of "start_backup st"]
    by (auto simp: BeginRetentionRun_def start_ok_def Let_def direct_rows calm_def insert_run_def)
  moreover have "retention_ok ?s"
    using retention_step_ok [OF ok, of "OpBegin calm st"] out by simp
  ultimately show ?thesis using seq st by (auto simp: sqlite_progress_def eq)
qed

lemma sqlite_finish_law:
  assumes ok: "retention_ok s" and prog: "sqlite_progress s runID st T b" and tally: "tally_ok T b"
    and T: "result_tally res = T" and b: "sum_batches res = b"
  shows "\<exists>s'. FinishRetentionRun calm (finish_of runID res None (start_observed st)) s = (Inr (), s') \<and> retention_ok s' \<and>
    store s' = store s \<and> recorded s' (finish_of runID res None (start_observed st))"
proof -
  let ?fin = "finish_of runID res None (start_observed st)" and ?run = "run_with st T b"
  let ?s = "s\<lparr>retention_runs := AList.update runID (finished_run ?fin ?run) (retention_runs s)\<rparr>"
  note defs = finish_of_def run_outcome_of_def T [symmetric] b [symmetric] result_tally_def
  have start: "start_ok st" "0 < runID" "map_of (retention_runs s) runID = Some ?run"
    using prog by (simp_all add: sqlite_progress_def)
  have running: "run_outcome ?run = retention_running" "run_policy ?run = RetentionPolicyVersion" "fin_run ?fin = runID"
    using start(1) by (simp_all add: run_with_def started_run_def start_ok_def finish_of_def)
  have input: "finish_input_ok ?fin"
    using tally start(1,2)
    by (auto simp: finish_input_ok_def tally_ok_def batch_consistent_def defs Let_def RetentionOutcome_Valid_def start_ok_def)
  have agrees: "finish_agrees ?fin ?run" by (simp add: finish_agrees_def run_with_def defs)
  have "run_check (run_with st T b)" by (rule run_with_check [OF start(1) tally])
  then have check: "run_check (finished_run ?fin ?run)" "run_update_allowed ?run (finished_run ?fin ?run)"
    using start(1) tally
    by (auto simp: run_check_def run_update_allowed_def finished_run_def run_with_def started_run_def defs start_ok_def
        outcome_texts RetentionOutcome_Valid_def tally_ok_def batch_consistent_def Let_def)
  have out: "FinishRetentionRun calm ?fin s = (Inr (), ?s)"
    using input start(3) running agrees check
    by (simp add: FinishRetentionRun_def run_direct_def bindt_eval query_calm calm_def acquireWrite_def exec_rows_calm
        update_running_def ret_def)
  have "recorded ?s ?fin"
    by (simp add: recorded_def running as_finish_def finished_run_def)
  moreover have "retention_ok ?s" using retention_step_ok [OF ok, of "OpFinish calm ?fin"] out by simp
  ultimately show ?thesis using out by (intro exI [of _ ?s]) simp
qed

interpretation sqlite_retain: retention_contract sqlite_retention retention_ok "\<lambda>s t. all_due t (store s)" sqlite_progress recorded
proof unfold_locales
  fix s :: retention_db and t l runID b :: int and c x st T cs res
  assume ok: "retention_ok s"
  show "repo_run_ctx sqlite_retention s = None" by (simp add: sqlite_retention_def)
  show "sorted_wrt (<) (map cand_key (all_due t (store s)))" by (rule all_due_sorted [OF retention_tables [OF ok]])
  show "PurgeCandidate_Valid x \<and> validHealthProjectionActor (cand_actor x) \<and> cand_inactive x \<le> t"
    if "x \<in> set (all_due t (store s))" using all_due_valid [OF ok that] by simp
  show "repo_purge_candidates sqlite_retention s \<lparr>purge_after = c, purge_limit = l, purge_cutoff = t\<rparr> =
      Inr (page_of cand_key zero_purge_cursor (nat l) (all_due t (store s)) c)"
    if "0 \<le> t" "0 < l" "l \<le> MaximumPurgeCandidatePage" "purge_cursor_ok t c"
    using PurgeCandidates_page [OF ok that] by (simp add: sqlite_retention_def)
  show "\<exists>runID s'. repo_begin_run sqlite_retention s st = (Inr runID, s') \<and> retention_ok s' \<and> 0 < runID \<and>
      (\<forall>t. all_due t (store s') = all_due t (store s)) \<and> sqlite_progress s' runID st (empty_batch 0) 0"
    if "start_ok st" using sqlite_begin_law [OF ok that] by (auto simp: sqlite_retention_def)
  show "\<exists>res s'. repo_purge_batch sqlite_retention s runID cs (start_cutoff st) = (Inr res, s') \<and> retention_ok s' \<and>
      batch_consistent res (int (length cs)) \<and> batch_Skipped res = 0 \<and>
      all_due (start_cutoff st) (store s') = filter (\<lambda>x. x \<notin> set cs) (all_due (start_cutoff st) (store s)) \<and>
      sqlite_progress s' runID st (add_tally T res) (b + 1)"
    if "sqlite_progress s runID st T b" "tally_ok T b" "cs \<noteq> []" "int (length cs) \<le> MaximumPurgeCandidatePage"
      "Attempted T + int (length cs) \<le> MaximumPurgeAttemptsPerRun"
      "set cs \<subseteq> set (all_due (start_cutoff st) (store s))" "distinct cs"
    using sqlite_purge_law [OF ok that] by (simp add: sqlite_retention_def)
  show "\<exists>s'. repo_finish_run sqlite_retention s (finish_of runID res None (start_observed st)) = (Inr (), s') \<and>
      retention_ok s' \<and> (\<forall>t. all_due t (store s') = all_due t (store s)) \<and>
      recorded s' (finish_of runID res None (start_observed st))"
    if "sqlite_progress s runID st T b" "tally_ok T b" "result_tally res = T" "sum_batches res = b"
    using sqlite_finish_law [OF ok that] by (auto simp: sqlite_retention_def)
qed

subsection \<open>Properties\<close>

text \<open>A retention run over any repository whatsoever returns, scans at most 1000
  candidates in at most that many batches, and never reports more purged and skipped rows
  than it scanned; when it reports no error, every scanned candidate is accounted for as
  purged or skipped.\<close>

theorem retention_run_bounded:
  "\<exists>res errs s'. retention_Run repo days observedAt sha s = Some ((res, errs), s') \<and> run_bounds res \<and>
     (errs \<noteq> [] \<or> accounted res)"
proof -
  have zero: "run_bounds (result_at a b)" "accounted (result_at a b)" "sum_count (result_at a b) = 0" for a b
    by (simp_all add: run_bounds_def accounted_def result_at_def MaximumPurgeAttemptsPerRun_def)
  have loop: "\<exists>res' err s'. purge_loop repo runID b (Suc (nat MaximumPurgeAttemptsPerRun)) zero_purge_cursor (result_at a b) s =
      Some ((res', err), s') \<and> run_bounds res' \<and> (err = None \<longrightarrow> accounted res')" for runID a b s
    by (rule purge_loop_bounded) (simp_all add: zero)
  show ?thesis
  proof (cases "days \<le> 0 \<or> \<not> validRetentionDays days \<or> \<not> validSHA256 sha")
    case True
    then show ?thesis using zero by (auto simp: retention_Run_def)
  next
    case False
    show ?thesis
    proof (cases "retention_cutoff days observedAt")
      case (Inl e)
      with False show ?thesis using zero by (simp add: retention_Run_def)
    next
      case (Inr ab)
      obtain a b where ab: "ab = (a, b)" by (cases ab)
      let ?st = "\<lparr>start_policy = RetentionPolicyVersion, start_days = days, start_observed = a, start_cutoff = b,
          start_backup = sha, start_started = a\<rparr>"
      obtain out s1 where begun: "repo_begin_run repo s ?st = (out, s1)" by fastforce
      show ?thesis
      proof (cases "repo_run_ctx repo s = None \<and> isOk out")
        case True
        then obtain runID where id: "out = Inr runID" by (auto simp: isOk_iff)
        obtain res err s2 where L: "purge_loop repo runID b (Suc (nat MaximumPurgeAttemptsPerRun)) zero_purge_cursor (result_at a b) s1 =
          Some ((res, err), s2)" "run_bounds res" "err = None \<longrightarrow> accounted res" using loop [of runID b a s1] by blast
        obtain fin s3 where F: "repo_finish_run repo s2 (finish_of runID res err a) = (fin, s3)" by fastforce
        have "retention_Run repo days observedAt sha s =
            Some ((res, option_error err @ (case fin of Inl e \<Rightarrow> [e] | Inr _ \<Rightarrow> [])), s3)"
          using False Inr ab begun id True L(1) F by (simp add: retention_Run_def del: purge_loop.simps)
        then show ?thesis using L(2,3) by (cases err) (auto simp: option_error_def)
      next
        case stop: False
        then show ?thesis using False Inr ab begun zero
          by (cases "repo_run_ctx repo s"; cases out) (auto simp: retention_Run_def)
      qed
    qed
  qed
qed

theorem retention_run_bounded_witness:
  "\<exists>res errs s'. retention_Run sqlite_retention 1 100000 (replicate 64 CHR ''0'') inactive_db = Some ((res, errs), s') \<and>
     run_bounds res"
  using retention_run_bounded [of sqlite_retention 1 100000 "replicate 64 CHR ''0''" inactive_db] by blast

text \<open>C7: over the SQLite repository an undisturbed run purges exactly the first 1000 rows that
  are due at the cutoff, in cursor order: it skips none, leaves exactly the later ones due,
  reports truncation exactly when there are later ones, and its final record repeats the
  reported counts. The dry run at the same instant counts exactly the same candidates.\<close>

theorem retention_run_complete:
  assumes "retention_ok s" "0 < days" "days \<le> MaximumInactiveRetentionDays" "days * 86400 \<le> observedAt" "validSHA256 sha"
  shows "\<exists>res runID s' sm. retention_Run sqlite_retention days observedAt sha s = Some ((res, []), s') \<and> retention_ok s' \<and>
    sum_count res = min MaximumPurgeAttemptsPerRun (int (length (all_due (observedAt - days * 86400) (store s)))) \<and>
    sum_truncated res = (MaximumPurgeAttemptsPerRun < int (length (all_due (observedAt - days * 86400) (store s)))) \<and>
    res_skipped res = 0 \<and> res_relays res + res_discoveries res = sum_count res \<and>
    all_due (observedAt - days * 86400) (store s') =
      drop (nat MaximumPurgeAttemptsPerRun) (all_due (observedAt - days * 86400) (store s)) \<and>
    recorded s' (finish_of runID res None observedAt) \<and>
    Summarize sqlite_retention days observedAt s = Some (sm, None) \<and>
    sum_count sm = sum_count res \<and> sum_truncated sm = sum_truncated res"
  using sqlite_retain.run_complete [OF assms] sqlite_retain.dry_run_exact [OF assms(1-4)] by metis

theorem retention_run_complete_witness:
  "\<exists>res s'. retention_Run sqlite_retention 1 100000 (replicate 64 CHR ''0'') inactive_db = Some ((res, []), s') \<and>
     res_relays res + res_discoveries res = 1 \<and> all_due 13600 (store s') = []"
proof -
  have due: "all_due 13600 (store inactive_db) = [sample_candidate]"
    by (simp add: sample_candidate_def all_due_def lifecycle_candidates_def discovery_candidates_def)
      (simp add: inactive_db_def store_def migrated_def purgeable_relay_def gone_row_def inactive_at_def due_by_def)
  have "validSHA256 (replicate 64 CHR ''0'')" by (simp add: validSHA256_def lower_hex_def is_digit_def code_def list_all_iff)
  with retention_run_complete [OF inactive_db_ok, of 1 100000 "replicate 64 CHR ''0''"]
  show ?thesis by (auto simp: due MaximumInactiveRetentionDays_def MaximumPurgeAttemptsPerRun_def)
qed

end
