(* ===== verification/Reachability.thy ===== *)
theory Reachability
  imports Listing
begin

section \<open>Reachability maintenance\<close>

text \<open>
  \<open>internal/storage/reachability.go\<close>, \<open>internal/storage/sqlite/reachability.go\<close>, the
  diagnostic vocabulary of \<open>internal/actorresolver/diagnostic.go\<close> and
  \<open>internal/reachability/run.go\<close>. The state adds the table \<open>relay_probe_diagnostics\<close> to the
  relay database. The prober is a parameter of the run. The goroutines of \<open>probePage\<close> write
  disjoint result slots and are joined before the results are used, so a page of probes is
  a map over the candidates; whether a probe saw the context cancelled is part of the
  prober's answer.
\<close>

definition ReachabilityUnreachableRetry :: int where "ReachabilityUnreachableRetry = 7 * 24 * 3600"
definition ReachabilityFailureRetryMinimum :: int where "ReachabilityFailureRetryMinimum = 3600"
definition MaximumReachabilityFailureStreak :: int where "MaximumReachabilityFailureStreak = 4"
definition MaximumReachabilityCandidatePage :: int where "MaximumReachabilityCandidatePage = 24"
definition MaximumReachabilityAttemptsPerRun :: int where "MaximumReachabilityAttemptsPerRun = 96"

lemmas reach_consts = ReachabilityUnreachableRetry_def ReachabilityFailureRetryMinimum_def
  MaximumReachabilityFailureStreak_def MaximumReachabilityCandidatePage_def
  MaximumReachabilityAttemptsPerRun_def ReachabilityFreshness_def

subsection \<open>Diagnostics\<close>

record ProbeDiagnostic =
  Stage :: string
  Code :: string
  HTTPStatus :: int

definition no_diagnostic :: ProbeDiagnostic where
  "no_diagnostic = \<lparr>Stage = [], Code = [], HTTPStatus = 0\<rparr>"

definition ProbeDiagnostic_Valid :: "ProbeDiagnostic \<Rightarrow> bool" where
  "ProbeDiagnostic_Valid g =
     (let plain = (HTTPStatus g = 0); status = (HTTPStatus g \<ge> 100 \<and> HTTPStatus g \<le> 599) in
      if Stage g = [] then Code g = [] \<and> plain
      else if Stage g = ''dns''
      then Code g \<in> set [''nxdomain'', ''no_address'', ''temporary'', ''timeout'', ''policy'', ''error''] \<and> plain
      else if Stage g = ''connect'' then Code g \<in> set [''refused'', ''timeout'', ''failed''] \<and> plain
      else if Stage g = ''tls'' then Code g \<in> set [''certificate'', ''handshake''] \<and> plain
      else if Stage g = ''policy'' then Code g = ''prohibited_target'' \<and> plain
      else if Stage g = ''redirect'' then Code g = ''rejected'' \<and> plain
      else if Stage g = ''actor''
      then (if Code g = ''http_status'' then status
            else Code g \<in> set [''content_type'', ''invalid_document'', ''invalid_response''] \<and> plain)
      else if Stage g = ''inbox''
      then (if Code g = ''http_status'' then status else Code g = ''invalid_response'' \<and> plain)
      else if Stage g = ''network'' then (Code g = ''timeout'' \<or> Code g = ''error'') \<and> plain
      else False)"

record diagnostic_row =
  actor_diagnostic :: ProbeDiagnostic
  inbox_diagnostic :: ProbeDiagnostic
  next_check_at :: int
  diagnostic_updated_at :: int
  failure_streak :: int

definition diagnostic_part_check :: "ProbeDiagnostic \<Rightarrow> bool" where
  "diagnostic_part_check g \<longleftrightarrow>
     length (Stage g) \<le> 16 \<and> length (Code g) \<le> 32 \<and> 0 \<le> HTTPStatus g \<and> HTTPStatus g \<le> 599"

definition diagnostic_check :: "diagnostic_row \<Rightarrow> bool" where
  "diagnostic_check r \<longleftrightarrow>
     diagnostic_part_check (actor_diagnostic r) \<and> diagnostic_part_check (inbox_diagnostic r) \<and>
     0 \<le> next_check_at r \<and> 0 \<le> diagnostic_updated_at r \<and> diagnostic_updated_at r \<le> next_check_at r \<and>
     0 \<le> failure_streak r \<and> failure_streak r \<le> 4"

record reach_db =
  reach_core :: db
  probe_diagnostics :: "(string, diagnostic_row) table"

subsection \<open>Candidates\<close>

type_synonym reach_cursor = "bool \<times> int \<times> string"

definition zero_reach_cursor :: reach_cursor where "zero_reach_cursor = (False, 0, [])"

definition reach_cursor_Valid :: "reach_cursor \<Rightarrow> bool" where
  "reach_cursor_Valid c \<longleftrightarrow>
     (case c of (hasLastChecked, lastCheckedUnix, actor) \<Rightarrow>
        if c = zero_reach_cursor then True
        else if actor = [] then False
        else if \<not> hasLastChecked then lastCheckedUnix = 0
        else lastCheckedUnix \<ge> 0)"

record ReachabilityCandidateQuery =
  reach_after :: reach_cursor
  reach_limit :: int
  reach_observed :: int

record ReachabilityCandidate =
  rc_actor :: string
  rc_checked :: "int option"

definition reachabilityCursor :: "ReachabilityCandidate \<Rightarrow> reach_cursor" where
  "reachabilityCursor c =
     (case rc_checked c of None \<Rightarrow> (False, 0, rc_actor c) | Some t \<Rightarrow> (True, t, rc_actor c))"

definition eligible_relay :: "relay_row \<Rightarrow> bool" where
  "eligible_relay r \<longleftrightarrow>
     (lifecycle_state r = Registered \<or> lifecycle_state r = Pruned) \<and> administrative_state r = Active"

definition eligible_discovery :: "db \<Rightarrow> string \<Rightarrow> discovery_row \<Rightarrow> bool" where
  "eligible_discovery d actor r \<longleftrightarrow>
     discovery_state r = DiscoveryActive \<and>
     \<not> (case map_of (relays d) actor of None \<Rightarrow> False | Some r \<Rightarrow> administrative_state r = Suspended)"

definition eligible_actors :: "db \<Rightarrow> string list" where
  "eligible_actors d =
     remdups (map fst (filter (\<lambda>ar. eligible_relay (snd ar)) (relays d)) @
              map fst (filter (\<lambda>ar. eligible_discovery d (fst ar) (snd ar)) (relay_discoveries d)))"

definition coalesce_minus :: "int option \<Rightarrow> int" where
  "coalesce_minus v = (case v of None \<Rightarrow> -1 | Some x \<Rightarrow> x)"

definition last_online :: "db \<Rightarrow> string \<Rightarrow> int option \<Rightarrow> int" where
  "last_online d actor lastSuccess =
     Max {coalesce_minus (map_option last_seen_at (map_of (relays d) actor)),
          coalesce_minus (map_option first_discovered_at (map_of (relay_discoveries d) actor)),
          coalesce_minus lastSuccess}"

definition actor_checked :: "db \<Rightarrow> string \<Rightarrow> int option" where
  "actor_checked d actor = (case map_of (relay_observations d) actor of None \<Rightarrow> None | Some o1 \<Rightarrow> actor_last_checked o1)"

text \<open>
  The due condition of the query: never checked, or the persisted deadline of the last
  check has passed, or, without one, the last check is older than the freshness window, or
  than the weekly window for an actor that has long been offline.
\<close>

definition reach_due :: "reach_db \<Rightarrow> int \<Rightarrow> string \<Rightarrow> bool" where
  "reach_due s observedUnix actor =
     (case map_of (relay_observations (reach_core s)) actor of
        None \<Rightarrow> True
      | Some o1 \<Rightarrow>
          (case actor_last_checked o1 of
             None \<Rightarrow> True
           | Some checked \<Rightarrow>
               (case map_of (probe_diagnostics s) actor of
                  Some g \<Rightarrow> diagnostic_updated_at g = checked \<and> next_check_at g \<le> observedUnix
                | None \<Rightarrow> False) \<or>
               (case map_of (probe_diagnostics s) actor of
                  Some g \<Rightarrow> diagnostic_updated_at g \<noteq> checked
                | None \<Rightarrow> True) \<and>
               checked <
                 (if actor_state o1 = ReachabilityUnreachable \<and>
                     last_online (reach_core s) actor (actor_last_success o1) \<le> observedUnix - ReachabilityUnreachableRetry
                  then observedUnix - ReachabilityUnreachableRetry
                  else observedUnix - ReachabilityFreshness)))"

definition candidate_of :: "reach_db \<Rightarrow> string \<Rightarrow> ReachabilityCandidate" where
  "candidate_of s actor = \<lparr>rc_actor = actor, rc_checked = actor_checked (reach_core s) actor\<rparr>"

definition decode_reach_candidate :: "int \<Rightarrow> ReachabilityCandidate \<Rightarrow> ReachabilityCandidate result" where
  "decode_reach_candidate minimumCutoffUnix c =
     (if NormalizeRelayActorURL (rc_actor c) \<noteq> Inr (rc_actor c)
      then Inl (storageFailure ''validate reachability candidate'' (Opaque ''invalid retained actor identity''))
      else if (case rc_checked c of None \<Rightarrow> False | Some t \<Rightarrow> t < 0 \<or> t > minimumCutoffUnix)
      then Inl (storageFailure ''validate reachability candidate'' (Opaque ''invalid retained reachability time''))
      else Inr c)"

definition ReachabilityCandidates :: "read_faults \<Rightarrow> ReachabilityCandidateQuery \<Rightarrow> reach_db
    \<Rightarrow> (ReachabilityCandidate list \<times> reach_cursor) result" where
  "ReachabilityCandidates rf q s =
     (if \<not> reach_cursor_Valid (reach_after q) \<or> reach_limit q \<le> 0 \<or>
         reach_limit q > MaximumReachabilityCandidatePage \<or>
         (reach_after q \<noteq> zero_reach_cursor \<and> \<not> validHealthProjectionActor (snd (snd (reach_after q))))
      then Inl (Err ErrReachabilityReadInput)
      else if reach_observed q < 0 then Inl (Err ErrReachabilityReadInput)
      else
        let minimumCutoffUnix = reach_observed q - ReachabilityFailureRetryMinimum in
        if fst (reach_after q) \<and> fst (snd (reach_after q)) > minimumCutoffUnix
        then Inl (Err ErrReachabilityReadInput)
        else scan_page rf ''read reachability candidates'' ''iterate reachability candidates''
               (decode_reach_candidate minimumCutoffUnix) reachabilityCursor zero_reach_cursor (nat (reach_limit q))
               (keyset_rows reachabilityCursor (reach_after q) (nat (reach_limit q) + 1)
                  (map (candidate_of s) (filter (reach_due s (reach_observed q)) (eligible_actors (reach_core s))))))"

subsection \<open>Recording one observation\<close>

record ReachabilityObservationIntent =
  ri_actor :: string
  ri_state :: reachability
  ri_inbox :: string
  ri_inbox_state :: inbox_probe
  ri_actor_diagnostic :: ProbeDiagnostic
  ri_inbox_diagnostic :: ProbeDiagnostic

datatype ReachabilityWriteOutcome = ReachabilityWriteApplied | ReachabilityWriteSkipped

definition validateReachabilityObservationIntent :: "ReachabilityObservationIntent \<Rightarrow> goerror option" where
  "validateReachabilityObservationIntent intent =
     (if \<not> ProbeDiagnostic_Valid (ri_actor_diagnostic intent) \<or> \<not> ProbeDiagnostic_Valid (ri_inbox_diagnostic intent)
      then Some (Err ErrReachabilityWriteInput)
      else if ri_state intent = ReachabilityReachable \<and> ri_actor_diagnostic intent \<noteq> no_diagnostic
      then Some (Err ErrReachabilityWriteInput)
      else if ri_state intent = ReachabilityUnreachable \<and> ri_inbox_diagnostic intent \<noteq> no_diagnostic
      then Some (Err ErrReachabilityWriteInput)
      else if NormalizeRelayActorURL (ri_actor intent) \<noteq> Inr (ri_actor intent) then Some (Err ErrReachabilityWriteInput)
      else case ri_state intent of
        ReachabilityReachable \<Rightarrow>
          if ri_inbox intent = []
          then (if ri_inbox_state intent \<noteq> InboxNotChecked then Some (Err ErrReachabilityWriteInput) else None)
          else if NormalizeRelayActorURL (ri_inbox intent) \<noteq> Inr (ri_inbox intent) \<or>
                  (ri_inbox_state intent \<noteq> InboxResponsive \<and> ri_inbox_state intent \<noteq> InboxMethodRejected \<and>
                   ri_inbox_state intent \<noteq> InboxUnreachable)
          then Some (Err ErrReachabilityWriteInput) else None
      | ReachabilityUnreachable \<Rightarrow>
          if ri_inbox intent \<noteq> [] \<or> ri_inbox_state intent \<noteq> InboxNotChecked
          then Some (Err ErrReachabilityWriteInput) else None
      | ReachabilityUnknown \<Rightarrow> Some (Err ErrReachabilityWriteInput))"

definition reachabilityEligible :: "db \<Rightarrow> string \<Rightarrow> bool" where
  "reachabilityEligible d actor \<longleftrightarrow>
     (case map_of (relays d) actor of None \<Rightarrow> False | Some r \<Rightarrow> eligible_relay r) \<or>
     (case map_of (relay_discoveries d) actor of None \<Rightarrow> False | Some r \<Rightarrow> eligible_discovery d actor r)"

text \<open>A statement on the relay tables.\<close>

definition on_core :: "(db \<Rightarrow> db option) \<Rightarrow> reach_db \<Rightarrow> reach_db option" where
  "on_core f s = map_option (\<lambda>d. s\<lparr>reach_core := d\<rparr>) (f (reach_core s))"

definition select_reach_observation :: "string \<Rightarrow> string \<Rightarrow> (reach_db, observation option) tx" where
  "select_reach_observation action actor = query action (\<lambda>s. map_of (relay_observations (reach_core s)) actor)"

definition reach_observed_row :: "ReachabilityObservationIntent \<Rightarrow> int \<Rightarrow> int \<Rightarrow> observation \<Rightarrow> observation" where
  "reach_observed_row intent t updatedUnix r =
     (if ri_state intent = ReachabilityReachable
      then r\<lparr>actor_state := ri_state intent, actor_last_checked := Some t, actor_last_success := Some t,
             inbox_url := (if ri_inbox intent \<noteq> [] then Some (ri_inbox intent) else None),
             inbox_declared := (if ri_inbox intent \<noteq> [] then Some t else None),
             inbox_probe_state := ri_inbox_state intent,
             inbox_last_checked := (if ri_inbox intent \<noteq> [] then Some t else None),
             observation_updated_at := updatedUnix, revision := revision r + 1\<rparr>
      else r\<lparr>actor_state := ri_state intent, actor_last_checked := Some t,
             observation_updated_at := updatedUnix, revision := revision r + 1\<rparr>)"

definition retry_after :: "int \<Rightarrow> int" where
  "retry_after streak =
     (if streak = 1 then ReachabilityFailureRetryMinimum
      else if streak = 2 then 2 * 3600
      else if streak = 3 then 4 * 3600
      else ReachabilityFreshness)"

definition next_streak :: "diagnostic_row option \<Rightarrow> int" where
  "next_streak found =
     (let previous = (case found of None \<Rightarrow> 0 | Some g \<Rightarrow> failure_streak g) in
      if previous < MaximumReachabilityFailureStreak then previous + 1 else previous)"

text \<open>The upsert of the diagnostics: a failed actor probe keeps the earlier inbox evidence.\<close>

definition put_diagnostic :: "ReachabilityObservationIntent \<Rightarrow> int \<Rightarrow> int \<Rightarrow> int \<Rightarrow> reach_db \<Rightarrow> reach_db option" where
  "put_diagnostic intent nextCheckUnix t streak s =
     (let row = \<lparr>actor_diagnostic = ri_actor_diagnostic intent,
          inbox_diagnostic =
            (case map_of (probe_diagnostics s) (ri_actor intent) of
               Some old \<Rightarrow> if ri_state intent = ReachabilityReachable then ri_inbox_diagnostic intent else inbox_diagnostic old
             | None \<Rightarrow> ri_inbox_diagnostic intent),
          next_check_at = nextCheckUnix, diagnostic_updated_at = t, failure_streak = streak\<rparr>
      in if diagnostic_check row \<and> map_of (relay_observations (reach_core s)) (ri_actor intent) \<noteq> None
         then Some (s\<lparr>probe_diagnostics := AList.update (ri_actor intent) row (probe_diagnostics s)\<rparr>) else None)"

text \<open>The row to update: the current one, or the one inserted for the first observation.\<close>

definition ensure_observation :: "string \<Rightarrow> int \<Rightarrow> observation option \<Rightarrow> (reach_db, observation) tx" where
  "ensure_observation actor t found =
     (case found of
        Some current \<Rightarrow> ret current
      | None \<Rightarrow>
          bindt (exec ''create relay observation'' (on_core (insert_observation actor (empty_observation t)))) (\<lambda>_.
          bindt (select_reach_observation ''read inserted reachability observation'' actor) (\<lambda>again.
            case again of
              Some current \<Rightarrow> ret current
            | None \<Rightarrow>
                fail (storageFailure ''read inserted reachability observation''
                        (Opaque ''observation row missing after insert'')))))"

text \<open>The next check and the failure streak.\<close>

definition schedule_retry :: "ReachabilityObservationIntent \<Rightarrow> int \<Rightarrow> observation \<Rightarrow> (reach_db, int \<times> int) tx" where
  "schedule_retry intent t current =
     (if ri_state intent = ReachabilityUnreachable
      then
        bindt (query ''read actor retry streak'' (\<lambda>s. map_of (probe_diagnostics s) (ri_actor intent))) (\<lambda>previous.
        bindt (query ''classify reachability retry''
                 (\<lambda>s. last_online (reach_core s) (ri_actor intent) (actor_last_success current))) (\<lambda>lastKnownOnline.
        let streak = next_streak previous in
        ret (if lastKnownOnline \<le> t - ReachabilityUnreachableRetry then t + ReachabilityUnreachableRetry
             else t + retry_after streak, streak)))
      else ret (t + ReachabilityFreshness, 0))"

definition record_reach_tx :: "ReachabilityObservationIntent \<Rightarrow> int \<Rightarrow> (reach_db, ReachabilityWriteOutcome completion) tx" where
  "record_reach_tx intent t =
     bindt (query ''revalidate reachability eligibility'' (\<lambda>s. reachabilityEligible (reach_core s) (ri_actor intent))) (\<lambda>eligible.
     if \<not> eligible then ret (Abandon ReachabilityWriteSkipped)
     else
       bindt (select_reach_observation ''read reachability observation'' (ri_actor intent)) (\<lambda>found.
       if (case found of None \<Rightarrow> False | Some o1 \<Rightarrow>
             (case actor_last_checked o1 of None \<Rightarrow> False | Some c \<Rightarrow> c \<ge> t))
       then ret (Abandon ReachabilityWriteSkipped)
       else
         bindt (ensure_observation (ri_actor intent) t found) (\<lambda>current.
         bindt (exec (if ri_state intent = ReachabilityReachable then ''write reachable observation''
                      else ''write unreachable observation'')
                  (on_core (update_observation (ri_actor intent)
                     (reach_observed_row intent t (maxInt64 (observation_updated_at current) t))))) (\<lambda>_.
         bindt (schedule_retry intent t current) (\<lambda>(nextCheckUnix, streak).
         bindt (exec ''write reachability diagnostics'' (put_diagnostic intent nextCheckUnix t streak)) (\<lambda>_.
         ret (Commit ''commit reachability observation'' ReachabilityWriteApplied)))))))"

definition RecordReachabilityObservation :: "environment \<Rightarrow> ReachabilityObservationIntent \<Rightarrow> int \<Rightarrow> reach_db
    \<Rightarrow> ReachabilityWriteOutcome result \<times> reach_db" where
  "RecordReachabilityObservation env intent observedAt s =
     (case validateReachabilityObservationIntent intent of
        Some e \<Rightarrow> (Inl e, s)
      | None \<Rightarrow>
          (case observationUnix observedAt of
             Inl e \<Rightarrow> (Inl e, s)
           | Inr observedUnix \<Rightarrow> run_tx env (record_reach_tx intent observedUnix) s))"

subsection \<open>Probing and the maintenance run\<close>

datatype inbox_result = InboxProbeResponsive | InboxProbeMethodRejected | InboxProbeUnreachable | InboxProbeText string

text \<open>
  One answer of a prober: the value, the structured diagnostic, the error, and the error of
  the context read right after a failed probe.
\<close>

record 'a probe_answer =
  pa_value :: 'a
  pa_diagnostic :: ProbeDiagnostic
  pa_err :: "goerror option"
  pa_ctx :: "goerror option"

record prober =
  ask_actor :: "string \<Rightarrow> (string \<times> string) probe_answer"
  ask_inbox :: "string \<Rightarrow> inbox_result probe_answer"
  slot_ctx :: "string \<Rightarrow> goerror option"

definition reachable_intent :: "string \<Rightarrow> string \<Rightarrow> inbox_probe \<Rightarrow> ProbeDiagnostic \<Rightarrow> ReachabilityObservationIntent" where
  "reachable_intent actor inbox state g =
     \<lparr>ri_actor = actor, ri_state = ReachabilityReachable, ri_inbox = inbox, ri_inbox_state = state,
      ri_actor_diagnostic = no_diagnostic, ri_inbox_diagnostic = g\<rparr>"

definition probe_inbox :: "prober \<Rightarrow> string \<Rightarrow> string \<Rightarrow> ReachabilityObservationIntent result" where
  "probe_inbox pr actor inbox =
     (let a = ask_inbox pr inbox in
      case pa_err a of
        Some err \<Rightarrow>
          (case pa_ctx a of
             Some e \<Rightarrow> Inl e
           | None \<Rightarrow>
               if errors_is err ErrResolverConfiguration \<or> \<not> ProbeDiagnostic_Valid (pa_diagnostic a)
               then Inl (Err ErrReachabilityConfiguration)
               else Inr (reachable_intent actor inbox InboxUnreachable (pa_diagnostic a)))
      | None \<Rightarrow>
          if \<not> ProbeDiagnostic_Valid (pa_diagnostic a) then Inl (Err ErrReachabilityConfiguration)
          else case pa_value a of
            InboxProbeResponsive \<Rightarrow> Inr (reachable_intent actor inbox InboxResponsive (pa_diagnostic a))
          | InboxProbeMethodRejected \<Rightarrow> Inr (reachable_intent actor inbox InboxMethodRejected (pa_diagnostic a))
          | InboxProbeUnreachable \<Rightarrow> Inr (reachable_intent actor inbox InboxUnreachable (pa_diagnostic a))
          | InboxProbeText _ \<Rightarrow> Inl (Err ErrReachabilityConfiguration))"

definition probeOne :: "prober \<Rightarrow> string \<Rightarrow> ReachabilityObservationIntent result" where
  "probeOne pr actor =
     (let a = ask_actor pr actor in
      case pa_err a of
        Some err \<Rightarrow>
          (case pa_ctx a of
             Some e \<Rightarrow> Inl e
           | None \<Rightarrow>
               if errors_is err ErrResolverConfiguration \<or> \<not> ProbeDiagnostic_Valid (pa_diagnostic a) \<or>
                  pa_diagnostic a = no_diagnostic
               then Inl (Err ErrReachabilityConfiguration)
               else Inr \<lparr>ri_actor = actor, ri_state = ReachabilityUnreachable, ri_inbox = [],
                         ri_inbox_state = InboxNotChecked, ri_actor_diagnostic = pa_diagnostic a,
                         ri_inbox_diagnostic = no_diagnostic\<rparr>)
      | None \<Rightarrow>
          if fst (pa_value a) \<noteq> actor \<or> pa_diagnostic a \<noteq> no_diagnostic then Inl (Err ErrReachabilityConfiguration)
          else if snd (pa_value a) = [] then Inr (reachable_intent actor [] InboxNotChecked no_diagnostic)
          else probe_inbox pr actor (snd (pa_value a)))"

definition probePage :: "prober \<Rightarrow> ReachabilityCandidate list \<Rightarrow> ReachabilityObservationIntent result list" where
  "probePage pr candidates =
     map (\<lambda>c. case slot_ctx pr (rc_actor c) of Some e \<Rightarrow> Inl e | None \<Rightarrow> probeOne pr (rc_actor c)) candidates"

definition reachCursorAfter :: "reach_cursor \<Rightarrow> reach_cursor \<Rightarrow> bool" where
  "reachCursorAfter candidate previous =
     (case (candidate, previous) of ((h, t, a), (h', t', a')) \<Rightarrow>
        if previous = zero_reach_cursor then True
        else if \<not> h' then (if \<not> h then a > a' else True)
        else if \<not> h then False
        else t > t' \<or> (t = t' \<and> a > a'))"

fun validate_reach_candidates :: "int \<Rightarrow> reach_cursor \<Rightarrow> ReachabilityCandidate list \<Rightarrow> reach_cursor option" where
  "validate_reach_candidates cutoff previous [] = Some previous"
| "validate_reach_candidates cutoff previous (c # cs) =
     (if NormalizeRelayActorURL (rc_actor c) \<noteq> Inr (rc_actor c) then None
      else if \<not> reachCursorAfter (reachabilityCursor c) previous then None
      else if (case rc_checked c of None \<Rightarrow> False | Some t \<Rightarrow> t > cutoff) then None
      else validate_reach_candidates cutoff (reachabilityCursor c) cs)"

definition validateReachPage :: "ReachabilityCandidate list \<times> reach_cursor \<Rightarrow> reach_cursor \<Rightarrow> int \<Rightarrow> int \<Rightarrow> goerror option" where
  "validateReachPage page after limit observedAt =
     (case page of (candidates, next_cursor) \<Rightarrow>
        if int (length candidates) > limit \<or> int (length candidates) > MaximumReachabilityCandidatePage
        then Some (Err ErrReachabilityConfiguration)
        else if candidates = [] then
          (if next_cursor \<noteq> zero_reach_cursor then Some (Err ErrReachabilityConfiguration) else None)
        else case validate_reach_candidates (observedAt - ReachabilityFailureRetryMinimum) after candidates of
          None \<Rightarrow> Some (Err ErrReachabilityConfiguration)
        | Some previous \<Rightarrow>
            if next_cursor \<noteq> zero_reach_cursor \<and> next_cursor \<noteq> previous
            then Some (Err ErrReachabilityConfiguration) else None)"

record reach_result =
  rr_observed :: int
  rr_scanned :: int
  rr_reachable :: int
  rr_unreachable :: int
  rr_skipped :: int
  rr_inbox_responsive :: int
  rr_inbox_rejected :: int
  rr_inbox_unreachable :: int
  rr_truncated :: bool

record 's reach_repository =
  repo_reach_candidates :: "'s \<Rightarrow> ReachabilityCandidateQuery \<Rightarrow> (ReachabilityCandidate list \<times> reach_cursor) result"
  repo_reach_record :: "'s \<Rightarrow> ReachabilityObservationIntent \<Rightarrow> int \<Rightarrow> ReachabilityWriteOutcome result \<times> 's"
  repo_reach_ctx :: "'s \<Rightarrow> goerror option"

definition count_reach :: "ReachabilityObservationIntent \<Rightarrow> ReachabilityWriteOutcome \<Rightarrow> reach_result \<Rightarrow> reach_result" where
  "count_reach intent out res =
     (case out of
        ReachabilityWriteSkipped \<Rightarrow> res\<lparr>rr_skipped := rr_skipped res + 1\<rparr>
      | ReachabilityWriteApplied \<Rightarrow>
          if ri_state intent = ReachabilityReachable
          then let res1 = res\<lparr>rr_reachable := rr_reachable res + 1\<rparr> in
            (case ri_inbox_state intent of
               InboxResponsive \<Rightarrow> res1\<lparr>rr_inbox_responsive := rr_inbox_responsive res1 + 1\<rparr>
             | InboxMethodRejected \<Rightarrow> res1\<lparr>rr_inbox_rejected := rr_inbox_rejected res1 + 1\<rparr>
             | InboxUnreachable \<Rightarrow> res1\<lparr>rr_inbox_unreachable := rr_inbox_unreachable res1 + 1\<rparr>
             | InboxNotChecked \<Rightarrow> res1)
          else res\<lparr>rr_unreachable := rr_unreachable res + 1\<rparr>)"

text \<open>The writes of one page, in candidate order; an early return is the left case.\<close>

fun record_page :: "'s reach_repository \<Rightarrow> int \<Rightarrow> ReachabilityObservationIntent result list \<Rightarrow> reach_result \<Rightarrow> 's
    \<Rightarrow> ((reach_result \<times> goerror) + reach_result) \<times> 's" where
  "record_page repo observedAt [] res s = (Inr res, s)"
| "record_page repo observedAt (p # ps) res s =
     (case p of
        Inl e \<Rightarrow> (Inl (res, e), s)
      | Inr intent \<Rightarrow>
          let res1 = res\<lparr>rr_scanned := rr_scanned res + 1\<rparr> in
          (case repo_reach_record repo s intent observedAt of
             (Inl e, s') \<Rightarrow> (Inl (res1, e), s')
           | (Inr out, s') \<Rightarrow> record_page repo observedAt ps (count_reach intent out res1) s'))"

definition reach_page_limit :: "int \<Rightarrow> int" where
  "reach_page_limit scanned =
     (let remaining = MaximumReachabilityAttemptsPerRun - scanned in
      if remaining < MaximumReachabilityCandidatePage then remaining else MaximumReachabilityCandidatePage)"

fun reach_loop :: "'s reach_repository \<Rightarrow> prober \<Rightarrow> int \<Rightarrow> nat \<Rightarrow> reach_cursor \<Rightarrow> reach_result \<Rightarrow> 's
    \<Rightarrow> ((reach_result \<times> goerror option) \<times> 's) option" where
  "reach_loop repo pr observedAt 0 after res s = None"
| "reach_loop repo pr observedAt (Suc fuel) after res s =
     (if \<not> rr_scanned res < MaximumReachabilityAttemptsPerRun then Some ((res, None), s)
      else case repo_reach_ctx repo s of
        Some e \<Rightarrow> Some ((res, Some e), s)
      | None \<Rightarrow>
        let limit = reach_page_limit (rr_scanned res) in
        case repo_reach_candidates repo s \<lparr>reach_after = after, reach_limit = limit, reach_observed = observedAt\<rparr> of
          Inl e \<Rightarrow> Some ((res, Some e), s)
        | Inr (candidates, next_cursor) \<Rightarrow>
            (case validateReachPage (candidates, next_cursor) after limit observedAt of
               Some e \<Rightarrow> Some ((res, Some e), s)
             | None \<Rightarrow>
                 if candidates = [] then Some ((res, None), s)
                 else case record_page repo observedAt (probePage pr candidates) res s of
                   (Inl (res', e), s') \<Rightarrow> Some ((res', Some e), s')
                 | (Inr res', s') \<Rightarrow>
                     if next_cursor = zero_reach_cursor then Some ((res', None), s')
                     else if rr_scanned res' = MaximumReachabilityAttemptsPerRun
                     then Some ((res'\<lparr>rr_truncated := True\<rparr>, None), s')
                     else reach_loop repo pr observedAt fuel next_cursor res' s'))"

definition reach_result_at :: "int \<Rightarrow> reach_result" where
  "reach_result_at t = \<lparr>rr_observed = t, rr_scanned = 0, rr_reachable = 0, rr_unreachable = 0, rr_skipped = 0,
     rr_inbox_responsive = 0, rr_inbox_rejected = 0, rr_inbox_unreachable = 0, rr_truncated = False\<rparr>"

definition reach_Run :: "'s reach_repository \<Rightarrow> prober \<Rightarrow> int \<Rightarrow> 's \<Rightarrow> ((reach_result \<times> goerror option) \<times> 's) option" where
  "reach_Run repo pr observedAt s =
     (if observedAt < 0 then Some ((reach_result_at observedAt, Some (Err ErrReachabilityConfiguration)), s)
      else reach_loop repo pr observedAt (Suc (nat MaximumReachabilityAttemptsPerRun)) zero_reach_cursor
             (reach_result_at observedAt) s)"

end
