(* ===== verification/Candidate.thy ===== *)
theory Candidate
  imports Reachability
begin

section \<open>Discovery candidates\<close>

text \<open>
  \<open>internal/storage/discovery_candidate_maintenance.go\<close>, the candidate part of
  \<open>internal/storage/discovery.go\<close>, \<open>internal/storage/sqlite/discovery_candidate.go\<close> with the
  tables of migration 9, and \<open>internal/candidatemaintenance/run.go\<close>. A candidate is a relay
  URL whose actor could not be verified yet: it is retried with a growing delay and becomes
  a discovery once its actor answers. The prober is a parameter of the run; its diagnostics
  are not read here.
\<close>

definition MaximumDiscoveryCandidatePage :: int where "MaximumDiscoveryCandidatePage = 24"
definition MaximumDiscoveryCandidateAttempts :: int where "MaximumDiscoveryCandidateAttempts = 96"
definition DiscoveryCandidateRetryOne :: int where "DiscoveryCandidateRetryOne = 6 * 3600"
definition DiscoveryCandidateRetryTwo :: int where "DiscoveryCandidateRetryTwo = 12 * 3600"
definition DiscoveryCandidateRetryThree :: int where "DiscoveryCandidateRetryThree = 24 * 3600"
definition DiscoveryCandidateRetryFour :: int where "DiscoveryCandidateRetryFour = 72 * 3600"
definition DiscoveryCandidateRetryLong :: int where "DiscoveryCandidateRetryLong = 7 * 24 * 3600"

lemmas candidate_consts = MaximumDiscoveryCandidatePage_def MaximumDiscoveryCandidateAttempts_def
  DiscoveryCandidateRetryOne_def DiscoveryCandidateRetryTwo_def DiscoveryCandidateRetryThree_def
  DiscoveryCandidateRetryFour_def DiscoveryCandidateRetryLong_def

definition DiscoveryCandidateRetryDelay :: "int \<Rightarrow> int" where
  "DiscoveryCandidateRetryDelay failureCount =
     (if failureCount = 1 then DiscoveryCandidateRetryOne
      else if failureCount = 2 then DiscoveryCandidateRetryTwo
      else if failureCount = 3 then DiscoveryCandidateRetryThree
      else if failureCount = 4 then DiscoveryCandidateRetryFour
      else if failureCount \<ge> 5 then DiscoveryCandidateRetryLong
      else 0)"

subsection \<open>The tables\<close>

datatype DiscoveryCandidateState =
  DiscoveryCandidateUnreachable | DiscoveryCandidateIncompatible | DiscoveryCandidateResolved

datatype DiscoveryCandidateFailure = DiscoveryCandidateActorUnreachable | DiscoveryCandidateActorInvalid

datatype candidate_action = CandidateAdded | CandidateUpdated | CandidateResolved

record candidate_row =
  cand_base :: string
  cand_state :: DiscoveryCandidateState
  cand_failure :: "DiscoveryCandidateFailure option"
  cand_first_seen :: int
  cand_last_checked :: int
  cand_last_success :: "int option"
  cand_failures :: int
  cand_updated :: int

record candidate_event =
  ce_id :: int
  ce_actor :: string
  ce_action :: candidate_action
  ce_state :: DiscoveryCandidateState
  ce_failure :: "DiscoveryCandidateFailure option"
  ce_operator :: string
  ce_reason :: string
  ce_source :: source_kind
  ce_label :: "string option"
  ce_at :: int

definition failure_matches :: "DiscoveryCandidateState \<Rightarrow> DiscoveryCandidateFailure option \<Rightarrow> bool" where
  "failure_matches state failure =
     (case state of
        DiscoveryCandidateUnreachable \<Rightarrow> failure = Some DiscoveryCandidateActorUnreachable
      | DiscoveryCandidateIncompatible \<Rightarrow> failure = Some DiscoveryCandidateActorInvalid
      | DiscoveryCandidateResolved \<Rightarrow> failure = None)"

definition candidate_check :: "string \<Rightarrow> candidate_row \<Rightarrow> bool" where
  "candidate_check actor r \<longleftrightarrow>
     actor_length_ok actor \<and> base_length_ok (cand_base r) \<and> 0 \<le> cand_first_seen r \<and>
     cand_first_seen r \<le> cand_last_checked r \<and>
     (case cand_last_success r of None \<Rightarrow> True | Some t \<Rightarrow> cand_first_seen r \<le> t \<and> t \<le> cand_last_checked r) \<and>
     0 \<le> cand_failures r \<and> cand_last_checked r \<le> cand_updated r \<and>
     failure_matches (cand_state r) (cand_failure r) \<and>
     (if cand_state r = DiscoveryCandidateResolved then cand_last_success r \<noteq> None else 1 \<le> cand_failures r)"

definition candidate_event_check :: "candidate_event \<Rightarrow> bool" where
  "candidate_event_check e \<longleftrightarrow>
     actor_length_ok (ce_actor e) \<and> operator_check (ce_operator e) \<and> reason_check (ce_reason e) \<and>
     (case ce_label e of None \<Rightarrow> True | Some l \<Rightarrow> operator_check l) \<and> 0 \<le> ce_at e \<and>
     failure_matches (ce_state e) (ce_failure e)"

record cand_db =
  cand_core :: db
  candidates :: "(string, candidate_row) table"
  candidate_events :: "candidate_event list"
  candidate_event_seq :: int

definition insert_candidate :: "string \<Rightarrow> candidate_row \<Rightarrow> cand_db \<Rightarrow> cand_db option" where
  "insert_candidate actor r s =
     (if map_of (candidates s) actor = None \<and> candidate_check actor r
      then Some (s\<lparr>candidates := AList.update actor r (candidates s)\<rparr>) else None)"

definition update_candidate :: "string \<Rightarrow> (candidate_row \<Rightarrow> candidate_row) \<Rightarrow> cand_db \<Rightarrow> cand_db option" where
  "update_candidate actor f s =
     (case map_of (candidates s) actor of
        None \<Rightarrow> Some s
      | Some r \<Rightarrow>
          if candidate_check actor (f r) then Some (s\<lparr>candidates := AList.update actor (f r) (candidates s)\<rparr>) else None)"

definition append_candidate_event :: "candidate_event \<Rightarrow> cand_db \<Rightarrow> cand_db option" where
  "append_candidate_event e s =
     (let e' = e\<lparr>ce_id := candidate_event_seq s + 1\<rparr> in
      if candidate_event_check e'
      then Some (s\<lparr>candidate_events := candidate_events s @ [e'], candidate_event_seq := candidate_event_seq s + 1\<rparr>)
      else None)"

text \<open>A transaction of the relay repository inside one on the candidate tables.\<close>

definition within :: "(db, 'a) tx \<Rightarrow> (cand_db, 'a) tx" where
  "within t s = (case t (cand_core (fst s), snd s) of (r, (d, fs)) \<Rightarrow> (r, ((fst s)\<lparr>cand_core := d\<rparr>, fs)))"

subsection \<open>Retaining a candidate\<close>

record DiscoveryCandidateIntent =
  ci_actor :: string
  ci_base :: string
  ci_state :: DiscoveryCandidateState
  ci_failure :: "DiscoveryCandidateFailure option"
  ci_operator :: string
  ci_reason :: string
  ci_source :: source_kind
  ci_label :: string

datatype DiscoveryCandidateOutcome = DiscoveryCandidateAdded | DiscoveryCandidateUpdated

definition canonical_candidate :: "string \<Rightarrow> string \<Rightarrow> bool" where
  "canonical_candidate actor base =
     (case NormalizeRelayIdentity actor base of
        Inl _ \<Rightarrow> False
      | Inr identity \<Rightarrow> RelayActor identity = actor \<and> PublicBaseURL identity = base)"

definition validateDiscoveryCandidateIntent :: "DiscoveryCandidateIntent \<Rightarrow> goerror option" where
  "validateDiscoveryCandidateIntent intent =
     (if \<not> canonical_candidate (ci_actor intent) (ci_base intent) \<or>
         ci_state intent = DiscoveryCandidateResolved \<or> ci_failure intent = None \<or>
         \<not> ValidOperatorID (ci_operator intent) \<or> \<not> ValidModerationReasonCode (ci_reason intent) \<or>
         \<not> ValidDiscoverySourceLabel (ci_label intent)
      then Some (Err ErrDiscoveryCandidateInput)
      else case ci_state intent of
        DiscoveryCandidateUnreachable \<Rightarrow>
          if ci_failure intent \<noteq> Some DiscoveryCandidateActorUnreachable then Some (Err ErrDiscoveryCandidateInput) else None
      | DiscoveryCandidateIncompatible \<Rightarrow>
          if ci_failure intent \<noteq> Some DiscoveryCandidateActorInvalid then Some (Err ErrDiscoveryCandidateInput) else None
      | DiscoveryCandidateResolved \<Rightarrow> Some (Err ErrDiscoveryCandidateInput))"

definition selectDiscoveryCandidate :: "string \<Rightarrow> string \<Rightarrow> (cand_db, candidate_row option) tx" where
  "selectDiscoveryCandidate action actor = query action (\<lambda>s. map_of (candidates s) actor)"

definition insertDiscoveryCandidateEvent :: "DiscoveryCandidateIntent \<Rightarrow> candidate_action \<Rightarrow> int \<Rightarrow> (cand_db, unit) tx" where
  "insertDiscoveryCandidateEvent intent act recordedUnix =
     exec ''write discovery candidate event''
       (append_candidate_event
          \<lparr>ce_id = 0, ce_actor = ci_actor intent, ce_action = act, ce_state = ci_state intent, ce_failure = ci_failure intent,
           ce_operator = ci_operator intent, ce_reason = ci_reason intent, ce_source = ci_source intent,
           ce_label = (if ci_label intent \<noteq> [] then Some (ci_label intent) else None), ce_at = recordedUnix\<rparr>)"

definition new_candidate_row :: "DiscoveryCandidateIntent \<Rightarrow> int \<Rightarrow> candidate_row" where
  "new_candidate_row intent t =
     \<lparr>cand_base = ci_base intent, cand_state = ci_state intent, cand_failure = ci_failure intent, cand_first_seen = t,
      cand_last_checked = t, cand_last_success = None, cand_failures = 1, cand_updated = t\<rparr>"

definition retried_row :: "DiscoveryCandidateIntent \<Rightarrow> int \<Rightarrow> candidate_row \<Rightarrow> candidate_row" where
  "retried_row intent t r =
     r\<lparr>cand_base := ci_base intent, cand_state := ci_state intent, cand_failure := ci_failure intent,
       cand_last_checked := t, cand_failures := cand_failures r + 1, cand_updated := t\<rparr>"

definition retain_tx :: "DiscoveryCandidateIntent \<Rightarrow> int \<Rightarrow> (cand_db, DiscoveryCandidateOutcome completion) tx" where
  "retain_tx intent t =
     bindt (selectDiscoveryCandidate ''read discovery candidate'' (ci_actor intent)) (\<lambda>current.
     if (case current of None \<Rightarrow> False | Some r \<Rightarrow> t < cand_last_checked r)
     then fail (Err ErrDiscoveryCandidateTime)
     else
       let (outcome, act) =
         (if current = None then (DiscoveryCandidateAdded, CandidateAdded) else (DiscoveryCandidateUpdated, CandidateUpdated)) in
       bindt (case current of
                None \<Rightarrow> exec ''write discovery candidate'' (insert_candidate (ci_actor intent) (new_candidate_row intent t))
              | Some _ \<Rightarrow> exec ''update discovery candidate'' (update_candidate (ci_actor intent) (retried_row intent t))) (\<lambda>_.
       bindt (insertDiscoveryCandidateEvent intent act t) (\<lambda>_.
       ret (Commit ''commit discovery candidate'' outcome))))"

definition RetainDiscoveryCandidate :: "environment \<Rightarrow> DiscoveryCandidateIntent \<Rightarrow> int \<Rightarrow> cand_db
    \<Rightarrow> DiscoveryCandidateOutcome result \<times> cand_db" where
  "RetainDiscoveryCandidate env intent acceptedAt s =
     (case validateDiscoveryCandidateIntent intent of
        Some e \<Rightarrow> (Inl e, s)
      | None \<Rightarrow>
          (case transitionUnix acceptedAt of
             Inl _ \<Rightarrow> (Inl (Err ErrDiscoveryCandidateTime), s)
           | Inr acceptedUnix \<Rightarrow> run_tx env (retain_tx intent acceptedUnix) s))"

definition validDiscoveryCandidateActor :: "string \<Rightarrow> bool" where
  "validDiscoveryCandidateActor actor \<longleftrightarrow> NormalizeRelayActorURL actor = Inr actor"

definition GetDiscoveryCandidate :: "bool \<Rightarrow> string \<Rightarrow> cand_db \<Rightarrow> candidate_row option result" where
  "GetDiscoveryCandidate fault actor s =
     (if \<not> validDiscoveryCandidateActor actor then Inl (Err ErrDiscoveryCandidateInput)
      else if fault then Inl (storageFailure ''read discovery candidate state'' driver_error)
      else case map_of (candidates s) actor of
        None \<Rightarrow> Inr None
      | Some r \<Rightarrow>
          if cand_first_seen r < 0 \<or> cand_last_checked r < cand_first_seen r \<or> cand_failures r < 0 \<or>
             cand_updated r < cand_last_checked r
          then Inl (storageFailure ''validate discovery candidate state'' (Opaque ''invalid discovery candidate row''))
          else Inr (Some r))"

subsection \<open>Candidates that are due\<close>

type_synonym check_cursor = "int \<times> string"

definition zero_check_cursor :: check_cursor where "zero_check_cursor = (0, [])"

definition check_cursor_Valid :: "check_cursor \<Rightarrow> bool" where
  "check_cursor_Valid c \<longleftrightarrow> c = zero_check_cursor \<or> (fst c \<ge> 0 \<and> snd c \<noteq> [])"

record DiscoveryCandidateCheckQuery =
  cq_after :: check_cursor
  cq_limit :: int
  cq_observed :: int

record DiscoveryCandidateCheck =
  cc_actor :: string
  cc_base :: string
  cc_state :: DiscoveryCandidateState
  cc_failure :: "DiscoveryCandidateFailure option"
  cc_first_seen :: int
  cc_last_checked :: int
  cc_last_success :: "int option"
  cc_failures :: int
  cc_next_check :: int
  cc_operator :: string
  cc_reason :: string
  cc_source :: source_kind
  cc_label :: string

definition check_cursor_of :: "DiscoveryCandidateCheck \<Rightarrow> check_cursor" where
  "check_cursor_of c = (cc_next_check c, cc_actor c)"

definition candidate_next_check :: "candidate_row \<Rightarrow> int" where
  "candidate_next_check r = cand_last_checked r +
     (if cand_failures r = 1 then DiscoveryCandidateRetryOne
      else if cand_failures r = 2 then DiscoveryCandidateRetryTwo
      else if cand_failures r = 3 then DiscoveryCandidateRetryThree
      else if cand_failures r = 4 then DiscoveryCandidateRetryFour
      else DiscoveryCandidateRetryLong)"

text \<open>The provenance of a candidate is that of its first event.\<close>

definition first_candidate_event :: "cand_db \<Rightarrow> string \<Rightarrow> candidate_event option" where
  "first_candidate_event s actor = find (\<lambda>e. ce_actor e = actor) (sort_key ce_id (candidate_events s))"

definition candidate_due :: "cand_db \<Rightarrow> int \<Rightarrow> string \<times> candidate_row \<Rightarrow> bool" where
  "candidate_due s observedUnix ar \<longleftrightarrow>
     first_candidate_event s (fst ar) \<noteq> None \<and> cand_state (snd ar) \<noteq> DiscoveryCandidateResolved \<and>
     cand_failures (snd ar) \<ge> 1 \<and> candidate_next_check (snd ar) \<le> observedUnix"

definition check_of :: "cand_db \<Rightarrow> string \<times> candidate_row \<Rightarrow> DiscoveryCandidateCheck" where
  "check_of s ar =
     (case (ar, first_candidate_event s (fst ar)) of
        ((actor, r), Some e) \<Rightarrow>
          \<lparr>cc_actor = actor, cc_base = cand_base r, cc_state = cand_state r, cc_failure = cand_failure r,
           cc_first_seen = cand_first_seen r, cc_last_checked = cand_last_checked r, cc_last_success = cand_last_success r,
           cc_failures = cand_failures r, cc_next_check = candidate_next_check r, cc_operator = ce_operator e,
           cc_reason = ce_reason e, cc_source = ce_source e,
           cc_label = (case ce_label e of None \<Rightarrow> [] | Some l \<Rightarrow> l)\<rparr>
      | ((actor, r), None) \<Rightarrow>
          \<lparr>cc_actor = actor, cc_base = cand_base r, cc_state = cand_state r, cc_failure = cand_failure r,
           cc_first_seen = cand_first_seen r, cc_last_checked = cand_last_checked r, cc_last_success = cand_last_success r,
           cc_failures = cand_failures r, cc_next_check = candidate_next_check r, cc_operator = [], cc_reason = [],
           cc_source = SourceManual, cc_label = []\<rparr>)"

definition validDiscoveryCandidateCheck :: "DiscoveryCandidateCheck \<Rightarrow> int \<Rightarrow> bool" where
  "validDiscoveryCandidateCheck c observedUnix \<longleftrightarrow>
     canonical_candidate (cc_actor c) (cc_base c) \<and>
     (cc_state c = DiscoveryCandidateUnreachable \<or> cc_state c = DiscoveryCandidateIncompatible) \<and>
     cc_failure c \<noteq> None \<and> \<not> cc_failures c < 1 \<and> \<not> cc_first_seen c < 0 \<and> \<not> cc_last_checked c < cc_first_seen c \<and>
     \<not> cc_next_check c < cc_last_checked c \<and> \<not> cc_next_check c > observedUnix \<and>
     ValidOperatorID (cc_operator c) \<and> ValidModerationReasonCode (cc_reason c) \<and> ValidDiscoverySourceLabel (cc_label c) \<and>
     (let delay = DiscoveryCandidateRetryDelay (cc_failures c) in
      delay > 0 \<and> cc_next_check c = cc_last_checked c + delay)"

text \<open>A row without a failure code cannot be scanned into a string.\<close>

definition decode_check :: "int \<Rightarrow> DiscoveryCandidateCheck \<Rightarrow> DiscoveryCandidateCheck result" where
  "decode_check observedUnix c =
     (if cc_failure c = None then Inl (storageFailure ''decode discovery candidate check'' (Opaque ''converting NULL to string''))
      else if \<not> validDiscoveryCandidateCheck c observedUnix
      then Inl (storageFailure ''validate discovery candidate check'' (Opaque ''invalid discovery candidate check row''))
      else Inr c)"

definition DiscoveryCandidateChecks :: "read_faults \<Rightarrow> DiscoveryCandidateCheckQuery \<Rightarrow> cand_db
    \<Rightarrow> (DiscoveryCandidateCheck list \<times> check_cursor) result" where
  "DiscoveryCandidateChecks rf q s =
     (if \<not> check_cursor_Valid (cq_after q) \<or> cq_limit q \<le> 0 \<or> cq_limit q > MaximumDiscoveryCandidatePage
      then Inl (Err ErrDiscoveryCandidateMaintenanceRead)
      else if cq_observed q < 0 then Inl (Err ErrDiscoveryCandidateMaintenanceRead)
      else if cq_after q \<noteq> zero_check_cursor \<and> fst (cq_after q) > cq_observed q
      then Inl (Err ErrDiscoveryCandidateMaintenanceRead)
      else scan_page rf ''read discovery candidate checks'' ''iterate discovery candidate checks''
             (decode_check (cq_observed q)) check_cursor_of zero_check_cursor (nat (cq_limit q))
             (keyset_rows check_cursor_of (cq_after q) (nat (cq_limit q) + 1)
                (map (check_of s) (filter (candidate_due s (cq_observed q)) (candidates s)))))"

subsection \<open>Promotion\<close>

record DiscoveryCandidatePromotionIntent =
  pi_actor :: string
  pi_base :: string
  pi_inbox :: string
  pi_inbox_state :: inbox_probe
  pi_operator :: string
  pi_reason :: string
  pi_source :: source_kind
  pi_label :: string

datatype DiscoveryCandidatePromotionOutcome = DiscoveryCandidatePromoted | DiscoveryCandidateSkipped

definition validateDiscoveryCandidatePromotionIntent :: "DiscoveryCandidatePromotionIntent \<Rightarrow> goerror option" where
  "validateDiscoveryCandidatePromotionIntent intent =
     (if \<not> canonical_candidate (pi_actor intent) (pi_base intent) \<or>
         \<not> ValidOperatorID (pi_operator intent) \<or> \<not> ValidModerationReasonCode (pi_reason intent) \<or>
         \<not> ValidDiscoverySourceLabel (pi_label intent)
      then Some (Err ErrDiscoveryCandidateMaintenanceWrite)
      else if pi_inbox intent = []
      then (if pi_inbox_state intent \<noteq> InboxNotChecked then Some (Err ErrDiscoveryCandidateMaintenanceWrite) else None)
      else if NormalizeRelayActorURL (pi_inbox intent) \<noteq> Inr (pi_inbox intent) \<or>
              (pi_inbox_state intent \<noteq> InboxResponsive \<and> pi_inbox_state intent \<noteq> InboxMethodRejected \<and>
               pi_inbox_state intent \<noteq> InboxUnreachable)
      then Some (Err ErrDiscoveryCandidateMaintenanceWrite)
      else None)"

text \<open>The switch over the current discovery: the event and the write, if any.\<close>

definition classify_promotion :: "DiscoveryCandidatePromotionIntent \<Rightarrow> int \<Rightarrow> discovery_row option
    \<Rightarrow> discovery_action \<times> (db \<Rightarrow> db option) option" where
  "classify_promotion intent t current =
     (case current of
        None \<Rightarrow> (DiscoveryAddedEvent, Some (insert_discovery (pi_actor intent) (discovered_row (pi_base intent) t)))
      | Some c \<Rightarrow>
          if discovery_state c = DiscoveryActive \<and> discovery_base_url c = pi_base intent then (DiscoveryUnchangedEvent, None)
          else (DiscoveryUpdatedEvent, Some (update_discovery (pi_actor intent) (rediscovered_row (pi_base intent) t))))"

definition promoted_observation :: "DiscoveryCandidatePromotionIntent \<Rightarrow> int \<Rightarrow> observation \<Rightarrow> observation" where
  "promoted_observation intent t r =
     r\<lparr>actor_state := ReachabilityReachable, actor_last_checked := Some t, actor_last_success := Some t,
       inbox_url := (if pi_inbox intent \<noteq> [] then Some (pi_inbox intent) else None),
       inbox_declared := (if pi_inbox intent \<noteq> [] then Some t else None),
       inbox_probe_state := pi_inbox_state intent,
       inbox_last_checked := (if pi_inbox intent \<noteq> [] then Some t else None),
       observation_updated_at := t, revision := revision r + 1\<rparr>"

definition resolved_row :: "int \<Rightarrow> candidate_row \<Rightarrow> candidate_row" where
  "resolved_row t r =
     r\<lparr>cand_state := DiscoveryCandidateResolved, cand_failure := None, cand_last_checked := t,
       cand_last_success := Some t, cand_updated := t\<rparr>"

definition resolved_event :: "DiscoveryCandidatePromotionIntent \<Rightarrow> DiscoveryCandidateIntent" where
  "resolved_event intent =
     \<lparr>ci_actor = pi_actor intent, ci_base = pi_base intent, ci_state = DiscoveryCandidateResolved, ci_failure = None,
      ci_operator = pi_operator intent, ci_reason = pi_reason intent, ci_source = pi_source intent, ci_label = pi_label intent\<rparr>"

text \<open>The discovery with its event.\<close>

definition promote_discovery :: "DiscoveryCandidatePromotionIntent \<Rightarrow> int \<Rightarrow> discovery_row option \<Rightarrow> (db, unit) tx" where
  "promote_discovery intent t current =
     (case classify_promotion intent t current of (act, write) \<Rightarrow>
        bindt (case write of None \<Rightarrow> ret () | Some w \<Rightarrow> exec ''write promoted discovery'' w) (\<lambda>_.
        insertDiscoveryEvent (pi_actor intent) act (pi_operator intent) (pi_reason intent)
          (pi_source intent) (pi_label intent) t))"

text \<open>The observation to update: the current one or the one inserted for the new discovery.\<close>

definition promotion_observation :: "string \<Rightarrow> int \<Rightarrow> (db, observation) tx" where
  "promotion_observation actor t =
     bindt (selectObservation ''read promoted observation'' actor) (\<lambda>found.
     case found of
       Some current \<Rightarrow> ret current
     | None \<Rightarrow>
         bindt (insertEmptyObservation actor t) (\<lambda>_.
         bindt (selectObservation ''read promoted observation'' actor) (\<lambda>again.
           case again of
             Some current \<Rightarrow> ret current
           | None \<Rightarrow> fail (storageFailure ''read promoted observation''
                             (Opaque ''observation row missing after promotion insert'')))))"

text \<open>From the write of the discovery to the resolved candidate.\<close>

definition finish_promotion :: "DiscoveryCandidatePromotionIntent \<Rightarrow> int \<Rightarrow> discovery_row option
    \<Rightarrow> (cand_db, DiscoveryCandidatePromotionOutcome completion) tx" where
  "finish_promotion intent t current =
     bindt (within (promote_discovery intent t current)) (\<lambda>_.
     bindt (within (promotion_observation (pi_actor intent) t)) (\<lambda>observed.
     if (case actor_last_checked observed of None \<Rightarrow> False | Some c \<Rightarrow> c \<ge> t)
     then ret (Abandon DiscoveryCandidateSkipped)
     else
       bindt (within (exec ''write promoted observation''
                (update_observation (pi_actor intent) (promoted_observation intent t)))) (\<lambda>_.
       bindt (exec ''resolve discovery candidate'' (update_candidate (pi_actor intent) (resolved_row t))) (\<lambda>_.
       bindt (insertDiscoveryCandidateEvent (resolved_event intent) CandidateResolved t) (\<lambda>_.
       ret (Commit ''commit discovery candidate promotion'' DiscoveryCandidatePromoted))))))"

definition promote_tx :: "DiscoveryCandidatePromotionIntent \<Rightarrow> int \<Rightarrow> (cand_db, DiscoveryCandidatePromotionOutcome completion) tx" where
  "promote_tx intent t =
     bindt (selectDiscoveryCandidate ''read discovery candidate promotion'' (pi_actor intent)) (\<lambda>candidate.
     if (case candidate of None \<Rightarrow> True | Some r \<Rightarrow>
           cand_state r = DiscoveryCandidateResolved \<or> cand_last_checked r \<ge> t)
     then ret (Abandon DiscoveryCandidateSkipped)
     else
       bindt (within (query ''read promoted discovery'' (\<lambda>d. map_of (relay_discoveries d) (pi_actor intent)))) (\<lambda>current.
       bindt (on_error (bindt (within (requireDiscoveryTime (pi_actor intent) t current)) (\<lambda>_. ret True))
                ErrTransitionTime (ret False)) (\<lambda>timely.
       if \<not> timely then ret (Abandon DiscoveryCandidateSkipped)
       else finish_promotion intent t current)))"

definition PromoteDiscoveryCandidate :: "environment \<Rightarrow> DiscoveryCandidatePromotionIntent \<Rightarrow> int \<Rightarrow> cand_db
    \<Rightarrow> DiscoveryCandidatePromotionOutcome result \<times> cand_db" where
  "PromoteDiscoveryCandidate env intent observedAt s =
     (case validateDiscoveryCandidatePromotionIntent intent of
        Some e \<Rightarrow> (Inl e, s)
      | None \<Rightarrow>
          (case observationUnix observedAt of
             Inl _ \<Rightarrow> (Inl (Err ErrDiscoveryCandidateMaintenanceWrite), s)
           | Inr observedUnix \<Rightarrow> run_tx env (promote_tx intent observedUnix) s))"

subsection \<open>The maintenance run\<close>

datatype candidate_probe =
    ProbePromotion DiscoveryCandidatePromotionIntent
  | ProbeFailure DiscoveryCandidateFailure
  | ProbeError goerror

definition promotion_intent :: "DiscoveryCandidateCheck \<Rightarrow> string \<Rightarrow> inbox_probe \<Rightarrow> DiscoveryCandidatePromotionIntent" where
  "promotion_intent c inbox state =
     \<lparr>pi_actor = cc_actor c, pi_base = cc_base c, pi_inbox = inbox, pi_inbox_state = state,
      pi_operator = [], pi_reason = [], pi_source = SourceManual, pi_label = []\<rparr>"

definition probe_candidate_inbox :: "prober \<Rightarrow> DiscoveryCandidateCheck \<Rightarrow> string \<Rightarrow> candidate_probe" where
  "probe_candidate_inbox pr c inbox =
     (let a = ask_inbox pr inbox in
      case pa_err a of
        Some err \<Rightarrow>
          (case pa_ctx a of
             Some e \<Rightarrow> ProbeError e
           | None \<Rightarrow> ProbePromotion (promotion_intent c inbox InboxUnreachable))
      | None \<Rightarrow>
          (case pa_value a of
             InboxProbeResponsive \<Rightarrow> ProbePromotion (promotion_intent c inbox InboxResponsive)
           | InboxProbeMethodRejected \<Rightarrow> ProbePromotion (promotion_intent c inbox InboxMethodRejected)
           | InboxProbeUnreachable \<Rightarrow> ProbePromotion (promotion_intent c inbox InboxUnreachable)
           | InboxProbeText _ \<Rightarrow> ProbeError (Err ErrCandidateConfiguration)))"

definition probe_candidate :: "prober \<Rightarrow> DiscoveryCandidateCheck \<Rightarrow> candidate_probe" where
  "probe_candidate pr c =
     (let a = ask_actor pr (cc_actor c) in
      case pa_err a of
        Some err \<Rightarrow>
          (case pa_ctx a of
             Some e \<Rightarrow> ProbeError e
           | None \<Rightarrow>
               ProbeFailure (if errors_is err ErrActorDocument \<or> errors_is err ErrPublicKey
                             then DiscoveryCandidateActorInvalid else DiscoveryCandidateActorUnreachable))
      | None \<Rightarrow>
          if fst (pa_value a) \<noteq> cc_actor c then ProbeFailure DiscoveryCandidateActorInvalid
          else if snd (pa_value a) = [] then ProbePromotion (promotion_intent c [] InboxNotChecked)
          else probe_candidate_inbox pr c (snd (pa_value a)))"

definition probe_candidates :: "prober \<Rightarrow> DiscoveryCandidateCheck list \<Rightarrow> candidate_probe list" where
  "probe_candidates pr cs =
     map (\<lambda>c. case slot_ctx pr (cc_actor c) of Some e \<Rightarrow> ProbeError e | None \<Rightarrow> probe_candidate pr c) cs"

definition candidateCursorAfter :: "check_cursor \<Rightarrow> check_cursor \<Rightarrow> bool" where
  "candidateCursorAfter candidate previous \<longleftrightarrow>
     previous = zero_check_cursor \<or> fst candidate > fst previous \<or>
     (fst candidate = fst previous \<and> snd candidate > snd previous)"

fun validate_checks :: "int \<Rightarrow> check_cursor \<Rightarrow> DiscoveryCandidateCheck list \<Rightarrow> check_cursor option" where
  "validate_checks observedAt previous [] = Some previous"
| "validate_checks observedAt previous (c # cs) =
     (if cc_next_check c > observedAt \<or> \<not> candidateCursorAfter (check_cursor_of c) previous then None
      else validate_checks observedAt (check_cursor_of c) cs)"

definition validateCheckPage :: "DiscoveryCandidateCheck list \<times> check_cursor \<Rightarrow> check_cursor \<Rightarrow> int \<Rightarrow> int \<Rightarrow> goerror option" where
  "validateCheckPage page after limit observedAt =
     (case page of (cs, next_cursor) \<Rightarrow>
        if int (length cs) > limit \<or> int (length cs) > MaximumDiscoveryCandidatePage
        then Some (Err ErrCandidateConfiguration)
        else if cs = [] then
          (if next_cursor \<noteq> zero_check_cursor then Some (Err ErrCandidateConfiguration) else None)
        else case validate_checks observedAt after cs of
          None \<Rightarrow> Some (Err ErrCandidateConfiguration)
        | Some previous \<Rightarrow>
            if next_cursor \<noteq> zero_check_cursor \<and> next_cursor \<noteq> previous
            then Some (Err ErrCandidateConfiguration) else None)"

record candidate_result =
  cr_observed :: int
  cr_scanned :: int
  cr_promoted :: int
  cr_unreachable :: int
  cr_incompatible :: int
  cr_skipped :: int
  cr_truncated :: bool

record 's candidate_repository =
  repo_checks :: "'s \<Rightarrow> DiscoveryCandidateCheckQuery \<Rightarrow> (DiscoveryCandidateCheck list \<times> check_cursor) result"
  repo_retain :: "'s \<Rightarrow> DiscoveryCandidateIntent \<Rightarrow> int \<Rightarrow> DiscoveryCandidateOutcome result \<times> 's"
  repo_promote :: "'s \<Rightarrow> DiscoveryCandidatePromotionIntent \<Rightarrow> int \<Rightarrow> DiscoveryCandidatePromotionOutcome result \<times> 's"
  repo_candidate_ctx :: "'s \<Rightarrow> goerror option"

definition with_provenance :: "DiscoveryCandidateCheck \<Rightarrow> DiscoveryCandidatePromotionIntent \<Rightarrow> DiscoveryCandidatePromotionIntent" where
  "with_provenance c intent =
     intent\<lparr>pi_operator := cc_operator c, pi_reason := cc_reason c, pi_source := cc_source c, pi_label := cc_label c\<rparr>"

definition failure_intent :: "DiscoveryCandidateCheck \<Rightarrow> DiscoveryCandidateFailure \<Rightarrow> DiscoveryCandidateIntent" where
  "failure_intent c failure =
     \<lparr>ci_actor = cc_actor c, ci_base = cc_base c,
      ci_state = (if failure = DiscoveryCandidateActorInvalid then DiscoveryCandidateIncompatible else DiscoveryCandidateUnreachable),
      ci_failure = Some failure, ci_operator = cc_operator c, ci_reason = cc_reason c, ci_source = cc_source c, ci_label = cc_label c\<rparr>"

definition count_promotion :: "DiscoveryCandidatePromotionOutcome \<Rightarrow> candidate_result \<Rightarrow> candidate_result" where
  "count_promotion out res =
     (case out of
        DiscoveryCandidatePromoted \<Rightarrow> res\<lparr>cr_promoted := cr_promoted res + 1\<rparr>
      | DiscoveryCandidateSkipped \<Rightarrow> res\<lparr>cr_skipped := cr_skipped res + 1\<rparr>)"

definition count_failure :: "DiscoveryCandidateFailure \<Rightarrow> candidate_result \<Rightarrow> candidate_result" where
  "count_failure failure res =
     (if failure = DiscoveryCandidateActorInvalid then res\<lparr>cr_incompatible := cr_incompatible res + 1\<rparr>
      else res\<lparr>cr_unreachable := cr_unreachable res + 1\<rparr>)"

text \<open>The writes of one page; an early return is the left case.\<close>

fun settle_page :: "'s candidate_repository \<Rightarrow> int \<Rightarrow> (DiscoveryCandidateCheck \<times> candidate_probe) list \<Rightarrow> candidate_result \<Rightarrow> 's
    \<Rightarrow> ((candidate_result \<times> goerror) + candidate_result) \<times> 's" where
  "settle_page repo observedAt [] res s = (Inr res, s)"
| "settle_page repo observedAt ((c, p) # ps) res s =
     (let res1 = res\<lparr>cr_scanned := cr_scanned res + 1\<rparr> in
      case p of
        ProbeError e \<Rightarrow> (Inl (res, e), s)
      | ProbePromotion intent \<Rightarrow>
          (case repo_promote repo s (with_provenance c intent) observedAt of
             (Inl e, s') \<Rightarrow> (Inl (res1, e), s')
           | (Inr out, s') \<Rightarrow> settle_page repo observedAt ps (count_promotion out res1) s')
      | ProbeFailure failure \<Rightarrow>
          (let res2 = count_failure failure res1 in
           case repo_retain repo s (failure_intent c failure) observedAt of
             (Inl e, s') \<Rightarrow> (Inl (res2, e), s')
           | (Inr _, s') \<Rightarrow> settle_page repo observedAt ps res2 s'))"

definition candidate_page_limit :: "int \<Rightarrow> int" where
  "candidate_page_limit scanned =
     (let remaining = MaximumDiscoveryCandidateAttempts - scanned in
      if remaining < MaximumDiscoveryCandidatePage then remaining else MaximumDiscoveryCandidatePage)"

fun candidate_loop :: "'s candidate_repository \<Rightarrow> prober \<Rightarrow> int \<Rightarrow> nat \<Rightarrow> check_cursor \<Rightarrow> candidate_result \<Rightarrow> 's
    \<Rightarrow> ((candidate_result \<times> goerror option) \<times> 's) option" where
  "candidate_loop repo pr observedAt 0 after res s = None"
| "candidate_loop repo pr observedAt (Suc fuel) after res s =
     (if \<not> cr_scanned res < MaximumDiscoveryCandidateAttempts then Some ((res, None), s)
      else case repo_candidate_ctx repo s of
        Some e \<Rightarrow> Some ((res, Some e), s)
      | None \<Rightarrow>
        let limit = candidate_page_limit (cr_scanned res) in
        case repo_checks repo s \<lparr>cq_after = after, cq_limit = limit, cq_observed = observedAt\<rparr> of
          Inl e \<Rightarrow> Some ((res, Some e), s)
        | Inr (cs, next_cursor) \<Rightarrow>
            (case validateCheckPage (cs, next_cursor) after limit observedAt of
               Some e \<Rightarrow> Some ((res, Some e), s)
             | None \<Rightarrow>
                 if cs = [] then Some ((res, None), s)
                 else case settle_page repo observedAt (zip cs (probe_candidates pr cs)) res s of
                   (Inl (res', e), s') \<Rightarrow> Some ((res', Some e), s')
                 | (Inr res', s') \<Rightarrow>
                     if next_cursor = zero_check_cursor then Some ((res', None), s')
                     else if cr_scanned res' = MaximumDiscoveryCandidateAttempts
                     then Some ((res'\<lparr>cr_truncated := True\<rparr>, None), s')
                     else candidate_loop repo pr observedAt fuel next_cursor res' s'))"

definition candidate_result_at :: "int \<Rightarrow> candidate_result" where
  "candidate_result_at t = \<lparr>cr_observed = t, cr_scanned = 0, cr_promoted = 0, cr_unreachable = 0, cr_incompatible = 0,
     cr_skipped = 0, cr_truncated = False\<rparr>"

definition candidate_Run :: "'s candidate_repository \<Rightarrow> prober \<Rightarrow> int \<Rightarrow> 's \<Rightarrow> ((candidate_result \<times> goerror option) \<times> 's) option" where
  "candidate_Run repo pr observedAt s =
     (if observedAt < 0 then Some ((candidate_result_at observedAt, Some (Err ErrCandidateConfiguration)), s)
      else candidate_loop repo pr observedAt (Suc (nat MaximumDiscoveryCandidateAttempts)) zero_check_cursor
             (candidate_result_at observedAt) s)"

end
