(* ===== verification/ReachabilityStore.thy ===== *)
theory ReachabilityStore
  imports Reachability
begin

section \<open>What a reachability write does\<close>

text \<open>
  The effect of \<open>RecordReachabilityObservation\<close> as a pure function of the database
  (\<open>applied_reach\<close>), the proof that the transaction computes it or leaves the database alone
  under every fault of the driver, and when the actor is offered again.
\<close>

lemma reach_tolerant: "fault_tolerant (record_reach_tx intent t)"
  unfolding record_reach_tx_def ensure_observation_def schedule_retry_def select_reach_observation_def Let_def
  by (intro tolerant)

definition newer_checked :: "observation option \<Rightarrow> int \<Rightarrow> bool" where
  "newer_checked found t =
     (case found of None \<Rightarrow> False | Some o1 \<Rightarrow> (case actor_last_checked o1 of None \<Rightarrow> False | Some c \<Rightarrow> c \<ge> t))"

definition base_observation :: "db \<Rightarrow> string \<Rightarrow> int \<Rightarrow> observation" where
  "base_observation d actor t = (case map_of (relay_observations d) actor of None \<Rightarrow> empty_observation t | Some o1 \<Rightarrow> o1)"

definition reach_row :: "ReachabilityObservationIntent \<Rightarrow> int \<Rightarrow> db \<Rightarrow> observation" where
  "reach_row intent t d =
     (let o1 = base_observation d (ri_actor intent) t in
      reach_observed_row intent t (maxInt64 (observation_updated_at o1) t) o1)"

definition reach_delay :: "ReachabilityObservationIntent \<Rightarrow> int \<Rightarrow> reach_db \<Rightarrow> int" where
  "reach_delay intent t s =
     (if ri_state intent = ReachabilityUnreachable
      then (if last_online (reach_core s) (ri_actor intent)
                 (actor_last_success (base_observation (reach_core s) (ri_actor intent) t)) \<le> t - ReachabilityUnreachableRetry
            then ReachabilityUnreachableRetry
            else retry_after (next_streak (map_of (probe_diagnostics s) (ri_actor intent))))
      else ReachabilityFreshness)"

definition reach_streak :: "ReachabilityObservationIntent \<Rightarrow> reach_db \<Rightarrow> int" where
  "reach_streak intent s =
     (if ri_state intent = ReachabilityUnreachable then next_streak (map_of (probe_diagnostics s) (ri_actor intent)) else 0)"

definition reach_diagnostic :: "ReachabilityObservationIntent \<Rightarrow> int \<Rightarrow> reach_db \<Rightarrow> diagnostic_row" where
  "reach_diagnostic intent t s =
     \<lparr>actor_diagnostic = ri_actor_diagnostic intent,
      inbox_diagnostic =
        (case map_of (probe_diagnostics s) (ri_actor intent) of
           Some old \<Rightarrow> if ri_state intent = ReachabilityReachable then ri_inbox_diagnostic intent else inbox_diagnostic old
         | None \<Rightarrow> ri_inbox_diagnostic intent),
      next_check_at = t + reach_delay intent t s, diagnostic_updated_at = t, failure_streak = reach_streak intent s\<rparr>"

definition applied_reach :: "ReachabilityObservationIntent \<Rightarrow> int \<Rightarrow> reach_db \<Rightarrow> reach_db" where
  "applied_reach intent t s =
     s\<lparr>reach_core := (reach_core s)\<lparr>relay_observations :=
          AList.update (ri_actor intent) (reach_row intent t (reach_core s)) (relay_observations (reach_core s))\<rparr>,
       probe_diagnostics := AList.update (ri_actor intent) (reach_diagnostic intent t s) (probe_diagnostics s)\<rparr>"

lemma last_online_observations [simp]:
  "last_online (d\<lparr>relay_observations := os\<rparr>) actor v = last_online d actor v"
  by (simp add: last_online_def)

lemma eligible_discovery_observations [simp]:
  "eligible_discovery (d\<lparr>relay_observations := os\<rparr>) a r = eligible_discovery d a r"
  by (simp add: eligible_discovery_def)

lemma record_reach_calm:
  "(\<not> reachabilityEligible (reach_core s) (ri_actor intent) \<or>
      newer_checked (map_of (relay_observations (reach_core s)) (ri_actor intent)) t) \<and>
     run_tx calm (record_reach_tx intent t) s = (Inr ReachabilityWriteSkipped, s) \<or>
   reachabilityEligible (reach_core s) (ri_actor intent) \<and>
     \<not> newer_checked (map_of (relay_observations (reach_core s)) (ri_actor intent)) t \<and>
     (run_tx calm (record_reach_tx intent t) s = (Inr ReachabilityWriteApplied, applied_reach intent t s) \<and>
        observation_check (ri_actor intent) (reach_row intent t (reach_core s)) \<and>
        diagnostic_check (reach_diagnostic intent t s) \<or>
      (\<exists>e. run_tx calm (record_reach_tx intent t) s = (Inl e, s)) \<and>
        (\<not> observation_check (ri_actor intent) (reach_row intent t (reach_core s)) \<or>
         \<not> diagnostic_check (reach_diagnostic intent t s) \<or>
         map_of (relay_observations (reach_core s)) (ri_actor intent) = None \<and>
         (\<not> retained (reach_core s) (ri_actor intent) \<or> \<not> observation_check (ri_actor intent) (empty_observation t))))"
proof -
  let ?a = "ri_actor intent" and ?d = "reach_core s"
  define found where "found = map_of (relay_observations ?d) ?a"
  show ?thesis
  proof (cases "\<not> reachabilityEligible ?d ?a \<or> newer_checked found t")
    case True
    then show ?thesis
      by (auto simp: record_reach_tx_def select_reach_observation_def tx_simps Let_def newer_checked_def found_def
          split: option.splits)
  next
    case False
    note go = this
    define s1 where "s1 = (if found = None then s\<lparr>reach_core := ?d\<lparr>relay_observations :=
        AList.update ?a (empty_observation t) (relay_observations ?d)\<rparr>\<rparr> else s)"
    show ?thesis
    proof (cases "found = None \<and> (\<not> retained ?d ?a \<or> \<not> observation_check ?a (empty_observation t))")
      case True
      then have none: "found = None" and miss: "on_core (insert_observation ?a (empty_observation t)) s = None"
        by (auto simp: on_core_def insert_observation_def found_def)
      have "ensure_observation ?a t found (s, []) = (Inl (storageFailure ''create relay observation'' constraint_error), (s, []))"
        by (simp add: ensure_observation_def none bindt_eval exec_calm miss)
      then have "record_reach_tx intent t (s, []) = (Inl (storageFailure ''create relay observation'' constraint_error), (s, []))"
        using go unfolding record_reach_tx_def newer_checked_def [symmetric]
        by (simp add: bindt_eval query_calm select_reach_observation_def found_def [symmetric])
      then show ?thesis using go True by (auto simp: run_calm found_def)
    next
      case False
      let ?cur = "base_observation ?d ?a t"
      have row: "map_of (relay_observations (reach_core s1)) ?a = Some ?cur"
        by (auto simp: s1_def found_def base_observation_def split: option.splits)
      have keep: "probe_diagnostics s1 = probe_diagnostics s" "relays (reach_core s1) = relays ?d"
        "relay_discoveries (reach_core s1) = relay_discoveries ?d" by (simp_all add: s1_def)
      have online: "last_online (reach_core s1) ?a v = last_online ?d ?a v" for v by (simp add: last_online_def keep)
      define s2 where "s2 = s1\<lparr>reach_core := (reach_core s1)\<lparr>relay_observations :=
          AList.update ?a (reach_row intent t ?d) (relay_observations (reach_core s1))\<rparr>\<rparr>"
      have upd: "on_core (update_observation ?a (reach_observed_row intent t (maxInt64 (observation_updated_at ?cur) t))) s1 =
          (if observation_check ?a (reach_row intent t ?d) then Some s2 else None)"
        using row by (simp add: on_core_def update_observation_def reach_row_def s2_def Let_def)
      have put: "put_diagnostic intent (t + reach_delay intent t s) t (reach_streak intent s) s2 =
          (if diagnostic_check (reach_diagnostic intent t s) then Some (applied_reach intent t s) else None)"
      proof -
        have "s2\<lparr>probe_diagnostics := AList.update ?a (reach_diagnostic intent t s) (probe_diagnostics s2)\<rparr> = applied_reach intent t s"
          by (simp add: s2_def s1_def applied_reach_def update_update)
        moreover have "probe_diagnostics s2 = probe_diagnostics s" by (simp add: s2_def keep)
        ultimately show ?thesis
          by (simp add: put_diagnostic_def reach_diagnostic_def [symmetric] Let_def) (simp add: s2_def)
      qed
      have read: "ensure_observation ?a t found (s, []) = (Inr ?cur, (s1, []))"
        using False by (auto simp: ensure_observation_def s1_def found_def tx_simps select_reach_observation_def on_core_def
            insert_observation_def base_observation_def split: option.splits)
      have delay: "schedule_retry intent t ?cur (s2, []) =
          (Inr (t + reach_delay intent t s, reach_streak intent s), (s2, []))"
        by (simp add: schedule_retry_def tx_simps Let_def reach_delay_def reach_streak_def s2_def keep online)
      have "record_reach_tx intent t (s, []) =
         (if \<not> observation_check ?a (reach_row intent t ?d)
          then (Inl (storageFailure (if ri_state intent = ReachabilityReachable then ''write reachable observation''
                       else ''write unreachable observation'') constraint_error), (s1, []))
          else if \<not> diagnostic_check (reach_diagnostic intent t s)
          then (Inl (storageFailure ''write reachability diagnostics'' constraint_error), (s2, []))
          else (Inr (Commit ''commit reachability observation'' ReachabilityWriteApplied), (applied_reach intent t s, [])))"
        using go unfolding record_reach_tx_def newer_checked_def [symmetric]
        by (simp add: bindt_eval query_calm select_reach_observation_def found_def [symmetric] read exec_calm upd delay put ret_def)
      then show ?thesis using go False
        by (auto simp: run_calm newer_checked_def found_def)
    qed
  qed
qed

subsection \<open>When the actor is due again\<close>

lemma applied_due:
  "reach_due (applied_reach intent t s) u (ri_actor intent) \<longleftrightarrow> t + reach_delay intent t s \<le> u"
  by (simp add: reach_due_def applied_reach_def reach_row_def reach_observed_row_def reach_diagnostic_def Let_def)

lemma applied_other:
  assumes "a \<noteq> ri_actor intent"
  shows "map_of (relay_observations (reach_core (applied_reach intent t s))) a = map_of (relay_observations (reach_core s)) a"
    "map_of (probe_diagnostics (applied_reach intent t s)) a = map_of (probe_diagnostics s) a"
    "reach_due (applied_reach intent t s) u a = reach_due s u a"
  using assms by (simp_all add: applied_reach_def reach_due_def last_online_def update_conv' cong: option.case_cong)

lemma applied_core:
  "relays (reach_core (applied_reach intent t s)) = relays (reach_core s)"
  "relay_discoveries (reach_core (applied_reach intent t s)) = relay_discoveries (reach_core s)"
  "eligible_actors (reach_core (applied_reach intent t s)) = eligible_actors (reach_core s)"
  "reachabilityEligible (reach_core (applied_reach intent t s)) a = reachabilityEligible (reach_core s) a"
  by (simp_all add: applied_reach_def eligible_actors_def reachabilityEligible_def cong: option.case_cong)

text \<open>The delays of the source, by the number of consecutive failures before this one.\<close>

definition backoff :: "int \<Rightarrow> int" where
  "backoff failures = (if failures = 0 then 3600 else if failures = 1 then 7200 else if failures = 2 then 14400 else 21600)"

definition earlier_failures :: "reach_db \<Rightarrow> string \<Rightarrow> int" where
  "earlier_failures s actor = (case map_of (probe_diagnostics s) actor of None \<Rightarrow> 0 | Some g \<Rightarrow> failure_streak g)"

lemma record_reach_cases:
  assumes "RecordReachabilityObservation env intent t s = (r, s')"
  obtains (error) e where "r = Inl e" "s' = s"
  | (skipped) "r = Inr ReachabilityWriteSkipped" "s' = s"
      "\<not> reachabilityEligible (reach_core s) (ri_actor intent) \<or>
       newer_checked (map_of (relay_observations (reach_core s)) (ri_actor intent)) t"
  | (applied) "r = Inr ReachabilityWriteApplied" "s' = applied_reach intent t s"
      "validateReachabilityObservationIntent intent = None" "0 \<le> t"
      "reachabilityEligible (reach_core s) (ri_actor intent)"
      "\<not> newer_checked (map_of (relay_observations (reach_core s)) (ri_actor intent)) t"
      "observation_check (ri_actor intent) (reach_row intent t (reach_core s))"
      "diagnostic_check (reach_diagnostic intent t s)"
proof (cases "validateReachabilityObservationIntent intent = None \<and> 0 \<le> t")
  case True
  then have run: "run_tx env (record_reach_tx intent t) s = (r, s')"
    using assms by (simp add: RecordReachabilityObservation_def observationUnix_def)
  from run_tx_tolerant [OF reach_tolerant, of s env intent t] run
  have "interrupted s (r, s') \<or> run_tx calm (record_reach_tx intent t) s = (r, s')" by metis
  then show thesis
  proof
    assume "interrupted s (r, s')"
    then show thesis using error by (auto simp: interrupted_def)
  next
    assume "run_tx calm (record_reach_tx intent t) s = (r, s')"
    with record_reach_calm [of s intent t] True error skipped applied show thesis by (elim disjE conjE exE) auto
  qed
next
  case False
  with assms error show thesis
    by (auto simp: RecordReachabilityObservation_def observationUnix_def split: option.splits if_splits)
qed

lemma reach_delay_eq:
  assumes "validateReachabilityObservationIntent intent = None"
  shows "reach_delay intent t s =
    (if ri_state intent = ReachabilityReachable then 21600
     else if last_online (reach_core s) (ri_actor intent)
            (actor_last_success (base_observation (reach_core s) (ri_actor intent) t)) \<le> t - 604800 then 604800
     else backoff (earlier_failures s (ri_actor intent)))"
  using assms
  by (auto simp: reach_delay_def validateReachabilityObservationIntent_def backoff_def earlier_failures_def next_streak_def
      retry_after_def reach_consts Let_def split: reachability.splits option.splits if_splits)

subsection \<open>The property of a write\<close>

text \<open>C22: recording a probe result, under any fault of the driver, either fails or is skipped and
  leaves the database unchanged, or is applied. It is skipped only when the actor is no longer
  eligible or has a check at least as new. An applied result changes the observation and the
  diagnostics of that actor alone, leaves every lifecycle row, discovery and event as it was,
  and the actor is due again exactly after the documented delay: six hours after a success, a
  week after a failure of an actor long offline, and otherwise one, two, four and then six hours
  by its consecutive failures.\<close>

theorem reachability_write_effect:
  assumes "RecordReachabilityObservation env intent t s = (r, s')"
  shows "s' = s \<and> (\<exists>e. r = Inl e) \<or>
    s' = s \<and> r = Inr ReachabilityWriteSkipped \<and>
      (\<not> reachabilityEligible (reach_core s) (ri_actor intent) \<or>
       newer_checked (map_of (relay_observations (reach_core s)) (ri_actor intent)) t) \<or>
    r = Inr ReachabilityWriteApplied \<and> reachabilityEligible (reach_core s) (ri_actor intent) \<and>
      reach_core s' = (reach_core s)\<lparr>relay_observations :=
        AList.update (ri_actor intent) (reach_row intent t (reach_core s)) (relay_observations (reach_core s))\<rparr> \<and>
      (\<forall>a. (map_of (probe_diagnostics s') a =
        (if a = ri_actor intent then Some (reach_diagnostic intent t s) else map_of (probe_diagnostics s) a))) \<and>
      (\<forall>u. (reach_due s' u (ri_actor intent) \<longleftrightarrow>
        t + (if ri_state intent = ReachabilityReachable then 21600
             else if last_online (reach_core s) (ri_actor intent)
                 (actor_last_success (base_observation (reach_core s) (ri_actor intent) t)) \<le> t - 604800 then 604800
             else backoff (earlier_failures s (ri_actor intent))) \<le> u)) \<and>
      (\<forall>u a. a = ri_actor intent \<or> (reach_due s' u a \<longleftrightarrow> reach_due s u a))"
  using assms
proof (cases rule: record_reach_cases)
  case applied
  have diag: "map_of (probe_diagnostics s') a =
      (if a = ri_actor intent then Some (reach_diagnostic intent t s) else map_of (probe_diagnostics s) a)" for a
    using applied(2) applied_other(2) [of a intent t s] by (simp add: applied_reach_def)
  have core: "reach_core s' = (reach_core s)\<lparr>relay_observations :=
      AList.update (ri_actor intent) (reach_row intent t (reach_core s)) (relay_observations (reach_core s))\<rparr>"
    using applied(2) by (simp add: applied_reach_def)
  have others: "a = ri_actor intent \<or> (reach_due s' u a \<longleftrightarrow> reach_due s u a)" for u a
    using applied(2) applied_other(3) [of a intent t s u] by blast
  note due = applied_due [of intent t s, folded applied(2), unfolded reach_delay_eq [OF applied(3)]]
  show ?thesis by (intro disjI2 conjI allI applied(1,5) core diag due others)
qed auto

end
