(* ===== verification/CandidateStore.thy ===== *)
theory CandidateStore
  imports Candidate ReachabilityStore PruneRun
begin

section \<open>What the candidate writes do\<close>

text \<open>
  The effects of \<open>RetainDiscoveryCandidate\<close> and \<open>PromoteDiscoveryCandidate\<close> as pure functions
  of the database, the proof that under every fault of the driver the transactions compute
  them or leave the database alone, and the agreement of the candidate table with its
  append-only history.
\<close>

subsection \<open>Successful transactions\<close>

lemma within_Inr:
  "within t (s, []) = (Inr x, s') \<longleftrightarrow> (\<exists>d fs. t (cand_core s, []) = (Inr x, (d, fs)) \<and> s' = (s\<lparr>cand_core := d\<rparr>, fs))"
  by (auto simp: within_def split: prod.splits)

lemmas tx_Inr = bindt_Inr exec_Inr query_Inr within_Inr ret_def fail_def

lemma within_tolerant [tolerant]:
  assumes "fault_tolerant t"
  shows "fault_tolerant (within t)"
  unfolding fault_tolerant_def
proof (intro allI)
  fix s :: cand_db and fs
  obtain r d1 fs1 where run: "t (cand_core s, fs) = (r, (d1, fs1))" by (cases "t (cand_core s, fs)") auto
  show "(\<exists>a. fst (within t (s, fs)) = Inl (storageFailure a driver_error)) \<or>
      fst (within t (s, fs)) = fst (within t (s, [])) \<and> fst (snd (within t (s, fs))) = fst (snd (within t (s, []))) \<and>
      snd (snd (within t (s, []))) = []"
    using assms [unfolded fault_tolerant_def, rule_format, of "cand_core s" fs] run
    by (auto simp: within_def split: prod.splits)
qed

lemma retain_tolerant: "fault_tolerant (retain_tx intent t)"
  unfolding retain_tx_def selectDiscoveryCandidate_def insertDiscoveryCandidateEvent_def Let_def by (intro tolerant)

lemma promote_tolerant: "fault_tolerant (promote_tx intent t)"
  unfolding promote_tx_def finish_promotion_def selectDiscoveryCandidate_def insertDiscoveryCandidateEvent_def promote_discovery_def
    promotion_observation_def store_tx_defs discovery_tx_defs Let_def
  by (intro tolerant) simp

subsection \<open>Retaining\<close>

definition candidate_event_of :: "DiscoveryCandidateIntent \<Rightarrow> candidate_action \<Rightarrow> int \<Rightarrow> cand_db \<Rightarrow> candidate_event" where
  "candidate_event_of intent act t s =
     \<lparr>ce_id = candidate_event_seq s + 1, ce_actor = ci_actor intent, ce_action = act, ce_state = ci_state intent,
      ce_failure = ci_failure intent, ce_operator = ci_operator intent, ce_reason = ci_reason intent,
      ce_source = ci_source intent, ce_label = (if ci_label intent \<noteq> [] then Some (ci_label intent) else None), ce_at = t\<rparr>"

definition log_candidate :: "DiscoveryCandidateIntent \<Rightarrow> candidate_action \<Rightarrow> int \<Rightarrow> cand_db \<Rightarrow> cand_db" where
  "log_candidate intent act t s =
     s\<lparr>candidate_events := candidate_events s @ [candidate_event_of intent act t s],
       candidate_event_seq := candidate_event_seq s + 1\<rparr>"

definition put_candidate :: "string \<Rightarrow> candidate_row \<Rightarrow> cand_db \<Rightarrow> cand_db" where
  "put_candidate actor r s = s\<lparr>candidates := AList.update actor r (candidates s)\<rparr>"

definition retained_candidate :: "DiscoveryCandidateIntent \<Rightarrow> int \<Rightarrow> cand_db \<Rightarrow> cand_db" where
  "retained_candidate intent t s =
     (case map_of (candidates s) (ci_actor intent) of
        None \<Rightarrow> log_candidate intent CandidateAdded t (put_candidate (ci_actor intent) (new_candidate_row intent t) s)
      | Some r \<Rightarrow> log_candidate intent CandidateUpdated t (put_candidate (ci_actor intent) (retried_row intent t r) s))"

lemma insert_event_Inr:
  "insertDiscoveryCandidateEvent intent act t (s, []) = (Inr u, s') \<longleftrightarrow>
     candidate_event_check (candidate_event_of intent act t s) \<and> s' = (log_candidate intent act t s, [])"
  by (auto simp: insertDiscoveryCandidateEvent_def exec_Inr append_candidate_event_def log_candidate_def
      candidate_event_of_def Let_def split: if_splits)

lemma retain_Inr:
  assumes "retain_tx intent t (s, []) = (Inr x, s')"
  shows "s' = (retained_candidate intent t s, [])"
    "x = Commit ''commit discovery candidate''
       (if map_of (candidates s) (ci_actor intent) = None then DiscoveryCandidateAdded else DiscoveryCandidateUpdated)"
    "case map_of (candidates s) (ci_actor intent) of None \<Rightarrow> candidate_check (ci_actor intent) (new_candidate_row intent t)
     | Some r \<Rightarrow> cand_last_checked r \<le> t \<and> candidate_check (ci_actor intent) (retried_row intent t r)"
  using assms
  by (auto simp: retain_tx_def selectDiscoveryCandidate_def tx_Inr insert_event_Inr insert_candidate_def
      update_candidate_def retained_candidate_def put_candidate_def split: option.splits if_splits)

lemma retain_cases:
  assumes "RetainDiscoveryCandidate env intent t s = (r, s')"
  obtains (error) e where "r = Inl e" "s' = s"
  | (kept) out where "r = Inr out" "s' = retained_candidate intent t s" "0 \<le> t" "validateDiscoveryCandidateIntent intent = None"
      "case map_of (candidates s) (ci_actor intent) of None \<Rightarrow> candidate_check (ci_actor intent) (new_candidate_row intent t)
       | Some r \<Rightarrow> cand_last_checked r \<le> t \<and> candidate_check (ci_actor intent) (retried_row intent t r)"
proof (cases "validateDiscoveryCandidateIntent intent = None \<and> 0 \<le> t")
  case True
  then have "run_tx env (retain_tx intent t) s = (r, s')"
    using assms by (simp add: RetainDiscoveryCandidate_def transitionUnix_def)
  with run_tx_tolerant [OF retain_tolerant, of s env intent t]
  have "interrupted s (r, s') \<or> run_tx calm (retain_tx intent t) s = (r, s')" by metis
  then show thesis
  proof
    assume "interrupted s (r, s')"
    then show thesis using error by (auto simp: interrupted_def)
  next
    assume run: "run_tx calm (retain_tx intent t) s = (r, s')"
    obtain x s1 where body: "retain_tx intent t (s, []) = (x, s1)" by (cases "retain_tx intent t (s, [])")
    show thesis
    proof (cases x)
      case (Inl e)
      with run body error show thesis by (auto simp: run_calm)
    next
      case (Inr y)
      with run body True retain_Inr [OF body [unfolded Inr]] kept show thesis by (auto simp: run_calm)
    qed
  qed
next
  case False
  with assms error show thesis
    by (auto simp: RetainDiscoveryCandidate_def transitionUnix_def split: option.splits if_splits)
qed

subsection \<open>Promotion\<close>

definition promoted_discovery :: "DiscoveryCandidatePromotionIntent \<Rightarrow> int \<Rightarrow> db \<Rightarrow> db" where
  "promoted_discovery intent t d =
     (let a = pi_actor intent;
          logged = (\<lambda>act. log_discovery a act (pi_operator intent) (pi_reason intent) (pi_source intent) (pi_label intent) t) in
      case map_of (relay_discoveries d) a of
        None \<Rightarrow> logged DiscoveryAddedEvent (put_discovery a (discovered_row (pi_base intent) t) d)
      | Some c \<Rightarrow>
          if discovery_state c = DiscoveryActive \<and> discovery_base_url c = pi_base intent then logged DiscoveryUnchangedEvent d
          else logged DiscoveryUpdatedEvent (put_discovery a (rediscovered_row (pi_base intent) t c) d))"

definition promoted_core :: "DiscoveryCandidatePromotionIntent \<Rightarrow> int \<Rightarrow> db \<Rightarrow> db" where
  "promoted_core intent t d =
     (promoted_discovery intent t d)\<lparr>relay_observations :=
        AList.update (pi_actor intent) (promoted_observation intent t (base_observation d (pi_actor intent) t)) (relay_observations d)\<rparr>"

definition promoted :: "DiscoveryCandidatePromotionIntent \<Rightarrow> int \<Rightarrow> candidate_row \<Rightarrow> cand_db \<Rightarrow> cand_db" where
  "promoted intent t c s =
     log_candidate (resolved_event intent) CandidateResolved t
       (put_candidate (pi_actor intent) (resolved_row t c) (s\<lparr>cand_core := promoted_core intent t (cand_core s)\<rparr>))"

lemma promoted_discovery_frame [simp]:
  "relays (promoted_discovery intent t d) = relays d" "relay_observations (promoted_discovery intent t d) = relay_observations d"
  by (simp_all add: promoted_discovery_def log_discovery_def put_discovery_def Let_def split: option.splits)

lemma promote_discovery_Inr:
  assumes "promote_discovery intent t (map_of (relay_discoveries d) (pi_actor intent)) (d, []) = (Inr u, (d', fs))"
  shows "d' = promoted_discovery intent t d \<and> fs = []"
  using assms
  by (auto simp: promote_discovery_def classify_promotion_def tx_Inr insertDiscoveryEvent_def insert_discovery_event_def
      insert_discovery_def update_discovery_def promoted_discovery_def log_discovery_def put_discovery_def Let_def
      split: option.splits if_splits)

lemma promotion_observation_Inr:
  assumes "promotion_observation actor t (d, []) = (Inr x, (d', fs))"
  shows "x = base_observation d actor t \<and> fs = [] \<and>
    d' = (if map_of (relay_observations d) actor = None
          then d\<lparr>relay_observations := AList.update actor (empty_observation t) (relay_observations d)\<rparr> else d)"
  using assms
  by (auto simp: promotion_observation_def selectObservation_def insertEmptyObservation_def tx_Inr insert_observation_def
      base_observation_def split: option.splits if_splits)

lemma on_error_True:
  "on_error (bindt t (\<lambda>_. ret True)) k (ret False) s = (Inr True, s') \<Longrightarrow> \<exists>x. t s = (Inr x, s')"
  by (auto simp: on_error_def bindt_def ret_def split: prod.splits sum.splits if_splits)

lemma promote_Inr:
  assumes "promote_tx intent t (s, []) = (Inr (Commit action out), s')" "0 \<le> t"
  obtains c where "map_of (candidates s) (pi_actor intent) = Some c" "cand_state c \<noteq> DiscoveryCandidateResolved"
    "cand_last_checked c < t" "candidate_check (pi_actor intent) (resolved_row t c)"
    "s' = (promoted intent t c s, [])" "out = DiscoveryCandidatePromoted"
    "discovery_fresh (cand_core s) (pi_actor intent) t"
    "\<not> newer_checked (map_of (relay_observations (cand_core s)) (pi_actor intent)) t"
    "observation_check (pi_actor intent) (promoted_observation intent t (base_observation (cand_core s) (pi_actor intent) t))"
proof -
  let ?a = "pi_actor intent" and ?d = "cand_core s"
  from assms(1) obtain c timely s1 where c: "map_of (candidates s) ?a = Some c" "cand_state c \<noteq> DiscoveryCandidateResolved" "cand_last_checked c < t"
    and time: "on_error (bindt (within (requireDiscoveryTime ?a t (map_of (relay_discoveries ?d) ?a))) (\<lambda>_. ret True))
        ErrTransitionTime (ret False) (s, []) = (Inr timely, s1)" and timely
    and rest: "finish_promotion intent t (map_of (relay_discoveries ?d) ?a) s1 = (Inr (Commit action out), s')"
    by (auto simp: promote_tx_def selectDiscoveryCandidate_def bindt_Inr query_Inr within_Inr ret_def
        split: option.splits if_splits)
  from on_error_True [OF time [unfolded \<open>timely\<close> [THEN eqTrueI]]]
  obtain u where u: "within (requireDiscoveryTime ?a t (map_of (relay_discoveries ?d) ?a)) (s, []) = (Inr u, s1)" by blast
  then have fresh: "discovery_fresh ?d ?a t" and s1: "s1 = (s, [])"
    using requireDiscoveryTime_calm [OF assms(2), of ?a ?d] by (auto simp: within_def split: if_splits)
  let ?d1 = "promoted_discovery intent t ?d" and ?o = "base_observation ?d ?a t"
  let ?d2 = "if map_of (relay_observations ?d) ?a = None
      then ?d1\<lparr>relay_observations := AList.update ?a (empty_observation t) (relay_observations ?d)\<rparr> else ?d1"
  have o1: "base_observation ?d1 ?a t = ?o" by (simp add: base_observation_def)
  from rest [unfolded s1] have step: "\<not> (case actor_last_checked ?o of None \<Rightarrow> False | Some c \<Rightarrow> c \<ge> t)"
    "\<exists>d3 s4. update_observation ?a (promoted_observation intent t) ?d2 = Some d3 \<and>
       update_candidate ?a (resolved_row t) (s\<lparr>cand_core := d3\<rparr>) = Some s4 \<and>
       s' = (log_candidate (resolved_event intent) CandidateResolved t s4, [])" "out = DiscoveryCandidatePromoted"
    by (auto simp: finish_promotion_def bindt_Inr within_Inr exec_Inr insert_event_Inr ret_def o1 split: if_splits
        dest!: promote_discovery_Inr promotion_observation_Inr)
  then obtain d3 s4 where w: "update_observation ?a (promoted_observation intent t) ?d2 = Some d3"
    "update_candidate ?a (resolved_row t) (s\<lparr>cand_core := d3\<rparr>) = Some s4"
    "s' = (log_candidate (resolved_event intent) CandidateResolved t s4, [])" by blast
  have "map_of (relay_observations ?d2) ?a = Some ?o" by (auto simp: base_observation_def split: option.splits)
  with w(1) have obs: "observation_check ?a (promoted_observation intent t ?o)" "d3 = promoted_core intent t ?d"
    by (auto simp: update_observation_def promoted_core_def update_update split: if_splits)
  have res: "candidate_check ?a (resolved_row t c)" "s4 = put_candidate ?a (resolved_row t c) (s\<lparr>cand_core := d3\<rparr>)"
    using w(2) c(1) by (auto simp: update_candidate_def put_candidate_def split: if_splits)
  have "\<not> newer_checked (map_of (relay_observations ?d) ?a) t"
    using step(1) by (auto simp: newer_checked_def base_observation_def empty_observation_def split: option.splits)
  with that c fresh obs res w(3) step(3) show thesis by (auto simp: promoted_def)
qed

lemma promote_cases:
  assumes "PromoteDiscoveryCandidate env intent t s = (r, s')"
  obtains (error) e where "r = Inl e" "s' = s"
  | (skipped) "r = Inr DiscoveryCandidateSkipped" "s' = s"
  | (promoted) c where "r = Inr DiscoveryCandidatePromoted" "s' = promoted intent t c s"
      "map_of (candidates s) (pi_actor intent) = Some c" "cand_state c \<noteq> DiscoveryCandidateResolved" "cand_last_checked c < t"
      "candidate_check (pi_actor intent) (resolved_row t c)" "0 \<le> t" "validateDiscoveryCandidatePromotionIntent intent = None"
      "observation_check (pi_actor intent) (promoted_observation intent t (base_observation (cand_core s) (pi_actor intent) t))"
proof (cases "validateDiscoveryCandidatePromotionIntent intent = None \<and> 0 \<le> t")
  case True
  then have "run_tx env (promote_tx intent t) s = (r, s')"
    using assms by (simp add: PromoteDiscoveryCandidate_def observationUnix_def)
  with run_tx_tolerant [OF promote_tolerant, of s env intent t]
  have "interrupted s (r, s') \<or> run_tx calm (promote_tx intent t) s = (r, s')" by metis
  then show thesis
  proof
    assume "interrupted s (r, s')"
    then show thesis using error by (auto simp: interrupted_def)
  next
    assume run: "run_tx calm (promote_tx intent t) s = (r, s')"
    obtain x s1 where body: "promote_tx intent t (s, []) = (x, s1)" by (cases "promote_tx intent t (s, [])")
    show thesis
    proof (cases x)
      case (Inl e)
      with run body error show thesis by (auto simp: run_calm)
    next
      case (Inr y)
      show thesis
      proof (cases y)
        case (Abandon out)
        then have r: "r = Inr out" "s' = s" using run body Inr by (auto simp: run_calm)
        have "out \<noteq> DiscoveryCandidatePromoted"
          using body unfolding Inr Abandon
          by (auto simp: promote_tx_def finish_promotion_def bindt_Inr ret_def split: option.splits if_splits)
        with r skipped show thesis by (cases out) auto
      next
        case (Commit action out)
        from promote_Inr [OF body [unfolded Inr Commit]] True obtain c where
          "map_of (candidates s) (pi_actor intent) = Some c" "cand_state c \<noteq> DiscoveryCandidateResolved"
          "cand_last_checked c < t" "candidate_check (pi_actor intent) (resolved_row t c)"
          "s1 = (promoted intent t c s, [])" "out = DiscoveryCandidatePromoted"
          "observation_check (pi_actor intent) (promoted_observation intent t (base_observation (cand_core s) (pi_actor intent) t))"
          by metis
        with run body Inr Commit True promoted show thesis by (auto simp: run_calm)
      qed
    qed
  qed
next
  case False
  with assms error show thesis
    by (auto simp: PromoteDiscoveryCandidate_def observationUnix_def split: option.splits if_splits)
qed

lemma promoted_simps:
  "candidates (promoted intent t c s) = AList.update (pi_actor intent) (resolved_row t c) (candidates s)"
  "candidate_events (promoted intent t c s) =
     candidate_events s @ [candidate_event_of (resolved_event intent) CandidateResolved t s]"
  "relays (cand_core (promoted intent t c s)) = relays (cand_core s)"
  "relay_events (cand_core (promoted intent t c s)) = relay_events (cand_core s)"
  by (simp_all add: promoted_def log_candidate_def put_candidate_def candidate_event_of_def promoted_core_def
      promoted_discovery_def log_discovery_def put_discovery_def Let_def split: option.splits)

lemma promoted_discoveries:
  "\<exists>r. map_of (relay_discoveries (cand_core (promoted intent t c s))) (pi_actor intent) = Some r \<and>
     discovery_state r = DiscoveryActive \<and> discovery_base_url r = pi_base intent"
  "b \<noteq> pi_actor intent \<Longrightarrow> map_of (relay_discoveries (cand_core (promoted intent t c s))) b = map_of (relay_discoveries (cand_core s)) b"
  by (auto simp: promoted_def log_candidate_def put_candidate_def promoted_core_def promoted_discovery_def log_discovery_def
      put_discovery_def discovered_row_def rediscovered_row_def Let_def split: option.splits)

lemma promoted_observations:
  "map_of (relay_observations (cand_core (promoted intent t c s))) b =
     (if b = pi_actor intent then Some (promoted_observation intent t (base_observation (cand_core s) (pi_actor intent) t))
      else map_of (relay_observations (cand_core s)) b)"
  by (simp add: promoted_def log_candidate_def put_candidate_def promoted_core_def)

text \<open>C18: promoting a candidate, under any fault of the driver, is all or nothing. A refused or
  skipped promotion leaves the database as it was. A promotion happens only to a stored, still
  unresolved candidate whose last check is older, and then resolves exactly that candidate,
  records it with one event, makes its actor an active discovery with the base URL of the
  intent, stores the actor as reachable at that time with the declared inbox, and touches no
  relay, no lifecycle event, and no discovery or observation of another actor.\<close>

theorem candidate_promotion_effect:
  assumes "PromoteDiscoveryCandidate env intent t s = (r, s')"
  shows "s' = s \<and> r \<noteq> Inr DiscoveryCandidatePromoted \<or>
    r = Inr DiscoveryCandidatePromoted \<and>
    (\<exists>c. map_of (candidates s) (pi_actor intent) = Some c \<and> cand_state c \<noteq> DiscoveryCandidateResolved \<and>
       cand_last_checked c < t \<and> candidates s' = AList.update (pi_actor intent) (resolved_row t c) (candidates s)) \<and>
    candidate_events s' = candidate_events s @ [candidate_event_of (resolved_event intent) CandidateResolved t s] \<and>
    relays (cand_core s') = relays (cand_core s) \<and> relay_events (cand_core s') = relay_events (cand_core s) \<and>
    (\<exists>v. map_of (relay_discoveries (cand_core s')) (pi_actor intent) = Some v \<and> discovery_state v = DiscoveryActive \<and>
       discovery_base_url v = pi_base intent) \<and>
    (\<exists>v. map_of (relay_observations (cand_core s')) (pi_actor intent) = Some v \<and> actor_state v = ReachabilityReachable \<and>
       actor_last_success v = Some t \<and> inbox_probe_state v = pi_inbox_state intent \<and>
       inbox_url v = (if pi_inbox intent = [] then None else Some (pi_inbox intent))) \<and>
    (\<forall>b. b = pi_actor intent \<or>
       map_of (relay_discoveries (cand_core s')) b = map_of (relay_discoveries (cand_core s)) b \<and>
       map_of (relay_observations (cand_core s')) b = map_of (relay_observations (cand_core s)) b)"
  using assms
proof (cases rule: promote_cases)
  case (promoted c)
  show ?thesis
    using promoted promoted_simps [of intent t c s] promoted_discoveries(1) [of intent t c s] promoted_discoveries(2) [of _ intent t c s] promoted_observations [of intent t c s]
    by (intro disjI2) (auto simp: promoted_observation_def)
qed auto

subsection \<open>The table and its history\<close>

definition candidate_history :: "cand_db \<Rightarrow> string \<Rightarrow> candidate_event list" where
  "candidate_history s a = filter (\<lambda>e. ce_actor e = a) (candidate_events s)"

definition history_agrees :: "string \<Rightarrow> candidate_row \<Rightarrow> candidate_event list \<Rightarrow> bool" where
  "history_agrees a r h \<longleftrightarrow> h \<noteq> [] \<and> ce_action (hd h) = CandidateAdded \<and>
     cand_state r = ce_state (last h) \<and> cand_failure r = ce_failure (last h) \<and> cand_last_checked r = ce_at (last h) \<and>
     cand_first_seen r = ce_at (hd h) \<and> cand_failures r = int (length (filter (\<lambda>e. ce_failure e \<noteq> None) h)) \<and>
     sorted (map ce_at h) \<and> candidate_check a r"

definition cand_ledger :: "cand_db \<Rightarrow> bool" where
  "cand_ledger s \<longleftrightarrow> table_ok (candidates s) \<and>
     sorted_wrt (<) (map ce_id (candidate_events s)) \<and> list_all (\<lambda>e. ce_id e \<le> candidate_event_seq s) (candidate_events s) \<and>
     (\<forall>a. case map_of (candidates s) a of
        None \<Rightarrow> candidate_history s a = []
      | Some r \<Rightarrow> history_agrees a r (candidate_history s a))"

lemma ledger_step:
  assumes led: "cand_ledger s" and a: "a = ci_actor intent"
    and r: "candidate_check a r" "cand_state r = ci_state intent" "cand_failure r = ci_failure intent" "cand_last_checked r = t"
    and prev: "case map_of (candidates s) a of
        None \<Rightarrow> act = CandidateAdded \<and> cand_first_seen r = t \<and> cand_failures r = (if ci_failure intent = None then 0 else 1)
      | Some p \<Rightarrow> cand_last_checked p \<le> t \<and> cand_first_seen r = cand_first_seen p \<and>
          cand_failures r = cand_failures p + (if ci_failure intent = None then 0 else 1)"
  shows "cand_ledger (log_candidate intent act t (put_candidate a r s))"
proof -
  let ?s = "log_candidate intent act t (put_candidate a r s)" and ?e = "candidate_event_of intent act t s"
  have ev: "candidate_events ?s = candidate_events s @ [?e]" "candidate_event_seq ?s = candidate_event_seq s + 1"
    by (simp_all add: log_candidate_def put_candidate_def candidate_event_of_def)
  have e: "ce_actor ?e = a" "ce_id ?e = candidate_event_seq s + 1" "ce_at ?e = t" "ce_state ?e = ci_state intent"
    "ce_failure ?e = ci_failure intent" "ce_action ?e = act" by (simp_all add: candidate_event_of_def a)
  have hist: "candidate_history ?s b = candidate_history s b @ (if b = a then [?e] else [])" for b
    by (simp add: candidate_history_def ev e)
  have look: "map_of (candidates ?s) b = (if b = a then Some r else map_of (candidates s) b)" for b
    by (simp add: log_candidate_def put_candidate_def)
  have own: "history_agrees a r (candidate_history s a @ [?e])"
  proof (cases "map_of (candidates s) a")
    case None
    then have "candidate_history s a = []" using led by (auto simp: cand_ledger_def dest!: spec [of _ a])
    with None prev r e show ?thesis by (simp add: history_agrees_def)
  next
    case (Some p)
    then have h: "history_agrees a p (candidate_history s a)" using led by (auto simp: cand_ledger_def dest!: spec [of _ a])
    then have "x \<le> t" if "x \<in> set (map ce_at (candidate_history s a))" for x
    proof -
      obtain pre where "candidate_history s a = pre @ [last (candidate_history s a)]"
        using h by (metis append_butlast_last_id history_agrees_def)
      then have "sorted (map ce_at (pre @ [last (candidate_history s a)]))" "x \<in> set (map ce_at (pre @ [last (candidate_history s a)]))"
        using h that by (auto simp: history_agrees_def)
      then show ?thesis using h prev Some by (auto simp: sorted_append history_agrees_def)
    qed
    with h Some prev r e show ?thesis by (auto simp: history_agrees_def sorted_append)
  qed
  have "table_ok (candidates ?s)" using led by (simp add: cand_ledger_def log_candidate_def put_candidate_def distinct_update)
  moreover have "sorted_wrt (<) (map ce_id (candidate_events ?s))" "list_all (\<lambda>e. ce_id e \<le> candidate_event_seq ?s) (candidate_events ?s)"
    using led by (auto simp: cand_ledger_def ev e sorted_wrt_append list_all_iff)
  moreover have "case map_of (candidates ?s) b of None \<Rightarrow> candidate_history ?s b = []
      | Some r \<Rightarrow> history_agrees b r (candidate_history ?s b)" for b
    using led own by (cases "b = a") (auto simp: cand_ledger_def look hist split: option.splits dest!: spec [of _ b])
  ultimately show ?thesis by (simp add: cand_ledger_def)
qed

lemma ledger_core [simp]: "cand_ledger (s\<lparr>cand_core := d\<rparr>) = cand_ledger s"
  by (simp add: cand_ledger_def candidate_history_def cong: option.case_cong)

lemma retain_ledger:
  assumes "cand_ledger s" "RetainDiscoveryCandidate env intent t s = (r, s')"
  shows "cand_ledger s'"
  using assms(2)
proof (cases rule: retain_cases)
  case (kept out)
  have f: "ci_failure intent \<noteq> None" using kept(4) by (auto simp: validateDiscoveryCandidateIntent_def split: if_splits)
  show ?thesis
  proof (cases "map_of (candidates s) (ci_actor intent)")
    case None
    with kept f show ?thesis
      by (simp add: retained_candidate_def) (rule ledger_step [OF assms(1) refl], auto simp: new_candidate_row_def)
  next
    case (Some p)
    with kept f show ?thesis
      by (simp add: retained_candidate_def) (rule ledger_step [OF assms(1) refl], auto simp: retried_row_def)
  qed
qed (use assms(1) in simp)

lemma promote_ledger:
  assumes "cand_ledger s" "PromoteDiscoveryCandidate env intent t s = (r, s')"
  shows "cand_ledger s'"
  using assms(2)
proof (cases rule: promote_cases)
  case (promoted c)
  have "cand_ledger (log_candidate (resolved_event intent) CandidateResolved t
      (put_candidate (pi_actor intent) (resolved_row t c) (s\<lparr>cand_core := promoted_core intent t (cand_core s)\<rparr>)))"
    using promoted assms(1) by (intro ledger_step) (auto simp: resolved_event_def resolved_row_def)
  with promoted(2) show ?thesis by (simp add: promoted_def)
qed (use assms(1) in simp_all)

text \<open>Any interleaving of writes, each under its own faults.\<close>

datatype candidate_op =
    RetainOp environment DiscoveryCandidateIntent int
  | PromoteOp environment DiscoveryCandidatePromotionIntent int

fun run_candidate_op :: "candidate_op \<Rightarrow> cand_db \<Rightarrow> cand_db" where
  "run_candidate_op (RetainOp env intent t) s = snd (RetainDiscoveryCandidate env intent t s)"
| "run_candidate_op (PromoteOp env intent t) s = snd (PromoteDiscoveryCandidate env intent t s)"

lemma retained_simps:
  "cand_core (retained_candidate intent t s) = cand_core s"
  "\<exists>e. candidate_events (retained_candidate intent t s) = candidate_events s @ [e]"
  by (simp_all add: retained_candidate_def log_candidate_def put_candidate_def split: option.splits)

lemma candidate_op_keeps:
  assumes "cand_ledger s"
  shows "cand_ledger (run_candidate_op w s) \<and> (\<exists>es. candidate_events (run_candidate_op w s) = candidate_events s @ es) \<and>
    relays (cand_core (run_candidate_op w s)) = relays (cand_core s)"
proof (cases w)
  case (RetainOp env intent t)
  obtain r s' where run: "RetainDiscoveryCandidate env intent t s = (r, s')" by (cases "RetainDiscoveryCandidate env intent t s")
  then have "(\<exists>es. candidate_events s' = candidate_events s @ es) \<and> relays (cand_core s') = relays (cand_core s)"
    by (cases rule: retain_cases) (simp, metis retained_simps)
  with retain_ledger [OF assms run] run RetainOp show ?thesis by simp
next
  case (PromoteOp env intent t)
  obtain r s' where run: "PromoteDiscoveryCandidate env intent t s = (r, s')" by (cases "PromoteDiscoveryCandidate env intent t s")
  then have "(\<exists>es. candidate_events s' = candidate_events s @ es) \<and> relays (cand_core s') = relays (cand_core s)"
    by (cases rule: promote_cases) (auto simp: promoted_simps)
  with promote_ledger [OF assms run] run PromoteOp show ?thesis by simp
qed

text \<open>C19: whatever sequence of candidate writes runs, each under its own admission answer and
  driver faults, the candidate table stays the exact summary of its history: a candidate has a
  row exactly when it has events, its state, failure and last check are those of its latest
  event, its first sighting is that of its first event, and its failure count is the number of
  its failure events. The history only grows, and no relay row changes.\<close>

theorem candidate_history_exact:
  assumes "cand_ledger s"
  shows "cand_ledger (fold run_candidate_op ops s) \<and>
    (\<exists>es. candidate_events (fold run_candidate_op ops s) = candidate_events s @ es) \<and>
    relays (cand_core (fold run_candidate_op ops s)) = relays (cand_core s)"
  using assms
proof (induction ops arbitrary: s)
  case (Cons w ops)
  from candidate_op_keeps [OF Cons.prems, of w] Cons.IH [of "run_candidate_op w s"] show ?case by auto
qed simp

text \<open>
  The promotion stores the time of the run as the update time of the observation, also when
  the observation already carries later evidence; the table constraint then refuses the
  write, so an actor that signed a request after the start of a run is not promoted by it.
\<close>

lemma newer_evidence_blocks_promotion:
  assumes "PromoteDiscoveryCandidate env intent t s = (r, s')"
    "map_of (relay_observations (cand_core s)) (pi_actor intent) = Some v" "rfc9421_verified v = Some w" "t < w"
  shows "r \<noteq> Inr DiscoveryCandidatePromoted \<and> s' = s"
  using assms(1)
proof (cases rule: promote_cases)
  case (promoted c)
  with assms(2-4) show ?thesis
    by (simp add: observation_check_def promoted_observation_def base_observation_def opt_le_def)
qed auto

end
