(* ===== verification/PagedRun.thy ===== *)
theory PagedRun
  imports Prelude
begin

section \<open>Bounded runs over pages\<close>

text \<open>
  The maintenance runs of \<open>internal/reachability\<close> and \<open>internal/candidatemaintenance\<close> share one
  loop: read a page after a cursor, check it, settle its entries, and go on from the next
  cursor until the pages or the attempt budget end. The first locale states that loop as a
  recursion equation and proves that it returns and what it keeps. The second adds a listing
  the pages are cut from and proves that a run that was not cut short leaves of that listing
  at most the entries it reports as left.
\<close>

locale paged_loop =
  fixes loop :: "nat \<Rightarrow> 'k::linorder \<Rightarrow> 'r \<Rightarrow> 's \<Rightarrow> (('r \<times> goerror option) \<times> 's) option"
    and scanned :: "'r \<Rightarrow> int" and budget :: int and limit :: "int \<Rightarrow> int" and alive :: "'s \<Rightarrow> goerror option"
    and fetch :: "'s \<Rightarrow> 'k \<Rightarrow> int \<Rightarrow> ('x list \<times> 'k) result"
    and check :: "'x list \<times> 'k \<Rightarrow> 'k \<Rightarrow> int \<Rightarrow> goerror option"
    and settle :: "'x list \<Rightarrow> 'r \<Rightarrow> 's \<Rightarrow> (('r \<times> goerror) + 'r) \<times> 's"
    and start :: 'k and truncate :: "'r \<Rightarrow> 'r"
  assumes loop_zero: "loop 0 c res s = None"
    and loop_step: "loop (Suc fuel) c res s =
     (if \<not> scanned res < budget then Some ((res, None), s)
      else case alive s of
        Some e \<Rightarrow> Some ((res, Some e), s)
      | None \<Rightarrow>
        (case fetch s c (limit (scanned res)) of
           Inl e \<Rightarrow> Some ((res, Some e), s)
         | Inr (xs, nxt) \<Rightarrow>
            (case check (xs, nxt) c (limit (scanned res)) of
               Some e \<Rightarrow> Some ((res, Some e), s)
             | None \<Rightarrow>
                 if xs = [] then Some ((res, None), s)
                 else (case settle xs res s of
                   (Inl (res', e), s') \<Rightarrow> Some ((res', Some e), s')
                 | (Inr res', s') \<Rightarrow>
                     if nxt = start then Some ((res', None), s')
                     else if scanned res' = budget then Some ((truncate res', None), s')
                     else loop fuel nxt res' s'))))"
    and limit_fits: "m < budget \<Longrightarrow> 0 < limit m \<and> limit m \<le> budget - m"
    and check_length: "check (xs, nxt) c l = None \<Longrightarrow> int (length xs) \<le> l"
    and settle_count: "settle xs res s = (Inr res', s') \<Longrightarrow> scanned res' = scanned res + int (length xs)"
begin

text \<open>One iteration: the run ends here, or it settles a page and goes on.\<close>

lemma step_cases:
  assumes "scanned res < budget"
  obtains (ends) err where "\<And>fuel. loop (Suc fuel) c res s = Some ((res, err), s)"
    "err = None \<Longrightarrow> \<exists>nxt. fetch s c (limit (scanned res)) = Inr ([], nxt)"
  | (early) xs nxt res' e s' where "\<And>fuel. loop (Suc fuel) c res s = Some ((res', Some e), s')"
      "xs \<noteq> []" "int (length xs) \<le> budget - scanned res" "settle xs res s = (Inl (res', e), s')"
      "check (xs, nxt) c (limit (scanned res)) = None"
  | (page) xs nxt res' s' where "\<And>fuel. loop (Suc fuel) c res s =
        (if nxt = start then Some ((res', None), s')
         else if scanned res' = budget then Some ((truncate res', None), s')
         else loop fuel nxt res' s')"
      "xs \<noteq> []" "int (length xs) \<le> budget - scanned res" "settle xs res s = (Inr res', s')"
      "fetch s c (limit (scanned res)) = Inr (xs, nxt)" "check (xs, nxt) c (limit (scanned res)) = None"
proof (cases "alive s")
  case (Some e)
  with assms show thesis by (intro ends [of "Some e"]) (simp_all add: loop_step)
next
  case up: None
  show thesis
  proof (cases "fetch s c (limit (scanned res))")
    case (Inl e)
    with assms up show thesis by (intro ends [of "Some e"]) (simp_all add: loop_step)
  next
    case (Inr p)
    obtain xs nxt where p: "p = (xs, nxt)" by (cases p)
    show thesis
    proof (cases "check (xs, nxt) c (limit (scanned res))")
      case (Some e)
      with assms up Inr p show thesis by (intro ends [of "Some e"]) (simp_all add: loop_step)
    next
      case ok: None
      show thesis
      proof (cases "xs = []")
        case True
        with assms up Inr p ok show thesis by (intro ends [of None]) (simp_all add: loop_step)
      next
        case ne: False
        have len: "int (length xs) \<le> budget - scanned res"
          using check_length [OF ok] limit_fits [OF assms] by simp
        obtain out s' where run: "settle xs res s = (out, s')" by fastforce
        show thesis
        proof (cases out)
          case (Inl early')
          obtain res' e where e: "early' = (res', e)" by (cases early')
          show thesis
            by (rule early [of res' e s' xs nxt]) (use assms up Inr p ok ne len run Inl e in \<open>simp_all add: loop_step\<close>)
        next
          case (Inr res')
          show thesis
            by (rule page [of nxt res' s' xs])
              (use assms up \<open>fetch s c _ = Inr p\<close> p ok ne len run Inr in \<open>simp_all add: loop_step\<close>)
        qed
      qed
    qed
  qed
qed

lemma loop_returns:
  assumes "nat (budget - scanned res) < fuel"
  shows "\<exists>res' err s'. loop fuel c res s = Some ((res', err), s')"
  using assms
proof (induction fuel arbitrary: c res s)
  case (Suc fuel)
  show ?case
  proof (cases "scanned res < budget")
    case True
    then show ?thesis
    proof (cases rule: step_cases [of res c s])
      case (page xs nxt res' s')
      have "scanned res < scanned res'" using settle_count [OF page(4)] page(2) by simp
      then have "nat (budget - scanned res') < fuel" using Suc.prems True by linarith
      from Suc.IH [OF this, of nxt s'] page(1) show ?thesis by auto
    qed auto
  qed (simp add: loop_step)
qed simp

text \<open>What every settled page keeps, the run keeps.\<close>

lemma loop_rule:
  assumes "loop fuel c res s = Some ((res', err), s')" and "P res s"
    and keep: "\<And>xs nxt c l res s out s'. P res s \<Longrightarrow> xs \<noteq> [] \<Longrightarrow> int (length xs) \<le> budget - scanned res \<Longrightarrow>
      check (xs, nxt) c l = None \<Longrightarrow> settle xs res s = (out, s') \<Longrightarrow> case out of Inl (r, e) \<Rightarrow> Q r (Some e) s' | Inr r \<Rightarrow> P r s'"
    and stop: "\<And>res err s. P res s \<Longrightarrow> Q res err s"
    and cut: "\<And>res s. P res s \<Longrightarrow> scanned res = budget \<Longrightarrow> Q (truncate res) None s"
  shows "Q res' err s'"
  using assms(1,2)
proof (induction fuel arbitrary: c res s)
  case (Suc fuel)
  show ?case
  proof (cases "scanned res < budget")
    case True
    then show ?thesis
    proof (cases rule: step_cases [of res c s])
      case (ends e)
      with Suc.prems stop show ?thesis by auto
    next
      case (early xs nxt r e s1)
      with keep [OF Suc.prems(2) early(2,3,5,4)] Suc.prems(1) show ?thesis by auto
    next
      case (page xs nxt r s1)
      have "P r s1" using keep [OF Suc.prems(2) page(2,3,6,4)] by simp
      with page(1) [of fuel] Suc.prems(1) stop cut Suc.IH show ?thesis by (auto split: if_splits)
    qed
  next
    case False
    with Suc.prems stop show ?thesis by (auto simp: loop_step)
  qed
qed (simp add: loop_zero)

end

text \<open>
  The pages are cut from one sorted listing. Settling a page leaves the other entries alone,
  and leaves of its own at most the number by which \<open>left\<close> grows.
\<close>

locale paged_listing = paged_loop loop scanned budget limit alive fetch check settle start truncate
  for loop :: "nat \<Rightarrow> 'k::linorder \<Rightarrow> 'r \<Rightarrow> 's \<Rightarrow> (('r \<times> goerror option) \<times> 's) option"
    and scanned :: "'r \<Rightarrow> int" and budget :: int and limit :: "int \<Rightarrow> int" and alive :: "'s \<Rightarrow> goerror option"
    and fetch :: "'s \<Rightarrow> 'k \<Rightarrow> int \<Rightarrow> ('x list \<times> 'k) result"
    and check :: "'x list \<times> 'k \<Rightarrow> 'k \<Rightarrow> int \<Rightarrow> goerror option"
    and settle :: "'x list \<Rightarrow> 'r \<Rightarrow> 's \<Rightarrow> (('r \<times> goerror) + 'r) \<times> 's"
    and start :: 'k and truncate :: "'r \<Rightarrow> 'r" +
  fixes inv :: "'r \<Rightarrow> 's \<Rightarrow> bool" and offered :: "'s \<Rightarrow> 'x list" and key :: "'x \<Rightarrow> 'k"
    and left :: "'r \<Rightarrow> int" and truncated :: "'r \<Rightarrow> bool"
  assumes offered_sorted: "inv res s \<Longrightarrow> sorted_wrt (<) (map key (offered s))"
    and offered_after: "inv res s \<Longrightarrow> x \<in> set (offered s) \<Longrightarrow> start < key x"
    and page_law: "inv res s \<Longrightarrow> 0 < l \<Longrightarrow> fetch s c l = Inr p \<Longrightarrow> p = page_of key start (nat l) (offered s) c"
    and settle_law: "inv res s \<Longrightarrow> set xs \<subseteq> set (offered s) \<Longrightarrow> distinct xs \<Longrightarrow> check (xs, nxt) c l = None \<Longrightarrow>
      xs \<noteq> [] \<Longrightarrow> settle xs res s = (Inr res', s') \<Longrightarrow>
      inv res' s' \<and> filter (\<lambda>y. y \<notin> set xs) (offered s') = filter (\<lambda>y. y \<notin> set xs) (offered s) \<and>
      int (length (filter (\<lambda>y. y \<in> set xs) (offered s'))) \<le> left res' - left res"
    and cut_marked: "truncated (truncate res)"
begin

lemma rest_after:
  assumes "inv res s" "xs = take n (filter (\<lambda>x. c < key x) (offered s))" "xs \<noteq> []"
  shows "filter (\<lambda>x. key (last xs) < key x) (offered s) = drop n (filter (\<lambda>x. c < key x) (offered s))"
    and "\<And>x. x \<in> set (offered s) \<Longrightarrow> x \<in> set xs \<longleftrightarrow> c < key x \<and> \<not> key (last xs) < key x"
proof -
  define R where "R = filter (\<lambda>x. c < key x) (offered s)"
  have srt: "sorted_wrt (<) (map key R)"
    using offered_sorted [OF assms(1)] by (simp add: R_def sorted_wrt_map sorted_wrt_filter)
  have R: "R = xs @ drop n R" using assms(2) by (simp add: R_def)
  have low: "\<not> key (last xs) < key x" if "x \<in> set xs" for x
  proof -
    obtain pre where pre: "xs = pre @ [last xs]" using assms(3) by (metis append_butlast_last_id)
    have "sorted_wrt (<) (map key xs)" using srt by (subst (asm) R) (simp add: sorted_wrt_append)
    then show ?thesis using that by (subst (asm) (1 2) pre) (auto simp: sorted_wrt_append dest: order.asym)
  qed
  have high: "key (last xs) < key x" if "x \<in> set (drop n R)" for x
    using srt that assms(3) by (subst (asm) R) (auto simp: sorted_wrt_append)
  have "c < key (last xs)" using last_in_set [OF assms(3)] in_set_takeD [of "last xs" n R] assms(2) by (simp add: R_def)
  then have "filter (\<lambda>x. key (last xs) < key x) (offered s) = filter (\<lambda>x. key (last xs) < key x) R"
    by (auto simp: R_def filter_filter intro!: filter_cong)
  also have "\<dots> = drop n R" using low high by (subst R) (simp add: filter_empty_conv filter_id_conv)
  finally show "filter (\<lambda>x. key (last xs) < key x) (offered s) = drop n (filter (\<lambda>x. c < key x) (offered s))"
    by (simp add: R_def)
  show "x \<in> set xs \<longleftrightarrow> c < key x \<and> \<not> key (last xs) < key x" if "x \<in> set (offered s)" for x
  proof -
    have "c < key x \<longleftrightarrow> x \<in> set xs \<or> x \<in> set (drop n R)"
    proof -
      have "set R = set xs \<union> set (drop n R)" by (subst R) simp
      then show ?thesis using that by (auto simp: R_def)
    qed
    with low high show ?thesis by blast
  qed
qed

lemma loop_complete:
  assumes "loop fuel c res s = Some ((res', None), s')" "inv res s" "scanned res < budget" "\<not> truncated res'"
  shows "inv res' s' \<and> filter (\<lambda>x. \<not> c < key x) (offered s') = filter (\<lambda>x. \<not> c < key x) (offered s) \<and>
    scanned res' = scanned res + int (length (filter (\<lambda>x. c < key x) (offered s))) \<and>
    int (length (filter (\<lambda>x. c < key x) (offered s'))) \<le> left res' - left res"
  using assms
proof (induction fuel arbitrary: c res s)
  case (Suc fuel)
  define n where "n = nat (limit (scanned res))"
  let ?R = "\<lambda>s. filter (\<lambda>x. c < key x) (offered s)"
  have n: "0 < n" "int n = limit (scanned res)" "limit (scanned res) \<le> budget - scanned res"
    using limit_fits [OF Suc.prems(3)] by (simp_all add: n_def)
  from Suc.prems(3) show ?case
  proof (cases rule: step_cases [of res c s])
    case (ends e)
    with Suc.prems(1) have r: "res' = res" "s' = s" "e = None" by auto
    then obtain nxt where "fetch s c (limit (scanned res)) = Inr ([], nxt)" using ends(2) by auto
    from page_law [OF Suc.prems(2) _ this] n have "?R s = []" by (auto simp: page_of_def Let_def n_def)
    with r Suc.prems(2) show ?thesis by simp
  next
    case (early xs nxt r e s1)
    with Suc.prems(1) show ?thesis by auto
  next
    case (page xs nxt r s1)
    from page_law [OF Suc.prems(2) _ page(5)] n
    have xs: "xs = take n (?R s)" and nxt: "nxt = (if length (?R s) \<le> n then start else key (last xs))"
      by (auto simp: page_of_def Let_def n_def)
    have sub: "set xs \<subseteq> set (offered s)" using xs by (auto dest: in_set_takeD)
    have "distinct (offered s)" using offered_sorted [OF Suc.prems(2)] by (auto simp: strict_sorted_iff distinct_map)
    then have dist: "distinct xs" using xs by simp
    note S = settle_law [OF Suc.prems(2) sub dist page(6,2,4)]
    note A = rest_after [OF Suc.prems(2) xs page(2)]
    have lastk: "c < key (last xs)" "start < key (last xs)"
      using A(2) [of "last xs"] last_in_set [OF page(2)] sub offered_after [OF Suc.prems(2)] by auto
    have below: "filter (\<lambda>x. \<not> c < key x) (offered s1) = filter (\<lambda>x. \<not> c < key x) (offered s)"
    proof -
      have f: "filter (\<lambda>x. \<not> c < key x) l = filter (\<lambda>x. \<not> c < key x) (filter (\<lambda>y. y \<notin> set xs) l)" for l
        using A(2) sub by (auto simp: filter_filter intro!: filter_cong)
      show ?thesis using S by (subst (1 2) f) simp
    qed
    have mid: "filter (\<lambda>x. c < key x \<and> \<not> key (last xs) < key x) (offered s1) = filter (\<lambda>y. y \<in> set xs) (offered s1)"
    proof (rule filter_cong [OF refl])
      fix y assume y: "y \<in> set (offered s1)"
      show "(c < key y \<and> \<not> key (last xs) < key y) = (y \<in> set xs)"
      proof (cases "y \<in> set xs")
        case True
        then show ?thesis using A(2) [of y] sub by blast
      next
        case False
        then have "y \<in> set (filter (\<lambda>y. y \<notin> set xs) (offered s1))" using y by simp
        then have "y \<in> set (offered s)" using S by simp
        then show ?thesis using A(2) [of y] False by blast
      qed
    qed
    have high: "filter (\<lambda>x. key (last xs) < key x) (offered s1) = drop n (?R s)"
    proof -
      have f: "filter (\<lambda>x. key (last xs) < key x) l = filter (\<lambda>x. key (last xs) < key x) (filter (\<lambda>y. y \<notin> set xs) l)" for l
        using A(2) sub by (auto simp: filter_filter intro!: filter_cong)
      have "filter (\<lambda>x. key (last xs) < key x) (offered s1) = filter (\<lambda>x. key (last xs) < key x) (offered s)"
        using S by (subst (1 2) f) simp
      with A(1) show ?thesis by simp
    qed
    have count: "length (filter (\<lambda>x. c < key x) l) =
        length (filter (\<lambda>x. c < key x \<and> \<not> key (last xs) < key x) l) + length (filter (\<lambda>x. key (last xs) < key x) l)" for l
      using lastk by (induction l) (auto dest: order.strict_trans)
    have len: "length xs = min n (length (?R s))" using xs by simp
    have sc: "scanned r = scanned res + int (length xs)" by (rule settle_count [OF page(4)])
    show ?thesis
    proof (cases "nxt = start")
      case True
      then have all: "length (?R s) \<le> n" using nxt lastk by (auto split: if_splits)
      have r: "res' = r" "s' = s1" using page(1) [of fuel] Suc.prems(1) True by auto
      have "filter (\<lambda>x. key (last xs) < key x) (offered s1) = []" using high all by simp
      with S below count [of "offered s1"] mid sc len all r show ?thesis by simp
    next
      case False
      then have more: "\<not> length (?R s) \<le> n" "nxt = key (last xs)" using nxt by (auto split: if_splits)
      have go: "scanned r \<noteq> budget" using page(1) [of fuel] Suc.prems(1,4) False cut_marked by auto
      have lt: "scanned r < budget" using go sc page(3) by simp
      have run: "loop fuel nxt r s1 = Some ((res', None), s')" using page(1) [of fuel] Suc.prems(1) False go by simp
      have I: "inv res' s'" "filter (\<lambda>x. \<not> nxt < key x) (offered s') = filter (\<lambda>x. \<not> nxt < key x) (offered s1)"
        "scanned res' = scanned r + int (length (filter (\<lambda>x. nxt < key x) (offered s1)))"
        "int (length (filter (\<lambda>x. nxt < key x) (offered s'))) \<le> left res' - left r"
        using Suc.IH [OF run _ lt Suc.prems(4)] S by auto
      have f: "filter (\<lambda>x. P x \<and> \<not> nxt < key x) (offered s') = filter (\<lambda>x. P x \<and> \<not> nxt < key x) (offered s1)" for P
        using arg_cong [OF I(2), of "filter P"] by (simp add: conj_commute)
      have "filter (\<lambda>x. \<not> c < key x) l = filter (\<lambda>x. \<not> c < key x \<and> \<not> nxt < key x) l" for l
        using lastk more(2) by (auto intro!: filter_cong dest: order.strict_trans)
      then have low: "filter (\<lambda>x. \<not> c < key x) (offered s') = filter (\<lambda>x. \<not> c < key x) (offered s)"
        using f [of "\<lambda>x. \<not> c < key x"] below by simp
      have "int (length (filter (\<lambda>x. c < key x) (offered s'))) \<le> left res' - left res"
        using count [of "offered s'"] f [of "\<lambda>x. c < key x"] mid I(4) S more(2) by simp
      with I(1,3) low high more sc len show ?thesis by simp
    qed
  qed
qed (simp add: loop_zero)

lemma run_complete:
  assumes "loop fuel start res s = Some ((res', None), s')" "inv res s" "scanned res < budget" "\<not> truncated res'"
  shows "inv res' s'" "scanned res' = scanned res + int (length (offered s))" "int (length (offered s')) \<le> left res' - left res"
proof -
  note L = loop_complete [OF assms]
  have "filter (\<lambda>x. start < key x) (offered s) = offered s" using offered_after [OF assms(2)] by (auto simp: filter_id_conv)
  moreover have "filter (\<lambda>x. start < key x) (offered s') = offered s'" using offered_after L by (auto simp: filter_id_conv)
  ultimately show "inv res' s'" "scanned res' = scanned res + int (length (offered s))"
    "int (length (offered s')) \<le> left res' - left res" using L by simp_all
qed

end

end
