(* ===== verification/ReachabilityRun.thy ===== *)
theory ReachabilityRun
  imports ReachabilityStore StoreMachine PagedRun
begin

section \<open>Reachability maintenance runs\<close>

text \<open>
  The run of \<open>internal/reachability/run.go\<close> is an instance of the paged loop, so runs over any
  repository return and are bounded; over the SQLite repository, under every fault of the
  driver, a run that ends without an error and without truncation leaves nothing due.
\<close>

subsection \<open>Bounds for every repository\<close>

definition reach_result_ok :: "reach_result \<Rightarrow> bool" where
  "reach_result_ok res \<longleftrightarrow>
     0 \<le> rr_reachable res \<and> 0 \<le> rr_unreachable res \<and> 0 \<le> rr_skipped res \<and>
     0 \<le> rr_inbox_responsive res \<and> 0 \<le> rr_inbox_rejected res \<and> 0 \<le> rr_inbox_unreachable res \<and>
     rr_inbox_responsive res + rr_inbox_rejected res + rr_inbox_unreachable res \<le> rr_reachable res"

definition reach_settled :: "reach_result \<Rightarrow> int" where
  "reach_settled res = rr_reachable res + rr_unreachable res + rr_skipped res"

lemma count_reach_ok:
  assumes "reach_result_ok res"
  shows "reach_result_ok (count_reach intent out res)" "reach_settled (count_reach intent out res) = reach_settled res + 1"
    "rr_scanned (count_reach intent out res) = rr_scanned res" "rr_truncated (count_reach intent out res) = rr_truncated res"
    "rr_observed (count_reach intent out res) = rr_observed res"
  using assms
  by (auto simp: count_reach_def reach_result_ok_def reach_settled_def Let_def
      split: ReachabilityWriteOutcome.splits inbox_probe.splits)

lemma count_reach_keeps [simp]:
  "rr_scanned (count_reach intent out res) = rr_scanned res" "rr_truncated (count_reach intent out res) = rr_truncated res"
  "rr_skipped (count_reach intent ReachabilityWriteApplied res) = rr_skipped res"
  by (auto simp: count_reach_def Let_def split: ReachabilityWriteOutcome.splits inbox_probe.splits)

lemma record_page_counts:
  assumes "record_page repo t ps res s = (out, s')" "reach_result_ok res" "reach_settled res = rr_scanned res"
  shows "case out of
      Inl (res', e) \<Rightarrow> reach_result_ok res' \<and> rr_truncated res' = rr_truncated res \<and> rr_scanned res \<le> rr_scanned res' \<and>
        rr_scanned res' \<le> rr_scanned res + int (length ps) \<and>
        reach_settled res' \<le> rr_scanned res' \<and> rr_scanned res' \<le> reach_settled res' + 1
    | Inr res' \<Rightarrow> reach_result_ok res' \<and> rr_truncated res' = rr_truncated res \<and>
        rr_scanned res' = rr_scanned res + int (length ps) \<and> reach_settled res' = rr_scanned res'"
  using assms
proof (induction ps arbitrary: res s)
  case (Cons p ps)
  show ?case
  proof (cases p)
    case (Inl e)
    with Cons.prems show ?thesis by auto
  next
    case (Inr intent)
    let ?res = "res\<lparr>rr_scanned := rr_scanned res + 1\<rparr>"
    have ok: "reach_result_ok ?res" using Cons.prems(2) by (simp add: reach_result_ok_def)
    have set: "reach_settled ?res = reach_settled res" by (simp add: reach_settled_def)
    obtain r s1 where rec: "repo_reach_record repo s intent t = (r, s1)" by fastforce
    show ?thesis
    proof (cases r)
      case Inl
      with Inr rec Cons.prems ok set show ?thesis by (auto simp: Let_def)
    next
      case out: (Inr w)
      note c = count_reach_ok [OF ok, of intent w]
      have run: "record_page repo t ps (count_reach intent w ?res) s1 = (out, s')"
        using Cons.prems(1) Inr rec out by (simp add: Let_def)
      have "reach_settled (count_reach intent w ?res) = rr_scanned (count_reach intent w ?res)"
        using c(2,3) set Cons.prems(3) by simp
      from Cons.IH [OF run c(1) this] c(3,4) show ?thesis by (auto split: sum.splits)
    qed
  qed
qed auto

lemma validateReachPage_length:
  assumes "validateReachPage (cs, nxt) c l t = None"
  shows "int (length cs) \<le> l"
  using assms by (auto simp: validateReachPage_def split: if_splits)

definition reach_final :: "reach_result \<Rightarrow> goerror option \<Rightarrow> bool" where
  "reach_final res err \<longleftrightarrow> reach_result_ok res \<and> 0 \<le> rr_scanned res \<and> rr_scanned res \<le> MaximumReachabilityAttemptsPerRun \<and>
     reach_settled res \<le> rr_scanned res \<and>
     rr_scanned res \<le> reach_settled res + (if err = None then 0 else 1) \<and>
     (rr_truncated res \<longrightarrow> err = None \<and> rr_scanned res = MaximumReachabilityAttemptsPerRun)"

definition reach_counted :: "reach_result \<Rightarrow> bool" where
  "reach_counted res \<longleftrightarrow> reach_result_ok res \<and> reach_settled res = rr_scanned res \<and> 0 \<le> rr_scanned res \<and>
     rr_scanned res \<le> MaximumReachabilityAttemptsPerRun \<and> \<not> rr_truncated res"

lemma record_page_scanned:
  "record_page repo t ps res s = (Inr res', s') \<Longrightarrow> rr_scanned res' = rr_scanned res + int (length ps)"
  by (induction ps arbitrary: res s) (auto simp: Let_def split: sum.splits prod.splits)

interpretation reach_pages: paged_loop "reach_loop repo pr t" rr_scanned MaximumReachabilityAttemptsPerRun reach_page_limit
  "repo_reach_ctx repo" "\<lambda>s c l. repo_reach_candidates repo s \<lparr>reach_after = c, reach_limit = l, reach_observed = t\<rparr>"
  "\<lambda>p c l. validateReachPage p c l t" "\<lambda>cs. record_page repo t (probePage pr cs)" zero_reach_cursor
  "rr_truncated_update (\<lambda>_. True)" for repo pr t
proof unfold_locales
  show "0 < reach_page_limit m \<and> reach_page_limit m \<le> MaximumReachabilityAttemptsPerRun - m"
    if "m < MaximumReachabilityAttemptsPerRun" for m
    using that by (auto simp: reach_page_limit_def reach_consts Let_def)
  show "rr_scanned res' = rr_scanned res + int (length xs)"
    if "record_page repo t (probePage pr xs) res s = (Inr res', s')" for xs res s res' s'
    using record_page_scanned [OF that] by (simp add: probePage_def)
qed (simp, simp only: reach_loop.simps Let_def, blast intro: validateReachPage_length)

lemma reach_Run_cases:
  obtains (early) "t < 0" "reach_Run repo pr t s = Some ((reach_result_at t, Some (Err ErrReachabilityConfiguration)), s)"
  | (loop) "0 \<le> t" "reach_Run repo pr t s =
      reach_loop repo pr t (Suc (nat MaximumReachabilityAttemptsPerRun)) zero_reach_cursor (reach_result_at t) s"
  by (cases "t < 0") (simp_all add: reach_Run_def del: reach_loop.simps)

lemma start_counted: "reach_counted (reach_result_at t)"
  by (simp add: reach_counted_def reach_result_at_def reach_result_ok_def reach_settled_def reach_consts)

text \<open>A run ends, and what holds at the start and is kept by every page and every early return holds at the end.\<close>

lemma reach_Run_rule:
  assumes start: "P (reach_result_at t) s"
    and keep: "\<And>xs res s out s'. P res s \<Longrightarrow> int (length xs) \<le> MaximumReachabilityAttemptsPerRun - rr_scanned res \<Longrightarrow>
      record_page repo t (probePage pr xs) res s = (out, s') \<Longrightarrow> case out of Inl (r, e) \<Rightarrow> Q r (Some e) s' | Inr r \<Rightarrow> P r s'"
    and stop: "\<And>res err s. P res s \<Longrightarrow> Q res err s"
    and cut: "\<And>res s. P res s \<Longrightarrow> rr_scanned res = MaximumReachabilityAttemptsPerRun \<Longrightarrow> Q (res\<lparr>rr_truncated := True\<rparr>) None s"
  shows "\<exists>res err s'. reach_Run repo pr t s = Some ((res, err), s') \<and> Q res err s'"
proof (cases rule: reach_Run_cases [of t repo pr s])
  case early
  with stop [OF start] show ?thesis by auto
next
  case loop
  have "nat (MaximumReachabilityAttemptsPerRun - rr_scanned (reach_result_at t)) < Suc (nat MaximumReachabilityAttemptsPerRun)"
    by (simp add: reach_result_at_def)
  from reach_pages.loop_returns [OF this, of repo pr t zero_reach_cursor s] obtain res err s' where
    run: "reach_loop repo pr t (Suc (nat MaximumReachabilityAttemptsPerRun)) zero_reach_cursor (reach_result_at t) s =
      Some ((res, err), s')" by blast
  have "Q res err s'"
    by (rule reach_pages.loop_rule [where P = P and Q = Q, OF run start _ stop cut]) (blast intro: keep)
  with run show ?thesis unfolding loop(2) by blast
qed

lemma record_page_counted:
  assumes "reach_counted res" "int (length xs) \<le> MaximumReachabilityAttemptsPerRun - rr_scanned res"
    "record_page repo t (probePage pr xs) res s = (out, s')"
  shows "case out of Inl (r, e) \<Rightarrow> reach_final r (Some e) | Inr r \<Rightarrow> reach_counted r"
proof -
  have "length (probePage pr xs) = length xs" by (simp add: probePage_def)
  with record_page_counts [OF assms(3)] assms(1,2) show ?thesis
    by (auto simp: reach_counted_def reach_final_def split: sum.splits)
qed

lemma counted_final:
  "reach_counted res \<Longrightarrow> reach_final res err"
  "reach_counted res \<Longrightarrow> rr_scanned res = MaximumReachabilityAttemptsPerRun \<Longrightarrow> reach_final (res\<lparr>rr_truncated := True\<rparr>) None"
  by (auto simp: reach_counted_def reach_final_def reach_result_ok_def reach_settled_def)

subsection \<open>Complete runs over the SQLite repository\<close>

definition too_recent :: "int \<Rightarrow> ReachabilityCandidate \<Rightarrow> bool" where
  "too_recent t x = (case rc_checked x of None \<Rightarrow> False | Some u \<Rightarrow> u > t - ReachabilityFailureRetryMinimum)"

lemma probeOne_actor: "probeOne pr actor = Inr intent \<Longrightarrow> ri_actor intent = actor"
  by (auto simp: probeOne_def probe_inbox_def reachable_intent_def Let_def
      split: option.splits if_splits inbox_result.splits)

lemma validate_reach_recent:
  "validate_reach_candidates (t - ReachabilityFailureRetryMinimum) c cs = Some p \<Longrightarrow> x \<in> set cs \<Longrightarrow> \<not> too_recent t x"
proof (induction cs arbitrary: c)
  case (Cons y cs)
  from Cons.prems(1) have rest: "validate_reach_candidates (t - ReachabilityFailureRetryMinimum) (reachabilityCursor y) cs = Some p"
    and y: "\<not> too_recent t y" by (simp_all add: too_recent_def split: if_splits)
  from Cons.prems(2) y Cons.IH [OF rest] show ?case by auto
qed simp

definition sqlite_reach :: "(reach_db \<Rightarrow> read_faults) \<Rightarrow> (reach_db \<Rightarrow> environment) \<Rightarrow> (reach_db \<Rightarrow> goerror option)
    \<Rightarrow> reach_db reach_repository" where
  "sqlite_reach rf env ctx = \<lparr>repo_reach_candidates = (\<lambda>s q. ReachabilityCandidates (rf s) q s),
     repo_reach_record = (\<lambda>s intent t. RecordReachabilityObservation (env s) intent t s), repo_reach_ctx = ctx\<rparr>"

definition reach_inv :: "reach_db \<Rightarrow> bool" where
  "reach_inv s \<longleftrightarrow> table_ok (relays (reach_core s)) \<and> table_ok (relay_discoveries (reach_core s)) \<and>
     [] \<notin> set (eligible_actors (reach_core s))"

definition reach_offered :: "reach_db \<Rightarrow> int \<Rightarrow> ReachabilityCandidate list" where
  "reach_offered s t = sort_key reachabilityCursor
     (map (candidate_of s) (filter (reach_due s t) (eligible_actors (reach_core s))))"

lemma reachabilityCursor_inj: "reachabilityCursor x = reachabilityCursor y \<longleftrightarrow> x = y"
  by (cases x; cases y) (auto simp: reachabilityCursor_def split: option.splits)

lemma eligible_actors_iff:
  assumes "table_ok (relays d)" "table_ok (relay_discoveries d)"
  shows "a \<in> set (eligible_actors d) \<longleftrightarrow> reachabilityEligible d a"
proof -
  have "a \<in> set (eligible_actors d) \<longleftrightarrow> (\<exists>r. (a, r) \<in> set (relays d) \<and> eligible_relay r) \<or>
      (\<exists>r. (a, r) \<in> set (relay_discoveries d) \<and> eligible_discovery d a r)"
    by (auto simp: eligible_actors_def image_iff)
  then show ?thesis by (simp add: reachabilityEligible_def table_ex [OF assms(1)] table_ex [OF assms(2)])
qed

lemma db_ok_reach_inv:
  assumes "db_ok (reach_core s)"
  shows "reach_inv s"
proof -
  have t: "table_ok (relays (reach_core s))" "table_ok (relay_discoveries (reach_core s))"
    using assms by (auto simp: db_ok_def relays_ok_def discoveries_ok_def)
  have "\<not> reachabilityEligible (reach_core s) []"
    using relays_okD [OF assms, of "[]"] discoveries_okD [OF assms, of "[]"]
    by (auto simp: reachabilityEligible_def relay_check_def discovery_check_def actor_length_ok_def split: option.splits)
  with t show ?thesis by (simp add: reach_inv_def eligible_actors_iff)
qed

lemma reach_inv_applied: "reach_inv s \<Longrightarrow> reach_inv (applied_reach intent t s)"
  by (simp add: reach_inv_def applied_core)

lemma offered_applied:
  assumes "0 < reach_delay intent t s"
  shows "reach_offered (applied_reach intent t s) t =
    filter (\<lambda>y. y \<noteq> candidate_of s (ri_actor intent)) (reach_offered s t)"
proof -
  let ?s = "applied_reach intent t s" and ?a = "ri_actor intent"
  have "candidate_of ?s b = candidate_of s b" if "b \<noteq> ?a" for b
    using applied_other(1) [OF that, of t s] by (simp add: candidate_of_def actor_checked_def)
  moreover have "reach_due ?s t b \<longleftrightarrow> b \<noteq> ?a \<and> reach_due s t b" for b
    using applied_due [of intent t s t] applied_other(3) [of b intent t s t] assms by (cases "b = ?a") auto
  ultimately have "map (candidate_of ?s) (filter (reach_due ?s t) E) =
      filter (\<lambda>y. y \<noteq> candidate_of s ?a) (map (candidate_of s) (filter (reach_due s t) E))" for E
    by (induction E) (auto simp: candidate_of_def)
  then show ?thesis by (simp add: reach_offered_def applied_core filter_sort)
qed

lemma reach_delay_positive: "0 < reach_delay intent t s"
  by (simp add: reach_delay_def retry_after_def reach_consts)

lemma sqlite_write:
  assumes "reach_inv s" "x \<in> set (reach_offered s t)" "\<not> too_recent t x" "ri_actor intent = rc_actor x"
    "repo_reach_record (sqlite_reach rf env ctx) s intent t = (Inr out, s')"
  shows "out = ReachabilityWriteApplied \<and> reach_inv s' \<and> reach_offered s' t = filter (\<lambda>y. y \<noteq> x) (reach_offered s t)"
proof -
  from assms(2) obtain a where a: "x = candidate_of s a" "a \<in> set (eligible_actors (reach_core s))"
    by (auto simp: reach_offered_def)
  have act: "ri_actor intent = a" using assms(4) a(1) by (simp add: candidate_of_def)
  have el: "reachabilityEligible (reach_core s) a" using a(2) assms(1) by (simp add: eligible_actors_iff reach_inv_def)
  have old: "\<not> newer_checked (map_of (relay_observations (reach_core s)) a) t"
    using assms(3) a(1)
    by (auto simp: too_recent_def candidate_of_def actor_checked_def newer_checked_def reach_consts split: option.splits)
  have "RecordReachabilityObservation (env s) intent t s = (Inr out, s')" using assms(5) by (simp add: sqlite_reach_def)
  then show ?thesis
  proof (cases rule: record_reach_cases)
    case applied
    with reach_inv_applied [OF assms(1)] offered_applied [OF reach_delay_positive, of intent t s] act a(1)
    show ?thesis by simp
  qed (use el old act in auto)
qed

lemma sqlite_page:
  assumes "record_page (sqlite_reach rf env ctx) t (probePage pr cs) res s = (Inr res', s')" "reach_inv s"
    "set cs \<subseteq> set (reach_offered s t)" "distinct cs" "\<And>x. x \<in> set cs \<Longrightarrow> \<not> too_recent t x"
  shows "reach_inv s' \<and> reach_offered s' t = filter (\<lambda>y. y \<notin> set cs) (reach_offered s t) \<and> rr_skipped res' = rr_skipped res"
  using assms
proof (induction cs arbitrary: res s)
  case (Cons x cs)
  from Cons.prems(1) obtain intent out s1 where
    probe: "(case slot_ctx pr (rc_actor x) of Some e \<Rightarrow> Inl e | None \<Rightarrow> probeOne pr (rc_actor x)) = Inr intent"
    and wr: "repo_reach_record (sqlite_reach rf env ctx) s intent t = (Inr out, s1)"
    and rest: "record_page (sqlite_reach rf env ctx) t (probePage pr cs)
        (count_reach intent out (res\<lparr>rr_scanned := rr_scanned res + 1\<rparr>)) s1 = (Inr res', s')"
    by (auto simp: probePage_def Let_def split: sum.splits prod.splits)
  have actor: "ri_actor intent = rc_actor x" using probe by (auto split: option.splits intro: probeOne_actor)
  have W: "out = ReachabilityWriteApplied" "reach_inv s1" "reach_offered s1 t = filter (\<lambda>y. y \<noteq> x) (reach_offered s t)"
    using sqlite_write [OF Cons.prems(2) _ _ actor wr] Cons.prems(3,5) by auto
  have "set cs \<subseteq> set (reach_offered s1 t)" using W(3) Cons.prems(3,4) by auto
  from Cons.IH [OF rest W(2) this] Cons.prems(4,5) W(1,3) show ?case by (auto intro!: filter_cong)
qed (simp add: probePage_def)

interpretation sqlite_reachability: paged_listing "reach_loop (sqlite_reach rf env ctx) pr t" rr_scanned
  MaximumReachabilityAttemptsPerRun reach_page_limit "repo_reach_ctx (sqlite_reach rf env ctx)"
  "\<lambda>s c l. repo_reach_candidates (sqlite_reach rf env ctx) s \<lparr>reach_after = c, reach_limit = l, reach_observed = t\<rparr>"
  "\<lambda>p c l. validateReachPage p c l t" "\<lambda>cs. record_page (sqlite_reach rf env ctx) t (probePage pr cs)" zero_reach_cursor
  "rr_truncated_update (\<lambda>_. True)" "\<lambda>res s. reach_inv s \<and> rr_skipped res = 0" "\<lambda>s. reach_offered s t" reachabilityCursor
  "\<lambda>_. 0" rr_truncated for rf env ctx pr t
proof unfold_locales
  fix s x c l p cs nxt and res res' :: reach_result and s'
  assume inv: "reach_inv s \<and> rr_skipped res = 0"
  have dist: "distinct (map reachabilityCursor (map (candidate_of s) (filter (reach_due s t) (eligible_actors (reach_core s)))))"
    by (auto simp: distinct_map inj_on_def reachabilityCursor_inj candidate_of_def eligible_actors_def)
  show "sorted_wrt (<) (map reachabilityCursor (reach_offered s t))"
    unfolding reach_offered_def by (rule sort_key_strict [OF dist])
  show "zero_reach_cursor < reachabilityCursor x" if "x \<in> set (reach_offered s t)"
  proof -
    from that inv have "rc_actor x \<noteq> []" by (auto simp: reach_offered_def reach_inv_def candidate_of_def)
    then show ?thesis
      by (auto simp: zero_reach_cursor_def reachabilityCursor_def less_prod_def Nil_less_Cons neq_Nil_conv split: option.splits)
  qed
  show "p = page_of reachabilityCursor zero_reach_cursor (nat l) (reach_offered s t) c"
    if "repo_reach_candidates (sqlite_reach rf env ctx) s \<lparr>reach_after = c, reach_limit = l, reach_observed = t\<rparr> = Inr p"
  proof -
    let ?rows = "map (candidate_of s) (filter (reach_due s t) (eligible_actors (reach_core s)))"
    from that have "read_page (decode_reach_candidate (t - ReachabilityFailureRetryMinimum)) reachabilityCursor zero_reach_cursor
        (nat l) [] (keyset_rows reachabilityCursor c (Suc (nat l)) ?rows) = Inr p"
      by (auto simp: sqlite_reach_def ReachabilityCandidates_def Let_def split: if_splits dest: scan_page_Inr)
    then have "read_page (\<lambda>r. Inr r :: _ result) reachabilityCursor zero_reach_cursor
        (nat l) [] (keyset_rows reachabilityCursor c (Suc (nat l)) ?rows) = Inr p"
      by (rule read_page_view) (simp add: decode_reach_candidate_def split: if_splits)
    with keyset_page [of ?rows "\<lambda>r. Inr r :: _ result" "\<lambda>r. r" reachabilityCursor reachabilityCursor zero_reach_cursor "nat l" c]
    show ?thesis by (simp add: reach_offered_def)
  qed
  show "(reach_inv s' \<and> rr_skipped res' = 0) \<and>
      filter (\<lambda>y. y \<notin> set cs) (reach_offered s' t) = filter (\<lambda>y. y \<notin> set cs) (reach_offered s t) \<and>
      int (length (filter (\<lambda>y. y \<in> set cs) (reach_offered s' t))) \<le> 0 - 0"
    if "set cs \<subseteq> set (reach_offered s t)" "distinct cs" "validateReachPage (cs, nxt) c l t = None" "cs \<noteq> []"
      "record_page (sqlite_reach rf env ctx) t (probePage pr cs) res s = (Inr res', s')"
  proof -
    have "\<not> too_recent t x" if "x \<in> set cs" for x
      using \<open>validateReachPage _ _ _ _ = None\<close> that
      by (auto simp: validateReachPage_def split: if_splits option.splits dest: validate_reach_recent)
    from sqlite_page [OF that(5) _ that(1,2) this] inv show ?thesis by (auto simp: filter_empty_conv)
  qed
qed simp

lemma same_observations [simp]: "d\<lparr>relay_observations := relay_observations d\<rparr> = (d :: db)"
  by (cases d) simp

lemma sqlite_write_frame:
  assumes "RecordReachabilityObservation env intent t u = (r, u')"
    "reach_core u = (reach_core s)\<lparr>relay_observations := relay_observations (reach_core u)\<rparr>"
  shows "reach_core u' = (reach_core s)\<lparr>relay_observations := relay_observations (reach_core u')\<rparr>"
  using assms(1)
proof (cases rule: record_reach_cases)
  case applied
  have "reach_core u' = (reach_core u)\<lparr>relay_observations := relay_observations (reach_core u')\<rparr>"
    using applied(2) by (simp add: applied_reach_def)
  also have "\<dots> = (reach_core s)\<lparr>relay_observations := relay_observations (reach_core u')\<rparr>"
    by (subst assms(2)) simp
  finally show ?thesis .
qed (use assms(2) in simp_all)

lemma record_page_keeps:
  assumes keep: "\<And>s intent r s'. P s \<Longrightarrow> repo_reach_record repo s intent t = (r, s') \<Longrightarrow> P s'"
    and "record_page repo t ps res s = (out, s')" "P s"
  shows "P s'"
  using assms(2,3)
proof (induction ps arbitrary: res s)
  case (Cons p ps)
  then show ?case
    by (auto simp: Let_def split: sum.splits prod.splits dest: keep)
qed simp

text \<open>C24: a maintenance run over the SQLite repository always returns, whatever the prober answers
  and whatever the driver does. It attempts at most 96 writes, accounts for every attempt, and
  reports truncation only at the full budget. It changes observations and diagnostics alone:
  relays, discoveries, events and settings are as before.\<close>

theorem reachability_run_safe:
  "\<exists>res err s'. reach_Run (sqlite_reach rf env ctx) pr t s = Some ((res, err), s') \<and>
     0 \<le> rr_scanned res \<and> rr_scanned res \<le> 96 \<and>
     (rr_scanned res = rr_reachable res + rr_unreachable res + rr_skipped res \<or>
      err \<noteq> None \<and> rr_scanned res = rr_reachable res + rr_unreachable res + rr_skipped res + 1) \<and>
     rr_inbox_responsive res + rr_inbox_rejected res + rr_inbox_unreachable res \<le> rr_reachable res \<and>
     (\<not> rr_truncated res \<or> err = None \<and> rr_scanned res = 96) \<and>
     reach_core s' = (reach_core s)\<lparr>relay_observations := relay_observations (reach_core s')\<rparr>"
proof -
  let ?F = "\<lambda>u. reach_core u = (reach_core s)\<lparr>relay_observations := relay_observations (reach_core u)\<rparr>"
  have frame: "?F s'" if "record_page (sqlite_reach rf env ctx) t ps res u = (out, s')" "?F u" for ps res u out s'
    by (rule record_page_keeps [where P = ?F, OF _ that]) (auto simp: sqlite_reach_def dest: sqlite_write_frame)
  have "\<exists>res err s'. reach_Run (sqlite_reach rf env ctx) pr t s = Some ((res, err), s') \<and> reach_final res err \<and> ?F s'"
  proof (rule reach_Run_rule [where P = "\<lambda>res u. reach_counted res \<and> ?F u" and Q = "\<lambda>res err u. reach_final res err \<and> ?F u"])
    show "case out of Inl (r, e) \<Rightarrow> reach_final r (Some e) \<and> ?F s' | Inr r \<Rightarrow> reach_counted r \<and> ?F s'"
      if "reach_counted res \<and> ?F u" "int (length xs) \<le> MaximumReachabilityAttemptsPerRun - rr_scanned res"
        "record_page (sqlite_reach rf env ctx) t (probePage pr xs) res u = (out, s')" for xs res u out s'
      using record_page_counted [OF _ that(2,3)] frame [OF that(3)] that(1) by (auto split: sum.splits)
  qed (use start_counted counted_final in auto)
  then obtain res err s' where run: "reach_Run (sqlite_reach rf env ctx) pr t s = Some ((res, err), s')"
    "reach_final res err" "?F s'" by blast
  have "rr_scanned res = rr_reachable res + rr_unreachable res + rr_skipped res \<or>
      err \<noteq> None \<and> rr_scanned res = rr_reachable res + rr_unreachable res + rr_skipped res + 1"
    using run(2) by (cases err) (auto simp: reach_final_def reach_settled_def)
  with run show ?thesis
    by (intro exI [of _ res] exI [of _ err] exI [of _ s'])
      (auto simp: reach_final_def reach_result_ok_def MaximumReachabilityAttemptsPerRun_def)
qed

text \<open>C23: over a well-formed database a run that ends without an error and is not truncated has
  left nothing to do, under any behaviour of the prober and of the driver: no eligible actor is
  due at the time of the run any more, every actor that was due was attempted once, and no
  attempt was skipped.\<close>

theorem reachability_run_complete:
  assumes "db_ok (reach_core s)" "reach_Run (sqlite_reach rf env ctx) pr t s = Some ((res, None), s')" "\<not> rr_truncated res"
  shows "filter (reach_due s' t) (eligible_actors (reach_core s')) = [] \<and>
    rr_scanned res = int (length (filter (reach_due s t) (eligible_actors (reach_core s)))) \<and> rr_skipped res = 0"
proof (cases rule: reach_Run_cases [of t "sqlite_reach rf env ctx" pr s])
  case early
  with assms(2) show ?thesis by simp
next
  case loop
  have inv: "reach_inv s \<and> rr_skipped (reach_result_at t) = 0" "rr_scanned (reach_result_at t) < MaximumReachabilityAttemptsPerRun"
    using db_ok_reach_inv [OF assms(1)] by (simp_all add: reach_result_at_def reach_consts)
  note L = sqlite_reachability.run_complete [OF assms(2) [unfolded loop(2)] inv assms(3)]
  have "reach_offered s' t = []" using L(3) by simp
  moreover have "length (reach_offered s t) = length (filter (reach_due s t) (eligible_actors (reach_core s)))"
    by (simp add: reach_offered_def)
  ultimately show ?thesis
    using L by (auto simp: reach_offered_def reach_result_at_def simp flip: length_0_conv)
qed

subsection \<open>A concrete run\<close>

definition sample_reach_db :: reach_db where
  "sample_reach_db = \<lparr>reach_core = registered_db, probe_diagnostics = []\<rparr>"

definition dns_timeout :: ProbeDiagnostic where
  "dns_timeout = \<lparr>Stage = ''dns'', Code = ''timeout'', HTTPStatus = 0\<rparr>"

definition sample_failure :: ReachabilityObservationIntent where
  "sample_failure = \<lparr>ri_actor = sample_actor, ri_state = ReachabilityUnreachable, ri_inbox = [],
     ri_inbox_state = InboxNotChecked, ri_actor_diagnostic = dns_timeout, ri_inbox_diagnostic = no_diagnostic\<rparr>"

definition silent_prober :: prober where
  "silent_prober = \<lparr>ask_actor = (\<lambda>_. \<lparr>pa_value = ([], []), pa_diagnostic = dns_timeout, pa_err = Some (Opaque ''timeout''), pa_ctx = None\<rparr>),
     ask_inbox = (\<lambda>_. \<lparr>pa_value = InboxProbeUnreachable, pa_diagnostic = no_diagnostic, pa_err = None, pa_ctx = None\<rparr>),
     slot_ctx = (\<lambda>_. None)\<rparr>"

lemma sample_core:
  "relays (reach_core sample_reach_db) = [(sample_actor, register_new_row sample_base 5)]"
  "relay_discoveries (reach_core sample_reach_db) = []"
  "relay_observations (reach_core sample_reach_db) = [(sample_actor, verified_observation 5 None)]"
  "probe_diagnostics sample_reach_db = []"
  by (simp_all add: sample_reach_db_def registered_db_eq opened_db_facts)
    (simp_all add: opened_db_eq accept_relay_def log_relay_def put_verified_def put_relay_def log_enrollment_def migrated_def)

lemma sample_reach_ok: "db_ok (reach_core sample_reach_db)"
  by (simp add: sample_reach_db_def registered_db_ok)

lemma sample_eligible:
  "reachabilityEligible (reach_core sample_reach_db) sample_actor" "eligible_actors (reach_core sample_reach_db) = [sample_actor]"
  "\<not> newer_checked (map_of (relay_observations (reach_core sample_reach_db)) sample_actor) 9"
  "reach_due sample_reach_db 9 sample_actor"
  by (simp_all add: reachabilityEligible_def eligible_actors_def sample_core eligible_relay_def register_new_row_def
      newer_checked_def reach_due_def verified_observation_def empty_observation_def Let_def)

lemma sample_failure_valid: "validateReachabilityObservationIntent sample_failure = None"
  by (simp add: validateReachabilityObservationIntent_def sample_failure_def dns_timeout_def no_diagnostic_def
      ProbeDiagnostic_Valid_def sample_actor_canonical)

lemma sample_delay: "reach_delay sample_failure 9 sample_reach_db = 3600"
  by (simp add: reach_delay_def sample_failure_def last_online_def sample_core register_new_row_def reach_consts
      coalesce_minus_def retry_after_def next_streak_def)

lemma sample_failure_applied:
  "RecordReachabilityObservation calm sample_failure 9 sample_reach_db =
     (Inr ReachabilityWriteApplied, applied_reach sample_failure 9 sample_reach_db)"
proof -
  have "observation_check sample_actor (reach_row sample_failure 9 (reach_core sample_reach_db))"
    by (simp add: observation_check_def reach_row_def base_observation_def sample_core reach_observed_row_def sample_failure_def
        verified_observation_def empty_observation_def maxInt64_def actor_probe_ok_def opt_le_def actor_length_ok_def sample_actor_def
        maximumRelayActorBytes_def)
  moreover have "diagnostic_check (reach_diagnostic sample_failure 9 sample_reach_db)"
    by (simp add: diagnostic_check_def reach_diagnostic_def sample_delay diagnostic_part_check_def sample_core)
      (simp add: sample_failure_def dns_timeout_def no_diagnostic_def reach_streak_def sample_core next_streak_def reach_consts)
  moreover have "ri_actor sample_failure = sample_actor" by (simp add: sample_failure_def)
  ultimately show ?thesis
    using record_reach_calm [of sample_reach_db sample_failure 9] sample_eligible(1,3)
    by (simp add: RecordReachabilityObservation_def sample_failure_valid observationUnix_def) (simp add: sample_core)
qed

theorem reachability_run_safe_witness:
  "\<exists>res err s'. reach_Run (sqlite_reach (\<lambda>_. quiet) (\<lambda>_. calm) (\<lambda>_. None)) silent_prober 9 sample_reach_db = Some ((res, err), s') \<and>
     rr_scanned res \<le> 96"
  using reachability_run_safe [of "\<lambda>_. quiet" "\<lambda>_. calm" "\<lambda>_. None" silent_prober 9 sample_reach_db] by blast

theorem reachability_write_effect_witness:
  "\<exists>s'. RecordReachabilityObservation calm sample_failure 9 sample_reach_db = (Inr ReachabilityWriteApplied, s') \<and>
     reach_due s' 3609 sample_actor \<and> \<not> reach_due s' 3608 sample_actor"
  using reachability_write_effect [OF sample_failure_applied]
  by (simp add: sample_failure_applied)
    (simp add: sample_failure_def last_online_def sample_core register_new_row_def coalesce_minus_def backoff_def earlier_failures_def)

lemma sample_run:
  "\<exists>res s'. reach_Run (sqlite_reach (\<lambda>_. quiet) (\<lambda>_. calm) (\<lambda>_. None)) silent_prober 9 sample_reach_db = Some ((res, None), s') \<and>
     \<not> rr_truncated res \<and> rr_unreachable res = 1"
proof -
  let ?c = "candidate_of sample_reach_db sample_actor"
  have c: "?c = \<lparr>rc_actor = sample_actor, rc_checked = None\<rparr>"
    by (simp add: candidate_of_def actor_checked_def sample_core verified_observation_def empty_observation_def Let_def)
  have "ReachabilityCandidates quiet \<lparr>reach_after = zero_reach_cursor, reach_limit = 24, reach_observed = 9\<rparr> sample_reach_db =
      Inr ([?c], zero_reach_cursor)"
    by (simp add: ReachabilityCandidates_def reach_cursor_Valid_def reach_consts zero_reach_cursor_def Let_def sample_eligible c
        keyset_rows_def reachabilityCursor_def less_prod_def decode_reach_candidate_def sample_actor_canonical)
      (simp add: sample_actor_def Nil_less_Cons)
  moreover have "probePage silent_prober [?c] = [Inr sample_failure]"
    by (simp add: probePage_def probeOne_def silent_prober_def c sample_failure_def Let_def dns_timeout_def no_diagnostic_def
        ProbeDiagnostic_Valid_def)
  moreover have "validateReachPage ([?c], zero_reach_cursor) zero_reach_cursor 24 9 = None"
    by (simp add: validateReachPage_def reach_consts c sample_actor_canonical reachCursorAfter_def reachabilityCursor_def)
  moreover define n where "n = nat MaximumReachabilityAttemptsPerRun"
  ultimately show ?thesis
    unfolding reach_Run_def n_def [symmetric]
    by (simp add: reach_result_at_def sqlite_reach_def reach_page_limit_def reach_consts sample_failure_applied
        count_reach_def Let_def) (simp add: sample_failure_def)
qed

theorem reachability_run_complete_witness:
  "\<exists>res s'. reach_Run (sqlite_reach (\<lambda>_. quiet) (\<lambda>_. calm) (\<lambda>_. None)) silent_prober 9 sample_reach_db = Some ((res, None), s') \<and>
     rr_scanned res = 1 \<and> rr_skipped res = 0 \<and> filter (reach_due s' 9) (eligible_actors (reach_core s')) = []"
proof -
  obtain res s' where run: "reach_Run (sqlite_reach (\<lambda>_. quiet) (\<lambda>_. calm) (\<lambda>_. None)) silent_prober 9 sample_reach_db =
      Some ((res, None), s')" "\<not> rr_truncated res" using sample_run by blast
  from reachability_run_complete [OF sample_reach_ok run] run(1) sample_eligible show ?thesis by auto
qed

end
