(* ===== verification/CandidateRun.thy ===== *)
theory CandidateRun
  imports CandidateStore ReachabilityRun
begin

section \<open>Candidate maintenance runs\<close>

text \<open>
  The run of \<open>internal/candidatemaintenance/run.go\<close> is an instance of the paged loop. Over the
  SQLite repository, under every fault of the driver, a run that ends without an error and
  without truncation leaves due only candidates it reports as skipped.
\<close>

subsection \<open>Bounds for every repository\<close>

definition candidate_settled :: "candidate_result \<Rightarrow> int" where
  "candidate_settled res = cr_promoted res + cr_unreachable res + cr_incompatible res + cr_skipped res"

definition candidate_counts_ok :: "candidate_result \<Rightarrow> bool" where
  "candidate_counts_ok res \<longleftrightarrow> 0 \<le> cr_promoted res \<and> 0 \<le> cr_unreachable res \<and> 0 \<le> cr_incompatible res \<and> 0 \<le> cr_skipped res"

lemma count_simps [simp]:
  "cr_scanned (count_promotion out res) = cr_scanned res" "cr_scanned (count_failure f res) = cr_scanned res"
  "cr_truncated (count_promotion out res) = cr_truncated res" "cr_truncated (count_failure f res) = cr_truncated res"
  "candidate_settled (count_promotion out res) = candidate_settled res + 1"
  "candidate_settled (count_failure f res) = candidate_settled res + 1"
  "candidate_counts_ok res \<Longrightarrow> candidate_counts_ok (count_promotion out res)"
  "candidate_counts_ok res \<Longrightarrow> candidate_counts_ok (count_failure f res)"
  "cr_skipped (count_failure f res) = cr_skipped res"
  "candidate_settled (res\<lparr>cr_scanned := n\<rparr>) = candidate_settled res"
  "candidate_counts_ok (res\<lparr>cr_scanned := n\<rparr>) = candidate_counts_ok res"
  by (auto simp: count_promotion_def count_failure_def candidate_settled_def candidate_counts_ok_def
      split: DiscoveryCandidatePromotionOutcome.splits)

lemma settle_page_counts:
  assumes "settle_page repo t ps res s = (out, s')" "candidate_counts_ok res" "candidate_settled res = cr_scanned res"
  shows "case out of
      Inl (res', e) \<Rightarrow> candidate_counts_ok res' \<and> cr_truncated res' = cr_truncated res \<and> cr_scanned res \<le> cr_scanned res' \<and>
        cr_scanned res' \<le> cr_scanned res + int (length ps) \<and>
        candidate_settled res' \<le> cr_scanned res' \<and> cr_scanned res' \<le> candidate_settled res' + 1
    | Inr res' \<Rightarrow> candidate_counts_ok res' \<and> cr_truncated res' = cr_truncated res \<and>
        cr_scanned res' = cr_scanned res + int (length ps) \<and> candidate_settled res' = cr_scanned res'"
  using assms
proof (induction ps arbitrary: res s)
  case (Cons cp ps)
  obtain c p where cp: "cp = (c, p)" by (cases cp)
  let ?res = "res\<lparr>cr_scanned := cr_scanned res + 1\<rparr>"
  show ?case
  proof (cases p)
    case (ProbePromotion intent)
    obtain w s1 where wr: "repo_promote repo s (with_provenance c intent) t = (w, s1)" by fastforce
    show ?thesis
    proof (cases w)
      case (Inl e)
      with Cons.prems cp ProbePromotion wr show ?thesis by (auto simp: Let_def)
    next
      case (Inr o1)
      with Cons.prems cp ProbePromotion wr Cons.IH [of "count_promotion o1 ?res" s1] show ?thesis
        by (auto simp: Let_def split: sum.splits)
    qed
  next
    case (ProbeFailure f)
    obtain w s1 where wr: "repo_retain repo s (failure_intent c f) t = (w, s1)" by fastforce
    show ?thesis
    proof (cases w)
      case (Inl e)
      with Cons.prems cp ProbeFailure wr show ?thesis by (auto simp: Let_def)
    next
      case (Inr o1)
      with Cons.prems cp ProbeFailure wr Cons.IH [of "count_failure f ?res" s1] show ?thesis
        by (auto simp: Let_def split: sum.splits)
    qed
  next
    case (ProbeError e)
    with Cons.prems cp show ?thesis by (auto simp: Let_def)
  qed
qed auto

lemma settle_page_scanned:
  "settle_page repo t ps res s = (Inr res', s') \<Longrightarrow> cr_scanned res' = cr_scanned res + int (length ps)"
proof (induction ps arbitrary: res s)
  case (Cons cp ps)
  then show ?case
    by (cases cp) (auto simp: Let_def split: candidate_probe.splits sum.splits prod.splits)
qed auto

lemma validateCheckPage_length: "validateCheckPage (cs, nxt) c l t = None \<Longrightarrow> int (length cs) \<le> l"
  by (auto simp: validateCheckPage_def split: if_splits)

interpretation candidate_pages: paged_loop "candidate_loop repo pr t" cr_scanned MaximumDiscoveryCandidateAttempts
  candidate_page_limit "repo_candidate_ctx repo" "\<lambda>s c l. repo_checks repo s \<lparr>cq_after = c, cq_limit = l, cq_observed = t\<rparr>"
  "\<lambda>p c l. validateCheckPage p c l t" "\<lambda>cs. settle_page repo t (zip cs (probe_candidates pr cs))" zero_check_cursor
  "cr_truncated_update (\<lambda>_. True)" for repo pr t
proof unfold_locales
  show "0 < candidate_page_limit m \<and> candidate_page_limit m \<le> MaximumDiscoveryCandidateAttempts - m"
    if "m < MaximumDiscoveryCandidateAttempts" for m
    using that by (auto simp: candidate_page_limit_def candidate_consts Let_def)
  show "cr_scanned res' = cr_scanned res + int (length xs)"
    if "settle_page repo t (zip xs (probe_candidates pr xs)) res s = (Inr res', s')" for xs res s res' s'
    using settle_page_scanned [OF that] by (simp add: probe_candidates_def)
qed (simp, simp only: candidate_loop.simps Let_def, blast intro: validateCheckPage_length)

definition candidate_counted :: "candidate_result \<Rightarrow> bool" where
  "candidate_counted res \<longleftrightarrow> candidate_counts_ok res \<and> candidate_settled res = cr_scanned res \<and>
     cr_scanned res \<le> MaximumDiscoveryCandidateAttempts \<and> \<not> cr_truncated res"

definition candidate_final :: "candidate_result \<Rightarrow> goerror option \<Rightarrow> bool" where
  "candidate_final res err \<longleftrightarrow> candidate_counts_ok res \<and> cr_scanned res \<le> MaximumDiscoveryCandidateAttempts \<and>
     candidate_settled res \<le> cr_scanned res \<and> cr_scanned res \<le> candidate_settled res + (if err = None then 0 else 1) \<and>
     (cr_truncated res \<longrightarrow> err = None \<and> cr_scanned res = MaximumDiscoveryCandidateAttempts)"

lemma start_candidate_counted: "candidate_counted (candidate_result_at t)"
  by (simp add: candidate_counted_def candidate_result_at_def candidate_counts_ok_def candidate_settled_def candidate_consts)

lemma candidate_counted_final:
  "candidate_counted res \<Longrightarrow> candidate_final res err"
  "candidate_counted res \<Longrightarrow> cr_scanned res = MaximumDiscoveryCandidateAttempts \<Longrightarrow> candidate_final (res\<lparr>cr_truncated := True\<rparr>) None"
  by (auto simp: candidate_counted_def candidate_final_def candidate_counts_ok_def candidate_settled_def)

lemma settle_page_counted:
  assumes "candidate_counted res" "int (length xs) \<le> MaximumDiscoveryCandidateAttempts - cr_scanned res"
    "settle_page repo t (zip xs (probe_candidates pr xs)) res s = (out, s')"
  shows "case out of Inl (r, e) \<Rightarrow> candidate_final r (Some e) | Inr r \<Rightarrow> candidate_counted r"
proof -
  have "length (zip xs (probe_candidates pr xs)) = length xs" by (simp add: probe_candidates_def)
  with settle_page_counts [OF assms(3)] assms(1,2) show ?thesis
    by (auto simp: candidate_counted_def candidate_final_def split: sum.splits)
qed

lemma candidate_Run_cases:
  obtains (early) "t < 0" "candidate_Run repo pr t s = Some ((candidate_result_at t, Some (Err ErrCandidateConfiguration)), s)"
  | (loop) "0 \<le> t" "candidate_Run repo pr t s =
      candidate_loop repo pr t (Suc (nat MaximumDiscoveryCandidateAttempts)) zero_check_cursor (candidate_result_at t) s"
  by (cases "t < 0") (simp_all add: candidate_Run_def del: candidate_loop.simps)

lemma settle_page_keeps:
  assumes keep: "\<And>s intent r s'. P s \<Longrightarrow> repo_promote repo s intent t = (r, s') \<Longrightarrow> P s'"
    "\<And>s intent r s'. P s \<Longrightarrow> repo_retain repo s intent t = (r, s') \<Longrightarrow> P s'"
    and "settle_page repo t ps res s = (out, s')" "P s"
  shows "P s'"
  using assms(3,4)
proof (induction ps arbitrary: res s)
  case (Cons cp ps)
  then show ?case
    by (cases cp) (auto simp: Let_def split: candidate_probe.splits sum.splits prod.splits dest: keep)
qed simp

text \<open>A run ends, within its bounds, and keeps what the two writes keep.\<close>

lemma candidate_Run_ends:
  assumes keep: "\<And>s intent r s'. P s \<Longrightarrow> repo_promote repo s intent t = (r, s') \<Longrightarrow> P s'"
    "\<And>s intent r s'. P s \<Longrightarrow> repo_retain repo s intent t = (r, s') \<Longrightarrow> P s'" and "P s"
  shows "\<exists>res err s'. candidate_Run repo pr t s = Some ((res, err), s') \<and> candidate_final res err \<and> P s'"
proof (cases rule: candidate_Run_cases [of t repo pr s])
  case early
  with candidate_counted_final [OF start_candidate_counted] assms(3) show ?thesis by auto
next
  case loop
  have "nat (MaximumDiscoveryCandidateAttempts - cr_scanned (candidate_result_at t)) < Suc (nat MaximumDiscoveryCandidateAttempts)"
    by (simp add: candidate_result_at_def)
  from candidate_pages.loop_returns [OF this, of repo pr t zero_check_cursor s] obtain res err s' where
    run: "candidate_loop repo pr t (Suc (nat MaximumDiscoveryCandidateAttempts)) zero_check_cursor (candidate_result_at t) s =
      Some ((res, err), s')" by blast
  have "candidate_final res err \<and> P s'"
  proof (rule candidate_pages.loop_rule [where P = "\<lambda>res s. candidate_counted res \<and> P s" and
        Q = "\<lambda>res err s. candidate_final res err \<and> P s", OF run])
    show "case out of Inl (r, e) \<Rightarrow> candidate_final r (Some e) \<and> P s' | Inr r \<Rightarrow> candidate_counted r \<and> P s'"
      if "candidate_counted res \<and> P s" "int (length xs) \<le> MaximumDiscoveryCandidateAttempts - cr_scanned res"
        "settle_page repo t (zip xs (probe_candidates pr xs)) res s = (out, s')" for xs res s out s'
      using settle_page_counted [OF _ that(2,3)] settle_page_keeps [where P = P, OF keep that(3)] that(1)
      by (auto split: sum.splits)
  qed (use start_candidate_counted candidate_counted_final assms(3) in auto)
  with run show ?thesis unfolding loop(2) by blast
qed

subsection \<open>The SQLite repository\<close>

definition sqlite_candidates :: "(cand_db \<Rightarrow> read_faults) \<Rightarrow> (cand_db \<Rightarrow> environment) \<Rightarrow> (cand_db \<Rightarrow> goerror option)
    \<Rightarrow> cand_db candidate_repository" where
  "sqlite_candidates rf env ctx =
     \<lparr>repo_checks = (\<lambda>s q. DiscoveryCandidateChecks (rf s) q s),
      repo_retain = (\<lambda>s intent t. RetainDiscoveryCandidate (env s) intent t s),
      repo_promote = (\<lambda>s intent t. PromoteDiscoveryCandidate (env s) intent t s), repo_candidate_ctx = ctx\<rparr>"

definition candidates_offered :: "cand_db \<Rightarrow> int \<Rightarrow> DiscoveryCandidateCheck list" where
  "candidates_offered s t = sort_key check_cursor_of (map (check_of s) (filter (candidate_due s t) (candidates s)))"

lemma check_of_simps [simp]: "cc_actor (check_of s ar) = fst ar" "cc_next_check (check_of s ar) = candidate_next_check (snd ar)"
  by (auto simp: check_of_def split: prod.splits option.splits)

lemma first_event_other:
  assumes "candidate_events s' = candidate_events s @ [e]" "ce_actor e \<noteq> b"
  shows "first_candidate_event s' b = first_candidate_event s b"
  using assms by (simp add: first_candidate_event_def find_filter filter_sort)

lemma offered_mem:
  "x \<in> set (candidates_offered s t) \<longleftrightarrow> (\<exists>ar \<in> set (candidates s). candidate_due s t ar \<and> x = check_of s ar)"
  by (auto simp: candidates_offered_def)

lemma offered_actor_unique:
  assumes "table_ok (candidates s)" "x \<in> set (candidates_offered s t)" "y \<in> set (candidates_offered s t)" "cc_actor x = cc_actor y"
  shows "x = y"
proof -
  from assms(2,3) obtain ar br where "ar \<in> set (candidates s)" "x = check_of s ar" "br \<in> set (candidates s)" "y = check_of s br"
    by (auto simp: offered_mem)
  with table_unique [OF assms(1), of ar br] assms(4) show ?thesis by simp
qed

lemma offered_distinct:
  assumes "table_ok (candidates s)"
  shows "distinct (map check_cursor_of (map (check_of s) (filter (candidate_due s t) (candidates s))))"
proof -
  have "inj_on (\<lambda>ar. check_cursor_of (check_of s ar)) (set (candidates s))"
  proof (rule inj_onI)
    fix ar br
    assume m: "ar \<in> set (candidates s)" "br \<in> set (candidates s)" "check_cursor_of (check_of s ar) = check_cursor_of (check_of s br)"
    then have "fst ar = fst br" by (simp add: check_cursor_of_def)
    then show "ar = br" by (rule table_unique [OF assms m(1,2)])
  qed
  moreover have "distinct (candidates s)" using assms by (simp add: distinct_map)
  ultimately show ?thesis by (auto simp: distinct_map inj_on_def)
qed

lemma offered_replaced:
  assumes "candidates s' = AList.update a r (candidates s)" "candidate_events s' = candidate_events s @ [e]" "ce_actor e = a"
    "\<not> candidate_due s' t (a, r)" "table_ok (candidates s)"
  shows "candidates_offered s' t = filter (\<lambda>y. cc_actor y \<noteq> a) (candidates_offered s t)"
proof -
  have other: "candidate_due s' t ar = candidate_due s t ar" "check_of s' ar = check_of s ar" if "fst ar \<noteq> a" for ar
    using first_event_other [OF assms(2), of "fst ar"] that assms(3)
    by (auto simp: candidate_due_def check_of_def split: prod.splits)
  have "filter (candidate_due s' t) (candidates s') = filter (\<lambda>ar. fst ar \<noteq> a) (filter (candidate_due s' t) (candidates s))"
    unfolding assms(1) by (rule filter_update_dropped [of "candidate_due s' t", OF assms(4,5)])
  also have "\<dots> = filter (\<lambda>ar. fst ar \<noteq> a) (filter (candidate_due s t) (candidates s))"
    by (auto simp: filter_filter other intro!: filter_cong)
  finally have "map (check_of s') (filter (candidate_due s' t) (candidates s')) =
      map (check_of s) (filter (\<lambda>ar. fst ar \<noteq> a) (filter (candidate_due s t) (candidates s)))"
    by (auto simp: other)
  also have "\<dots> = filter (\<lambda>y. cc_actor y \<noteq> a) (map (check_of s) (filter (candidate_due s t) (candidates s)))"
    by (simp add: filter_map o_def)
  finally show ?thesis by (simp add: candidates_offered_def filter_sort)
qed

lemma ledger_table: "cand_ledger s \<Longrightarrow> table_ok (candidates s)"
  by (simp add: cand_ledger_def)

lemma delay_positive: "0 < candidate_next_check r - cand_last_checked r"
  by (simp add: candidate_next_check_def candidate_consts)

lemma offered_minus:
  assumes "table_ok (candidates s)" "x \<in> set (candidates_offered s t)"
  shows "filter (\<lambda>y. cc_actor y \<noteq> cc_actor x) (candidates_offered s t) = filter (\<lambda>y. y \<noteq> x) (candidates_offered s t)"
  using offered_actor_unique [OF assms(1) _ assms(2)] by (auto intro!: filter_cong)

lemma sqlite_promote:
  assumes "cand_ledger s" "x \<in> set (candidates_offered s t)" "pi_actor intent = cc_actor x"
    "repo_promote (sqlite_candidates rf env ctx) s intent t = (Inr out, s')"
  shows "if out = DiscoveryCandidatePromoted then candidates_offered s' t = filter (\<lambda>y. y \<noteq> x) (candidates_offered s t) else s' = s"
proof -
  have "PromoteDiscoveryCandidate (env s) intent t s = (Inr out, s')" using assms(4) by (simp add: sqlite_candidates_def)
  then show ?thesis
  proof (cases rule: promote_cases)
    case (promoted c)
    have "candidates_offered s' t = filter (\<lambda>y. cc_actor y \<noteq> cc_actor x) (candidates_offered s t)"
      using promoted(2) assms(3) promoted_simps [of intent t c s] ledger_table [OF assms(1)]
      by (intro offered_replaced [where e = "candidate_event_of (resolved_event intent) CandidateResolved t s" and r = "resolved_row t c"])
        (simp_all add: candidate_event_of_def resolved_event_def candidate_due_def resolved_row_def)
    with promoted(1) offered_minus [OF ledger_table [OF assms(1)] assms(2)] show ?thesis by simp
  qed simp_all
qed

lemma sqlite_retain:
  assumes "cand_ledger s" "x \<in> set (candidates_offered s t)" "ci_actor intent = cc_actor x"
    "repo_retain (sqlite_candidates rf env ctx) s intent t = (Inr out, s')"
  shows "candidates_offered s' t = filter (\<lambda>y. y \<noteq> x) (candidates_offered s t)"
proof -
  obtain ar where ar: "ar \<in> set (candidates s)" "x = check_of s ar" using assms(2) by (auto simp: offered_mem)
  then have row: "map_of (candidates s) (ci_actor intent) = Some (snd ar)"
    using map_of_is_SomeI [OF ledger_table [OF assms(1)], of "fst ar" "snd ar"] assms(3) by simp
  have "RetainDiscoveryCandidate (env s) intent t s = (Inr out, s')" using assms(4) by (simp add: sqlite_candidates_def)
  then show ?thesis
  proof (cases rule: retain_cases)
    case (kept o1)
    let ?r = "retried_row intent t (snd ar)"
    have s': "candidates s' = AList.update (cc_actor x) ?r (candidates s)"
      "candidate_events s' = candidate_events s @ [candidate_event_of intent CandidateUpdated t s]"
      using kept(2) row assms(3) by (simp_all add: retained_candidate_def log_candidate_def put_candidate_def candidate_event_of_def)
    have late: "\<not> candidate_next_check ?r \<le> t" using delay_positive [of ?r] by (simp add: retried_row_def)
    have "candidates_offered s' t = filter (\<lambda>y. cc_actor y \<noteq> cc_actor x) (candidates_offered s t)"
      by (rule offered_replaced [OF s' _ _ ledger_table [OF assms(1)]])
        (use late assms(3) in \<open>simp_all add: candidate_event_of_def candidate_due_def\<close>)
    with offered_minus [OF ledger_table [OF assms(1)] assms(2)] show ?thesis by simp
  qed simp
qed

lemma probe_actor: "probe_candidate pr c = ProbePromotion intent \<Longrightarrow> pi_actor intent = cc_actor c"
  by (auto simp: probe_candidate_def probe_candidate_inbox_def promotion_intent_def Let_def
      split: option.splits if_splits inbox_result.splits)

lemma sqlite_ledger:
  assumes "cand_ledger s"
  shows "repo_promote (sqlite_candidates rf env ctx) s p t = (r, s') \<Longrightarrow> cand_ledger s'"
    "repo_retain (sqlite_candidates rf env ctx) s q t = (w, s') \<Longrightarrow> cand_ledger s'"
  using assms by (auto simp: sqlite_candidates_def dest: retain_ledger promote_ledger)

lemma offered_list:
  assumes "cand_ledger s"
  shows "sorted_wrt (<) (map check_cursor_of (candidates_offered s t))" "distinct (candidates_offered s t)"
    "x \<in> set (candidates_offered s t) \<Longrightarrow> zero_check_cursor < check_cursor_of x"
proof -
  show srt: "sorted_wrt (<) (map check_cursor_of (candidates_offered s t))"
    unfolding candidates_offered_def by (rule sort_key_strict [OF offered_distinct [OF ledger_table [OF assms]]])
  then show "distinct (candidates_offered s t)" by (auto simp: strict_sorted_iff distinct_map)
  assume "x \<in> set (candidates_offered s t)"
  then obtain ar where ar: "ar \<in> set (candidates s)" "x = check_of s ar" by (auto simp: offered_mem)
  then have "map_of (candidates s) (fst ar) = Some (snd ar)"
    using map_of_is_SomeI [OF ledger_table [OF assms], of "fst ar" "snd ar"] by simp
  then have "history_agrees (fst ar) (snd ar) (candidate_history s (fst ar))"
    using assms unfolding cand_ledger_def by (metis option.simps(5))
  then have "fst ar \<noteq> []" "0 \<le> cand_last_checked (snd ar)"
    by (auto simp: history_agrees_def candidate_check_def actor_length_ok_def)
  with ar(2) delay_positive [of "snd ar"] show "zero_check_cursor < check_cursor_of x"
    by (cases "fst ar") (auto simp: zero_check_cursor_def check_cursor_of_def less_prod_def)
qed

text \<open>One settled candidate leaves the list, or is counted as skipped and nothing changed.\<close>

lemma sqlite_settle_one:
  assumes "settle_page (sqlite_candidates rf env ctx) t ((c, p) # ps) res s = (Inr res', s')" "cand_ledger s"
    "c \<in> set (candidates_offered s t)" "p = (case slot_ctx pr (cc_actor c) of Some e \<Rightarrow> ProbeError e | None \<Rightarrow> probe_candidate pr c)"
  obtains res1 s1 where "settle_page (sqlite_candidates rf env ctx) t ps res1 s1 = (Inr res', s')" "cand_ledger s1"
    "candidates_offered s1 t = filter (\<lambda>y. y \<noteq> c) (candidates_offered s t) \<and> cr_skipped res1 = cr_skipped res \<or>
     s1 = s \<and> cr_skipped res1 = cr_skipped res + 1"
proof (cases p)
  case (ProbeError e)
  with assms(1) show thesis by (simp add: Let_def)
next
  case (ProbePromotion intent)
  then have actor: "pi_actor (with_provenance c intent) = cc_actor c"
    using assms(4) by (auto simp: with_provenance_def split: option.splits dest!: probe_actor)
  obtain out s1 where wr: "repo_promote (sqlite_candidates rf env ctx) s (with_provenance c intent) t = (Inr out, s1)"
    and rest: "settle_page (sqlite_candidates rf env ctx) t ps (count_promotion out (res\<lparr>cr_scanned := cr_scanned res + 1\<rparr>)) s1 = (Inr res', s')"
    using assms(1) ProbePromotion by (auto simp: Let_def split: prod.splits sum.splits)
  show thesis
    by (rule that [OF rest sqlite_ledger(1) [OF assms(2) wr]])
      (use sqlite_promote [OF assms(2,3) actor wr] in \<open>cases out; simp add: count_promotion_def\<close>)
next
  case (ProbeFailure f)
  obtain out s1 where wr: "repo_retain (sqlite_candidates rf env ctx) s (failure_intent c f) t = (Inr out, s1)"
    and rest: "settle_page (sqlite_candidates rf env ctx) t ps (count_failure f (res\<lparr>cr_scanned := cr_scanned res + 1\<rparr>)) s1 = (Inr res', s')"
    using assms(1) ProbeFailure by (auto simp: Let_def split: prod.splits sum.splits)
  have actor: "ci_actor (failure_intent c f) = cc_actor c" by (simp add: failure_intent_def)
  show thesis
    by (rule that [OF rest sqlite_ledger(2) [OF assms(2) wr]]) (use sqlite_retain [OF assms(2,3) actor wr] in simp)
qed

lemma sqlite_settle:
  assumes "settle_page (sqlite_candidates rf env ctx) t (zip cs (probe_candidates pr cs)) res s = (Inr res', s')" "cand_ledger s"
    "set cs \<subseteq> set (candidates_offered s t)" "distinct cs"
  shows "cand_ledger s' \<and>
    filter (\<lambda>y. y \<notin> set cs) (candidates_offered s' t) = filter (\<lambda>y. y \<notin> set cs) (candidates_offered s t) \<and>
    int (length (filter (\<lambda>y. y \<in> set cs) (candidates_offered s' t))) \<le> cr_skipped res' - cr_skipped res"
  using assms
proof (induction cs arbitrary: res s)
  case (Cons c cs)
  have zip: "zip (c # cs) (probe_candidates pr (c # cs)) =
      (c, case slot_ctx pr (cc_actor c) of Some e \<Rightarrow> ProbeError e | None \<Rightarrow> probe_candidate pr c) # zip cs (probe_candidates pr cs)"
    by (simp add: probe_candidates_def)
  have mem: "c \<in> set (candidates_offered s t)" using Cons.prems(3) by simp
  obtain res1 s1 where rest: "settle_page (sqlite_candidates rf env ctx) t (zip cs (probe_candidates pr cs)) res1 s1 = (Inr res', s')"
    and led: "cand_ledger s1" and one: "candidates_offered s1 t = filter (\<lambda>y. y \<noteq> c) (candidates_offered s t) \<and> cr_skipped res1 = cr_skipped res \<or>
      s1 = s \<and> cr_skipped res1 = cr_skipped res + 1"
    by (rule sqlite_settle_one [OF Cons.prems(1) [unfolded zip] Cons.prems(2) mem refl])
  have "set cs \<subseteq> set (candidates_offered s1 t)" using one Cons.prems(3,4) by auto
  note IH = Cons.IH [OF rest led this]
  then have L: "cand_ledger s'"
    and keep: "filter (\<lambda>y. y \<notin> set cs) (candidates_offered s' t) = filter (\<lambda>y. y \<notin> set cs) (candidates_offered s1 t)"
    and cnt: "int (length (filter (\<lambda>y. y \<in> set cs) (candidates_offered s' t))) \<le> cr_skipped res' - cr_skipped res1"
    using Cons.prems(4) by auto
  have split: "filter (\<lambda>y. y \<notin> set (c # cs)) l = filter (\<lambda>y. y \<noteq> c) (filter (\<lambda>y. y \<notin> set cs) l)" for l
    by (auto simp: filter_filter intro!: filter_cong)
  have "filter (\<lambda>y. y \<notin> set (c # cs)) (candidates_offered s' t) = filter (\<lambda>y. y \<notin> set (c # cs)) (candidates_offered s t)"
    unfolding split keep using one by (elim disjE conjE) (auto simp: conj_ac)
  moreover have "c \<in> set (candidates_offered s' t) \<longleftrightarrow> c \<in> set (candidates_offered s1 t)"
    using arg_cong [OF keep, of set] Cons.prems(4) by (auto simp: set_eq_iff)
  then have "int (length (filter (\<lambda>y. y \<in> set (c # cs)) (candidates_offered s' t))) \<le> cr_skipped res' - cr_skipped res"
    using count_member [OF offered_list(2) [OF L, of t], of c "set cs"] cnt one by (auto split: if_splits)
  ultimately show ?case using L by blast
qed (simp add: probe_candidates_def)

interpretation sqlite_candidate: paged_listing "candidate_loop (sqlite_candidates rf env ctx) pr t" cr_scanned
  MaximumDiscoveryCandidateAttempts candidate_page_limit "repo_candidate_ctx (sqlite_candidates rf env ctx)"
  "\<lambda>s c l. repo_checks (sqlite_candidates rf env ctx) s \<lparr>cq_after = c, cq_limit = l, cq_observed = t\<rparr>"
  "\<lambda>p c l. validateCheckPage p c l t" "\<lambda>cs. settle_page (sqlite_candidates rf env ctx) t (zip cs (probe_candidates pr cs))"
  zero_check_cursor "cr_truncated_update (\<lambda>_. True)" "\<lambda>_. cand_ledger" "\<lambda>s. candidates_offered s t" check_cursor_of
  cr_skipped cr_truncated for rf env ctx pr t
proof unfold_locales
  fix s c l p
  assume led: "cand_ledger s"
  show "p = page_of check_cursor_of zero_check_cursor (nat l) (candidates_offered s t) c"
    if "repo_checks (sqlite_candidates rf env ctx) s \<lparr>cq_after = c, cq_limit = l, cq_observed = t\<rparr> = Inr p"
  proof -
    let ?rows = "map (check_of s) (filter (candidate_due s t) (candidates s))"
    from that have "read_page (decode_check t) check_cursor_of zero_check_cursor
        (nat l) [] (keyset_rows check_cursor_of c (Suc (nat l)) ?rows) = Inr p"
      by (auto simp: sqlite_candidates_def DiscoveryCandidateChecks_def split: if_splits dest: scan_page_Inr)
    then have "read_page (\<lambda>r. Inr r :: _ result) check_cursor_of zero_check_cursor
        (nat l) [] (keyset_rows check_cursor_of c (Suc (nat l)) ?rows) = Inr p"
      by (rule read_page_view) (simp add: decode_check_def split: if_splits)
    with keyset_page [of ?rows "\<lambda>r. Inr r :: _ result" "\<lambda>r. r" check_cursor_of check_cursor_of zero_check_cursor "nat l" c]
    show ?thesis by (simp add: candidates_offered_def)
  qed
qed (use offered_list sqlite_settle in auto)

text \<open>C21: a candidate maintenance run over the SQLite repository always returns, whatever the
  prober answers and whatever the driver does. It attempts at most 96 candidates, accounts for
  every attempt as promoted, unreachable, incompatible or skipped, reports truncation only at
  the full budget, keeps the table in agreement with its history, and changes no relay.\<close>

theorem candidate_run_safe:
  assumes "cand_ledger s"
  shows "\<exists>res err s'. candidate_Run (sqlite_candidates rf env ctx) pr t s = Some ((res, err), s') \<and>
    0 \<le> cr_scanned res \<and> cr_scanned res \<le> 96 \<and>
    (cr_scanned res = cr_promoted res + cr_unreachable res + cr_incompatible res + cr_skipped res \<or>
     err \<noteq> None \<and> cr_scanned res = cr_promoted res + cr_unreachable res + cr_incompatible res + cr_skipped res + 1) \<and>
    (\<not> cr_truncated res \<or> err = None \<and> cr_scanned res = 96) \<and>
    cand_ledger s' \<and> relays (cand_core s') = relays (cand_core s)"
proof -
  let ?P = "\<lambda>u. cand_ledger u \<and> relays (cand_core u) = relays (cand_core s)"
  have "\<exists>res err s'. candidate_Run (sqlite_candidates rf env ctx) pr t s = Some ((res, err), s') \<and> candidate_final res err \<and> ?P s'"
  proof (rule candidate_Run_ends [where P = ?P])
    show "?P u'" if "?P u" "repo_promote (sqlite_candidates rf env ctx) u intent t = (r, u')" for u intent r u'
      using candidate_op_keeps [of u "PromoteOp (env u) intent t"] that by (simp add: sqlite_candidates_def)
    show "?P u'" if "?P u" "repo_retain (sqlite_candidates rf env ctx) u intent t = (r, u')" for u intent r u'
      using candidate_op_keeps [of u "RetainOp (env u) intent t"] that by (simp add: sqlite_candidates_def)
  qed (use assms in simp)
  then obtain res err s' where run: "candidate_Run (sqlite_candidates rf env ctx) pr t s = Some ((res, err), s')"
    "candidate_final res err" "?P s'" by blast
  have "0 \<le> cr_scanned res" "cr_scanned res \<le> 96"
    "cr_scanned res = cr_promoted res + cr_unreachable res + cr_incompatible res + cr_skipped res \<or>
     err \<noteq> None \<and> cr_scanned res = cr_promoted res + cr_unreachable res + cr_incompatible res + cr_skipped res + 1"
    "\<not> cr_truncated res \<or> err = None \<and> cr_scanned res = 96"
    using run(2) by (auto simp: candidate_final_def candidate_settled_def candidate_counts_ok_def MaximumDiscoveryCandidateAttempts_def split: if_splits)
  with run show ?thesis by blast
qed

text \<open>C20: a run that ends without an error and is not truncated attempted every due candidate
  exactly once, and the candidates that are still due are at most those it reports as skipped:
  a failed probe postpones its candidate and a promotion resolves it.\<close>

theorem candidate_run_complete:
  assumes "cand_ledger s" "candidate_Run (sqlite_candidates rf env ctx) pr t s = Some ((res, None), s')" "\<not> cr_truncated res"
  shows "cr_scanned res = int (length (filter (candidate_due s t) (candidates s))) \<and>
    int (length (filter (candidate_due s' t) (candidates s'))) \<le> cr_skipped res"
proof (cases rule: candidate_Run_cases [of t "sqlite_candidates rf env ctx" pr s])
  case early
  with assms(2) show ?thesis by simp
next
  case loop
  have "cr_scanned (candidate_result_at t) < MaximumDiscoveryCandidateAttempts" by (simp add: candidate_result_at_def candidate_consts)
  note L = sqlite_candidate.run_complete [OF assms(2) [unfolded loop(2)] assms(1) this assms(3)]
  have "length (candidates_offered u t) = length (filter (candidate_due u t) (candidates u))" for u
    by (simp add: candidates_offered_def)
  with L(2,3) show ?thesis by (simp add: candidate_result_at_def)
qed

subsection \<open>A concrete candidate\<close>

definition empty_cand_db :: cand_db where
  "empty_cand_db = \<lparr>cand_core = migrated, candidates = [], candidate_events = [], candidate_event_seq = 0\<rparr>"

definition sample_failed :: DiscoveryCandidateIntent where
  "sample_failed = \<lparr>ci_actor = sample_actor, ci_base = sample_base, ci_state = DiscoveryCandidateUnreachable,
     ci_failure = Some DiscoveryCandidateActorUnreachable, ci_operator = ''op'', ci_reason = ''r'', ci_source = SourceManual, ci_label = []\<rparr>"

definition sample_promotion :: DiscoveryCandidatePromotionIntent where
  "sample_promotion = \<lparr>pi_actor = sample_actor, pi_base = sample_base, pi_inbox = [], pi_inbox_state = InboxNotChecked,
     pi_operator = ''op'', pi_reason = ''r'', pi_source = SourceManual, pi_label = []\<rparr>"

definition sample_cand_db :: cand_db where
  "sample_cand_db = retained_candidate sample_failed 5 empty_cand_db"

lemma empty_ledger: "cand_ledger empty_cand_db"
  by (simp add: cand_ledger_def empty_cand_db_def candidate_history_def)

lemma sample_canonical: "canonical_candidate sample_actor sample_base"
  using sample_identity by (auto simp: canonical_candidate_def canonical_identity_def split: sum.splits)

lemma sample_words: "ValidOperatorID ''op''" "ValidModerationReasonCode ''r''" "operator_check ''op''" "reason_check ''r''"
  "actor_length_ok sample_actor" "base_length_ok sample_base"
  by (simp_all add: ValidOperatorID_check ValidModerationReasonCode_check operator_check_def reason_check_def chars_in_def is_lower_def
      is_upper_def is_digit_def code_def actor_length_ok_def base_length_ok_def sample_actor_def sample_base_def
      maximumRelayActorBytes_def maximumPublicBaseBytes_def token_char_def)

lemma sample_retain:
  assumes "RetainDiscoveryCandidate calm sample_failed t s = (r, s')" "0 \<le> t"
    "case map_of (candidates s) sample_actor of None \<Rightarrow> True | Some r \<Rightarrow> cand_last_checked r \<le> t \<and> candidate_check sample_actor (retried_row sample_failed t r)"
  shows "\<exists>out. r = Inr out \<and> s' = retained_candidate sample_failed t s"
proof -
  have valid: "validateDiscoveryCandidateIntent sample_failed = None"
    by (simp add: validateDiscoveryCandidateIntent_def sample_failed_def sample_canonical sample_words ValidDiscoverySourceLabel_def)
  have "candidate_event_check (candidate_event_of sample_failed act t s)" for act s
    using assms(2) by (simp add: candidate_event_check_def candidate_event_of_def sample_failed_def sample_words failure_matches_def)
  then have ev: "insertDiscoveryCandidateEvent sample_failed act t (s, []) = (Inr (), (log_candidate sample_failed act t s, []))" for act s
    by (simp add: insert_event_Inr)
  have new: "candidate_check sample_actor (new_candidate_row sample_failed t)"
    using assms(2) by (simp add: candidate_check_def new_candidate_row_def sample_failed_def sample_words failure_matches_def)
  have a: "ci_actor sample_failed = sample_actor" by (simp add: sample_failed_def)
  show ?thesis
    using assms(1,3) assms(2) new
    by (cases "map_of (candidates s) sample_actor")
      (auto simp: RetainDiscoveryCandidate_def valid transitionUnix_def retain_tx_def selectDiscoveryCandidate_def tx_simps ev a
        insert_candidate_def update_candidate_def retained_candidate_def put_candidate_def)
qed

lemma sample_retained: "\<exists>out. RetainDiscoveryCandidate calm sample_failed 5 empty_cand_db = (Inr out, sample_cand_db)"
  using sample_retain [OF prod.collapse [symmetric], of 5 empty_cand_db]
  by (simp add: empty_cand_db_def) (metis empty_cand_db_def prod.collapse sample_cand_db_def)

lemma sample_cand_ledger: "cand_ledger sample_cand_db"
  using sample_retained retain_ledger [OF empty_ledger] by blast

lemma sample_cand_facts:
  "candidates sample_cand_db = [(sample_actor, new_candidate_row sample_failed 5)]" "cand_core sample_cand_db = migrated"
  "candidate_events sample_cand_db = [candidate_event_of sample_failed CandidateAdded 5 empty_cand_db]"
  by (simp_all add: sample_cand_db_def retained_candidate_def log_candidate_def put_candidate_def empty_cand_db_def candidate_event_of_def)
    (simp add: sample_failed_def)

lemma sample_promoted:
  "\<exists>s'. PromoteDiscoveryCandidate calm sample_promotion 30000 sample_cand_db = (Inr DiscoveryCandidatePromoted, s')"
proof -
  have valid: "validateDiscoveryCandidatePromotionIntent sample_promotion = None"
    by (simp add: validateDiscoveryCandidatePromotionIntent_def sample_promotion_def sample_canonical sample_words ValidDiscoverySourceLabel_def)
  have time: "requireDiscoveryTime sample_actor 30000 None (migrated, []) = (Inr (), (migrated, []))"
    using requireDiscoveryTime_calm [of 30000 sample_actor migrated]
    by (simp add: migrated_def discovery_fresh_def discovery_times_def)
  have disc: "promote_discovery sample_promotion 30000 None (migrated, []) = (Inr (), (promoted_discovery sample_promotion 30000 migrated, []))"
    by (simp add: promote_discovery_def classify_promotion_def sample_promotion_def insertDiscoveryEvent_def insert_discovery_event_def
        insert_discovery_def promoted_discovery_def log_discovery_def put_discovery_def tx_simps Let_def migrated_def
        discovery_check_def discovered_row_def sample_words)
  let ?d = "promoted_discovery sample_promotion 30000 migrated"
  have chk: "observation_check sample_actor (empty_observation 30000)"
    "observation_check sample_actor (promoted_observation sample_promotion 30000 (empty_observation 30000))"
    by (simp_all add: observation_check_def promoted_observation_def empty_observation_def sample_promotion_def actor_probe_ok_def
        opt_le_def sample_words)
  have ret: "retained ?d sample_actor" "relay_observations migrated = []"
    by (simp_all add: retained_def promoted_discovery_def log_discovery_def put_discovery_def sample_promotion_def migrated_def Let_def)
  have obs: "promotion_observation sample_actor 30000 (?d, []) =
      (Inr (empty_observation 30000), (?d\<lparr>relay_observations := [(sample_actor, empty_observation 30000)]\<rparr>, []))"
    by (simp add: promotion_observation_def selectObservation_def insertEmptyObservation_def insert_observation_def tx_simps ret chk)
  have res: "candidate_check sample_actor (resolved_row 30000 (new_candidate_row sample_failed 5))"
    by (simp add: candidate_check_def resolved_row_def new_candidate_row_def sample_failed_def sample_words failure_matches_def)
  have ev: "insertDiscoveryCandidateEvent (resolved_event sample_promotion) CandidateResolved 30000 (s, []) =
      (Inr (), (log_candidate (resolved_event sample_promotion) CandidateResolved 30000 s, []))" for s
    by (simp add: insert_event_Inr candidate_event_check_def candidate_event_of_def resolved_event_def sample_promotion_def sample_words
        failure_matches_def)
  have a: "pi_actor sample_promotion = sample_actor" by (simp add: sample_promotion_def)
  have "relay_discoveries migrated = []" by (simp add: migrated_def)
  with time disc obs show ?thesis
    by (simp add: PromoteDiscoveryCandidate_def valid observationUnix_def promote_tx_def finish_promotion_def a run_calm
        selectDiscoveryCandidate_def bindt_eval query_calm exec_calm ret_def within_def on_error_def sample_cand_facts
        update_observation_def update_candidate_def chk res ev)
      (simp add: new_candidate_row_def sample_failed_def empty_observation_def)
qed

theorem candidate_promotion_effect_witness:
  "\<exists>s'. PromoteDiscoveryCandidate calm sample_promotion 30000 sample_cand_db = (Inr DiscoveryCandidatePromoted, s') \<and>
     (\<exists>v. map_of (relay_discoveries (cand_core s')) sample_actor = Some v \<and> discovery_state v = DiscoveryActive) \<and>
     length (candidate_events s') = 2"
proof -
  obtain s' where run: "PromoteDiscoveryCandidate calm sample_promotion 30000 sample_cand_db = (Inr DiscoveryCandidatePromoted, s')"
    using sample_promoted by blast
  have "pi_actor sample_promotion = sample_actor" by (simp add: sample_promotion_def)
  with run candidate_promotion_effect [OF run] sample_cand_facts(3) show ?thesis by auto
qed

theorem candidate_history_exact_witness:
  "cand_ledger (fold run_candidate_op [PromoteOp calm sample_promotion 30000, RetainOp calm sample_failed 30005] sample_cand_db)"
  using candidate_history_exact [OF sample_cand_ledger] by blast

theorem candidate_run_safe_witness:
  "\<exists>res err s'. candidate_Run (sqlite_candidates (\<lambda>_. quiet) (\<lambda>_. calm) (\<lambda>_. None)) silent_prober 21605 sample_cand_db =
     Some ((res, err), s') \<and> cr_scanned res \<le> 96 \<and> cand_ledger s'"
  using candidate_run_safe [OF sample_cand_ledger, of "\<lambda>_. quiet" "\<lambda>_. calm" "\<lambda>_. None" silent_prober 21605] by blast

lemma sample_candidate_run:
  "\<exists>res s'. candidate_Run (sqlite_candidates (\<lambda>_. quiet) (\<lambda>_. calm) (\<lambda>_. None)) silent_prober 21605 sample_cand_db =
     Some ((res, None), s') \<and> \<not> cr_truncated res \<and> cr_skipped res = 0"
proof -
  let ?c = "check_of sample_cand_db (sample_actor, new_candidate_row sample_failed 5)"
  have first: "first_candidate_event sample_cand_db sample_actor = Some (candidate_event_of sample_failed CandidateAdded 5 empty_cand_db)"
    by (simp add: first_candidate_event_def sample_cand_facts) (simp add: candidate_event_of_def sample_failed_def)
  have c: "?c = \<lparr>cc_actor = sample_actor, cc_base = sample_base, cc_state = DiscoveryCandidateUnreachable,
      cc_failure = Some DiscoveryCandidateActorUnreachable, cc_first_seen = 5, cc_last_checked = 5, cc_last_success = None,
      cc_failures = 1, cc_next_check = 21605, cc_operator = ''op'', cc_reason = ''r'', cc_source = SourceManual, cc_label = []\<rparr>"
    by (simp add: check_of_def first) (simp add: new_candidate_row_def sample_failed_def candidate_event_of_def candidate_next_check_def candidate_consts)
  have due: "candidate_due sample_cand_db 21605 (sample_actor, new_candidate_row sample_failed 5)"
    by (simp add: candidate_due_def first)
      (simp add: new_candidate_row_def sample_failed_def candidate_next_check_def candidate_consts)
  have "validDiscoveryCandidateCheck ?c 21605"
    by (simp add: c validDiscoveryCandidateCheck_def sample_canonical sample_words ValidDiscoverySourceLabel_def DiscoveryCandidateRetryDelay_def
        candidate_consts)
  then have "DiscoveryCandidateChecks quiet \<lparr>cq_after = zero_check_cursor, cq_limit = 24, cq_observed = 21605\<rparr> sample_cand_db =
      Inr ([?c], zero_check_cursor)"
    using due by (simp add: DiscoveryCandidateChecks_def check_cursor_Valid_def candidate_consts sample_cand_facts keyset_rows_def decode_check_def)
      (simp add: c check_cursor_of_def zero_check_cursor_def less_prod_def)
  moreover have "probe_candidates silent_prober [?c] = [ProbeFailure DiscoveryCandidateActorUnreachable]"
    by (simp add: probe_candidates_def probe_candidate_def silent_prober_def)
  moreover have "validateCheckPage ([?c], zero_check_cursor) zero_check_cursor 24 21605 = None"
    by (simp add: validateCheckPage_def candidate_consts c candidateCursorAfter_def)
  moreover have "failure_intent ?c DiscoveryCandidateActorUnreachable = sample_failed"
    unfolding c by (simp add: failure_intent_def sample_failed_def)
  moreover obtain out s1 where "RetainDiscoveryCandidate calm sample_failed 21605 sample_cand_db = (Inr out, s1)"
  proof -
    have "candidate_check sample_actor (retried_row sample_failed 21605 (new_candidate_row sample_failed 5))"
      by (simp add: candidate_check_def retried_row_def new_candidate_row_def sample_failed_def sample_words failure_matches_def)
    then have "\<exists>out. fst (RetainDiscoveryCandidate calm sample_failed 21605 sample_cand_db) = Inr out"
      using sample_retain [OF prod.collapse [symmetric], of 21605 sample_cand_db]
      by (simp add: sample_cand_facts) (simp add: new_candidate_row_def)
    then show thesis using that by (metis prod.collapse)
  qed
  moreover define n where "n = nat MaximumDiscoveryCandidateAttempts"
  ultimately show ?thesis
    unfolding candidate_Run_def n_def [symmetric]
    by (simp add: candidate_result_at_def sqlite_candidates_def candidate_page_limit_def candidate_consts count_failure_def Let_def)
qed

theorem candidate_run_complete_witness:
  "\<exists>res s'. candidate_Run (sqlite_candidates (\<lambda>_. quiet) (\<lambda>_. calm) (\<lambda>_. None)) silent_prober 21605 sample_cand_db =
     Some ((res, None), s') \<and> filter (candidate_due s' 21605) (candidates s') = []"
proof -
  obtain res s' where run: "candidate_Run (sqlite_candidates (\<lambda>_. quiet) (\<lambda>_. calm) (\<lambda>_. None)) silent_prober 21605 sample_cand_db =
      Some ((res, None), s')" "\<not> cr_truncated res" "cr_skipped res = 0" using sample_candidate_run by blast
  from candidate_run_complete [OF sample_cand_ledger run(1,2)] run(1,3) show ?thesis by auto
qed

end
