(* ===== verification/Spec2Isabelle.thy ===== *)
theory Spec2Isabelle
  imports Limiter StoreMachine AuthRun GrowthGuard ProfileRun LifecycleProps RetentionProps CandidateRun
begin

text \<open>
  Verification of the core of the activity relay directory.
\<close>

section \<open>Listings and pruning over reachable databases\<close>

definition sample_query :: page_query where
  "sample_query = \<lparr>After = zero_cursor, Limit = 10, ObservedAt = 9\<rparr>"

definition sample_listed :: HealthProjectionRelay where
  "sample_listed = \<lparr>hp_actor = sample_actor, hp_base = sample_base, hp_state = HealthHealthy, hp_last_seen = 5\<rparr>"

lemma registered_db_relays: "relays registered_db = [(sample_actor, register_new_row sample_base 5)]"
  by (simp add: registered_db_eq opened_db_facts)

lemma registered_listed:
  "listed (publicly_listed 9) registered_db 9 = [sample_listed]"
  by (simp add: listed_def registered_db_relays publicly_listed_def active_registered_def register_new_row_def
      health_view_def sample_listed_def ClassifyHealth_def DeadBefore_def HealthyThrough_def)

lemma registered_due: "prune_due registered_db 2592009 =
    [\<lparr>pc_actor = sample_actor, pc_base = sample_base, pc_admin = Active, pc_last_seen = 5\<rparr>]"
  by (simp add: prune_due_def registered_db_relays prunable_def register_new_row_def candidate_view_def
      recently_reachable_def registered_db_eq accept_relay_def log_relay_def put_verified_def opened_db_eq
      log_enrollment_def migrated_def health_defs verified_observation_def empty_observation_def)

text \<open>C11: whatever a successful read of a public page returns, under any behaviour of the
  driver, is safe to publish: at most the requested number of entries, in strictly
  ascending cursor order after the given cursor, each the retained row of a registered,
  not suspended relay seen less than thirty days before the observation, with its true
  health class.\<close>

theorem public_listing_safe:
  assumes "db_ok d" and "ListPublicRelays rf q d = Inr (page, nxt)"
  shows "int (length page) \<le> Limit q \<and> sorted_wrt (<) (After q # map hp_key page) \<and>
    (nxt = zero_cursor \<or> nxt = hp_key (last page)) \<and>
    (\<forall>x \<in> set page. \<exists>r. map_of (relays d) (hp_actor x) = Some r \<and> lifecycle_state r = Registered \<and>
       administrative_state r = Active \<and> hp_base x = public_base_url r \<and> hp_last_seen x = last_seen_at r \<and>
       0 \<le> ObservedAt q - last_seen_at r \<and> ObservedAt q - last_seen_at r < DeadBefore \<and>
       hp_state x \<noteq> HealthPrune \<and> ClassifyHealth (last_seen_at r) (ObservedAt q) = Inr (hp_state x))"
proof -
  note R = ListPublicRelays_rows [OF assms(2)]
  define rows where "rows = take (length page) (keyset_rows row_key (After q) (nat (Limit q) + 1)
      (filter (publicly_listed (ObservedAt q)) (relays d)))"
  note dec = R(3) [folded rows_def]
  have page: "page = map (health_view (ObservedAt q)) rows"
    by (rule decoded_map [OF dec decode_public_Inr(1)])
  have mem: "ar \<in> set (relays d) \<and> publicly_listed (ObservedAt q) ar \<and> After q < row_key ar \<and>
      0 \<le> last_seen_at (snd ar) \<and> last_seen_at (snd ar) \<le> ObservedAt q" if "ar \<in> set rows" for ar
  proof -
    from that dec obtain x where "decode_public (ObservedAt q) ar = Inr x"
      by (auto simp: list_all2_conv_all_nth in_set_conv_nth)
    note D = decode_public_Inr(2,3) [OF this]
    from that have "ar \<in> set (keyset_rows row_key (After q) (nat (Limit q) + 1)
        (filter (publicly_listed (ObservedAt q)) (relays d)))" unfolding rows_def by (rule in_set_takeD)
    with D keyset_rows_mem [OF this] show ?thesis by auto
  qed
  have "sorted_wrt (<) (map row_key rows)"
  proof -
    have "distinct (map row_key (filter (\<lambda>r. After q < row_key r) (filter (publicly_listed (ObservedAt q)) (relays d))))"
      using row_key_distinct [of "relays d"] assms(1) by (simp add: db_ok_def relays_ok_def)
    from sorted_wrt_take [OF sort_key_strict [OF this]] show ?thesis
      unfolding rows_def keyset_rows_def by (simp add: take_map sorted_wrt_take)
  qed
  then have srt: "sorted_wrt (<) (After q # map hp_key page)"
    using mem by (auto simp: page o_def)
  have row: "\<exists>r. map_of (relays d) (hp_actor x) = Some r \<and> lifecycle_state r = Registered \<and>
       administrative_state r = Active \<and> hp_base x = public_base_url r \<and> hp_last_seen x = last_seen_at r \<and>
       0 \<le> ObservedAt q - last_seen_at r \<and> ObservedAt q - last_seen_at r < DeadBefore \<and>
       hp_state x \<noteq> HealthPrune \<and> ClassifyHealth (last_seen_at r) (ObservedAt q) = Inr (hp_state x)"
    if "x \<in> set page" for x
  proof -
    from that obtain ar where x: "x = health_view (ObservedAt q) ar" and ar: "ar \<in> set rows" by (auto simp: page)
    have "map_of (relays d) (fst ar) = Some (snd ar)" using mem [OF ar] assms(1) by (simp add: db_ok_def relays_ok_def)
    with mem [OF ar] x show ?thesis
      by (intro exI [of _ "snd ar"])
        (auto simp: health_view_def publicly_listed_def active_registered_def ClassifyHealth_def Let_def)
  qed
  have "int (length page) \<le> Limit q" using R(1,2) by (auto simp: health_input_ok_def)
  with R(2) srt row show ?thesis by blast
qed

theorem public_listing_safe_witness:
  "\<exists>page nxt. ListPublicRelays quiet sample_query registered_db = Inr (page, nxt) \<and> int (length page) \<le> 10"
proof -
  have "ListPublicRelays quiet sample_query registered_db = Inr ([sample_listed], zero_cursor)"
    using public_pages.fetch_page [of "\<lparr>rs_db = registered_db, rs_limit = 10, rs_at = 9\<rparr>" zero_cursor]
      registered_db_ok
    by (simp add: sample_query_def registered_listed page_of_def registered_db_relays register_new_row_def read_ok_def
        MaximumPublicListingPage_def sample_listed_def hp_key_def zero_cursor_def)
  with public_listing_safe [OF registered_db_ok this] show ?thesis by (auto simp: sample_query_def)
qed

text \<open>C15: a client that follows the cursors of the public listing with any page size
  terminates and sees every listable relay exactly once, in cursor order, and nothing
  else.\<close>

theorem public_listing_complete:
  assumes "db_ok d" "0 < limit" "limit \<le> MaximumPublicListingPage" "0 \<le> at"
    and "list_all (\<lambda>ar. last_seen_at (snd ar) \<le> at) (relays d)" and "length (relays d) < fuel"
  shows "walk_pages (\<lambda>c. ListPublicRelays quiet \<lparr>After = c, Limit = limit, ObservedAt = at\<rparr> d) zero_cursor fuel zero_cursor =
      Some (Inr (listed (publicly_listed at) d at)) \<and>
    distinct (map hp_actor (listed (publicly_listed at) d at)) \<and>
    set (map hp_actor (listed (publicly_listed at) d at)) =
      {actor. \<exists>r. map_of (relays d) actor = Some r \<and> publicly_listed at (actor, r)}"
proof -
  have tab: "table_ok (relays d)" using assms(1) by (simp add: db_ok_def relays_ok_def)
  let ?s = "\<lparr>rs_db = d, rs_limit = limit, rs_at = at\<rparr>"
  have "read_ok MaximumPublicListingPage ?s" using assms by (simp add: read_ok_def)
  moreover have "length (listed (publicly_listed at) d at) < fuel"
    using assms(6) by (auto simp: listed_def intro: le_less_trans [OF length_filter_le])
  ultimately have "walk_pages (\<lambda>c. ListPublicRelays quiet \<lparr>After = c, Limit = limit, ObservedAt = at\<rparr> d) zero_cursor fuel
      zero_cursor = Some (Inr (listed (publicly_listed at) d at))"
    using public_pages.walk_complete [of ?s fuel] by simp
  moreover have "distinct (map hp_actor (listed (publicly_listed at) d at))"
  proof -
    have "distinct (map fst (sort_key row_key (filter (publicly_listed at) (relays d))))"
      using tab by (auto simp: distinct_map intro: inj_on_subset)
    then show ?thesis by (simp add: listed_def health_view_def o_def)
  qed
  moreover have "set (map hp_actor (listed (publicly_listed at) d at)) =
      {actor. \<exists>r. map_of (relays d) actor = Some r \<and> publicly_listed at (actor, r)}"
    using tab by (force simp: listed_def health_view_def)
  ultimately show ?thesis by blast
qed

theorem public_listing_complete_witness:
  "walk_pages (\<lambda>c. ListPublicRelays quiet \<lparr>After = c, Limit = 1, ObservedAt = 9\<rparr> registered_db) zero_cursor 2 zero_cursor =
     Some (Inr [sample_listed])"
  using public_listing_complete [OF registered_db_ok, of 1 9 2]
  by (simp add: registered_listed registered_db_relays register_new_row_def MaximumPublicListingPage_def)

text \<open>Classification, listing and pruning agree on every registered relay: it is
  listable exactly while it is active and not classified for pruning; it is a pruning
  candidate exactly when it is classified for pruning and has no fresh reachability
  evidence; and a relay that is not heard of never becomes listable again.\<close>

lemma listing_and_pruning_agree:
  assumes "db_ok d" and "map_of (relays d) actor = Some r" and "last_seen_at r \<le> t" and "lifecycle_state r = Registered"
  shows "(publicly_listed t (actor, r) \<longleftrightarrow> administrative_state r = Active \<and> ClassifyHealth (last_seen_at r) t \<noteq> Inr HealthPrune) \<and>
    (prunable d t (actor, r) \<longleftrightarrow> ClassifyHealth (last_seen_at r) t = Inr HealthPrune \<and>
       \<not> recently_reachable (map_of (relay_observations d) actor) (t - ReachabilityFreshness)) \<and>
    (0 \<le> t' \<and> t \<le> t' \<and> publicly_listed t' (actor, r) \<longrightarrow> publicly_listed t (actor, r))"
proof -
  have "0 \<le> last_seen_at r" using relays_mem(3) [OF assms(1), of "(actor, r)"] assms(2) map_of_SomeD by fastforce
  with assms(3,4) show ?thesis
    by (auto simp: publicly_listed_def active_registered_def prunable_def ClassifyHealth_def health_defs Let_def)
qed

lemma listing_and_pruning_agree_witness:
  "publicly_listed 9 (sample_actor, register_new_row sample_base 5)"
  using listing_and_pruning_agree [OF registered_db_ok registered_db_row, of 9 9]
  by (simp add: register_new_row_def ClassifyHealth_def health_defs)

text \<open>C16: a pruning run over any repository whatsoever, however its pages, attempts and
  context behave, returns, makes at most 1000 counted attempts and accounts for each of
  them as pruned or skipped.\<close>

theorem prune_run_bounded:
  "\<exists>res err s'. prune_Run repo t s = Some ((res, err), s') \<and>
     Scanned res = PrunedCount res + Skipped res \<and> Scanned res \<le> 1000"
proof -
  have start: "result_ok (zero_result\<lparr>ObservedUnix := t\<rparr>)" "result_ok zero_result"
    by (simp_all add: result_ok_def zero_result_def)
  have "\<exists>res err s'. prune_Run repo t s = Some ((res, err), s') \<and> result_ok res"
    using prune_loop_bounded [OF _ start(1), of "Suc MaximumSoftPruneAttemptsPerRun" repo t zero_cursor s] start(2)
    by (auto simp: prune_Run_def split: option.splits)
  then show ?thesis by (auto simp: result_ok_def MaximumSoftPruneAttemptsPerRun_def)
qed

text \<open>C17: over the SQLite repository a run without faults attempts exactly the first 1000
  due relays in cursor order, prunes those whose history allows the observation time,
  leaves every other relay due, keeps the invariant and reports truncation exactly when
  more relays were due.\<close>

theorem prune_run_complete:
  assumes "db_ok d" "0 \<le> t"
  shows "\<exists>res d'. prune_Run sqlite_pruning t d = Some ((res, None), d') \<and> db_ok d' \<and>
    Scanned res = min 1000 (length (prune_due d t)) \<and>
    Truncated res = (1000 < length (prune_due d t)) \<and>
    PrunedCount res = length (filter (\<lambda>c. fresh_at d (pc_actor c) t) (take 1000 (prune_due d t))) \<and>
    prune_due d' t = filter (\<lambda>c. c \<in> set (take 1000 (prune_due d t)) \<longrightarrow> \<not> fresh_at d (pc_actor c) t) (prune_due d t)"
  using sqlite_prune.run_complete [OF assms]
  by (simp add: MaximumSoftPruneAttemptsPerRun_def prune_stuck_def)

theorem prune_run_complete_witness:
  "\<exists>res d'. prune_Run sqlite_pruning 2592009 registered_db = Some ((res, None), d') \<and>
     PrunedCount res = 1 \<and> prune_due d' 2592009 = []"
  using prune_run_complete [OF registered_db_ok, of 2592009] registered_db_fresh [of 2592009]
  by (auto simp: registered_due)

end
